(* ===== verification/Prelude.thy ===== *)
theory Prelude
  imports Main "HOL-Library.Word" "HOL-Library.Monad_Syntax"
begin

section \<open>Shared vocabulary: C integers, error codes, ring buffers, streams\<close>

text \<open>
  The plugins are C. This theory holds what their models share:
  \<^item> machine integers: unsigned C integers are words; a C \<open>int\<close> is an \<open>int\<close> whose
    assignments go through \<open>c_int\<close> (two's complement truncation to 32 bits);
  \<^item> the \<open>errno\<close> constants the code returns negated;
  \<^item> ring buffers as lists read and written modulo their length (the view the plugins
    have of the audio buffers and of the packets they copy);
  \<^item> machines that consume a stream chunk by chunk, as the locales \<open>stream_machine\<close>
    and \<open>stream_transducer\<close>: what they promise is that the result does not depend on
    where the stream is cut.
\<close>

subsection \<open>Integers and error codes\<close>

type_synonym u8 = "8 word"
type_synonym u16 = "16 word"
type_synonym u32 = "32 word"
type_synonym u64 = "64 word"

definition c_int :: "int \<Rightarrow> int" where
  "c_int x = signed_take_bit 31 x"

lemma c_int_id [simp]: "- 2147483648 \<le> x \<Longrightarrow> x < 2147483648 \<Longrightarrow> c_int x = x"
  by (simp add: c_int_def signed_take_bit_int_eq_self)

lemma c_int_range: "- 2147483648 \<le> c_int x \<and> c_int x < 2147483648"
  using signed_take_bit_int_greater_eq_minus_exp [of 31 x]
    signed_take_bit_int_less_exp [of 31 x]
  by (simp add: c_int_def)

lemma c_int_uint: "unat (x :: 'a::len word) < 2147483648 \<Longrightarrow> c_int (uint x) = uint x"
proof -
  assume "unat x < 2147483648"
  then have "int (unat x) < int 2147483648" by (simp only: of_nat_less_iff)
  then have "uint x < 2147483648" by simp
  moreover have "0 \<le> uint x" by simp
  ultimately show ?thesis by (intro c_int_id) linarith+
qed

named_theorems word_nat \<open>natural-number readings of word operations\<close>

lemma unat_u8_lt: "unat (x :: u8) < 256"
  using unsigned_less [of x, where ?'a = nat] by simp

lemma unat_u16_lt: "unat (x :: u16) < 65536"
  using unsigned_less [of x, where ?'a = nat] by simp

lemma unat_u32_lt: "unat (x :: u32) < 4294967296"
  using unsigned_less [of x, where ?'a = nat] by simp

lemma unat_u64_lt: "unat (x :: u64) < 18446744073709551616"
  using unsigned_less [of x, where ?'a = nat] by simp

lemmas unat_bounds = unat_u8_lt unat_u16_lt unat_u32_lt unat_u64_lt

lemma unat_ucast_8_64 [word_nat]: "unat (ucast (x :: u8) :: u64) = unat x"
  using unat_u8_lt [of x] by (simp add: unsigned_ucast_eq take_bit_nat_eq_self)

lemma unat_ucast_32_64 [word_nat]: "unat (ucast (x :: u32) :: u64) = unat x"
  using unat_u32_lt [of x] by (simp add: unsigned_ucast_eq take_bit_nat_eq_self)

lemma unat_ucast_64_32 [word_nat]: "unat (ucast (x :: u64) :: u32) = unat x mod 2 ^ 32"
  by (simp add: unsigned_ucast_eq take_bit_eq_mod)

lemma unat_plus_u64 [word_nat]:
  "unat (x :: u64) + unat y < 2 ^ 64 \<Longrightarrow> unat (x + y) = unat x + unat y"
  by (subst unat_add_lem [THEN iffD1]) simp_all

lemma unat_minus_u64 [word_nat]:
  "unat (y :: u64) \<le> unat x \<Longrightarrow> unat (x - y) = unat x - unat y"
  by (simp add: unat_sub word_le_nat_alt)

lemma unat_of_int_u64 [word_nat]:
  "0 \<le> i \<Longrightarrow> i < 2 ^ 63 \<Longrightarrow> unat (word_of_int i :: u64) = nat i"
  by (simp add: unsigned_of_int take_bit_int_eq_self)

abbreviation (input) EIO :: int where "EIO \<equiv> 5"
abbreviation (input) EAGAIN :: int where "EAGAIN \<equiv> 11"
abbreviation (input) ENOMEM :: int where "ENOMEM \<equiv> 12"
abbreviation (input) EBUSY :: int where "EBUSY \<equiv> 16"
abbreviation (input) ENODEV :: int where "ENODEV \<equiv> 19"
abbreviation (input) EINVAL :: int where "EINVAL \<equiv> 22"
abbreviation (input) EPIPE :: int where "EPIPE \<equiv> 32"

text \<open>Division in C truncates; by zero it is undefined.\<close>

definition c_quot :: "int \<Rightarrow> int \<Rightarrow> int option" where
  "c_quot a b = (if b = 0 then None else Some (sgn a * sgn b * (\<bar>a\<bar> div \<bar>b\<bar>)))"

text \<open>An element of an array (outside it there is no result), and \<open>%d\<close> of a natural number.\<close>

definition at :: "'a list \<Rightarrow> nat \<Rightarrow> 'a option" where
  "at xs i = (if i < length xs then Some (xs ! i) else None)"

fun digits :: "nat \<Rightarrow> string" where
  "digits n = (if n < 10 then [char_of (48 + n)] else digits (n div 10) @ [char_of (48 + n mod 10)])"

declare digits.simps [simp del]

subsection \<open>Ring buffers\<close>

definition ring_read :: "'a list \<Rightarrow> nat \<Rightarrow> nat \<Rightarrow> 'a list" where
  "ring_read buf off n = map (\<lambda>i. buf ! ((off + i) mod length buf)) [0..<n]"

fun ring_write :: "'a list \<Rightarrow> nat \<Rightarrow> 'a list \<Rightarrow> 'a list" where
  "ring_write buf off [] = buf"
| "ring_write buf off (x # xs) = ring_write (buf[off mod length buf := x]) (Suc off) xs"

named_theorems ring_simps \<open>facts on ring buffers used as rewrite rules\<close>

lemma length_ring_read [simp]: "length (ring_read buf off n) = n"
  by (simp add: ring_read_def)

lemma nth_ring_read [ring_simps]:
  "i < n \<Longrightarrow> ring_read buf off n ! i = buf ! ((off + i) mod length buf)"
  by (simp add: ring_read_def)

lemma ring_read_0 [simp]: "ring_read buf off 0 = []"
  by (simp add: ring_read_def)

lemma ring_read_add [ring_simps]:
  "ring_read buf off (m + n) = ring_read buf off m @ ring_read buf (off + m) n"
  by (rule nth_equalityI) (auto simp: ring_simps nth_append add.assoc)

lemma ring_read_mod [ring_simps]:
  "L = length buf \<Longrightarrow> ring_read buf (off mod L) n = ring_read buf off n"
  by (rule nth_equalityI) (auto simp: ring_simps mod_add_left_eq)

lemma ring_read_whole [ring_simps]: "ring_read buf 0 (length buf) = buf"
  by (rule nth_equalityI) (auto simp: ring_simps)

lemma length_ring_write [simp]: "length (ring_write buf off xs) = length buf"
  by (induction buf off xs rule: ring_write.induct) auto

lemma mod_ring_inj:
  assumes "i < L" "j < L" "(off + i) mod L = (off + j) mod (L::nat)"
  shows "i = j"
proof -
  have *: "a = b" if "a \<le> b" "b < L" "(off + a) mod L = (off + b) mod L" for a b
  proof -
    have "L dvd (off + b) - (off + a)" using that by (metis mod_eq_dvd_iff_nat add_le_mono le_refl)
    then have "L dvd b - a" by simp
    with that show ?thesis by (metis diff_is_0_eq dvd_imp_le le_antisym less_imp_diff_less not_le
        zero_less_diff)
  qed
  show ?thesis
    using * [of i j] * [of j i] assms by (cases "i \<le> j") auto
qed

lemma ring_write_other:
  assumes "\<And>i. i < length xs \<Longrightarrow> (off + i) mod length buf \<noteq> k"
  shows "ring_write buf off xs ! k = buf ! k"
  using assms
proof (induction buf off xs rule: ring_write.induct)
  case (1 buf off)
  then show ?case by simp
next
  case (2 buf off x xs)
  have "off mod length buf \<noteq> k" using "2.prems" [of 0] by simp
  moreover have "(Suc off + i) mod length buf \<noteq> k" if "i < length xs" for i
    using "2.prems" [of "Suc i"] that by simp
  ultimately show ?case using "2.IH" by simp
qed

lemma ring_write_nth:
  assumes "length xs \<le> length buf" "i < length xs"
  shows "ring_write buf off xs ! ((off + i) mod length buf) = xs ! i"
  using assms
proof (induction buf off xs arbitrary: i rule: ring_write.induct)
  case (1 buf off)
  then show ?case by simp
next
  case (2 buf off x xs)
  let ?b = "buf[off mod length buf := x]"
  show ?case
  proof (cases i)
    case 0
    have "(Suc off + j) mod length ?b \<noteq> off mod length buf" if "j < length xs" for j
    proof
      assume eq: "(Suc off + j) mod length ?b = off mod length buf"
      then have "(off + Suc j) mod length buf = (off + 0) mod length buf" by simp
      moreover have "Suc j < length buf" "0 < length buf" using that "2.prems" by auto
      ultimately show False using mod_ring_inj [of "Suc j" "length buf" 0 off] by simp
    qed
    then have "ring_write ?b (Suc off) xs ! (off mod length buf) = ?b ! (off mod length buf)"
      by (intro ring_write_other) auto
    moreover have "off mod length buf < length buf"
      using "2.prems" by (intro mod_less_divisor) auto
    ultimately show ?thesis using 0 by simp
  next
    case (Suc j)
    then show ?thesis using "2.IH" [of j] "2.prems" by simp
  qed
qed

lemma ring_read_write [ring_simps]:
  "length xs \<le> length buf \<Longrightarrow> ring_read (ring_write buf off xs) off (length xs) = xs"
  by (rule nth_equalityI) (auto simp: nth_ring_read ring_write_nth)

lemma ring_write_full [ring_simps]:
  assumes "length xs = length buf"
  shows "ring_write buf 0 xs = xs"
proof -
  have "ring_read (ring_write buf 0 xs) 0 (length xs) = xs"
    using assms by (intro ring_read_write) simp
  then show ?thesis
    using assms ring_read_whole [of "ring_write buf 0 xs"] by simp
qed

subsection \<open>Byte memory\<close>

type_synonym bytes = "nat \<Rightarrow> u8"

definition put_bytes :: "bytes \<Rightarrow> nat \<Rightarrow> u8 list \<Rightarrow> bytes" where
  "put_bytes to l xs = (\<lambda>a. if l \<le> a \<and> a < l + length xs then xs ! (a - l) else to a)"

definition piece :: "bytes \<Rightarrow> nat \<Rightarrow> nat \<Rightarrow> u8 list" where
  "piece mem off n = map (\<lambda>k. mem (off + k)) [0..<n]"

lemma length_piece [simp]: "length (piece mem off n) = n"
  by (simp add: piece_def)

lemma put_bytes_append: "put_bytes (put_bytes to l xs) (l + length xs) ys = put_bytes to l (xs @ ys)"
  by (rule ext) (auto simp: put_bytes_def nth_append)

lemma put_bytes_Nil [simp]: "put_bytes to l [] = to"
  by (rule ext) (auto simp: put_bytes_def)

lemma take_piece: "n \<le> m \<Longrightarrow> take n (piece mem off m) = piece mem off n"
  by (simp add: piece_def take_map)

subsection \<open>Machines that consume a stream in chunks\<close>

fun run_chunks :: "('s \<Rightarrow> 'a list \<Rightarrow> 's \<times> 'b list) \<Rightarrow> 's \<Rightarrow> 'a list list \<Rightarrow> 's \<times> 'b list" where
  "run_chunks run s [] = (s, [])"
| "run_chunks run s (c # cs) =
     (let (s1, o1) = run s c; (s2, o2) = run_chunks run s1 cs in (s2, o1 @ o2))"

text \<open>
  What a chunk-wise machine promises: an invariant, and that consuming two chunks is consuming
  their concatenation. States are compared through \<open>abs\<close>, what an observer can still find
  out about them: a ring buffer may hold the same queue at another position.
\<close>

locale stream_machine =
  fixes inv :: "'s \<Rightarrow> bool"
    and abs :: "'s \<Rightarrow> 'q"
    and run :: "'s \<Rightarrow> 'a list \<Rightarrow> 's \<times> 'b list"
  assumes run_inv: "inv s \<Longrightarrow> inv (fst (run s xs))"
    and run_cong: "inv s \<Longrightarrow> inv t \<Longrightarrow> abs s = abs t \<Longrightarrow>
      snd (run s xs) = snd (run t xs) \<and> abs (fst (run s xs)) = abs (fst (run t xs))"
    and run_nil: "inv s \<Longrightarrow> snd (run s []) = [] \<and> abs (fst (run s [])) = abs s"
    and run_append: "inv s \<Longrightarrow>
      snd (run s (xs @ ys)) = snd (run s xs) @ snd (run (fst (run s xs)) ys)
      \<and> abs (fst (run s (xs @ ys))) = abs (fst (run (fst (run s xs)) ys))"
begin

lemma run_chunks_inv: "inv s \<Longrightarrow> inv (fst (run_chunks run s cs))"
  by (induction cs arbitrary: s) (auto simp: Let_def case_prod_beta run_inv)

lemma run_chunks_concat: "inv s \<Longrightarrow> snd (run_chunks run s cs) = snd (run s (concat cs))
    \<and> abs (fst (run_chunks run s cs)) = abs (fst (run s (concat cs)))"
proof (induction cs arbitrary: s)
  case Nil
  then show ?case by (simp add: run_nil)
next
  case (Cons c cs)
  then have "inv (fst (run s c))" by (simp add: run_inv)
  then show ?case using Cons.IH [of "fst (run s c)"] Cons.prems
    by (simp add: run_append Let_def case_prod_beta)
qed

lemma chunking_irrelevant:
  assumes "inv s" "inv t" "abs s = abs t" "concat cs = concat ds"
  shows "snd (run_chunks run s cs) = snd (run_chunks run t ds)
    \<and> abs (fst (run_chunks run s cs)) = abs (fst (run_chunks run t ds))"
  using run_chunks_concat [OF assms(1), of cs] run_chunks_concat [OF assms(2), of ds]
    run_cong [OF assms(1-3), of "concat ds"] assms(4) by simp

end

locale stream_transducer = stream_machine inv abs run
  for inv :: "'s \<Rightarrow> bool" and abs :: "'s \<Rightarrow> 'q" and run :: "'s \<Rightarrow> 'a list \<Rightarrow> 's \<times> 'b list" +
  assumes run_length: "inv s \<Longrightarrow> length (snd (run s xs)) = length xs"
begin

lemma run_causal:
  assumes "inv s"
  shows "take n (snd (run s xs)) = snd (run s (take n xs))"
proof -
  have "snd (run s xs) = snd (run s (take n xs @ drop n xs))" by simp
  also have "\<dots> = snd (run s (take n xs)) @ snd (run (fst (run s (take n xs))) (drop n xs))"
    using run_append [OF assms, of "take n xs" "drop n xs"] by (simp only:)
  finally show ?thesis
    using run_length [OF assms, of "take n xs"] run_length [OF assms, of xs]
    by (cases "n \<le> length xs") auto
qed

lemma run_chunks_length:
  "inv s \<Longrightarrow> length (snd (run_chunks run s cs)) = length (concat cs)"
  by (simp add: run_chunks_concat run_length)

end

text \<open>
  The transducers of the development consume one element at a time: a step function with an
  invariant is a transducer, and states are compared as they are.
\<close>

fun run_steps :: "('s \<Rightarrow> 'a \<Rightarrow> 's \<times> 'b) \<Rightarrow> 's \<Rightarrow> 'a list \<Rightarrow> 's \<times> 'b list" where
  "run_steps step s [] = (s, [])"
| "run_steps step s (x # xs) =
     (let s1 = step s x; r = run_steps step (fst s1) xs in (fst r, snd s1 # snd r))"

lemma run_steps_append: "run_steps step s (xs @ ys) =
    (fst (run_steps step (fst (run_steps step s xs)) ys),
     snd (run_steps step s xs) @ snd (run_steps step (fst (run_steps step s xs)) ys))"
  by (induction xs arbitrary: s) (auto simp: Let_def)

lemma length_run_steps [simp]: "length (snd (run_steps step s xs)) = length xs"
  by (induction xs arbitrary: s) (auto simp: Let_def)

locale step_machine =
  fixes inv :: "'s \<Rightarrow> bool" and step :: "'s \<Rightarrow> 'a \<Rightarrow> 's \<times> 'b"
  assumes step_inv: "inv s \<Longrightarrow> inv (fst (step s x))"
begin

lemma run_steps_inv: "inv s \<Longrightarrow> inv (fst (run_steps step s xs))"
  by (induction xs arbitrary: s) (auto simp: Let_def step_inv)

end

sublocale step_machine \<subseteq> stream_transducer inv id "run_steps step"
  by unfold_locales (auto simp: run_steps_inv run_steps_append)

subsection \<open>Acquisition chains with goto-style unwinding\<close>

text \<open>
  The idiom \<open>res = init_a(); if (res < 0) return res; res = init_b(); if (res < 0) goto
  err_a; \<dots>\<close>: stages that acquire something, each with the release its label performs. A
  failure of a stage runs the releases of the stages before it, last first. \<open>None\<close> is a
  trap (undefined behaviour) in a stage.
\<close>

fun unwind :: "(('s \<Rightarrow> (int \<times> 's) option) \<times> ('s \<Rightarrow> 's)) list \<Rightarrow> 's \<Rightarrow> (int \<times> 's) option" where
  "unwind [] s = Some (0, s)"
| "unwind ((acq, rel) # st) s = do {
     (res, s) \<leftarrow> acq s;
     if res < 0 then Some (res, s)
     else do {
       (res, s) \<leftarrow> unwind st s;
       Some (if res < 0 then (res, rel s) else (res, s))
     }
   }"

definition stage_ok :: "('s \<Rightarrow> 'r set) \<Rightarrow> 'r set \<Rightarrow> ('s \<Rightarrow> (int \<times> 's) option) \<times> ('s \<Rightarrow> 's) \<Rightarrow> bool" where
  "stage_ok held R st \<longleftrightarrow>
     (\<forall>s res s'. fst st s = Some (res, s') \<longrightarrow> R \<inter> held s = {} \<longrightarrow>
        res \<le> 0 \<and> held s' = (if res < 0 then held s else held s \<union> R))
   \<and> (\<forall>s. held (snd st s) = held s - R)"

fun stages_ok :: "('s \<Rightarrow> 'r set) \<Rightarrow> 'r set list \<Rightarrow> (('s \<Rightarrow> (int \<times> 's) option) \<times> ('s \<Rightarrow> 's)) list \<Rightarrow> bool" where
  "stages_ok held (R # Rs) (st # sts) \<longleftrightarrow>
     stage_ok held R st \<and> R \<inter> \<Union> (set Rs) = {} \<and> stages_ok held Rs sts"
| "stages_ok held [] [] \<longleftrightarrow> True"
| "stages_ok held _ _ \<longleftrightarrow> False"

lemma stage_okD:
  "stage_ok held R st \<Longrightarrow> fst st s = Some (res, s') \<Longrightarrow> R \<inter> held s = {} \<Longrightarrow>
     res \<le> 0 \<and> held s' = (if res < 0 then held s else held s \<union> R)"
  unfolding stage_ok_def by blast

lemma unwind_all_or_nothing:
  assumes "stages_ok held Rs sts" "\<Union> (set Rs) \<inter> held s = {}" "unwind sts s = Some (res, s')"
  shows "res \<le> 0 \<and> held s' = (if res < 0 then held s else held s \<union> \<Union> (set Rs))"
  using assms
proof (induction held Rs sts arbitrary: s res s' rule: stages_ok.induct)
  case (1 held R Rs st sts)
  obtain r1 s1 where acq: "fst st s = Some (r1, s1)"
    using "1.prems"(3) by (cases st) (auto split: option.splits simp: Option.bind_eq_Some_conv)
  have ok: "r1 \<le> 0 \<and> held s1 = (if r1 < 0 then held s else held s \<union> R)"
    using "1.prems"(1,2) by (intro stage_okD [OF _ acq]) auto
  show ?case
  proof (cases "r1 < 0")
    case True
    then show ?thesis using "1.prems"(3) acq ok by (cases st) auto
  next
    case False
    then obtain r2 s2 where un: "unwind sts s1 = Some (r2, s2)"
      using "1.prems"(3) acq by (cases st) (auto simp: Option.bind_eq_Some_conv)
    have "\<Union> (set Rs) \<inter> held s1 = {}" using "1.prems"(1,2) ok False by auto
    from "1.IH" [OF _ this un] have IH: "r2 \<le> 0 \<and>
        held s2 = (if r2 < 0 then held s1 else held s1 \<union> \<Union> (set Rs))" using "1.prems"(1) by simp
    have rel: "held (snd st s2) = held s2 - R"
      using "1.prems"(1) by (simp add: stage_ok_def)
    have "(res, s') = (if r2 < 0 then (r2, snd st s2) else (r2, s2))"
      using "1.prems"(3) acq un False by (cases st) auto
    then show ?thesis using IH rel ok False "1.prems"(2) by (auto split: if_splits)
  qed
qed auto

lemma unwind_last:
  assumes "unwind (sts @ [(acq, rel)]) s = Some (res, s')" "0 \<le> res"
  shows "\<exists>s1 r. acq s1 = Some (r, s') \<and> 0 \<le> r"
  using assms
proof (induction sts arbitrary: s res)
  case Nil
  then obtain r s1 where "acq s = Some (r, s1)" "\<not> r < 0" "s1 = s'"
    by (auto simp: Option.bind_eq_Some_conv split: if_splits)
  then show ?case by force
next
  case (Cons st sts)
  then show ?case
    by (cases st) (auto simp: Option.bind_eq_Some_conv split: if_splits prod.splits)
qed

lemma sint_small:
  assumes "unat (x :: u64) < 2 ^ 63"
  shows "sint x = int (unat x)"
proof -
  have u: "uint x = int (unat x)" by simp
  have "int (unat x) < int (2 ^ 63)" using assms by (simp only: of_nat_less_iff)
  then have "int (unat x) < 2 ^ 63" by (simp only: of_nat_power of_nat_numeral)
  moreover have "- (2 ^ 63) \<le> int (unat x)"
    by (rule order_trans [OF _ of_nat_0_le_iff]) simp
  ultimately have "signed_take_bit 63 (int (unat x)) = int (unat x)"
    by (intro signed_take_bit_int_eq_self)
  then show ?thesis unfolding sint_uint u by simp
qed

end
