(* ===== verification/Alsa.thy ===== *)
theory Alsa
  imports Prelude
begin

section \<open>The vocabulary of alsa-lib that the plugins are written in\<close>

text \<open>
  Types of the alsa-lib external-plugin API, in the part the plugins read: the stream
  direction, the PCM state, sample formats, the fields of \<open>snd_pcm_ioplug_t\<close> and of
  \<open>snd_pcm_extplug_t\<close>, and configuration nodes. The library itself is not part of the
  repository, so none of its functions is defined here; a model that calls one takes it as a
  parameter. \<open>audio_frame\<close>-level copies are stated on ring buffers (\<open>Prelude\<close>).
\<close>

datatype pcm_stream = PLAYBACK | CAPTURE

datatype pcm_state =
    STATE_OPEN | STATE_SETUP | STATE_PREPARED | STATE_RUNNING | STATE_XRUN
  | STATE_DRAINING | STATE_PAUSED_PCM | STATE_SUSPENDED | STATE_DISCONNECTED

datatype pcm_format =
    FORMAT_S16_BE | FORMAT_S24_3BE | FORMAT_S32_BE | FORMAT_FLOAT_BE
  | FORMAT_S16_LE | FORMAT_S24_3LE | FORMAT_OTHER nat

record ioplug =
  io_stream :: pcm_stream
  io_state :: pcm_state
  io_format :: pcm_format
  io_rate :: u32
  io_channels :: u32
  io_period_size :: u64
  io_buffer_size :: u64
  io_appl_ptr :: u64

record extplug =
  ext_channels :: u32
  ext_slave_channels :: u32
  ext_rate :: u32

text \<open>
  A configuration compound is the list of its entries. \<open>snd_config_get_id\<close>,
  \<open>snd_config_get_integer\<close> and \<open>snd_config_get_string\<close> are alsa-lib's: they are
  fields of an API record, \<open>None\<close> standing for a negative return value, which
  \<open>cfg_error\<close> gives.
\<close>

record 'n config_api =
  cfg_id :: "'n \<Rightarrow> string option"
  cfg_integer :: "'n \<Rightarrow> int option"
  cfg_string :: "'n \<Rightarrow> string option"
  cfg_error :: "'n \<Rightarrow> int"

text \<open>Entries every plugin skips.\<close>

definition cfg_skipped :: "string \<Rightarrow> bool" where
  "cfg_skipped s \<longleftrightarrow> s = ''comment'' \<or> s = ''type'' \<or> s = ''hint''"

text \<open>
  Channel positions, and the hardware parameters an extplug constrains. The calls
  \<open>snd_pcm_extplug_set_\<dots>\<close> are recorded in order; their results are ignored by the
  plugins that make them.
\<close>

datatype chmap_pos =
    CHMAP_UNKNOWN | CHMAP_MONO | CHMAP_FL | CHMAP_FR | CHMAP_RL | CHMAP_RR
  | CHMAP_FC | CHMAP_LFE | CHMAP_SL | CHMAP_SR

record chmap =
  cm_channels :: nat
  cm_pos :: "chmap_pos list"

datatype ext_hw = HW_FORMAT | HW_CHANNELS

datatype ext_call =
    Set_param ext_hw nat
  | Set_param_minmax ext_hw nat nat
  | Set_slave_param ext_hw nat
  | Set_slave_param_minmax ext_hw nat nat
  | Set_slave_param_list ext_hw "nat list"

text \<open>\<open>SND_PCM_FORMAT_S16\<close> as the argument of these calls.\<close>

definition S16 :: nat where
  "S16 = 2"

text \<open>The same for an ioplug, whose constraint calls are checked.\<close>

datatype io_hw = IO_ACCESS | IO_FORMAT | IO_CHANNELS | IO_RATE | IO_PERIOD_BYTES | IO_BUFFER_BYTES | IO_PERIODS

datatype io_call =
    Io_list io_hw "nat list"
  | Io_minmax io_hw u32 u32

text \<open>\<open>SND_PCM_ACCESS_MMAP_INTERLEAVED\<close> and \<open>SND_PCM_FORMAT_S24_3LE\<close>.\<close>

definition MMAP_INTERLEAVED :: nat where
  "MMAP_INTERLEAVED = 0"

definition S24_3LE :: nat where
  "S24_3LE = 32"

text \<open>A plugin's constraint calls, up to the first that fails.\<close>

fun io_calls :: "(io_call \<Rightarrow> int) \<Rightarrow> io_call list \<Rightarrow> int" where
  "io_calls setp [] = 0"
| "io_calls setp (c # cs) = (let err = setp c in if err < 0 then err else io_calls setp cs)"

text \<open>The values alsa-lib gives the sample formats.\<close>

fun format_code :: "pcm_format \<Rightarrow> nat" where
  "format_code FORMAT_S16_LE = 2"
| "format_code FORMAT_S16_BE = 3"
| "format_code FORMAT_S32_BE = 11"
| "format_code FORMAT_FLOAT_BE = 15"
| "format_code FORMAT_S24_3LE = 32"
| "format_code FORMAT_S24_3BE = 33"
| "format_code (FORMAT_OTHER n) = n"

abbreviation (input) CODE_S8 :: nat where "CODE_S8 \<equiv> 0"
abbreviation (input) CODE_U8 :: nat where "CODE_U8 \<equiv> 1"
abbreviation (input) CODE_S16_LE :: nat where "CODE_S16_LE \<equiv> 2"
abbreviation (input) CODE_S16_BE :: nat where "CODE_S16_BE \<equiv> 3"
abbreviation (input) CODE_U16_LE :: nat where "CODE_U16_LE \<equiv> 4"
abbreviation (input) CODE_U16_BE :: nat where "CODE_U16_BE \<equiv> 5"
abbreviation (input) CODE_MU_LAW :: nat where "CODE_MU_LAW \<equiv> 20"
abbreviation (input) CODE_A_LAW :: nat where "CODE_A_LAW \<equiv> 21"
abbreviation (input) RW_INTERLEAVED :: nat where "RW_INTERLEAVED \<equiv> 3"

text \<open>Configuration trees: whether an entry is a compound, its children, its value as a string.\<close>

record 'c tree_api = "'c config_api" +
  cfg_compound :: "'c \<Rightarrow> bool"
  cfg_children :: "'c \<Rightarrow> 'c list"
  cfg_ascii :: "'c \<Rightarrow> string option"

end
