(* ===== verification/Aaf.thy ===== *)
theory Aaf
  imports Alsa
begin

unbundle bit_operations_syntax

section \<open>The AVTP Audio Format plugin (aaf/pcm_aaf.c): state and operations\<close>

text \<open>
  The plugin carries PCM frames over Ethernet in AVTPDUs. In playback (talker) a periodic
  timer makes it send one period as \<open>period_size / frames_per_pdu\<close> packets; in capture
  (listener) packets fill the ring buffer at \<open>hw_virt_ptr\<close> and the timer, started by the first
  packet's presentation time, moves \<open>hw_ptr\<close> one period at a time.

  \<open>aaf_env\<close> is what the plugin calls and the repository does not hold: libavtp's field
  accessors and codes, alsa-lib's helpers, and the kernel. The kernel is an oracle: the
  state's \<open>calls\<close> counts the system calls made so far, and the oracle fields give the
  result of the call with that number, so a theorem for every environment is one for every
  behaviour of the kernel. \<open>'p\<close> is a PDU header and \<open>'f\<close> an audio frame; the
  audio buffer and the packet payload are lists of frames. \<open>wire\<close> records the messages
  given to \<open>sendmsg\<close>, \<open>armed\<close> the last timer setting, and \<open>held\<close> the descriptors and
  allocations the instance owns.
\<close>

subsection \<open>Data\<close>

definition NSEC_PER_SEC :: u64 where "NSEC_PER_SEC = 1000000000"
definition NSEC_PER_USEC :: int where "NSEC_PER_USEC = 1000"
definition TAI_OFFSET :: u64 where "TAI_OFFSET = 37 * NSEC_PER_SEC"
definition TAI_TO_UTC :: "u64 \<Rightarrow> u64" where "TAI_TO_UTC t = t - TAI_OFFSET"

datatype avtp_format =
    AVTP_AAF_FORMAT_INT_16BIT | AVTP_AAF_FORMAT_INT_24BIT | AVTP_AAF_FORMAT_INT_32BIT
  | AVTP_AAF_FORMAT_FLOAT_32BIT | AVTP_AAF_FORMAT_USER

datatype avtp_nsr =
    NSR_8KHZ | NSR_16KHZ | NSR_24KHZ | NSR_32KHZ | NSR_44_1KHZ | NSR_48KHZ
  | NSR_88_2KHZ | NSR_96KHZ | NSR_176_4KHZ | NSR_192KHZ | NSR_USER

datatype avtp_field =
    FIELD_TV | FIELD_STREAM_ID | FIELD_FORMAT | FIELD_NSR | FIELD_CHAN_PER_FRAME
  | FIELD_BIT_DEPTH | FIELD_STREAM_DATA_LEN | FIELD_SP | FIELD_SEQ_NUM | FIELD_TIMESTAMP

datatype avtp_common_field = FIELD_SUBTYPE | FIELD_VERSION

datatype aaf_resource = Res_socket | Res_timer | Res_pdu | Res_areas | Res_iov | Res_control | Res_msg

record ('p, 'f) aaf_env =
  avtp_format_code :: "avtp_format \<Rightarrow> u64"
  avtp_nsr_code :: "avtp_nsr \<Rightarrow> u64"
  avtp_sp_normal :: u64
  avtp_subtype_aaf :: u32
  avtp_header_size :: u64
  pdu_zero :: 'p
  pdu_init :: "'p \<Rightarrow> int \<times> 'p"
  pdu_set :: "'p \<Rightarrow> avtp_field \<Rightarrow> u64 \<Rightarrow> int \<times> 'p"
  pdu_get :: "'p \<Rightarrow> avtp_field \<Rightarrow> int \<times> u64"
  common_get :: "'p \<Rightarrow> avtp_common_field \<Rightarrow> int \<times> u32"
  format_size :: "pcm_format \<Rightarrow> u32 \<Rightarrow> int"
  format_width :: "pcm_format \<Rightarrow> int"
  frames_to_bytes :: "ioplug \<Rightarrow> u64 \<Rightarrow> int"
  hw_avail :: "ioplug \<Rightarrow> u64 \<Rightarrow> u64 \<Rightarrow> u64"
  areas_copy_wrap :: "'f list \<Rightarrow> nat \<Rightarrow> nat \<Rightarrow> 'f list \<Rightarrow> nat \<Rightarrow> nat \<Rightarrow> u32 \<Rightarrow> nat \<Rightarrow> pcm_format
      \<Rightarrow> int \<times> 'f list"
  sw_boundary :: "int \<times> u64"
  zero_frame :: 'f
  k_call :: "nat \<Rightarrow> int \<times> int"
  k_alloc :: "nat \<Rightarrow> bool"
  k_clock :: "nat \<Rightarrow> u64 \<times> u64"
  k_expirations :: "nat \<Rightarrow> u64"
  k_recv :: "nat \<Rightarrow> 'p \<times> 'f list"

record ('p, 'f) aaf =
  io :: ioplug
  ifname :: string
  addr :: "u8 list"
  prio :: int
  streamid :: u64
  mtt :: int
  t_uncertainty :: int
  frames_per_pdu :: u64
  ptime_tolerance :: int
  sk_fd :: int
  timer_fd :: int
  pdu :: 'p
  payload :: "'f list"
  pdu_size :: int
  pdu_seq :: u8
  cmsg_txtime :: u64
  timer_starttime :: u64
  timer_period :: u64
  timer_expirations :: u64
  audiobuf :: "'f list"
  payload_areas :: "(u32 \<times> u32) list"
  hw_ptr :: u64
  hw_virt_ptr :: u64
  boundary :: u64
  prev_ptime :: u64
  pdu_period :: int
  calls :: nat
  wire :: "(u64 \<times> 'p \<times> 'f list) list"
  armed :: "(u64 \<times> u64 \<times> u64) option"
  held :: "aaf_resource set"

text \<open>One system call: its (return value, errno), and the state with the call counted.\<close>

definition sys :: "('p, 'f) aaf_env \<Rightarrow> ('p, 'f) aaf \<Rightarrow> (int \<times> int) \<times> ('p, 'f) aaf" where
  "sys E a = (k_call E (calls a), a\<lparr>calls := Suc (calls a)\<rparr>)"

subsection \<open>Codes\<close>

fun alsa_to_avtp_format :: "pcm_format \<Rightarrow> avtp_format" where
  "alsa_to_avtp_format FORMAT_S16_BE = AVTP_AAF_FORMAT_INT_16BIT"
| "alsa_to_avtp_format FORMAT_S24_3BE = AVTP_AAF_FORMAT_INT_24BIT"
| "alsa_to_avtp_format FORMAT_S32_BE = AVTP_AAF_FORMAT_INT_32BIT"
| "alsa_to_avtp_format FORMAT_FLOAT_BE = AVTP_AAF_FORMAT_FLOAT_32BIT"
| "alsa_to_avtp_format _ = AVTP_AAF_FORMAT_USER"

definition alsa_to_avtp_rate :: "u32 \<Rightarrow> avtp_nsr" where
  "alsa_to_avtp_rate rate =
     (if rate = 8000 then NSR_8KHZ
      else if rate = 16000 then NSR_16KHZ
      else if rate = 24000 then NSR_24KHZ
      else if rate = 32000 then NSR_32KHZ
      else if rate = 44100 then NSR_44_1KHZ
      else if rate = 48000 then NSR_48KHZ
      else if rate = 88200 then NSR_88_2KHZ
      else if rate = 96000 then NSR_96KHZ
      else if rate = 176400 then NSR_176_4KHZ
      else if rate = 192000 then NSR_192KHZ
      else NSR_USER)"

definition aaf_formats :: "pcm_format list" where
  "aaf_formats = [FORMAT_S16_BE, FORMAT_S24_3BE, FORMAT_S32_BE, FORMAT_FLOAT_BE]"

definition aaf_rates :: "u32 list" where
  "aaf_rates = [8000, 16000, 24000, 32000, 44100, 48000, 88200, 96000, 176400, 192000]"

subsection \<open>Set-up and tear-down\<close>

definition aaf_init_socket :: "('p, 'f) aaf_env \<Rightarrow> ('p, 'f) aaf \<Rightarrow> int \<times> ('p, 'f) aaf" where
  "aaf_init_socket E a =
     (let ((fd, e), a) = sys E a in
      if fd < 0 then (- e, a)
      else
        let a = a\<lparr>held := insert Res_socket (held a)\<rparr>;
            err = (\<lambda>res a. (res, a\<lparr>held := held a - {Res_socket}\<rparr>));
            ((r1, e1), a) = sys E a
        in if r1 < 0 then err (- e1) a
           else
             let ((r2, e2), a) = sys E a \<comment> \<open>SO_PRIORITY in playback, bind in capture\<close>
             in if r2 < 0 then err (- e2) a
                else
                  let ((r3, e3), a) = sys E a \<comment> \<open>SO_TXTIME, PACKET_ADD_MEMBERSHIP\<close>
                  in if r3 < 0 then err (- e3) a else (0, a\<lparr>sk_fd := fd\<rparr>))"

definition aaf_init_timer :: "('p, 'f) aaf_env \<Rightarrow> ('p, 'f) aaf \<Rightarrow> int \<times> ('p, 'f) aaf" where
  "aaf_init_timer E a =
     (let ((fd, e), a) = sys E a in
      if fd < 0 then (- e, a)
      else (0, a\<lparr>timer_fd := fd, held := insert Res_timer (held a)\<rparr>))"

text \<open>A sequence of field writes that stops at the first one that fails.\<close>

fun pdu_sets :: "('p, 'f) aaf_env \<Rightarrow> 'p \<Rightarrow> (avtp_field \<times> u64) list \<Rightarrow> int \<times> 'p" where
  "pdu_sets E p [] = (0, p)"
| "pdu_sets E p ((f, v) # fvs) =
     (let (res, p') = pdu_set E p f v in if res < 0 then (res, p') else pdu_sets E p' fvs)"

definition pdu_fields :: "('p, 'f) aaf_env \<Rightarrow> ('p, 'f) aaf \<Rightarrow> u64 \<Rightarrow> (avtp_field \<times> u64) list" where
  "pdu_fields E a payload_size =
     [(FIELD_TV, 1),
      (FIELD_STREAM_ID, streamid a),
      (FIELD_FORMAT, avtp_format_code E (alsa_to_avtp_format (io_format (io a)))),
      (FIELD_NSR, avtp_nsr_code E (alsa_to_avtp_rate (io_rate (io a)))),
      (FIELD_CHAN_PER_FRAME, ucast (io_channels (io a))),
      (FIELD_BIT_DEPTH, word_of_int (format_width E (io_format (io a)))),
      (FIELD_STREAM_DATA_LEN, payload_size),
      (FIELD_SP, avtp_sp_normal E)]"

definition aaf_init_pdu :: "('p, 'f) aaf_env \<Rightarrow> ('p, 'f) aaf \<Rightarrow> int \<times> ('p, 'f) aaf" where
  "aaf_init_pdu E a =
     (let frame_size = format_size E (io_format (io a)) (io_channels (io a)) in
      if frame_size < 0 then (frame_size, a)
      else
        let payload_size = word_of_int frame_size * frames_per_pdu a;
            size = avtp_header_size E + payload_size;
            ok = k_alloc E (calls a);
            a = a\<lparr>calls := Suc (calls a)\<rparr>
        in if \<not> ok then (- ENOMEM, a)
           else
             let a = a\<lparr>held := insert Res_pdu (held a)\<rparr>;
                 (res, p) =
                   (if io_stream (io a) = PLAYBACK then
                      let (res, p) = pdu_init E (pdu_zero E)
                      in if res < 0 then (res, p) else pdu_sets E p (pdu_fields E a payload_size)
                    else (0, pdu_zero E))
             in if res < 0 then (res, a\<lparr>held := held a - {Res_pdu}\<rparr>)
                else (0, a\<lparr>pdu := p, payload := replicate (unat (frames_per_pdu a)) (zero_frame E),
                          pdu_size := c_int (sint size)\<rparr>))"

definition aaf_init_areas :: "('p, 'f) aaf_env \<Rightarrow> ('p, 'f) aaf \<Rightarrow> int \<times> (u32 \<times> u32) list" where
  "aaf_init_areas E a =
     (let sample_size = format_size E (io_format (io a)) 1 in
      if sample_size < 0 then (sample_size, [])
      else
        let frame_size = sample_size * uint (io_channels (io a)) in
        (0, map (\<lambda>i. (word_of_int (int i * sample_size * 8), word_of_int (frame_size * 8)))
              [0..<unat (io_channels (io a))]))"

definition aaf_init_payload_areas :: "('p, 'f) aaf_env \<Rightarrow> ('p, 'f) aaf \<Rightarrow> int \<times> ('p, 'f) aaf" where
  "aaf_init_payload_areas E a =
     (let ok = k_alloc E (calls a); a = a\<lparr>calls := Suc (calls a)\<rparr> in
      if \<not> ok then (- ENOMEM, a)
      else
        let a = a\<lparr>held := insert Res_areas (held a)\<rparr>; (res, areas) = aaf_init_areas E a
        in if res < 0 then (res, a\<lparr>held := held a - {Res_areas}\<rparr>)
           else (0, a\<lparr>payload_areas := areas\<rparr>))"

definition aaf_init_msghdr :: "('p, 'f) aaf_env \<Rightarrow> ('p, 'f) aaf \<Rightarrow> int \<times> ('p, 'f) aaf" where
  "aaf_init_msghdr E a =
     (let ok1 = k_alloc E (calls a); a = a\<lparr>calls := Suc (calls a)\<rparr> in
      if \<not> ok1 then (- ENOMEM, a)
      else
        let a = a\<lparr>held := insert Res_iov (held a)\<rparr>;
            ok2 = k_alloc E (calls a); a = a\<lparr>calls := Suc (calls a)\<rparr>
        in if \<not> ok2 then (- ENOMEM, a\<lparr>held := held a - {Res_iov}\<rparr>)
           else
             let a = a\<lparr>held := insert Res_control (held a)\<rparr>;
                 ok3 = k_alloc E (calls a); a = a\<lparr>calls := Suc (calls a)\<rparr>
             in if \<not> ok3 then (- ENOMEM, a\<lparr>held := held a - {Res_control} - {Res_iov}\<rparr>)
                else (0, a\<lparr>held := insert Res_msg (held a)\<rparr>))"

definition aaf_release :: "aaf_resource set \<Rightarrow> ('p, 'f) aaf \<Rightarrow> ('p, 'f) aaf" where
  "aaf_release R a = a\<lparr>held := held a - R\<rparr>"

text \<open>
  The acquisitions of \<open>aaf_hw_params\<close> with the release each label adds on the error path.
  In the last stage \<open>None\<close> is the division by zero of \<open>period_size % frames_per_pdu\<close>.
\<close>

definition aaf_stages :: "('p, 'f) aaf_env \<Rightarrow>
    ((('p, 'f) aaf \<Rightarrow> (int \<times> ('p, 'f) aaf) option) \<times> (('p, 'f) aaf \<Rightarrow> ('p, 'f) aaf)) list" where
  "aaf_stages E =
     [(Some \<circ> aaf_init_socket E, aaf_release {Res_socket}),
      (Some \<circ> aaf_init_timer E, aaf_release {Res_timer}),
      (Some \<circ> aaf_init_pdu E, aaf_release {Res_pdu}),
      (Some \<circ> aaf_init_payload_areas E, aaf_release {Res_areas}),
      (Some \<circ> aaf_init_msghdr E, aaf_release {Res_iov, Res_control, Res_msg})]
     @ [(\<lambda>a. if frames_per_pdu a = 0 then None
            else if io_period_size (io a) mod frames_per_pdu a \<noteq> 0 then Some (- EINVAL, a)
            else Some (0, a), id)]"

definition aaf_hw_params :: "('p, 'f) aaf_env \<Rightarrow> ('p, 'f) aaf \<Rightarrow> (int \<times> ('p, 'f) aaf) option" where
  "aaf_hw_params E a = do {
     (res, a) \<leftarrow> unwind (aaf_stages E) a;
     if res < 0 then Some (res, a)
     else if io_rate (io a) = 0 then None
     else Some (0, a\<lparr>pdu_period :=
             c_int (uint (NSEC_PER_SEC * frames_per_pdu a div ucast (io_rate (io a))))\<rparr>)
   }"

definition aaf_hw_free :: "('p, 'f) aaf \<Rightarrow> int \<times> ('p, 'f) aaf" where
  "aaf_hw_free a =
     (0, aaf_release {Res_msg} (aaf_release {Res_control} (aaf_release {Res_iov}
           (aaf_release {Res_areas} (aaf_release {Res_pdu} (aaf_release {Res_timer}
             (aaf_release {Res_socket} a)))))))"

definition aaf_sw_params :: "('p, 'f) aaf_env \<Rightarrow> ('p, 'f) aaf \<Rightarrow> int \<times> ('p, 'f) aaf" where
  "aaf_sw_params E a =
     (let (res, b) = sw_boundary E; a = a\<lparr>boundary := b\<rparr> in if res < 0 then (res, a) else (0, a))"

end
