(* ===== verification/AafRun.thy ===== *)
theory AafRun
  imports Aaf
begin

unbundle bit_operations_syntax

section \<open>The AAF plugin at run time: media clock, talker, listener, callbacks\<close>

text \<open>
  The functions of aaf/pcm_aaf.c from \<open>aaf_inc_ptr\<close> to \<open>aaf_stop\<close>. Each returns the C
  result and the new state. \<open>while (pdu_count--)\<close> and \<open>while (expirations--)\<close> are
  recursions on the counter; the loop that flushes the socket ends only when \<open>recv\<close> fails,
  so it is a partial function.
\<close>

subsection \<open>Pointers and the media clock\<close>

definition aaf_inc_ptr :: "u64 \<Rightarrow> u64 \<Rightarrow> u64 \<Rightarrow> u64" where
  "aaf_inc_ptr ptr val bound = (let p = ptr + val in if p > bound then p - bound else p)"

definition aaf_mclk_start ::
    "('p, 'f) aaf_env \<Rightarrow> ('p, 'f) aaf \<Rightarrow> u64 \<Rightarrow> u64 \<Rightarrow> int \<times> ('p, 'f) aaf" where
  "aaf_mclk_start E a start period =
     (let a = a\<lparr>timer_expirations := 0, timer_period := period, timer_starttime := start\<rparr>;
          time_utc = TAI_TO_UTC start;
          ((res, e), a) = sys E a
      in if res < 0 then (- e, a)
         else (0, a\<lparr>armed := Some (time_utc div NSEC_PER_SEC, time_utc mod NSEC_PER_SEC,
                                  timer_period a)\<rparr>))"

definition aaf_period :: "ioplug \<Rightarrow> u64" where
  "aaf_period i = NSEC_PER_SEC * io_period_size i div ucast (io_rate i)"

definition aaf_mclk_start_playback :: "('p, 'f) aaf_env \<Rightarrow> ('p, 'f) aaf \<Rightarrow> int \<times> ('p, 'f) aaf" where
  "aaf_mclk_start_playback E a =
     (let now = k_clock E (calls a); ((res, e), a) = sys E a in
      if res < 0 then (- e, a)
      else
        let period = aaf_period (io a);
            start = fst now * NSEC_PER_SEC + snd now + period;
            (res, a) = aaf_mclk_start E a start period
        in if res < 0 then (res, a) else (0, a))"

definition recover_ptime :: "u64 \<Rightarrow> u32 \<Rightarrow> u64" where
  "recover_ptime now avtp_time =
     (let ptime = (now AND 0xFFFFFFFF00000000) OR ucast avtp_time
      in if ptime < now then ptime + push_bit 32 1 else ptime)"

definition aaf_mclk_start_capture ::
    "('p, 'f) aaf_env \<Rightarrow> ('p, 'f) aaf \<Rightarrow> u32 \<Rightarrow> int \<times> ('p, 'f) aaf" where
  "aaf_mclk_start_capture E a avtp_time =
     (let tspec = k_clock E (calls a); ((res, e), a) = sys E a in
      if res < 0 then (- e, a)
      else
        let now = fst tspec * NSEC_PER_SEC + snd tspec;
            ptime = recover_ptime now avtp_time;
            period = aaf_period (io a);
            (res, a) = aaf_mclk_start E a (ptime + period) period
        in if res < 0 then (res, a) else (0, a\<lparr>prev_ptime := ptime\<rparr>))"

definition aaf_mclk_reset :: "('p, 'f) aaf_env \<Rightarrow> ('p, 'f) aaf \<Rightarrow> int \<times> ('p, 'f) aaf" where
  "aaf_mclk_reset E a =
     (let ((res, e), a) = sys E a in
      if res < 0 then (res, a)
      else (0, a\<lparr>armed := None, timer_starttime := 0, timer_period := 0, timer_expirations := 0\<rparr>))"

definition aaf_mclk_gettime :: "('p, 'f) aaf \<Rightarrow> u64" where
  "aaf_mclk_gettime a =
     (if timer_expirations a = 0 then 0
      else timer_starttime a + timer_period a * (timer_expirations a - 1))"

subsection \<open>Talker\<close>

definition aaf_tx_pdu ::
    "('p, 'f) aaf_env \<Rightarrow> ('p, 'f) aaf \<Rightarrow> u64 \<Rightarrow> u64 \<Rightarrow> u64 \<Rightarrow> int \<times> ('p, 'f) aaf" where
  "aaf_tx_pdu E a ptr ptime txtime =
     (let a = a\<lparr>cmsg_txtime := txtime\<rparr>;
          (res, pl) = areas_copy_wrap E (payload a) 0 (unat (frames_per_pdu a))
             (audiobuf a) (unat (ptr mod io_buffer_size (io a))) (unat (io_buffer_size (io a)))
             (io_channels (io a)) (unat (frames_per_pdu a)) (io_format (io a));
          a = a\<lparr>payload := pl\<rparr>
      in if res < 0 then (res, a)
      else let (res, p) = pdu_set E (pdu a) FIELD_SEQ_NUM (ucast (pdu_seq a));
               a = a\<lparr>pdu := p, pdu_seq := pdu_seq a + 1\<rparr>
      in if res < 0 then (res, a)
      else let (res, p) = pdu_set E (pdu a) FIELD_TIMESTAMP ptime; a = a\<lparr>pdu := p\<rparr>
      in if res < 0 then (res, a)
      else let ((n, e), a) = sys E a
      in if n < 0 \<or> n \<noteq> pdu_size a then (- EIO, a)
      else (0, a\<lparr>wire := wire a @ [(cmsg_txtime a, pdu a, payload a)]\<rparr>))"

fun aaf_tx_loop ::
    "('p, 'f) aaf_env \<Rightarrow> nat \<Rightarrow> ('p, 'f) aaf \<Rightarrow> u64 \<Rightarrow> u64 \<Rightarrow> u64 \<Rightarrow> int \<times> ('p, 'f) aaf" where
  "aaf_tx_loop E 0 a ptr ptime txtime = (0, a)"
| "aaf_tx_loop E (Suc pdu_count) a ptr ptime txtime =
     (let (res, a) = aaf_tx_pdu E a ptr ptime txtime in
      if res < 0 then (res, a)
      else aaf_tx_loop E pdu_count a (ptr + frames_per_pdu a)
             (ptime + word_of_int (pdu_period a)) (txtime + word_of_int (pdu_period a)))"

definition aaf_tx_pdus :: "('p, 'f) aaf_env \<Rightarrow> ('p, 'f) aaf \<Rightarrow> u32 \<Rightarrow> int \<times> ('p, 'f) aaf" where
  "aaf_tx_pdus E a pdu_count =
     (let txtime = aaf_mclk_gettime a + word_of_int (t_uncertainty a);
          ptime = txtime + word_of_int (mtt a);
          ptr = hw_ptr a
      in aaf_tx_loop E (unat pdu_count) a ptr ptime txtime)"

definition aaf_tx_frames :: "('p, 'f) aaf_env \<Rightarrow> ('p, 'f) aaf \<Rightarrow> int \<times> ('p, 'f) aaf" where
  "aaf_tx_frames E a =
     (if hw_avail E (io a) (hw_ptr a) (io_appl_ptr (io a)) < io_period_size (io a) then (- EPIPE, a)
      else
        let pdu_count = ucast (io_period_size (io a) div frames_per_pdu a);
            (res, a) = aaf_tx_pdus E a pdu_count
        in if res < 0 then (res, a)
           else (0, a\<lparr>hw_ptr := aaf_inc_ptr (hw_ptr a) (io_period_size (io a)) (boundary a)\<rparr>))"

subsection \<open>Listener\<close>

definition is_ptime_valid :: "('p, 'f) aaf \<Rightarrow> u32 \<Rightarrow> bool \<times> ('p, 'f) aaf" where
  "is_ptime_valid a avtp_time =
     (let exp_ptime = prev_ptime a + word_of_int (pdu_period a);
          lower_bound = exp_ptime - word_of_int (ptime_tolerance a);
          upper_bound = exp_ptime + word_of_int (ptime_tolerance a);
          ptime = (exp_ptime AND 0xFFFFFFFF00000000) OR ucast avtp_time
      in if ptime < lower_bound \<or> ptime > upper_bound then (False, a)
         else if ptime < aaf_mclk_gettime a then (False, a)
         else (True, a\<lparr>prev_ptime := ptime\<rparr>))"

definition field_is :: "('p, 'f) aaf_env \<Rightarrow> 'p \<Rightarrow> avtp_field \<Rightarrow> u64 \<Rightarrow> bool" where
  "field_is E p f v = (let (res, val) = pdu_get E p f in \<not> res < 0 \<and> val = v)"

definition pdu_header_ok :: "('p, 'f) aaf_env \<Rightarrow> ('p, 'f) aaf \<Rightarrow> bool" where
  "pdu_header_ok E a =
     (let (res, ver) = common_get E (pdu a) FIELD_VERSION in
      \<not> res < 0 \<and> ver = 0
      \<and> field_is E (pdu a) FIELD_STREAM_ID (streamid a)
      \<and> field_is E (pdu a) FIELD_TV 1
      \<and> field_is E (pdu a) FIELD_SP (avtp_sp_normal E)
      \<and> field_is E (pdu a) FIELD_FORMAT (avtp_format_code E (alsa_to_avtp_format (io_format (io a))))
      \<and> field_is E (pdu a) FIELD_NSR (avtp_nsr_code E (alsa_to_avtp_rate (io_rate (io a))))
      \<and> field_is E (pdu a) FIELD_CHAN_PER_FRAME (ucast (io_channels (io a)))
      \<and> field_is E (pdu a) FIELD_BIT_DEPTH (word_of_int (format_width E (io_format (io a))))
      \<and> field_is E (pdu a) FIELD_STREAM_DATA_LEN
            (word_of_int (frames_to_bytes E (io a) (frames_per_pdu a))))"

definition is_pdu_valid :: "('p, 'f) aaf_env \<Rightarrow> ('p, 'f) aaf \<Rightarrow> bool \<times> ('p, 'f) aaf" where
  "is_pdu_valid E a =
     (if \<not> pdu_header_ok E a then (False, a)
      else
        let (res, val) = pdu_get E (pdu a) FIELD_SEQ_NUM in
        if res < 0 then (False, a)
        else
          let a = (if val \<noteq> ucast (pdu_seq a) then a\<lparr>pdu_seq := ucast val\<rparr> else a);
              a = a\<lparr>pdu_seq := pdu_seq a + 1\<rparr>
          in if timer_starttime a \<noteq> 0 then
               let (res, avtp_time) = pdu_get E (pdu a) FIELD_TIMESTAMP in
               if res < 0 then (False, a) else is_ptime_valid a (ucast avtp_time)
             else (True, a))"

definition aaf_copy_pdu_payload :: "('p, 'f) aaf_env \<Rightarrow> ('p, 'f) aaf \<Rightarrow> int \<times> ('p, 'f) aaf" where
  "aaf_copy_pdu_payload E a =
     (if hw_avail E (io a) (hw_virt_ptr a) (io_appl_ptr (io a)) < frames_per_pdu a then (- EPIPE, a)
      else
        let (res, buf) = areas_copy_wrap E (audiobuf a)
              (unat (hw_virt_ptr a mod io_buffer_size (io a))) (unat (io_buffer_size (io a)))
              (payload a) 0 (unat (frames_per_pdu a)) (io_channels (io a))
              (unat (frames_per_pdu a)) (io_format (io a));
            a = a\<lparr>audiobuf := buf\<rparr>
        in if res < 0 then (res, a)
           else (0, a\<lparr>hw_virt_ptr := aaf_inc_ptr (hw_virt_ptr a) (frames_per_pdu a) (boundary a)\<rparr>))"

definition aaf_dispatch_pdu_aaf :: "('p, 'f) aaf_env \<Rightarrow> ('p, 'f) aaf \<Rightarrow> int \<times> ('p, 'f) aaf" where
  "aaf_dispatch_pdu_aaf E a =
     (let (valid, a) = is_pdu_valid E a in
      if \<not> valid then (0, a)
      else let (res, a) = aaf_copy_pdu_payload E a in
      if res < 0 then (res, a)
      else if timer_starttime a = 0 then
        let (res, avtp_time) = pdu_get E (pdu a) FIELD_TIMESTAMP in
        if res < 0 then (res, a)
        else let (res, a) = aaf_mclk_start_capture E a (ucast avtp_time)
             in if res < 0 then (res, a) else (0, a)
      else (0, a))"

definition aaf_dispatch_pdu :: "('p, 'f) aaf_env \<Rightarrow> ('p, 'f) aaf \<Rightarrow> int \<times> ('p, 'f) aaf" where
  "aaf_dispatch_pdu E a =
     (let (res, subtype) = common_get E (pdu a) FIELD_SUBTYPE in
      if res < 0 then (res, a)
      else if subtype = avtp_subtype_aaf E then aaf_dispatch_pdu_aaf E a
      else (0, a))"

definition aaf_socket_new_data :: "('p, 'f) aaf_env \<Rightarrow> ('p, 'f) aaf \<Rightarrow> int \<times> ('p, 'f) aaf" where
  "aaf_socket_new_data E a =
     (let (p, pl) = k_recv E (calls a); ((n, e), a) = sys E a in
      if n < 0 then (- e, a)
      else
        let a = a\<lparr>pdu := p, payload := pl\<rparr> in
        if n \<noteq> pdu_size a then (0, a)
        else if io_state (io a) = STATE_DRAINING then (0, a)
        else aaf_dispatch_pdu E a)"

partial_function (option) aaf_flush_loop ::
    "('p, 'f) aaf_env \<Rightarrow> ('p, 'f) aaf \<Rightarrow> (int \<times> ('p, 'f) aaf) option" where
  "aaf_flush_loop E a =
     (let ((n, e), a') = sys E a in if n \<noteq> - 1 then aaf_flush_loop E a' else Some (e, a'))"

definition aaf_flush_rx_buf :: "('p, 'f) aaf_env \<Rightarrow> ('p, 'f) aaf \<Rightarrow> (int \<times> ('p, 'f) aaf) option" where
  "aaf_flush_rx_buf E a =
     (let ok = k_alloc E (calls a); a = a\<lparr>calls := Suc (calls a)\<rparr> in
      if \<not> ok then Some (- ENOMEM, a)
      else do {
        (e, a) \<leftarrow> aaf_flush_loop E a;
        Some (if e \<noteq> EAGAIN then (- e, a) else (0, a))
      })"

definition aaf_present_frames :: "('p, 'f) aaf \<Rightarrow> int \<times> ('p, 'f) aaf" where
  "aaf_present_frames a =
     (let len = hw_virt_ptr a - hw_ptr a;
          len = (if sint len < 0 then len + boundary a else len)
      in if len > io_buffer_size (io a) then (- EPIPE, a)
         else (0, a\<lparr>hw_ptr := aaf_inc_ptr (hw_ptr a) (io_period_size (io a)) (boundary a)\<rparr>))"

subsection \<open>Timer and callbacks\<close>

definition aaf_process_frames :: "('p, 'f) aaf_env \<Rightarrow> ('p, 'f) aaf \<Rightarrow> int \<times> ('p, 'f) aaf" where
  "aaf_process_frames E a =
     (if io_stream (io a) = PLAYBACK then aaf_tx_frames E a else aaf_present_frames a)"

fun aaf_expire :: "('p, 'f) aaf_env \<Rightarrow> nat \<Rightarrow> ('p, 'f) aaf \<Rightarrow> int \<times> ('p, 'f) aaf" where
  "aaf_expire E 0 a = (0, a)"
| "aaf_expire E (Suc expirations) a =
     (let a = a\<lparr>timer_expirations := timer_expirations a + 1\<rparr>;
          (res, a) = aaf_process_frames E a
      in if res < 0 then (res, a) else aaf_expire E expirations a)"

definition aaf_timer_timeout :: "('p, 'f) aaf_env \<Rightarrow> ('p, 'f) aaf \<Rightarrow> int \<times> ('p, 'f) aaf" where
  "aaf_timer_timeout E a =
     (let expirations = k_expirations E (calls a); ((n, e), a) = sys E a in
      if n < 0 then (- e, a) else aaf_expire E (unat expirations) a)"

definition aaf_pointer :: "('p, 'f) aaf \<Rightarrow> int" where
  "aaf_pointer a = sint (hw_ptr a)"

definition aaf_poll_descriptors_count :: "('p, 'f) aaf \<Rightarrow> nat" where
  "aaf_poll_descriptors_count a = (if io_stream (io a) = PLAYBACK then 1 else 2)"

definition aaf_poll_descriptors :: "('p, 'f) aaf \<Rightarrow> nat \<Rightarrow> int \<times> int list" where
  "aaf_poll_descriptors a space =
     (if io_stream (io a) = PLAYBACK then
        (if space \<noteq> 1 then (- EINVAL, []) else (int space, [timer_fd a]))
      else
        (if space \<noteq> 2 then (- EINVAL, []) else (int space, [timer_fd a, sk_fd a])))"

text \<open>The descriptors' events are their \<open>POLLIN\<close> bits; the last component is \<open>*revents\<close>.\<close>

definition aaf_poll_revents ::
    "('p, 'f) aaf_env \<Rightarrow> ('p, 'f) aaf \<Rightarrow> bool list \<Rightarrow> int \<times> ('p, 'f) aaf \<times> bool" where
  "aaf_poll_revents E a pfd =
     (if io_stream (io a) = PLAYBACK then
        (if length pfd \<noteq> 1 then (- EINVAL, a, False)
         else if pfd ! 0 then
           let (res, a) = aaf_timer_timeout E a in if res < 0 then (res, a, False) else (0, a, True)
         else (0, a, False))
      else if length pfd \<noteq> 2 then (- EINVAL, a, False)
      else
        let (res, a, ev) =
          (if pfd ! 0 then
             let (res, a) = aaf_timer_timeout E a in if res < 0 then (res, a, False) else (0, a, True)
           else (0, a, False))
        in if res < 0 then (res, a, ev)
           else if pfd ! 1 then let (res, a) = aaf_socket_new_data E a in
             if res < 0 then (res, a, ev) else (0, a, ev)
           else (0, a, ev))"

definition aaf_prepare :: "('p, 'f) aaf_env \<Rightarrow> ('p, 'f) aaf \<Rightarrow> 'f list \<Rightarrow> int \<times> ('p, 'f) aaf" where
  "aaf_prepare E a areas =
     (let a = a\<lparr>audiobuf := areas, pdu_seq := 0, hw_ptr := 0, hw_virt_ptr := 0, prev_ptime := 0\<rparr>;
          (res, a) = aaf_mclk_reset E a
      in if res < 0 then (res, a) else (0, a))"

definition aaf_start :: "('p, 'f) aaf_env \<Rightarrow> ('p, 'f) aaf \<Rightarrow> (int \<times> ('p, 'f) aaf) option" where
  "aaf_start E a = do {
     (res, a) \<leftarrow> (if io_stream (io a) = PLAYBACK then Some (aaf_mclk_start_playback E a)
                  else aaf_flush_rx_buf E a);
     Some (if res < 0 then (res, a) else (0, a))
   }"

definition aaf_stop :: "('p, 'f) aaf_env \<Rightarrow> ('p, 'f) aaf \<Rightarrow> int \<times> ('p, 'f) aaf" where
  "aaf_stop E a = (let (res, a) = aaf_mclk_reset E a in if res < 0 then (res, a) else (0, a))"

end
