(* ===== verification/AafLaws.thy ===== *)
theory AafLaws
  imports AafRun
begin

unbundle bit_operations_syntax

section \<open>AAF: what is relied on of alsa-lib, libavtp and the kernel\<close>

text \<open>
  The documented behaviour of the external calls, as named hypotheses: \<open>copy_wrap_ok\<close> for
  alsa-lib's ring copy, \<open>avtp_laws\<close> for libavtp's field accessors (a field reads back what
  was written, cut to the field's width in the IEEE 1722 header, and fields are
  independent), \<open>errno_ok\<close> for the errno of a failed call. \<open>ref_env\<close> is an environment
  that satisfies them, with headers as functions; the witnesses run the model in it.
\<close>

definition copy_wrap_ok :: "('p, 'f) aaf_env \<Rightarrow> bool" where
  "copy_wrap_ok E \<longleftrightarrow> (\<forall>dst doff src soff ch n fmt.
     0 < n \<longrightarrow> doff < length dst \<longrightarrow> soff < length src \<longrightarrow>
     areas_copy_wrap E dst doff (length dst) src soff (length src) ch n fmt
       = (0, ring_write dst doff (ring_read src soff n)))"

lemma copy_wrapD:
  "copy_wrap_ok E \<Longrightarrow> 0 < n \<Longrightarrow> doff < length dst \<Longrightarrow> soff < length src \<Longrightarrow>
   dsize = length dst \<Longrightarrow> ssize = length src \<Longrightarrow>
   areas_copy_wrap E dst doff dsize src soff ssize ch n fmt
     = (0, ring_write dst doff (ring_read src soff n))"
  by (simp add: copy_wrap_ok_def)

fun avtp_width :: "avtp_field \<Rightarrow> nat" where
  "avtp_width FIELD_TV = 1"
| "avtp_width FIELD_STREAM_ID = 64"
| "avtp_width FIELD_FORMAT = 8"
| "avtp_width FIELD_NSR = 4"
| "avtp_width FIELD_CHAN_PER_FRAME = 10"
| "avtp_width FIELD_BIT_DEPTH = 8"
| "avtp_width FIELD_STREAM_DATA_LEN = 16"
| "avtp_width FIELD_SP = 1"
| "avtp_width FIELD_SEQ_NUM = 8"
| "avtp_width FIELD_TIMESTAMP = 32"

definition avtp_laws :: "('p, 'f) aaf_env \<Rightarrow> bool" where
  "avtp_laws E \<longleftrightarrow>
     (\<forall>p. fst (pdu_init E p) = 0
        \<and> common_get E (snd (pdu_init E p)) FIELD_VERSION = (0, 0)
        \<and> common_get E (snd (pdu_init E p)) FIELD_SUBTYPE = (0, avtp_subtype_aaf E))
   \<and> (\<forall>p f v. fst (pdu_set E p f v) = 0
        \<and> pdu_get E (snd (pdu_set E p f v)) f = (0, take_bit (avtp_width f) v))
   \<and> (\<forall>p f v c. common_get E (snd (pdu_set E p f v)) c = common_get E p c)
   \<and> (\<forall>p f v g. g \<noteq> f \<longrightarrow> pdu_get E (snd (pdu_set E p f v)) g = pdu_get E p g)"

lemma avtp_set_ok: "avtp_laws E \<Longrightarrow> fst (pdu_set E p f v) = 0"
  and avtp_get_set: "avtp_laws E \<Longrightarrow> pdu_get E (snd (pdu_set E p f v)) f = (0, take_bit (avtp_width f) v)"
  and avtp_common_set: "avtp_laws E \<Longrightarrow> common_get E (snd (pdu_set E p f v)) c = common_get E p c"
  and avtp_get_set_other: "avtp_laws E \<Longrightarrow> g \<noteq> f \<Longrightarrow> pdu_get E (snd (pdu_set E p f v)) g = pdu_get E p g"
  unfolding avtp_laws_def by blast+

lemmas avtp_rules = avtp_set_ok avtp_get_set avtp_common_set avtp_get_set_other

definition errno_ok :: "('p, 'f) aaf_env \<Rightarrow> bool" where
  "errno_ok E \<longleftrightarrow> (\<forall>n. fst (k_call E n) < 0 \<longrightarrow> 0 < snd (k_call E n))"

subsection \<open>A reference environment\<close>

definition ref_env :: "(nat \<Rightarrow> int \<times> int) \<Rightarrow> u64 \<times> u64 \<Rightarrow> (avtp_field \<Rightarrow> u64) \<times> nat list
    \<Rightarrow> (avtp_field \<Rightarrow> u64, nat) aaf_env" where
  "ref_env kc clk msg =
     \<lparr>avtp_format_code = (\<lambda>f. case f of AVTP_AAF_FORMAT_INT_16BIT \<Rightarrow> 4 | AVTP_AAF_FORMAT_INT_24BIT \<Rightarrow> 3
         | AVTP_AAF_FORMAT_INT_32BIT \<Rightarrow> 2 | AVTP_AAF_FORMAT_FLOAT_32BIT \<Rightarrow> 1 | AVTP_AAF_FORMAT_USER \<Rightarrow> 0),
      avtp_nsr_code = (\<lambda>r. if r = NSR_48KHZ then 5 else 0),
      avtp_sp_normal = 0, avtp_subtype_aaf = 2, avtp_header_size = 24,
      pdu_zero = (\<lambda>_. 0), pdu_init = (\<lambda>p. (0, p)),
      pdu_set = (\<lambda>p f v. (0, p(f := take_bit (avtp_width f) v))),
      pdu_get = (\<lambda>p f. (0, p f)),
      common_get = (\<lambda>p c. (0, if c = FIELD_VERSION then 0 else 2)),
      format_size = (\<lambda>f n. 2 * uint n), format_width = (\<lambda>f. 16),
      frames_to_bytes = (\<lambda>i n. 2 * uint (io_channels i) * uint n),
      hw_avail = (\<lambda>i hw appl. if io_stream i = PLAYBACK then appl - hw else io_buffer_size i - (hw - appl)),
      areas_copy_wrap = (\<lambda>dst doff dsz src soff ssz ch n fmt. (0, ring_write dst doff (ring_read src soff n))),
      sw_boundary = (0, 1024), zero_frame = 0,
      k_call = kc, k_alloc = (\<lambda>_. True), k_clock = (\<lambda>_. clk), k_expirations = (\<lambda>_. 1),
      k_recv = (\<lambda>_. msg)\<rparr>"

lemma ref_env_sel:
  "pdu_init (ref_env kc clk msg) p = (0, p)"
  "pdu_get (ref_env kc clk msg) p f = (0, p f)"
  "pdu_set (ref_env kc clk msg) p f v = (0, p(f := take_bit (avtp_width f) v))"
  "common_get (ref_env kc clk msg) p c = (0, if c = FIELD_VERSION then 0 else 2)"
  "k_call (ref_env kc clk msg) = kc"
  "k_alloc (ref_env kc clk msg) n = True"
  "k_clock (ref_env kc clk msg) n = clk"
  "k_recv (ref_env kc clk msg) n = msg"
  "avtp_sp_normal (ref_env kc clk msg) = 0"
  "avtp_subtype_aaf (ref_env kc clk msg) = 2"
  "avtp_header_size (ref_env kc clk msg) = 24"
  "zero_frame (ref_env kc clk msg) = 0"
  "pdu_zero (ref_env kc clk msg) = (\<lambda>_. 0)"
  "format_size (ref_env kc clk msg) fmt ch = 2 * uint ch"
  "format_width (ref_env kc clk msg) fmt = 16"
  "frames_to_bytes (ref_env kc clk msg) i m = 2 * uint (io_channels i) * uint m"
  "avtp_nsr_code (ref_env kc clk msg) NSR_48KHZ = 5"
  "avtp_format_code (ref_env kc clk msg) AVTP_AAF_FORMAT_INT_16BIT = 4"
  by (simp_all add: ref_env_def)

lemma ref_env_copy_wrap: "copy_wrap_ok (ref_env kc clk msg)"
  by (simp add: copy_wrap_ok_def ref_env_def)

lemma ref_env_avtp: "avtp_laws (ref_env kc clk msg)"
  by (simp add: avtp_laws_def ref_env_sel)

definition demo_io :: "pcm_stream \<Rightarrow> ioplug" where
  "demo_io s = \<lparr>io_stream = s, io_state = STATE_RUNNING, io_format = FORMAT_S16_BE, io_rate = 48000,
     io_channels = 2, io_period_size = 4, io_buffer_size = 8, io_appl_ptr = 6\<rparr>"

definition demo_aaf :: "pcm_stream \<Rightarrow> u64 \<Rightarrow> nat list \<Rightarrow> (avtp_field \<Rightarrow> u64, nat) aaf" where
  "demo_aaf s fpp buf =
     \<lparr>io = demo_io s, ifname = ''eth0'', addr = [1, 170, 170, 170, 170, 170], prio = 3, streamid = 7,
      mtt = 2000000, t_uncertainty = 125000, frames_per_pdu = fpp, ptime_tolerance = 100000,
      sk_fd = - 1, timer_fd = - 1, pdu = (\<lambda>_. 0), payload = replicate (unat fpp) 0, pdu_size = 32,
      pdu_seq = 0, cmsg_txtime = 0, timer_starttime = 0, timer_period = 0, timer_expirations = 0,
      audiobuf = buf, payload_areas = [], hw_ptr = 0, hw_virt_ptr = 0, boundary = 1024,
      prev_ptime = 0, pdu_period = 41666, calls = 0, wire = [], armed = None, held = {}\<rparr>"

lemmas demo_defs = demo_aaf_def demo_io_def

end
