(* ===== verification/AafClock.thy ===== *)
theory AafClock
  imports AafLaws
begin

unbundle bit_operations_syntax

section \<open>AAF: arithmetic of pointers and presentation times\<close>

text \<open>
  The numeric core of the listener and of the pointers: \<open>aaf_inc_ptr\<close> is addition modulo
  the boundary, the capture clock recovers the talker's 64-bit presentation time from the 32
  bits a packet carries, and \<open>is_ptime_valid\<close> accepts exactly the times within the tolerance,
  as long as the packet's time lies in the same 32-bit epoch as the expected one.
\<close>

lemma high_half: "(now :: u64) AND 0xFFFFFFFF00000000 = push_bit 32 (drop_bit 32 now)"
proof -
  have eq: "(0xFFFFFFFF00000000 :: u64) = NOT (mask 32)" by (simp add: mask_eq_exp_minus_1)
  show ?thesis unfolding eq
    by (rule bit_word_eqI) (auto simp: bit_simps)
qed

lemma unat_high_or_low [word_nat]:
  fixes now :: u64 and lo :: u32
  shows "unat ((now AND 0xFFFFFFFF00000000) OR ucast lo) = unat now div 2 ^ 32 * 2 ^ 32 + unat lo"
proof -
  let ?h = "push_bit 32 (drop_bit 32 now)" and ?l = "ucast lo :: u64"
  have "?h AND ?l = 0"
  proof (rule bit_word_eqI)
    fix n
    show "bit (?h AND ?l) n \<longleftrightarrow> bit (0 :: u64) n"
      using bit_imp_le_length [of lo n] by (auto simp: bit_simps)
  qed
  then have or: "?h OR ?l = ?h + ?l" by (simp add: disjunctive_add_eq_or)
  have h: "unat ?h = unat now div 2 ^ 32 * 2 ^ 32"
  proof -
    have n: "unat now < 2 ^ 64" using unat_u64_lt [of now] by simp
    then have b: "unat now div 2 ^ 32 * 2 ^ 32 < 2 ^ 64"
      by (meson div_times_less_eq_dividend le_less_trans)
    have "take_bit 64 (unat now) = unat now" using n by (simp add: take_bit_nat_eq_self)
    moreover have "take_bit 64 (unat now div 2 ^ 32 * 2 ^ 32) = unat now div 2 ^ 32 * 2 ^ 32"
      using b by (rule take_bit_nat_eq_self)
    ultimately show ?thesis
      by (simp only: unsigned_push_bit_eq unsigned_drop_bit_eq)
        (simp add: drop_bit_eq_div push_bit_eq_mult)
  qed
  have l: "unat ?l = unat lo" by (rule word_nat)
  have "unat now div 2 ^ 32 * 2 ^ 32 + unat lo < 2 ^ 64"
  proof -
    have "unat now div 2 ^ 32 < 2 ^ 32" using unat_u64_lt [of now] by simp
    then show ?thesis using unat_u32_lt [of lo] by simp
  qed
  then show ?thesis unfolding high_half or
    using unat_plus_u64 [of ?h ?l] by (simp only: h l)
qed

lemma epoch_cases:
  fixes n m b :: nat
  assumes "0 < b" "n \<le> m" "m < n + b"
  shows "m div b = n div b \<or> m div b = Suc (n div b)"
proof -
  have "n div b \<le> m div b" using assms by (simp add: div_le_mono)
  moreover have "m div b \<le> (n + b) div b" using assms by (intro div_le_mono) simp
  moreover have "(n + b) div b = Suc (n div b)" using div_add_self2 [of b n] assms(1) by simp
  ultimately show ?thesis by linarith
qed

lemma recover_epoch:
  fixes n m b :: nat
  assumes "0 < b" "n \<le> m" "m < n + b" and p: "p = n div b * b + m mod b"
  shows "(if p < n then p + b else p) = m"
proof -
  have m: "m = m div b * b + m mod b" by simp
  have n: "n < n div b * b + b" using assms(1) by (metis div_mult_mod_eq mod_less_divisor nat_add_left_cancel_less)
  from epoch_cases [OF assms(1-3)] show ?thesis
  proof
    assume "m div b = n div b"
    then have "p = m" using p m by simp
    then show ?thesis using assms(2) by simp
  next
    assume "m div b = Suc (n div b)"
    then have "m = p + b" using p m by simp
    then show ?thesis using assms(3) by simp
  qed
qed

lemma recover_ptime_exact:
  assumes "unat now \<le> unat t" "unat t < unat now + 2 ^ 32"
  shows "recover_ptime now (ucast t) = t"
proof -
  let ?p = "(now AND 0xFFFFFFFF00000000) OR ucast (ucast t :: u32) :: u64"
  have p: "unat ?p = unat now div 2 ^ 32 * 2 ^ 32 + unat t mod 2 ^ 32"
    by (simp only: word_nat)
  have r: "(if unat ?p < unat now then unat ?p + 2 ^ 32 else unat ?p) = unat t"
    using recover_epoch [OF _ assms p] by simp
  have one: "unat (push_bit 32 1 :: u64) = 2 ^ 32" by simp
  show ?thesis
  proof (cases "?p < now")
    case True
    then have "unat ?p + 2 ^ 32 = unat t" using r by (simp add: word_less_nat_alt)
    then have "unat (?p + push_bit 32 1) = unat t"
      using one unat_u64_lt [of t] unat_plus_u64 [of ?p "push_bit 32 1"] by simp
    then show ?thesis using True by (simp add: recover_ptime_def Let_def word_unat_eq_iff)
  next
    case False
    then show ?thesis using r
      by (simp add: recover_ptime_def Let_def word_unat_eq_iff word_less_nat_alt)
  qed
qed

lemma aaf_inc_ptr_spec:
  assumes "ptr \<le> bound" "val \<le> bound" "unat bound < 2 ^ 63"
  shows "unat (aaf_inc_ptr ptr val bound) =
      (if unat ptr + unat val > unat bound then unat ptr + unat val - unat bound
       else unat ptr + unat val)"
proof -
  have "unat (ptr + val) = unat ptr + unat val"
    using assms by (intro word_nat) (simp add: word_le_nat_alt)
  then show ?thesis
    by (auto simp: aaf_inc_ptr_def Let_def word_less_nat_alt word_le_nat_alt unat_sub)
qed


subsection \<open>The listener's check of a presentation time\<close>

definition exp_ptime :: "('p, 'f) aaf \<Rightarrow> u64" where
  "exp_ptime a = prev_ptime a + word_of_int (pdu_period a)"

definition tolerance_fits :: "('p, 'f) aaf \<Rightarrow> bool" where
  "tolerance_fits a \<longleftrightarrow> 0 \<le> ptime_tolerance a \<and> ptime_tolerance a < 2 ^ 31
     \<and> nat (ptime_tolerance a) \<le> unat (exp_ptime a)
     \<and> unat (exp_ptime a) + nat (ptime_tolerance a) < 2 ^ 64"

lemma is_ptime_valid_unfold:
  fixes t :: u64
  assumes "tolerance_fits a"
    and p: "p = unat (exp_ptime a) div 2 ^ 32 * 2 ^ 32 + unat t mod 2 ^ 32"
  shows "is_ptime_valid a (ucast t) =
     (if p < unat (exp_ptime a) - nat (ptime_tolerance a)
         \<or> p > unat (exp_ptime a) + nat (ptime_tolerance a) \<or> p < unat (aaf_mclk_gettime a)
      then (False, a) else (True, a\<lparr>prev_ptime := word_of_nat p\<rparr>))"
proof -
  let ?e = "exp_ptime a" and ?T = "word_of_int (ptime_tolerance a) :: u64"
  let ?p = "(?e AND 0xFFFFFFFF00000000) OR ucast (ucast t :: u32) :: u64"
  have T: "unat ?T = nat (ptime_tolerance a)"
    using assms(1) by (intro word_nat) (auto simp: tolerance_fits_def)
  have lo: "unat (?e - ?T) = unat ?e - nat (ptime_tolerance a)"
    using assms(1) T unat_minus_u64 [of ?T ?e] by (simp add: tolerance_fits_def)
  have hi: "unat (?e + ?T) = unat ?e + nat (ptime_tolerance a)"
    using assms(1) T unat_plus_u64 [of ?e ?T] by (simp add: tolerance_fits_def)
  have p': "unat ?p = p" by (simp only: word_nat p)
  then have "word_of_nat p = ?p" by (metis of_nat_unat ucast_id)
  then show ?thesis
    unfolding is_ptime_valid_def Let_def exp_ptime_def [symmetric]
    by (simp only: word_less_nat_alt lo hi p' if_bool_eq_conj) auto
qed

text \<open>
  in the 32-bit epoch of the expected time, \<open>is_ptime_valid\<close> accepts a packet exactly if
  its presentation time \<open>t\<close> lies within the tolerance of the expected one and not before the
  media clock; it then takes \<open>t\<close> as the new reference and otherwise changes nothing.
\<close>

theorem is_ptime_valid_same_epoch:
  fixes t :: u64
  assumes "tolerance_fits a" and "unat t div 2 ^ 32 = unat (exp_ptime a) div 2 ^ 32"
  shows "is_ptime_valid a (ucast t) =
     (if unat (exp_ptime a) - nat (ptime_tolerance a) \<le> unat t
         \<and> unat t \<le> unat (exp_ptime a) + nat (ptime_tolerance a) \<and> aaf_mclk_gettime a \<le> t
      then (True, a\<lparr>prev_ptime := t\<rparr>) else (False, a))"
proof -
  have "unat t = unat (exp_ptime a) div 2 ^ 32 * 2 ^ 32 + unat t mod 2 ^ 32"
    unfolding assms(2) [symmetric] by simp
  from is_ptime_valid_unfold [OF assms(1) this] show ?thesis
    by (auto simp: word_le_nat_alt not_less)
qed

theorem is_ptime_valid_same_epoch_witness:
  "is_ptime_valid ((demo_aaf CAPTURE 2 [])\<lparr>prev_ptime := 1000000\<rparr>) (ucast (1041700 :: u64))
     = (True, (demo_aaf CAPTURE 2 [])\<lparr>prev_ptime := 1041700\<rparr>)"
proof -
  let ?a = "(demo_aaf CAPTURE 2 [])\<lparr>prev_ptime := 1000000\<rparr>"
  have "tolerance_fits ?a" "unat (1041700 :: u64) div 2 ^ 32 = unat (exp_ptime ?a) div 2 ^ 32"
    by (simp_all add: tolerance_fits_def exp_ptime_def demo_defs)
  from is_ptime_valid_same_epoch [OF this] show ?thesis
    by (simp add: exp_ptime_def aaf_mclk_gettime_def demo_defs)
qed

text \<open>
  across an epoch boundary the same check rejects every packet that is within the
  tolerance: the upper half of the expected time is combined with the lower half of the
  packet's, which puts the time \<open>2 ^ 32\<close> nanoseconds away.
\<close>

theorem is_ptime_valid_other_epoch:
  fixes t :: u64
  assumes "tolerance_fits a" and "unat t div 2 ^ 32 \<noteq> unat (exp_ptime a) div 2 ^ 32"
    and "unat (exp_ptime a) - nat (ptime_tolerance a) \<le> unat t"
    and "unat t \<le> unat (exp_ptime a) + nat (ptime_tolerance a)"
  shows "is_ptime_valid a (ucast t) = (False, a)"
proof -
  define e where "e = unat (exp_ptime a)"
  define tol where "tol = nat (ptime_tolerance a)"
  define B :: nat where "B = 2 ^ 32"
  have tol: "2 * tol < B" using assms(1) by (auto simp: tolerance_fits_def tol_def B_def)
  have B: "0 < B" by (simp add: B_def)
  let ?p = "e div B * B + unat t mod B"
  have t: "unat t = unat t div B * B + unat t mod B" by simp
  have "?p < e - tol \<or> ?p > e + tol"
  proof (cases "e \<le> unat t")
    case True
    then have "unat t div B = Suc (e div B)"
      using epoch_cases [of B e "unat t"] assms(2,4) tol B by (auto simp: B_def e_def tol_def)
    then have "unat t = ?p + B" using t by simp
    then show ?thesis using assms(4) tol by (simp add: e_def tol_def)
  next
    case False
    then have "e div B = Suc (unat t div B)"
      using epoch_cases [of B "unat t" e] assms(2,3) tol B by (auto simp: B_def e_def tol_def)
    then have "?p = unat t + B" using t by simp
    then show ?thesis using assms(3) tol False by (simp add: e_def tol_def)
  qed
  then show ?thesis
    using is_ptime_valid_unfold [OF assms(1) refl, of t] by (auto simp: B_def e_def tol_def)
qed

text \<open>Expected 4294967290, received 4294967300, tolerance 100 microseconds: rejected.\<close>

theorem is_ptime_valid_other_epoch_witness:
  "is_ptime_valid ((demo_aaf CAPTURE 2 [])\<lparr>prev_ptime := 4294925624\<rparr>) (ucast (4294967300 :: u64))
     = (False, (demo_aaf CAPTURE 2 [])\<lparr>prev_ptime := 4294925624\<rparr>)"
proof -
  let ?a = "(demo_aaf CAPTURE 2 [])\<lparr>prev_ptime := 4294925624\<rparr>"
  have "tolerance_fits ?a" "unat (4294967300 :: u64) div 2 ^ 32 \<noteq> unat (exp_ptime ?a) div 2 ^ 32"
    "unat (exp_ptime ?a) - nat (ptime_tolerance ?a) \<le> unat (4294967300 :: u64)"
    "unat (4294967300 :: u64) \<le> unat (exp_ptime ?a) + nat (ptime_tolerance ?a)"
    by (simp_all add: tolerance_fits_def exp_ptime_def demo_defs)
  from is_ptime_valid_other_epoch [OF this] show ?thesis .
qed

end
