(* ===== verification/AafTalker.thy ===== *)
theory AafTalker
  imports AafClock AafLaws
begin

unbundle bit_operations_syntax

section \<open>AAF: what the talker puts on the wire\<close>

text \<open>
  Under the laws of \<open>AafLaws\<close> one timer expiration in playback sends exactly the frames of one
  period, once and in order, with consecutive sequence numbers and evenly spaced times; on
  every failure the pointer stays where it was.
\<close>

definition buffers_ok :: "('p, 'f) aaf \<Rightarrow> bool" where
  "buffers_ok a \<longleftrightarrow> 0 < unat (frames_per_pdu a) \<and> length (payload a) = unat (frames_per_pdu a)
     \<and> 0 < unat (io_buffer_size (io a)) \<and> length (audiobuf a) = unat (io_buffer_size (io a))"

text \<open>The header of the next packet: sequence number and timestamp written into the last one.\<close>

definition stamp :: "('p, 'f) aaf_env \<Rightarrow> 'p \<Rightarrow> u8 \<Rightarrow> u64 \<Rightarrow> 'p" where
  "stamp E p s ptime =
     snd (pdu_set E (snd (pdu_set E p FIELD_SEQ_NUM (ucast s))) FIELD_TIMESTAMP ptime)"

lemma stamp_timestamp: "avtp_laws E \<Longrightarrow> pdu_get E (stamp E p s t) FIELD_TIMESTAMP = (0, take_bit 32 t)"
  by (simp add: stamp_def avtp_get_set)

lemma take_bit_ucast8: "take_bit 8 (ucast (s :: u8) :: u64) = ucast s"
  by (rule bit_word_eqI) (auto simp: bit_simps dest: bit_imp_le_length)

lemma stamp_seq: "avtp_laws E \<Longrightarrow> pdu_get E (stamp E p s t) FIELD_SEQ_NUM = (0, ucast s)"
  by (simp add: stamp_def avtp_get_set avtp_get_set_other take_bit_ucast8)

lemma stamp_other: "avtp_laws E \<Longrightarrow> f \<noteq> FIELD_SEQ_NUM \<Longrightarrow> f \<noteq> FIELD_TIMESTAMP \<Longrightarrow>
    pdu_get E (stamp E p s t) f = pdu_get E p f"
  by (simp add: stamp_def avtp_get_set_other)

lemma stamp_common: "avtp_laws E \<Longrightarrow> common_get E (stamp E p s t) c = common_get E p c"
  by (simp add: stamp_def avtp_common_set)

lemmas stamp_simps = stamp_timestamp stamp_seq stamp_other stamp_common

subsection \<open>One packet\<close>

lemma aaf_tx_pdu_eq:
  assumes "copy_wrap_ok E" "avtp_laws E" "buffers_ok a"
  shows "aaf_tx_pdu E a ptr ptime txtime =
    (let chunk = ring_read (audiobuf a) (unat ptr) (unat (frames_per_pdu a));
         p = stamp E (pdu a) (pdu_seq a) ptime; n = fst (k_call E (calls a));
         a' = a\<lparr>cmsg_txtime := txtime, payload := chunk, pdu := p, pdu_seq := pdu_seq a + 1,
                calls := Suc (calls a)\<rparr>
     in if n < 0 \<or> n \<noteq> pdu_size a then (- EIO, a')
        else (0, a'\<lparr>wire := wire a @ [(txtime, p, chunk)]\<rparr>))"
proof -
  let ?bs = "io_buffer_size (io a)" and ?m = "unat (frames_per_pdu a)"
  have m: "unat (ptr mod ?bs) = unat ptr mod length (audiobuf a)"
    using assms(3) by (simp add: buffers_ok_def unat_mod)
  have c: "areas_copy_wrap E (payload a) 0 ?m (audiobuf a)
      (unat (ptr mod ?bs)) (unat ?bs) (io_channels (io a)) ?m (io_format (io a))
    = (0, ring_read (audiobuf a) (unat ptr) ?m)"
    using assms(3) m
    by (subst copy_wrapD [OF assms(1)]) (auto simp: buffers_ok_def ring_read_mod ring_write_full)
  obtain r1 p1 where s1: "pdu_set E (pdu a) FIELD_SEQ_NUM (ucast (pdu_seq a)) = (r1, p1)" by fastforce
  obtain r2 p2 where s2: "pdu_set E p1 FIELD_TIMESTAMP ptime = (r2, p2)" by fastforce
  have r: "r1 = 0" "r2 = 0"
    using avtp_set_ok [OF assms(2)] s1 s2 by (metis fst_conv)+
  have "stamp E (pdu a) (pdu_seq a) ptime = p2" by (simp add: stamp_def s1 s2)
  then show ?thesis
    by (simp add: aaf_tx_pdu_def c s1 s2 r sys_def Let_def case_prod_beta)
qed

subsection \<open>A burst of packets\<close>

fun burst :: "('p, 'f) aaf_env \<Rightarrow> nat \<Rightarrow> 'f list \<Rightarrow> nat \<Rightarrow> u64 \<Rightarrow> 'p \<Rightarrow> u8 \<Rightarrow> nat \<Rightarrow> u64 \<Rightarrow> u64
    \<Rightarrow> (u64 \<times> 'p \<times> 'f list) list" where
  "burst E 0 buf m per p s off ptime txtime = []"
| "burst E (Suc n) buf m per p s off ptime txtime =
     (txtime, stamp E p s ptime, ring_read buf off m)
       # burst E n buf m per (stamp E p s ptime) (s + 1) (off + m) (ptime + per) (txtime + per)"

lemma length_burst [simp]: "length (burst E n buf m per p s off ptime txtime) = n"
  by (induction n arbitrary: p s off ptime txtime) auto

lemma burst_payloads:
  "concat (map (snd \<circ> snd) (burst E n buf m per p s off ptime txtime)) = ring_read buf off (n * m)"
  by (induction n arbitrary: p s off ptime txtime) (auto simp: ring_read_add)

lemma burst_times:
  "i < n \<Longrightarrow> fst (burst E n buf m per p s off ptime txtime ! i) = txtime + of_nat i * per"
proof (induction n arbitrary: i p s off ptime txtime)
  case (Suc n)
  then show ?case by (cases i) (simp_all add: algebra_simps)
qed simp

lemma burst_headers:
  assumes "avtp_laws E" "i < n" and "q = fst (snd (burst E n buf m per p s off ptime txtime ! i))"
  shows "pdu_get E q FIELD_SEQ_NUM = (0, ucast (s + of_nat i))"
    and "pdu_get E q FIELD_TIMESTAMP = (0, take_bit 32 (ptime + of_nat i * per))"
    and "\<And>f. f \<noteq> FIELD_SEQ_NUM \<Longrightarrow> f \<noteq> FIELD_TIMESTAMP \<Longrightarrow> pdu_get E q f = pdu_get E p f"
    and "\<And>c. common_get E q c = common_get E p c"
  unfolding assms(3) using assms(2)
  by (induction n arbitrary: i p s off ptime txtime)
    (auto simp: stamp_simps [OF assms(1)] less_Suc_eq_0_disj algebra_simps)

text \<open>The kernel accepts the next \<open>n\<close> packets whole.\<close>

definition sends_ok :: "('p, 'f) aaf_env \<Rightarrow> nat \<Rightarrow> ('p, 'f) aaf \<Rightarrow> bool" where
  "sends_ok E n a \<longleftrightarrow> 0 \<le> pdu_size a \<and> (\<forall>i < n. fst (k_call E (calls a + i)) = pdu_size a)"

definition same_talker :: "('p, 'f) aaf \<Rightarrow> ('p, 'f) aaf \<Rightarrow> bool" where
  "same_talker a b \<longleftrightarrow> io b = io a \<and> audiobuf b = audiobuf a \<and> hw_ptr b = hw_ptr a
     \<and> hw_virt_ptr b = hw_virt_ptr a \<and> boundary b = boundary a \<and> frames_per_pdu b = frames_per_pdu a
     \<and> pdu_period b = pdu_period a \<and> timer_expirations b = timer_expirations a
     \<and> length (payload b) = length (payload a) \<and> held b = held a"

lemma aaf_tx_loop_burst:
  assumes "copy_wrap_ok E" "avtp_laws E" "buffers_ok a" "sends_ok E n a"
    and "unat ptr + n * unat (frames_per_pdu a) < 2 ^ 64"
  shows "\<exists>b. aaf_tx_loop E n a ptr ptime txtime = (0, b) \<and> same_talker a b
    \<and> wire b = wire a @ burst E n (audiobuf a) (unat (frames_per_pdu a))
        (word_of_int (pdu_period a)) (pdu a) (pdu_seq a) (unat ptr) ptime txtime"
  using assms(3-5)
proof (induction n arbitrary: a ptr ptime txtime)
  case 0
  then show ?case by (simp add: same_talker_def)
next
  case (Suc n)
  let ?m = "unat (frames_per_pdu a)"
  have n: "\<not> fst (k_call E (calls a)) < 0" "fst (k_call E (calls a)) = pdu_size a"
    using Suc.prems(2) by (auto simp: sends_ok_def)
  let ?p = "stamp E (pdu a) (pdu_seq a) ptime" and ?c = "ring_read (audiobuf a) (unat ptr) ?m"
  let ?a = "a\<lparr>cmsg_txtime := txtime, payload := ?c, pdu := ?p, pdu_seq := pdu_seq a + 1,
      calls := Suc (calls a), wire := wire a @ [(txtime, ?p, ?c)]\<rparr>"
  have step: "aaf_tx_pdu E a ptr ptime txtime = (0, ?a)"
    using n by (simp add: aaf_tx_pdu_eq [OF assms(1,2) Suc.prems(1)] Let_def)
  have u: "unat (ptr + frames_per_pdu a) = unat ptr + ?m"
    using Suc.prems(3) by (intro word_nat) simp
  have "fst (k_call E (Suc (calls a + i))) = pdu_size a" if "i < n" for i
    using Suc.prems(2) that unfolding sends_ok_def by (metis Suc_less_eq add_Suc_right)
  then have "sends_ok E n ?a" using Suc.prems(2) by (auto simp: sends_ok_def)
  moreover have "buffers_ok ?a" using Suc.prems(1) by (simp add: buffers_ok_def)
  moreover have "unat (ptr + frames_per_pdu a) + n * unat (frames_per_pdu ?a) < 2 ^ 64"
    using Suc.prems(3) u by simp
  ultimately obtain b where "aaf_tx_loop E n ?a (ptr + frames_per_pdu a)
        (ptime + word_of_int (pdu_period a)) (txtime + word_of_int (pdu_period a)) = (0, b)"
    and "same_talker ?a b"
    and "wire b = wire ?a @ burst E n (audiobuf a) ?m (word_of_int (pdu_period a)) ?p
        (pdu_seq a + 1) (unat ptr + ?m) (ptime + word_of_int (pdu_period a))
        (txtime + word_of_int (pdu_period a))"
    using Suc.IH [of ?a "ptr + frames_per_pdu a" "ptime + word_of_int (pdu_period a)"
        "txtime + word_of_int (pdu_period a)"] u by auto
  then show ?case
    using Suc.prems(1) by (auto simp: step same_talker_def buffers_ok_def)
qed

subsection \<open>One period\<close>

text \<open>
  C1: a timer expiration of the talker with a full period available sends
  \<open>period_size / frames_per_pdu\<close> packets whose payloads, joined, are exactly the frames of the
  period at \<open>hw_ptr\<close> of the ring; packet \<open>i\<close> carries sequence number \<open>pdu_seq + i\<close>, its
  transmission time is \<open>i\<close> packet periods after the media clock plus the uncertainty and its
  timestamp lies the transit time later; the pointer then moves by one period.
\<close>

theorem aaf_tx_frames_period:
  assumes "copy_wrap_ok E" "avtp_laws E" "buffers_ok a"
    and avail: "io_period_size (io a) \<le> hw_avail E (io a) (hw_ptr a) (io_appl_ptr (io a))"
    and mult: "unat (frames_per_pdu a) * unat (k :: u64) = unat (io_period_size (io a))"
      "unat k < 2 ^ 32"
    and room: "unat (hw_ptr a) + unat (io_period_size (io a)) < 2 ^ 64"
    and sends: "sends_ok E (unat k) a"
  shows "\<exists>b new. aaf_tx_frames E a = (0, b) \<and> wire b = wire a @ new \<and> length new = unat k
    \<and> concat (map (snd \<circ> snd) new)
        = ring_read (audiobuf a) (unat (hw_ptr a)) (unat (io_period_size (io a)))
    \<and> (\<forall>i < unat k. fst (new ! i) = aaf_mclk_gettime a + word_of_int (t_uncertainty a)
          + of_nat i * word_of_int (pdu_period a)
        \<and> pdu_get E (fst (snd (new ! i))) FIELD_SEQ_NUM = (0, ucast (pdu_seq a + of_nat i))
        \<and> pdu_get E (fst (snd (new ! i))) FIELD_TIMESTAMP
            = (0, take_bit 32 (fst (new ! i) + word_of_int (mtt a))))
    \<and> hw_ptr b = aaf_inc_ptr (hw_ptr a) (io_period_size (io a)) (boundary a)"
proof -
  let ?m = "unat (frames_per_pdu a)" and ?per = "word_of_int (pdu_period a) :: u64"
  let ?tx = "aaf_mclk_gettime a + word_of_int (t_uncertainty a)"
  let ?new = "burst E (unat k) (audiobuf a) ?m ?per (pdu a) (pdu_seq a) (unat (hw_ptr a))
      (?tx + word_of_int (mtt a)) ?tx"
  have m: "0 < ?m" using assms(3) by (simp add: buffers_ok_def)
  have div: "io_period_size (io a) div frames_per_pdu a = k"
    using m mult(1) by (simp add: word_unat_eq_iff unat_div flip: mult(1))
  have cnt: "unat (ucast k :: u32) = unat k" using mult(2) by (simp add: unat_ucast_64_32)
  have room': "unat (hw_ptr a) + unat k * ?m < 2 ^ 64"
    using room by (simp only: mult(1) [symmetric] mult.commute)
  obtain b where b: "aaf_tx_loop E (unat k) a (hw_ptr a) (?tx + word_of_int (mtt a)) ?tx = (0, b)"
      "same_talker a b" "wire b = wire a @ ?new"
    using aaf_tx_loop_burst [OF assms(1-3) sends room'] by blast
  let ?b = "b\<lparr>hw_ptr := aaf_inc_ptr (hw_ptr a) (io_period_size (io a)) (boundary a)\<rparr>"
  have "aaf_tx_frames E a = (0, ?b)"
    using b(1,2) avail
    by (auto simp: aaf_tx_frames_def aaf_tx_pdus_def div cnt Let_def same_talker_def not_less)
  moreover have "concat (map (snd \<circ> snd) ?new)
      = ring_read (audiobuf a) (unat (hw_ptr a)) (unat (io_period_size (io a)))"
    by (simp only: burst_payloads mult(1) [symmetric] mult.commute)
  moreover have "pdu_get E (fst (snd (?new ! i))) FIELD_SEQ_NUM = (0, ucast (pdu_seq a + of_nat i))
      \<and> pdu_get E (fst (snd (?new ! i))) FIELD_TIMESTAMP
          = (0, take_bit 32 (fst (?new ! i) + word_of_int (mtt a)))"
    if "i < unat k" for i
    using burst_headers(1,2) [OF assms(2) that refl]
    by (simp add: burst_times [OF that]) (simp add: algebra_simps)
  ultimately show ?thesis
    using b(3) by (intro exI [of _ ?b] exI [of _ ?new]) (simp add: burst_times)
qed

text \<open>One period of four frames in two packets, from a ring of eight.\<close>

theorem aaf_tx_frames_period_witness:
  "\<exists>b new. aaf_tx_frames (ref_env (\<lambda>_. (32, 0)) (0, 0) (\<lambda>_. 0, []))
        (demo_aaf PLAYBACK 2 [10, 11, 12, 13, 14, 15, 16, 17]) = (0, b)
    \<and> wire b = new \<and> length new = 2 \<and> concat (map (snd \<circ> snd) new) = [10, 11, 12, 13] \<and> hw_ptr b = 4"
proof -
  let ?E = "ref_env (\<lambda>_. (32, 0)) (0, 0) (\<lambda>_. 0, [])"
  let ?a = "demo_aaf PLAYBACK 2 [10, 11, 12, 13, 14, 15, 16, 17]"
  have "buffers_ok ?a" by (simp add: buffers_ok_def demo_defs)
  moreover have "io_period_size (io ?a) \<le> hw_avail ?E (io ?a) (hw_ptr ?a) (io_appl_ptr (io ?a))"
    by (simp add: demo_defs ref_env_def)
  moreover have "sends_ok ?E (unat (2 :: u64)) ?a"
    by (simp add: sends_ok_def demo_defs ref_env_sel)
  moreover have "unat (frames_per_pdu ?a) * unat (2 :: u64) = unat (io_period_size (io ?a))"
    "unat (2 :: u64) < 2 ^ 32" "unat (hw_ptr ?a) + unat (io_period_size (io ?a)) < 2 ^ 64"
    by (simp_all add: demo_defs)
  ultimately obtain b new where "aaf_tx_frames ?E ?a = (0, b)" "wire b = wire ?a @ new"
    "length new = unat (2 :: u64)"
    "concat (map (snd \<circ> snd) new)
        = ring_read (audiobuf ?a) (unat (hw_ptr ?a)) (unat (io_period_size (io ?a)))"
    "hw_ptr b = aaf_inc_ptr (hw_ptr ?a) (io_period_size (io ?a)) (boundary ?a)"
    using aaf_tx_frames_period [OF ref_env_copy_wrap ref_env_avtp, where a = ?a and k = 2] by metis
  moreover have "ring_read (audiobuf ?a) (unat (hw_ptr ?a)) (unat (io_period_size (io ?a)))
      = [10, 11, 12, 13]" by code_simp
  moreover have "aaf_inc_ptr (hw_ptr ?a) (io_period_size (io ?a)) (boundary ?a) = 4" by code_simp
  moreover have "wire ?a = []" by (simp add: demo_defs)
  ultimately show ?thesis by (intro exI [of _ b] exI [of _ new]) simp
qed

subsection \<open>Failures\<close>

lemma aaf_tx_pdu_frame:
  "aaf_tx_pdu E a ptr ptime txtime = (res, b) \<Longrightarrow>
     hw_ptr b = hw_ptr a \<and> io b = io a \<and> boundary b = boundary a \<and> frames_per_pdu b = frames_per_pdu a
     \<and> res \<le> 0 \<and> (if res < 0 then wire b = wire a else \<exists>m. wire b = wire a @ [m])"
  by (auto simp: aaf_tx_pdu_def sys_def Let_def case_prod_beta split: if_splits)

lemma aaf_tx_loop_frame:
  "aaf_tx_loop E n a ptr ptime txtime = (res, b) \<Longrightarrow>
     hw_ptr b = hw_ptr a \<and> io b = io a \<and> boundary b = boundary a \<and> res \<le> 0
     \<and> (\<exists>new. wire b = wire a @ new \<and> (if res < 0 then length new < n else length new = n))"
proof (induction n arbitrary: a ptr ptime txtime)
  case 0
  then show ?case by auto
next
  case (Suc n)
  obtain r c where c: "aaf_tx_pdu E a ptr ptime txtime = (r, c)" by fastforce
  note f = aaf_tx_pdu_frame [OF c]
  show ?case
  proof (cases "r < 0")
    case True
    then show ?thesis using Suc.prems c f by auto
  next
    case False
    then have "aaf_tx_loop E n c (ptr + frames_per_pdu c) (ptime + word_of_int (pdu_period c))
        (txtime + word_of_int (pdu_period c)) = (res, b)" using Suc.prems c by simp
    from Suc.IH [OF this] f False show ?thesis by (auto split: if_splits)
  qed
qed

text \<open>
  C27: a failed timer expiration of the talker (underrun, a failing copy, a failing field
  access or a short \<open>sendmsg\<close>) leaves \<open>hw_ptr\<close> where it was, whatever the environment
  does, and the packets that reached the wire before it are fewer than the period's; only
  success moves the pointer, by one period.
\<close>

theorem aaf_tx_frames_failure:
  assumes "aaf_tx_frames E a = (res, b)"
  shows "\<exists>new. wire b = wire a @ new \<and>
    (if res < 0
     then hw_ptr b = hw_ptr a \<and> (new = []
        \<or> length new < unat (ucast (io_period_size (io a) div frames_per_pdu a) :: u32))
     else res = 0 \<and> hw_ptr b = aaf_inc_ptr (hw_ptr a) (io_period_size (io a)) (boundary a)
        \<and> length new = unat (ucast (io_period_size (io a) div frames_per_pdu a) :: u32))"
proof (cases "hw_avail E (io a) (hw_ptr a) (io_appl_ptr (io a)) < io_period_size (io a)")
  case True
  then show ?thesis using assms by (auto simp: aaf_tx_frames_def)
next
  case False
  obtain r c where c: "aaf_tx_pdus E a (ucast (io_period_size (io a) div frames_per_pdu a)) = (r, c)"
    by fastforce
  from aaf_tx_loop_frame [OF c [unfolded aaf_tx_pdus_def Let_def]]
  show ?thesis using assms False c by (auto simp: aaf_tx_frames_def split: if_splits)
qed

theorem aaf_tx_frames_failure_witness:
  "\<exists>new b. aaf_tx_frames (ref_env (\<lambda>_. (- 1, 5)) (0, 0) (\<lambda>_. 0, []))
      (demo_aaf PLAYBACK 2 [0, 0, 0, 0, 0, 0, 0, 0]) = (- EIO, b) \<and> hw_ptr b = 0 \<and> new = wire b"
proof -
  let ?E = "ref_env (\<lambda>_. (- 1, 5)) (0, 0) (\<lambda>_. 0, [])"
  let ?a = "demo_aaf PLAYBACK 2 [0, 0, 0, 0, 0, 0, 0, 0]"
  have "fst (aaf_tx_frames ?E ?a) = - EIO" by code_simp
  then obtain b where b: "aaf_tx_frames ?E ?a = (- EIO, b)" by (metis prod.collapse)
  from aaf_tx_frames_failure [OF b] have "hw_ptr b = hw_ptr ?a" by auto
  then show ?thesis using b by (auto simp: demo_defs)
qed

end
