(* ===== verification/AafListener.thy ===== *)
theory AafListener
  imports AafTalker
begin

unbundle bit_operations_syntax

section \<open>AAF: what the listener accepts and where it puts it\<close>

text \<open>
  The listener's side of the contract: a packet is accepted only if every header field is the
  configured one, a rejected packet changes nothing but the expected sequence number, an
  accepted one is copied into the ring at \<open>hw_virt_ptr\<close>, and the first one starts the media
  clock at the talker's 64-bit presentation time. \<open>talker_header\<close> links the two sides: it
  holds of every header a talker with the same stream configuration sends.
\<close>

definition frames_bytes_ok :: "('p, 'f) aaf_env \<Rightarrow> bool" where
  "frames_bytes_ok E \<longleftrightarrow> (\<forall>i n. word_of_int (frames_to_bytes E i n)
     = (word_of_int (format_size E (io_format i) (io_channels i)) * n :: u64))"

definition payload_bytes :: "('p, 'f) aaf_env \<Rightarrow> ('p, 'f) aaf \<Rightarrow> u64" where
  "payload_bytes E a =
     word_of_int (format_size E (io_format (io a)) (io_channels (io a))) * frames_per_pdu a"

text \<open>The configured values fit into their header fields.\<close>

definition fields_fit :: "('p, 'f) aaf_env \<Rightarrow> ('p, 'f) aaf \<Rightarrow> bool" where
  "fields_fit E a \<longleftrightarrow>
     (\<forall>(f, v) \<in> set (pdu_fields E a (payload_bytes E a)). take_bit (avtp_width f) v = v)"

definition talker_header :: "('p, 'f) aaf_env \<Rightarrow> ('p, 'f) aaf \<Rightarrow> 'p \<Rightarrow> bool" where
  "talker_header E a p \<longleftrightarrow>
     common_get E p FIELD_VERSION = (0, 0) \<and> common_get E p FIELD_SUBTYPE = (0, avtp_subtype_aaf E)
   \<and> (\<forall>(f, v) \<in> set (pdu_fields E a (payload_bytes E a)). pdu_get E p f = (0, v))"

lemma pdu_sets_ok:
  assumes "avtp_laws E"
  shows "fst (pdu_sets E p fvs) = 0 \<and> (\<forall>c. common_get E (snd (pdu_sets E p fvs)) c = common_get E p c)
    \<and> (\<forall>f. f \<notin> fst ` set fvs \<longrightarrow> pdu_get E (snd (pdu_sets E p fvs)) f = pdu_get E p f)
    \<and> (distinct (map fst fvs) \<longrightarrow>
        (\<forall>(f, v) \<in> set fvs. pdu_get E (snd (pdu_sets E p fvs)) f = (0, take_bit (avtp_width f) v)))"
proof (induction fvs arbitrary: p)
  case Nil
  then show ?case by simp
next
  case (Cons fv fvs)
  obtain f v where fv: "fv = (f, v)" by fastforce
  obtain q where q: "pdu_set E p f v = (0, q)"
    using avtp_set_ok [OF assms, of p f v] by (metis prod.collapse)
  have "pdu_get E q f = (0, take_bit (avtp_width f) v)" "\<And>g. g \<noteq> f \<Longrightarrow> pdu_get E q g = pdu_get E p g"
    "\<And>c. common_get E q c = common_get E p c"
    using avtp_get_set [OF assms, of p f v] avtp_get_set_other [OF assms, of _ f p v]
      avtp_common_set [OF assms, of p f v] q by auto
  then show ?case using Cons.IH [of q] by (auto simp: fv q)
qed

text \<open>The header a talker prepares in \<open>aaf_init_pdu\<close> and keeps through every \<open>stamp\<close>.\<close>

lemma aaf_init_pdu_header:
  assumes "avtp_laws E" "fields_fit E a" "io_stream (io a) = PLAYBACK" "aaf_init_pdu E a = (0, b)"
  shows "talker_header E a (pdu b) \<and> length (payload b) = unat (frames_per_pdu a)"
proof -
  let ?fs = "pdu_fields E a (payload_bytes E a)"
  obtain p0 where p0: "pdu_init E (pdu_zero E) = (0, p0)"
    "common_get E p0 FIELD_VERSION = (0, 0)" "common_get E p0 FIELD_SUBTYPE = (0, avtp_subtype_aaf E)"
    using assms(1) unfolding avtp_laws_def by (metis prod.collapse)
  have d: "distinct (map fst ?fs)" by (simp add: pdu_fields_def)
  note S = pdu_sets_ok [OF assms(1), of p0 ?fs]
  have fs: "pdu_fields E (a\<lparr>calls := n, held := h\<rparr>) v = pdu_fields E a v" for n h v
    by (simp add: pdu_fields_def)
  obtain p1 where p1: "pdu_sets E p0 ?fs = (0, p1)" using S by (metis prod.collapse)
  have "pdu b = p1 \<and> payload b = replicate (unat (frames_per_pdu a)) (zero_frame E)"
    using assms(3,4) p1
    by (auto simp: aaf_init_pdu_def Let_def p0(1) fs payload_bytes_def split: if_splits)
  moreover have "pdu_get E p1 f = (0, v)" if "(f, v) \<in> set ?fs" for f v
    using S d p1 assms(2) that unfolding fields_fit_def by fastforce
  then have "talker_header E a p1"
    using S p1 p0(2,3) unfolding talker_header_def by auto
  ultimately show ?thesis by simp
qed

lemma talker_header_stamp:
  assumes "avtp_laws E"
  shows "talker_header E a (stamp E p s t) = talker_header E a p"
  unfolding talker_header_def
  by (simp add: pdu_fields_def stamp_simps [OF assms])

lemma talker_header_burst:
  assumes "avtp_laws E" "talker_header E a p" "i < n"
  shows "talker_header E a (fst (snd (burst E n buf m per p s off ptime txtime ! i)))"
  using assms(2,3)
  by (induction n arbitrary: i p s off ptime txtime)
    (auto simp: talker_header_stamp [OF assms(1)] less_Suc_eq_0_disj)

subsection \<open>Validation\<close>

definition same_stream :: "('p, 'f) aaf \<Rightarrow> ('p, 'f) aaf \<Rightarrow> bool" where
  "same_stream t l \<longleftrightarrow> streamid l = streamid t \<and> io_format (io l) = io_format (io t)
     \<and> io_rate (io l) = io_rate (io t) \<and> io_channels (io l) = io_channels (io t)
     \<and> frames_per_pdu l = frames_per_pdu t"

lemma pdu_header_ok_talker:
  assumes "frames_bytes_ok E" "same_stream t l" "talker_header E t (pdu l)"
  shows "pdu_header_ok E l"
  using assms(2,3)
  unfolding pdu_header_ok_def talker_header_def same_stream_def pdu_fields_def
  by (simp add: field_is_def payload_bytes_def assms(1) [unfolded frames_bytes_ok_def])

text \<open>
  the decision of \<open>is_pdu_valid\<close>. With a readable sequence number a packet is accepted
  exactly if its header fields are the configured ones and, once the media clock runs, its
  presentation time is valid; a wrong sequence number alone never rejects a packet, the
  expected number just follows the received one. Nothing else of the state changes but
  \<open>pdu_seq\<close> and, on acceptance, \<open>prev_ptime\<close>.
\<close>

theorem is_pdu_valid_decision:
  assumes "pdu_get E (pdu a) FIELD_SEQ_NUM = (0, ucast (s :: u8))"
    and "pdu_get E (pdu a) FIELD_TIMESTAMP = (0, ts)"
  shows "is_pdu_valid E a =
    (if \<not> pdu_header_ok E a then (False, a)
     else if timer_starttime a = 0 then (True, a\<lparr>pdu_seq := s + 1\<rparr>)
     else is_ptime_valid (a\<lparr>pdu_seq := s + 1\<rparr>) (ucast ts))
   \<and> snd (is_pdu_valid E a) = a\<lparr>pdu_seq := pdu_seq (snd (is_pdu_valid E a)),
        prev_ptime := prev_ptime (snd (is_pdu_valid E a))\<rparr>"
proof -
  have u: "ucast (ucast x :: u64) = x" for x :: u8
    by (rule bit_word_eqI) (auto simp: bit_simps dest: bit_imp_le_length)
  define a1 where "a1 = (if ucast s \<noteq> (ucast (pdu_seq a) :: u64) then a\<lparr>pdu_seq := ucast (ucast s :: u64)\<rparr> else a)"
  have a1: "a1\<lparr>pdu_seq := pdu_seq a1 + 1\<rparr> = a\<lparr>pdu_seq := s + 1\<rparr>"
  proof (cases "ucast s = (ucast (pdu_seq a) :: u64)")
    case True
    then have "s = pdu_seq a" by (metis u)
    then show ?thesis by (simp add: a1_def)
  next
    case False
    then show ?thesis by (simp add: a1_def u)
  qed
  have e: "is_pdu_valid E a =
    (if \<not> pdu_header_ok E a then (False, a)
     else if timer_starttime a = 0 then (True, a\<lparr>pdu_seq := s + 1\<rparr>)
     else is_ptime_valid (a\<lparr>pdu_seq := s + 1\<rparr>) (ucast ts))"
    unfolding is_pdu_valid_def assms Let_def prod.case a1_def [symmetric] a1 by (simp add: assms)
  show ?thesis unfolding e by (simp add: is_ptime_valid_def Let_def)
qed

subsection \<open>Storing a packet\<close>

lemma aaf_copy_pdu_payload_eq:
  assumes "copy_wrap_ok E" "buffers_ok a"
    and "frames_per_pdu a \<le> hw_avail E (io a) (hw_virt_ptr a) (io_appl_ptr (io a))"
  shows "aaf_copy_pdu_payload E a =
    (0, a\<lparr>audiobuf := ring_write (audiobuf a) (unat (hw_virt_ptr a) mod unat (io_buffer_size (io a))) (payload a),
          hw_virt_ptr := aaf_inc_ptr (hw_virt_ptr a) (frames_per_pdu a) (boundary a)\<rparr>)"
proof -
  let ?bs = "io_buffer_size (io a)" and ?m = "unat (frames_per_pdu a)"
  have "areas_copy_wrap E (audiobuf a) (unat (hw_virt_ptr a mod ?bs)) (unat ?bs) (payload a) 0 ?m
      (io_channels (io a)) ?m (io_format (io a))
    = (0, ring_write (audiobuf a) (unat (hw_virt_ptr a mod ?bs)) (ring_read (payload a) 0 ?m))"
    using assms(2) by (intro copy_wrapD [OF assms(1)]) (auto simp: buffers_ok_def unat_mod)
  moreover have "ring_read (payload a) 0 ?m = payload a"
    using assms(2) ring_read_whole [of "payload a"] by (simp add: buffers_ok_def)
  ultimately show ?thesis
    using assms(3) by (simp add: aaf_copy_pdu_payload_def Let_def not_less [symmetric] unat_mod)
qed

lemma ucast_take_bit32: "ucast (take_bit 32 (t :: u64)) = (ucast t :: u32)"
  by (rule bit_word_eqI) (auto simp: bit_simps)

text \<open>The state in which the listener handles the packet \<open>(p, frames)\<close> it has just received.\<close>

definition received :: "('p, 'f) aaf \<Rightarrow> 'p \<Rightarrow> 'f list \<Rightarrow> ('p, 'f) aaf" where
  "received l p frames = l\<lparr>calls := Suc (calls l), pdu := p, payload := frames\<rparr>"

text \<open>
  C2: talker to listener. A packet with the header of a talker of the same stream, carrying
  sequence number \<open>s\<close> and presentation time \<open>t\<close>, is accepted by a running listener whose
  media clock has not started: its frames are written into the ring at \<open>hw_virt_ptr\<close>, the
  pointer moves by the packet's frames, and the clock starts one period after \<open>t\<close>, the full
  64-bit time recovered from the 32 bits in the packet, provided the packet arrives before
  its time and less than \<open>2 ^ 32\<close> nanoseconds ahead of it.
\<close>

theorem aaf_talker_to_listener:
  assumes E: "copy_wrap_ok E" "avtp_laws E" "frames_bytes_ok E"
    and "same_stream t l" "talker_header E t p"
    and p: "pdu_get E p FIELD_SEQ_NUM = (0, ucast (s :: u8))"
      "pdu_get E p FIELD_TIMESTAMP = (0, take_bit 32 tm)"
    and l: "buffers_ok (received l p frames)" "timer_starttime l = 0" "io_state (io l) \<noteq> STATE_DRAINING"
    and avail: "frames_per_pdu l \<le> hw_avail E (io l) (hw_virt_ptr l) (io_appl_ptr (io l))"
    and k: "k_recv E (calls l) = (p, frames)" "fst (k_call E (calls l)) = pdu_size l" "0 \<le> pdu_size l"
      "0 \<le> fst (k_call E (Suc (calls l)))" "0 \<le> fst (k_call E (Suc (Suc (calls l))))"
    and now: "now = fst (k_clock E (Suc (calls l))) * NSEC_PER_SEC + snd (k_clock E (Suc (calls l)))"
      "unat now \<le> unat tm" "unat tm < unat now + 2 ^ 32"
  shows "\<exists>l'. aaf_socket_new_data E l = (0, l')
    \<and> audiobuf l' = ring_write (audiobuf l) (unat (hw_virt_ptr l) mod unat (io_buffer_size (io l))) frames
    \<and> hw_virt_ptr l' = aaf_inc_ptr (hw_virt_ptr l) (frames_per_pdu l) (boundary l)
    \<and> hw_ptr l' = hw_ptr l \<and> pdu_seq l' = s + 1 \<and> prev_ptime l' = tm
    \<and> timer_starttime l' = tm + aaf_period (io l)"
proof -
  let ?l1 = "received l p frames"
  have "pdu_header_ok E ?l1"
    using assms(4,5) by (intro pdu_header_ok_talker [OF E(3)]) (auto simp: same_stream_def received_def)
  then have v: "is_pdu_valid E ?l1 = (True, ?l1\<lparr>pdu_seq := s + 1\<rparr>)"
    using is_pdu_valid_decision [of E ?l1 s] p l(2) by (simp add: received_def)
  let ?l2 = "?l1\<lparr>pdu_seq := s + 1\<rparr>"
  let ?b = "ring_write (audiobuf l) (unat (hw_virt_ptr l) mod unat (io_buffer_size (io l))) frames"
  have "aaf_copy_pdu_payload E ?l2 = (0, ?l2\<lparr>audiobuf := ?b,
      hw_virt_ptr := aaf_inc_ptr (hw_virt_ptr l) (frames_per_pdu l) (boundary l)\<rparr>)"
    using l(1) avail by (subst aaf_copy_pdu_payload_eq [OF E(1)]) (simp_all add: buffers_ok_def received_def)
  moreover have "recover_ptime now (ucast (take_bit 32 tm)) = tm"
    unfolding ucast_take_bit32 using now(2,3) by (rule recover_ptime_exact)
  moreover have "common_get E p FIELD_SUBTYPE = (0, avtp_subtype_aaf E)"
    using assms(5) by (simp add: talker_header_def)
  moreover have "aaf_socket_new_data E l = aaf_dispatch_pdu E ?l1"
    using k l(3) by (simp add: aaf_socket_new_data_def sys_def received_def case_prod_beta)
  ultimately show ?thesis
    using v l(2) p k(4,5) now(1)
    by (auto simp: aaf_dispatch_pdu_def aaf_dispatch_pdu_aaf_def received_def
        aaf_mclk_start_capture_def aaf_mclk_start_def sys_def case_prod_beta Let_def)
qed

definition demo_header :: "u64 \<Rightarrow> avtp_field \<Rightarrow> u64" where
  "demo_header tm f = (case f of FIELD_TV \<Rightarrow> 1 | FIELD_STREAM_ID \<Rightarrow> 7 | FIELD_FORMAT \<Rightarrow> 4 | FIELD_NSR \<Rightarrow> 5
     | FIELD_CHAN_PER_FRAME \<Rightarrow> 2 | FIELD_BIT_DEPTH \<Rightarrow> 16 | FIELD_STREAM_DATA_LEN \<Rightarrow> 8 | FIELD_SP \<Rightarrow> 0
     | FIELD_SEQ_NUM \<Rightarrow> 5 | FIELD_TIMESTAMP \<Rightarrow> take_bit 32 tm)"

definition demo_listen_env :: "(avtp_field \<Rightarrow> u64, nat) aaf_env" where
  "demo_listen_env = ref_env (\<lambda>n. if n = 0 then (32, 0) else (0, 0)) (4, 1000)
     (demo_header 4294968300, [21, 22])"

text \<open>
  The packet's 32 bits are 1004, the clock reads 4.000001 s: the recovered time is the
  talker's, 4.2949683 s.
\<close>

lemma demo_ring: "ring_write (replicate 8 (0::nat)) 0 [21, 22] = [21, 22, 0, 0, 0, 0, 0, 0]"
  by code_simp

theorem aaf_talker_to_listener_witness:
  "\<exists>l'. aaf_socket_new_data demo_listen_env (demo_aaf CAPTURE 2 (replicate 8 0)) = (0, l')
     \<and> audiobuf l' = [21, 22, 0, 0, 0, 0, 0, 0] \<and> pdu_seq l' = 6 \<and> prev_ptime l' = 4294968300"
proof -
  let ?E = demo_listen_env and ?l = "demo_aaf CAPTURE 2 (replicate 8 0)"
  let ?t = "demo_aaf PLAYBACK 2 []" and ?p = "demo_header 4294968300"
  have E: "copy_wrap_ok ?E" "avtp_laws ?E"
    by (simp_all add: demo_listen_env_def ref_env_copy_wrap ref_env_avtp)
  have F: "frames_bytes_ok ?E"
    by (simp add: frames_bytes_ok_def demo_listen_env_def ref_env_sel)
  have st: "same_stream ?t ?l" by (simp add: same_stream_def demo_defs)
  have th: "talker_header ?E ?t ?p"
    by (simp add: talker_header_def pdu_fields_def payload_bytes_def demo_listen_env_def ref_env_sel
        demo_defs demo_header_def alsa_to_avtp_rate_def)
  have p: "pdu_get ?E ?p FIELD_SEQ_NUM = (0, ucast (5 :: u8))"
    "pdu_get ?E ?p FIELD_TIMESTAMP = (0, take_bit 32 4294968300)"
    by (simp_all add: demo_listen_env_def ref_env_sel demo_header_def)
  have l: "buffers_ok (received ?l ?p [21, 22])" "timer_starttime ?l = 0" "io_state (io ?l) \<noteq> STATE_DRAINING"
    by (simp_all add: buffers_ok_def received_def demo_defs)
  have av: "frames_per_pdu ?l \<le> hw_avail ?E (io ?l) (hw_virt_ptr ?l) (io_appl_ptr (io ?l))"
    by (simp add: demo_listen_env_def ref_env_def demo_defs)
  have k: "k_recv ?E (calls ?l) = (?p, [21, 22])" "fst (k_call ?E (calls ?l)) = pdu_size ?l" "0 \<le> pdu_size ?l"
      "0 \<le> fst (k_call ?E (Suc (calls ?l)))" "0 \<le> fst (k_call ?E (Suc (Suc (calls ?l))))"
    by (simp_all add: demo_listen_env_def ref_env_sel demo_defs)
  have now: "4000001000 = fst (k_clock ?E (Suc (calls ?l))) * NSEC_PER_SEC + snd (k_clock ?E (Suc (calls ?l)))"
    "unat (4000001000 :: u64) \<le> unat (4294968300 :: u64)"
    "unat (4294968300 :: u64) < unat (4000001000 :: u64) + 2 ^ 32"
    by (simp_all add: demo_listen_env_def ref_env_sel NSEC_PER_SEC_def)
  obtain l' where "aaf_socket_new_data ?E ?l = (0, l')"
    "audiobuf l' = ring_write (audiobuf ?l) (unat (hw_virt_ptr ?l) mod unat (io_buffer_size (io ?l))) [21, 22]"
    "pdu_seq l' = 5 + 1" "prev_ptime l' = 4294968300"
    using aaf_talker_to_listener [OF E F st th p l av k now] by blast
  moreover have "ring_write (audiobuf ?l) (unat (hw_virt_ptr ?l) mod unat (io_buffer_size (io ?l))) [21, 22]
      = [21, 22, 0, 0, 0, 0, 0, 0]"
    using demo_ring by (simp add: demo_defs)
  ultimately show ?thesis by auto
qed

theorem is_pdu_valid_decision_witness:
  "fst (is_pdu_valid demo_listen_env ((demo_aaf CAPTURE 2 [])\<lparr>pdu := demo_header 0\<rparr>)) = True"
proof -
  let ?a = "(demo_aaf CAPTURE 2 [])\<lparr>pdu := demo_header 0\<rparr>"
  have "pdu_get demo_listen_env (pdu ?a) FIELD_SEQ_NUM = (0, ucast (5 :: u8))"
    "pdu_get demo_listen_env (pdu ?a) FIELD_TIMESTAMP = (0, 0)"
    by (simp_all add: demo_listen_env_def ref_env_sel demo_header_def)
  note d = is_pdu_valid_decision [OF this]
  have "pdu_header_ok demo_listen_env ?a"
    by (simp add: pdu_header_ok_def field_is_def demo_listen_env_def ref_env_sel demo_defs
        demo_header_def alsa_to_avtp_rate_def)
  then show ?thesis using d by (simp add: demo_defs)
qed

end
