(* ===== verification/AafSetup.thy ===== *)
theory AafSetup
  imports AafClock AafLaws
begin

section \<open>AAF: set-up, error unwinding, packet timing\<close>

text \<open>
  \<open>aaf_hw_params\<close> acquires a socket, a timer, the PDU, the areas and three message
  structures, and unwinds through its labels on an error: each stage is shown to acquire all
  or nothing, and the chain lemma of the prelude composes them. \<open>errno_ok\<close> is POSIX's
  promise that a failed call leaves a positive errno.
\<close>

lemma pdu_sets_le: "fst (pdu_sets E p fvs) \<le> 0"
proof (induction fvs arbitrary: p)
  case (Cons fv fvs)
  then show ?case by (cases fv) (auto simp: case_prod_beta Let_def)
qed simp

named_theorems stage_rules \<open>each stage acquires its resources or nothing\<close>

lemma stage_socket [stage_rules]:
  "errno_ok E \<Longrightarrow> stage_ok held {Res_socket} (Some \<circ> aaf_init_socket E, aaf_release {Res_socket})"
  unfolding errno_ok_def stage_ok_def aaf_init_socket_def sys_def aaf_release_def
  by (auto simp: Let_def case_prod_beta less_imp_le split: if_splits)

lemma stage_timer [stage_rules]:
  "errno_ok E \<Longrightarrow> stage_ok held {Res_timer} (Some \<circ> aaf_init_timer E, aaf_release {Res_timer})"
  unfolding errno_ok_def stage_ok_def aaf_init_timer_def sys_def aaf_release_def
  by (auto simp: Let_def case_prod_beta less_imp_le split: if_splits)

lemma aaf_init_pdu_le: "(\<And>p. fst (pdu_init E p) \<le> 0) \<Longrightarrow> fst (aaf_init_pdu E a) \<le> 0"
  using pdu_sets_le [of E] by (auto simp: aaf_init_pdu_def Let_def case_prod_beta)

lemma stage_pdu [stage_rules]:
  assumes "\<And>p. fst (pdu_init E p) \<le> 0"
  shows "stage_ok held {Res_pdu} (Some \<circ> aaf_init_pdu E, aaf_release {Res_pdu})"
proof -
  have "held (snd (aaf_init_pdu E a)) = (if fst (aaf_init_pdu E a) < 0 then held a else held a \<union> {Res_pdu})"
    if "Res_pdu \<notin> held a" for a
    using that by (auto simp: aaf_init_pdu_def Let_def case_prod_beta)
  then show ?thesis
    using aaf_init_pdu_le [OF assms]
    by (auto simp: stage_ok_def aaf_release_def prod_eq_iff)
qed

lemma stage_areas [stage_rules]:
  "stage_ok held {Res_areas} (Some \<circ> aaf_init_payload_areas E, aaf_release {Res_areas})"
  unfolding stage_ok_def aaf_init_payload_areas_def aaf_init_areas_def aaf_release_def
  by (auto simp: Let_def case_prod_beta split: if_splits)

lemma stage_msghdr [stage_rules]:
  "stage_ok held {Res_iov, Res_control, Res_msg}
     (Some \<circ> aaf_init_msghdr E, aaf_release {Res_iov, Res_control, Res_msg})"
  unfolding stage_ok_def aaf_init_msghdr_def aaf_release_def
  by (auto simp: Let_def case_prod_beta split: if_splits)

lemma stage_check [stage_rules]:
  "stage_ok held {} (\<lambda>a. if frames_per_pdu a = 0 then None
      else if io_period_size (io a) mod frames_per_pdu a \<noteq> 0 then Some (- EINVAL, a)
      else Some (0, a), id)"
  by (auto simp: stage_ok_def split: if_splits)

lemma all_resources: "UNIV = {Res_socket, Res_timer, Res_pdu, Res_areas, Res_iov, Res_control, Res_msg}"
  by (auto intro: aaf_resource.exhaust)

lemma aaf_stages_ok:
  assumes "errno_ok E" "\<And>p. fst (pdu_init E p) \<le> 0"
  shows "stages_ok held
    [{Res_socket}, {Res_timer}, {Res_pdu}, {Res_areas}, {Res_iov, Res_control, Res_msg}, {}]
    (aaf_stages E)"
  unfolding aaf_stages_def by (simp add: stage_rules assms del: o_apply)

lemma aaf_check_Some:
  assumes "(if frames_per_pdu s = 0 then None
      else if io_period_size (io s) mod frames_per_pdu s \<noteq> 0 then Some (- EINVAL, s)
      else Some (0, s)) = Some (r, c)" "(0 :: int) \<le> r"
  shows "c = s \<and> frames_per_pdu s \<noteq> 0 \<and> io_period_size (io s) mod frames_per_pdu s = 0"
  using assms
  by (cases "frames_per_pdu s = 0"; cases "io_period_size (io s) mod frames_per_pdu s = 0")
    (simp_all only: if_True if_False not_True_eq_False not_False_eq_True simp_thms, auto)

lemma aaf_hw_params_cases:
  assumes "aaf_hw_params E a = Some (res, b)"
  obtains (fail) "unwind (aaf_stages E) a = Some (res, b)" "res < 0"
  | (ok) r c where "unwind (aaf_stages E) a = Some (r, c)" "0 \<le> r" "res = 0" "io_rate (io b) \<noteq> 0"
      "io b = io c" "held b = held c" "frames_per_pdu b = frames_per_pdu c" "frames_per_pdu b \<noteq> 0"
      "io_period_size (io b) mod frames_per_pdu b = 0"
      "pdu_period b = c_int (uint (NSEC_PER_SEC * frames_per_pdu b div ucast (io_rate (io b))))"
proof -
  let ?per = "\<lambda>c. c_int (uint (NSEC_PER_SEC * frames_per_pdu c div ucast (io_rate (io c))))"
  obtain r c where un: "unwind (aaf_stages E) a = Some (r, c)"
    using assms by (auto simp: aaf_hw_params_def Option.bind_eq_Some_conv)
  show thesis
  proof (cases "r < 0")
    case True
    then show thesis using assms un fail by (auto simp: aaf_hw_params_def)
  next
    case False
    then have b: "res = 0" "b = c\<lparr>pdu_period := ?per c\<rparr>" "io_rate (io c) \<noteq> 0"
      using assms un by (auto simp: aaf_hw_params_def split: if_splits)
    obtain s1 r1 where "(if frames_per_pdu s1 = 0 then None
        else if io_period_size (io s1) mod frames_per_pdu s1 \<noteq> 0 then Some (- EINVAL, s1)
        else Some (0, s1)) = Some (r1, c)" "0 \<le> r1"
      using unwind_last [OF un [unfolded aaf_stages_def]] False by fastforce
    from aaf_check_Some [OF this] have "frames_per_pdu c \<noteq> 0"
      "io_period_size (io c) mod frames_per_pdu c = 0" by simp_all
    moreover have "io b = io c" "held b = held c" "frames_per_pdu b = frames_per_pdu c"
      "pdu_period b = ?per c" using b(2) by simp_all
    ultimately show thesis using ok [OF un] False b by simp
  qed
qed



subsection \<open>Packet timing\<close>

lemma div_mult_bounds:
  fixes A r k :: nat
  assumes "0 < r" "0 < k"
  shows "k * (A div r) \<le> k * A div r \<and> k * A div r < k * (A div r) + k"
proof
  have "A div r * r \<le> A" by simp
  then have "k * (A div r * r) \<le> k * A" by (rule mult_le_mono2)
  then have "k * (A div r) * r \<le> k * A" by (simp add: mult.assoc)
  then show "k * (A div r) \<le> k * A div r" using assms by (simp add: less_eq_div_iff_mult_less_eq)
next
  have "A < (A div r + 1) * r" using assms(1) by (metis add.commute dividend_less_div_times mult.commute mult_Suc Suc_eq_plus1)
  then have "k * A < k * ((A div r + 1) * r)" using assms(2) by simp
  then have "k * A < (k * (A div r) + k) * r" by (simp add: algebra_simps)
  then show "k * A div r < k * (A div r) + k" using assms by (simp add: less_mult_imp_div_less)
qed

lemma unat_nsec: "unat NSEC_PER_SEC = 1000000000"
  by (simp add: NSEC_PER_SEC_def)

lemma unat_nsec_div:
  fixes x :: u64 and r :: u32
  assumes "1000000000 * unat x < 2 ^ 64"
  shows "unat (NSEC_PER_SEC * x div ucast r) = 1000000000 * unat x div unat r"
proof -
  have "unat (NSEC_PER_SEC * x) = 1000000000 * unat x"
    using assms by (subst unat_mult_lem [THEN iffD1]) (simp_all add: unat_nsec)
  then show ?thesis by (simp add: unat_div word_nat)
qed

text \<open>
  C31: after \<open>aaf_hw_params\<close> the packets of a period, spaced \<open>pdu_period\<close> apart, fit into the
  timer period: their total never exceeds it, and the rounding loses less than one
  nanosecond per packet, so consecutive bursts never overlap.
\<close>

theorem aaf_packet_spacing:
  assumes "aaf_hw_params E a = Some (0, b)"
    and fit: "1000000000 * unat (io_period_size (io b)) < 2 ^ 64"
      "1000000000 * unat (frames_per_pdu b) div unat (io_rate (io b)) < 2 ^ 31"
    and "0 < unat (io_period_size (io b))"
  defines "k \<equiv> unat (io_period_size (io b) div frames_per_pdu b)"
  shows "0 < k \<and> k * nat (pdu_period b) \<le> unat (aaf_period (io b))
    \<and> unat (aaf_period (io b)) < k * nat (pdu_period b) + k"
proof -
  let ?m = "unat (frames_per_pdu b)" and ?n = "unat (io_period_size (io b))" and ?r = "unat (io_rate (io b))"
  have P: "frames_per_pdu b \<noteq> 0" "io_period_size (io b) mod frames_per_pdu b = 0" "io_rate (io b) \<noteq> 0"
    "pdu_period b = c_int (uint (NSEC_PER_SEC * frames_per_pdu b div ucast (io_rate (io b))))"
    using assms(1) by (rule aaf_hw_params_cases; simp)+
  have "?n mod ?m = 0" using P(2) by (metis unat_mod unat_0)
  then have n: "?n = k * ?m"
    using div_mult_mod_eq [of ?n ?m] by (simp add: k_def unat_div)
  have k: "0 < k" using n assms(4) by (cases k) auto
  have "?m \<le> ?n" using n k by simp
  then have "1000000000 * ?m < 2 ^ 64" using fit(1) by simp
  then have per: "unat (NSEC_PER_SEC * frames_per_pdu b div ucast (io_rate (io b)))
      = 1000000000 * ?m div ?r" by (rule unat_nsec_div)
  then have "uint (NSEC_PER_SEC * frames_per_pdu b div ucast (io_rate (io b)))
      = int (1000000000 * ?m div ?r)" by (metis uint_nat)
  then have p: "nat (pdu_period b) = 1000000000 * ?m div ?r" using P fit(2) by simp
  have T: "unat (aaf_period (io b)) = k * (1000000000 * ?m) div ?r"
    unfolding aaf_period_def unat_nsec_div [OF fit(1)] by (simp add: n ac_simps)
  have "0 < ?r" using P by (simp add: unat_gt_0)
  from div_mult_bounds [OF this k, of "1000000000 * ?m"] show ?thesis
    using k by (simp add: p T)
qed

theorem aaf_packet_spacing_witness:
  "\<exists>b. aaf_hw_params (ref_env (\<lambda>_. (5, 0)) (0, 0) (\<lambda>_. 0, [])) (demo_aaf PLAYBACK 2 []) = Some (0, b)
     \<and> 2 * nat (pdu_period b) \<le> 83333 \<and> 83333 < 2 * nat (pdu_period b) + 2"
proof -
  let ?E = "ref_env (\<lambda>_. (5, 0)) (0, 0) (\<lambda>_. 0, [])" and ?a = "demo_aaf PLAYBACK 2 []"
  have "map_option (\<lambda>(r, b). (r, io b, frames_per_pdu b)) (aaf_hw_params ?E ?a)
      = Some (0, demo_io PLAYBACK, 2)" by code_simp
  then obtain b where b: "aaf_hw_params ?E ?a = Some (0, b)" "io b = demo_io PLAYBACK" "frames_per_pdu b = 2"
    by auto
  have T: "unat (aaf_period (demo_io PLAYBACK)) = 83333"
    unfolding aaf_period_def by (subst unat_nsec_div) (simp_all add: demo_io_def)
  have k: "unat (io_period_size (demo_io PLAYBACK) div 2) = 2" by (simp add: demo_io_def unat_div)
  have "1000000000 * unat (io_period_size (io b)) < 2 ^ 64" "0 < unat (io_period_size (io b))"
    "1000000000 * unat (frames_per_pdu b) div unat (io_rate (io b)) < 2 ^ 31"
    by (simp_all add: b demo_io_def)
  from aaf_packet_spacing [OF b(1) this(1) this(3) this(2)] show ?thesis
    using b(1) by (simp only: b(2,3) T k) auto
qed

text \<open>
  a configuration without \<open>frames_per_pdu\<close> (or with 0, which \<open>aaf_load_config\<close> accepts)
  reaches the division \<open>period_size % frames_per_pdu\<close> with a zero divisor as soon as every
  acquisition succeeds: \<open>aaf_hw_params\<close> traps instead of reporting an error.
\<close>

theorem aaf_hw_params_zero_frames_per_pdu:
  "Option.is_none (aaf_hw_params (ref_env (\<lambda>_. (5, 0)) (0, 0) (\<lambda>_. 0, [])) (demo_aaf PLAYBACK 0 []))
   \<and> Option.is_none (aaf_hw_params (ref_env (\<lambda>_. (5, 0)) (0, 0) (\<lambda>_. 0, [])) (demo_aaf CAPTURE 0 []))"
  by code_simp

end
