(* ===== verification/AafReach.thy ===== *)
theory AafReach
  imports AafListener AafSetup
begin

section \<open>AAF: the running instance as a transition system\<close>

text \<open>
  What alsa-lib and the application do with a configured instance, as a step relation: the
  callbacks in any order, with any events, and the application moving its own pointer. The
  lemmas named \<open>keeps\<close> say which part of the state a function leaves alone; the invariant
  bounds both pointers by the boundary in every reachable state. The last part is about the
  loops: which calls of the socket flush return, and what the timer loop has done when it
  returns.
\<close>

subsection \<open>What the operations keep\<close>

definition pos :: "('p, 'f) aaf \<Rightarrow> ioplug \<times> u64 \<times> u64 \<times> u64 \<times> u64" where
  "pos a = (io a, frames_per_pdu a, boundary a, hw_ptr a, hw_virt_ptr a)"

named_theorems keeps \<open>operations that keep the pointers and the configuration\<close>

lemma pos_sys [keeps]: "sys E a = (r, b) \<Longrightarrow> pos b = pos a"
  by (auto simp: sys_def pos_def)

lemma pos_mclk_start [keeps]: "aaf_mclk_start E a s p = (r, b) \<Longrightarrow> pos b = pos a"
  by (auto simp: aaf_mclk_start_def sys_def pos_def Let_def split: if_splits prod.splits)

lemma pos_mclk_reset [keeps]: "aaf_mclk_reset E a = (r, b) \<Longrightarrow> pos b = pos a"
  by (auto simp: aaf_mclk_reset_def sys_def pos_def Let_def split: if_splits prod.splits)

lemma pos_mclk_start_playback [keeps]: "aaf_mclk_start_playback E a = (r, b) \<Longrightarrow> pos b = pos a"
  by (auto simp: aaf_mclk_start_playback_def Let_def split: if_splits prod.splits
      dest!: pos_sys pos_mclk_start)

lemma pos_mclk_start_capture [keeps]: "aaf_mclk_start_capture E a t = (r, b) \<Longrightarrow> pos b = pos a"
proof -
  assume "aaf_mclk_start_capture E a t = (r, b)"
  moreover have "pos (c\<lparr>prev_ptime := p\<rparr>) = pos c" for c :: "('a, 'b) aaf" and p by (simp add: pos_def)
  ultimately show ?thesis
    by (auto simp: aaf_mclk_start_capture_def Let_def split: if_splits prod.splits
        dest!: pos_sys pos_mclk_start)
qed

lemma pos_is_ptime_valid [keeps]: "is_ptime_valid a t = (v, b) \<Longrightarrow> pos b = pos a"
  by (auto simp: is_ptime_valid_def Let_def pos_def split: if_splits)

lemma pos_is_pdu_valid [keeps]: "is_pdu_valid E a = (v, b) \<Longrightarrow> pos b = pos a"
proof -
  assume v: "is_pdu_valid E a = (v, b)"
  have "pos (c\<lparr>pdu_seq := s\<rparr>) = pos c" for c :: "('a, 'b) aaf" and s by (simp add: pos_def)
  then show ?thesis using v
    by (auto simp: is_pdu_valid_def Let_def split: if_splits prod.splits dest!: pos_is_ptime_valid)
qed

lemma pos_tx_loop [keeps]: "aaf_tx_loop E n a ptr pt tt = (r, b) \<Longrightarrow> pos b = pos a"
proof (induction n arbitrary: a ptr pt tt)
  case 0
  then show ?case by simp
next
  case (Suc n)
  have "pos c = pos a" if "aaf_tx_pdu E a ptr pt tt = (q, c)" for q c
    using that by (auto simp: aaf_tx_pdu_def sys_def pos_def Let_def split: if_splits prod.splits)
  with Suc show ?case by (fastforce simp: Let_def split: if_splits prod.splits)
qed

lemma flush_loop_pos: "aaf_flush_loop E a = Some r \<Longrightarrow> pos (snd r) = pos a"
proof (rule aaf_flush_loop.raw_induct [where P = "\<lambda>E a r. pos (snd r) = pos a"])
  fix f and E :: "('p, 'f) aaf_env" and a r
  assume IH: "\<And>E a r. f E a = Some r \<Longrightarrow> pos (snd r) = pos a"
    and eq: "(let ((n, e), a') = sys E a in if n \<noteq> - 1 then f E a' else Some (e, a')) = Some r"
  have "pos (a\<lparr>calls := n\<rparr>) = pos a" for n by (simp add: pos_def)
  then show "pos (snd r) = pos a"
    using eq by (auto simp: Let_def sys_def split: if_splits prod.splits dest: IH)
qed

lemma pos_flush_rx_buf [keeps]: "aaf_flush_rx_buf E a = Some (r, b) \<Longrightarrow> pos b = pos a"
proof -
  assume f: "aaf_flush_rx_buf E a = Some (r, b)"
  have "pos (a\<lparr>calls := n\<rparr>) = pos a" for n by (simp add: pos_def)
  then show ?thesis using f
    by (auto simp: aaf_flush_rx_buf_def Let_def Option.bind_eq_Some_conv split: if_splits
        dest!: flush_loop_pos)
qed

subsection \<open>The operations that move a pointer\<close>

definition bounds_ok :: "('p, 'f) aaf \<Rightarrow> bool" where
  "bounds_ok a \<longleftrightarrow> io_period_size (io a) \<le> boundary a \<and> frames_per_pdu a \<le> boundary a
     \<and> unat (boundary a) < 2 ^ 63"

definition ptrs_ok :: "('p, 'f) aaf \<Rightarrow> bool" where
  "ptrs_ok a \<longleftrightarrow> bounds_ok a \<and> hw_ptr a \<le> boundary a \<and> hw_virt_ptr a \<le> boundary a"

lemma ptrs_ok_pos: "pos b = pos a \<Longrightarrow> ptrs_ok a \<Longrightarrow> ptrs_ok b"
  by (simp add: pos_def ptrs_ok_def bounds_ok_def)

lemma aaf_inc_ptr_le:
  assumes "ptr \<le> bound" "val \<le> bound" "unat bound < 2 ^ 63"
  shows "aaf_inc_ptr ptr val bound \<le> bound"
  using aaf_inc_ptr_spec [OF assms] assms(1,2) by (auto simp: word_le_nat_alt)

lemma ptrs_ok_inc_hw:
  "ptrs_ok a \<Longrightarrow> ptrs_ok (a\<lparr>hw_ptr := aaf_inc_ptr (hw_ptr a) (io_period_size (io a)) (boundary a)\<rparr>)"
  by (simp add: ptrs_ok_def bounds_ok_def aaf_inc_ptr_le)

lemma ptrs_ok_inc_virt:
  "ptrs_ok a \<Longrightarrow> ptrs_ok (a\<lparr>hw_virt_ptr := aaf_inc_ptr (hw_virt_ptr a) (frames_per_pdu a) (boundary a)\<rparr>)"
  by (simp add: ptrs_ok_def bounds_ok_def aaf_inc_ptr_le)

lemma ptrs_ok_tx_frames: "ptrs_ok a \<Longrightarrow> aaf_tx_frames E a = (r, b) \<Longrightarrow> ptrs_ok b"
  by (auto simp: aaf_tx_frames_def aaf_tx_pdus_def Let_def split: if_splits prod.splits
      dest!: pos_tx_loop intro!: ptrs_ok_inc_hw intro: ptrs_ok_pos)

lemma ptrs_ok_present: "ptrs_ok a \<Longrightarrow> aaf_present_frames a = (r, b) \<Longrightarrow> ptrs_ok b"
  by (auto simp: aaf_present_frames_def Let_def ptrs_ok_inc_hw split: if_splits)

lemma ptrs_ok_expire: "ptrs_ok a \<Longrightarrow> aaf_expire E n a = (r, b) \<Longrightarrow> ptrs_ok b"
proof (induction n arbitrary: a)
  case 0
  then show ?case by simp
next
  case (Suc n)
  have "ptrs_ok (a\<lparr>timer_expirations := t\<rparr>)" for t
    using Suc.prems(1) by (simp add: ptrs_ok_def bounds_ok_def)
  then have "ptrs_ok c" if "aaf_process_frames E (a\<lparr>timer_expirations := t\<rparr>) = (q, c)" for t q c
    using that ptrs_ok_tx_frames ptrs_ok_present
    by (metis aaf_process_frames_def)
  then show ?case using Suc by (fastforce simp: Let_def split: if_splits prod.splits)
qed

lemma ptrs_ok_timeout: "ptrs_ok a \<Longrightarrow> aaf_timer_timeout E a = (r, b) \<Longrightarrow> ptrs_ok b"
  by (auto simp: aaf_timer_timeout_def Let_def split: if_splits prod.splits
      dest!: pos_sys intro: ptrs_ok_pos ptrs_ok_expire)

lemma ptrs_ok_copy_payload: "ptrs_ok a \<Longrightarrow> aaf_copy_pdu_payload E a = (r, b) \<Longrightarrow> ptrs_ok b"
proof -
  assume a: "ptrs_ok a" and c: "aaf_copy_pdu_payload E a = (r, b)"
  have "ptrs_ok (a\<lparr>audiobuf := x\<rparr>)" for x using a by (simp add: ptrs_ok_def bounds_ok_def)
  from this ptrs_ok_inc_virt [OF this] show ?thesis using a c
    by (auto simp: aaf_copy_pdu_payload_def Let_def split: if_splits prod.splits)
qed

lemma ptrs_ok_dispatch: "ptrs_ok a \<Longrightarrow> aaf_dispatch_pdu E a = (r, b) \<Longrightarrow> ptrs_ok b"
  by (auto simp: aaf_dispatch_pdu_def aaf_dispatch_pdu_aaf_def Let_def split: if_splits prod.splits
      dest!: pos_is_pdu_valid pos_mclk_start_capture ptrs_ok_copy_payload [rotated]
      intro: ptrs_ok_pos)

lemma ptrs_ok_new_data: "ptrs_ok a \<Longrightarrow> aaf_socket_new_data E a = (r, b) \<Longrightarrow> ptrs_ok b"
proof -
  assume a: "ptrs_ok a" and c: "aaf_socket_new_data E a = (r, b)"
  have n: "ptrs_ok (c\<lparr>pdu := p, payload := pl\<rparr>)" if "ptrs_ok c" for c :: "('a, 'b) aaf" and p pl
    using that by (simp add: ptrs_ok_def bounds_ok_def)
  have s: "ptrs_ok (snd (sys E a))" using a ptrs_ok_pos [of "snd (sys E a)" a]
    by (simp add: sys_def pos_def)
  from n [OF s] show ?thesis using s c
    by (auto simp: aaf_socket_new_data_def Let_def split: if_splits prod.splits
        dest: ptrs_ok_dispatch)
qed

subsection \<open>Reachable states\<close>

inductive aaf_step :: "('p, 'f) aaf_env \<Rightarrow> ('p, 'f) aaf \<Rightarrow> ('p, 'f) aaf \<Rightarrow> bool" for E where
  step_prepare: "aaf_prepare E a areas = (r, b) \<Longrightarrow> aaf_step E a b"
| step_start: "aaf_start E a = Some (r, b) \<Longrightarrow> aaf_step E a b"
| step_poll: "aaf_poll_revents E a pfd = (r, b, ev) \<Longrightarrow> aaf_step E a b"
| step_stop: "aaf_stop E a = (r, b) \<Longrightarrow> aaf_step E a b"
| step_appl: "aaf_step E a (a\<lparr>io := (io a)\<lparr>io_appl_ptr := p, io_state := st\<rparr>\<rparr>)"

inductive_cases aaf_stepE: "aaf_step E a b"

lemma ptrs_ok_prepare: "bounds_ok a \<Longrightarrow> aaf_prepare E a areas = (r, b) \<Longrightarrow> ptrs_ok b"
proof -
  assume a: "bounds_ok a" and p: "aaf_prepare E a areas = (r, b)"
  let ?a = "a\<lparr>audiobuf := areas, pdu_seq := 0, hw_ptr := 0, hw_virt_ptr := 0, prev_ptime := 0\<rparr>"
  have "ptrs_ok ?a" using a by (simp add: ptrs_ok_def bounds_ok_def)
  moreover have "pos b = pos ?a"
    using p by (auto simp: aaf_prepare_def Let_def split: if_splits prod.splits dest: pos_mclk_reset)
  ultimately show ?thesis using ptrs_ok_pos by blast
qed

lemma ptrs_ok_step: "aaf_step E a b \<Longrightarrow> ptrs_ok a \<Longrightarrow> ptrs_ok b"
proof (induction rule: aaf_step.induct)
  case (step_prepare a areas r b)
  from step_prepare(2) have "bounds_ok a" by (simp add: ptrs_ok_def)
  then show ?case using step_prepare(1) by (rule ptrs_ok_prepare)
next
  case (step_start a r b)
  then show ?case
    by (auto simp: aaf_start_def Option.bind_eq_Some_conv split: if_splits
        dest!: pos_mclk_start_playback pos_flush_rx_buf intro: ptrs_ok_pos)
next
  case (step_poll a pfd r b ev)
  then show ?case
    by (auto simp: aaf_poll_revents_def Let_def split: if_splits prod.splits
        dest: ptrs_ok_timeout ptrs_ok_new_data)
next
  case (step_stop a r b)
  then show ?case
    by (auto simp: aaf_stop_def split: if_splits prod.splits dest!: pos_mclk_reset intro: ptrs_ok_pos)
next
  case (step_appl a p st)
  then show ?case by (simp add: ptrs_ok_def bounds_ok_def)
qed

text \<open>
  C4: whatever callbacks run in whatever order after \<open>aaf_prepare\<close>, and whatever the kernel
  and the network do, both pointers stay within the boundary, so \<open>aaf_pointer\<close> never
  returns a negative value (which alsa-lib would take for an error).
\<close>

theorem aaf_pointers_bounded:
  assumes "bounds_ok a" "aaf_prepare E a areas = (r, a0)" "(aaf_step E)\<^sup>*\<^sup>* a0 b"
  shows "hw_ptr b \<le> boundary b \<and> hw_virt_ptr b \<le> boundary b \<and> aaf_pointer b = int (unat (hw_ptr b))"
proof -
  have "ptrs_ok b" using assms(3)
  proof (induction rule: rtranclp_induct)
    case base
    then show ?case using ptrs_ok_prepare [OF assms(1,2)] .
  next
    case (step y z)
    then show ?case using ptrs_ok_step by blast
  qed
  then have p: "hw_ptr b \<le> boundary b" "hw_virt_ptr b \<le> boundary b" "unat (boundary b) < 2 ^ 63"
    by (auto simp: ptrs_ok_def bounds_ok_def)
  then have "unat (hw_ptr b) < 2 ^ 63" by (simp add: word_le_nat_alt)
  then have "sint (hw_ptr b) = int (unat (hw_ptr b))" by (rule sint_small)
  with p show ?thesis by (simp add: aaf_pointer_def)
qed

subsection \<open>The loops\<close>

definition present_steps :: "nat \<Rightarrow> ('p, 'f) aaf \<Rightarrow> u64" where
  "present_steps n a = ((\<lambda>p. aaf_inc_ptr p (io_period_size (io a)) (boundary a)) ^^ n) (hw_ptr a)"

lemma aaf_expire_capture:
  assumes "io_stream (io a) = CAPTURE" "aaf_expire E n a = (r, b)"
  shows "\<exists>k \<le> n. hw_ptr b = present_steps k a \<and> hw_virt_ptr b = hw_virt_ptr a
    \<and> (if r < 0 then r = - EPIPE \<and> k < n \<and> timer_expirations b = timer_expirations a + of_nat (Suc k)
       else r = 0 \<and> k = n \<and> timer_expirations b = timer_expirations a + of_nat n)"
  using assms
proof (induction n arbitrary: a)
  case 0
  then show ?case by (simp add: present_steps_def)
next
  case (Suc n)
  let ?a = "a\<lparr>timer_expirations := timer_expirations a + 1\<rparr>"
  obtain q c where p: "aaf_present_frames ?a = (q, c)" by fastforce
  then consider "q = - EPIPE" "c = ?a"
    | "q = 0" "c = ?a\<lparr>hw_ptr := aaf_inc_ptr (hw_ptr a) (io_period_size (io a)) (boundary a)\<rparr>"
    by (auto simp: aaf_present_frames_def Let_def split: if_splits)
  then show ?case
  proof cases
    case 1
    then have "r = - EPIPE" "b = ?a" using Suc.prems p by (auto simp: aaf_process_frames_def)
    then show ?thesis by (intro exI [of _ 0]) (simp add: present_steps_def)
  next
    case 2
    then have e: "aaf_expire E n c = (r, b)" using Suc.prems p by (simp add: aaf_process_frames_def)
    have "io_stream (io c) = CAPTURE" using 2 Suc.prems(1) by simp
    from Suc.IH [OF this e] obtain k where k: "k \<le> n" "hw_ptr b = present_steps k c"
      "hw_virt_ptr b = hw_virt_ptr c"
      "if r < 0 then r = - EPIPE \<and> k < n \<and> timer_expirations b = timer_expirations c + of_nat (Suc k)
       else r = 0 \<and> k = n \<and> timer_expirations b = timer_expirations c + of_nat n" by blast
    have "present_steps k c = present_steps (Suc k) a"
      using 2 by (simp only: present_steps_def funpow_Suc_right o_apply) simp
    then show ?thesis using k 2
      by (intro exI [of _ "Suc k"]) (auto simp: add.assoc split: if_splits)
  qed
qed

text \<open>
  C29: the timer loop of the listener. When \<open>aaf_timer_timeout\<close> returns 0 after reading
  \<open>n\<close> expirations, \<open>hw_ptr\<close> has moved by exactly \<open>n\<close> periods modulo the boundary and
  the media clock by \<open>n\<close> ticks; the only error of its loop is the overrun \<open>-EPIPE\<close>, and
  then the pointer has moved by fewer periods than expired.
\<close>

theorem aaf_timer_timeout_capture:
  assumes "io_stream (io a) = CAPTURE" "aaf_timer_timeout E a = (r, b)" "0 \<le> fst (k_call E (calls a))"
  shows "\<exists>k \<le> unat (k_expirations E (calls a)). hw_ptr b = present_steps k a
    \<and> (if r < 0 then r = - EPIPE \<and> k < unat (k_expirations E (calls a))
       else r = 0 \<and> k = unat (k_expirations E (calls a))
         \<and> timer_expirations b = timer_expirations a + k_expirations E (calls a))"
proof -
  let ?a = "a\<lparr>calls := Suc (calls a)\<rparr>" and ?n = "k_expirations E (calls a)"
  have "aaf_expire E (unat ?n) ?a = (r, b)"
    using assms by (auto simp: aaf_timer_timeout_def sys_def Let_def split: if_splits prod.splits)
  moreover have "io_stream (io ?a) = CAPTURE" using assms(1) by simp
  moreover have "present_steps k ?a = present_steps k a" for k by (simp add: present_steps_def)
  ultimately obtain k where k: "k \<le> unat ?n" "hw_ptr b = present_steps k a"
    "if r < 0 then r = - EPIPE \<and> k < unat ?n \<and> timer_expirations b = timer_expirations ?a + of_nat (Suc k)
     else r = 0 \<and> k = unat ?n \<and> timer_expirations b = timer_expirations ?a + of_nat (unat ?n)"
    using aaf_expire_capture [of ?a E "unat ?n" r b] by metis
  have "of_nat (unat ?n) = ?n" by simp
  then show ?thesis using k by (intro exI [of _ k]) (simp split: if_splits)
qed

lemma flush_loop_returns:
  assumes "fst (k_call E m) = - 1" "calls a \<le> m" "\<And>i. calls a \<le> i \<Longrightarrow> i < m \<Longrightarrow> fst (k_call E i) \<noteq> - 1"
  shows "aaf_flush_loop E a = Some (snd (k_call E m), a\<lparr>calls := Suc m\<rparr>)"
  using assms(2,3)
proof (induction "m - calls a" arbitrary: a)
  case 0
  then have "calls a = m" by simp
  then show ?case using assms(1)
    by (subst aaf_flush_loop.simps) (simp add: sys_def case_prod_beta)
next
  case (Suc d)
  then have "fst (k_call E (calls a)) \<noteq> - 1" by simp
  moreover have "aaf_flush_loop E (a\<lparr>calls := Suc (calls a)\<rparr>)
      = Some (snd (k_call E m), a\<lparr>calls := Suc (calls a)\<rparr>\<lparr>calls := Suc m\<rparr>)"
    using Suc.hyps(2) Suc.prems by (intro Suc.hyps(1)) auto
  ultimately show ?case
    by (subst aaf_flush_loop.simps) (simp add: sys_def case_prod_beta)
qed

lemma flush_loop_fails:
  "aaf_flush_loop E a = Some r \<Longrightarrow> \<exists>m \<ge> calls a. fst (k_call E m) = - 1"
proof (rule aaf_flush_loop.raw_induct [where P = "\<lambda>E a r. \<exists>m \<ge> calls a. fst (k_call E m) = - 1"])
  fix f and E :: "('p, 'f) aaf_env" and a r
  assume IH: "\<And>E a r. f E a = Some r \<Longrightarrow> \<exists>m \<ge> calls a. fst (k_call E m) = - 1"
    and eq: "(let ((n, e), a') = sys E a in if n \<noteq> - 1 then f E a' else Some (e, a')) = Some r"
  show "\<exists>m \<ge> calls a. fst (k_call E m) = - 1"
  proof (cases "fst (k_call E (calls a)) = - 1")
    case True
    then show ?thesis by blast
  next
    case False
    then have "f E (a\<lparr>calls := Suc (calls a)\<rparr>) = Some r"
      using eq by (auto simp: sys_def Let_def split: prod.splits if_splits)
    then show ?thesis using IH [of E "a\<lparr>calls := Suc (calls a)\<rparr>" r] by (auto dest: Suc_leD)
  qed
qed

text \<open>
  C30: starting the listener drains the socket. \<open>aaf_start\<close> returns exactly if some
  \<open>recv\<close> after the allocation returns -1; it stops at the first such call, succeeds if its
  errno is \<open>EAGAIN\<close> (the socket is empty) and fails with that errno otherwise. Against a
  socket that never runs empty it does not return.
\<close>

theorem aaf_start_drains:
  assumes "io_stream (io a) = CAPTURE" "k_alloc E (calls a)"
  shows "(case aaf_start E a of
      None \<Rightarrow> \<forall>m > calls a. fst (k_call E m) \<noteq> - 1
    | Some (res, b) \<Rightarrow> \<exists>m > calls a. fst (k_call E m) = - 1
        \<and> (\<forall>i. calls a < i \<and> i < m \<longrightarrow> fst (k_call E i) \<noteq> - 1) \<and> b = a\<lparr>calls := Suc m\<rparr>
        \<and> (snd (k_call E m) = EAGAIN \<longrightarrow> res = 0)
        \<and> (0 < snd (k_call E m) \<and> snd (k_call E m) \<noteq> EAGAIN \<longrightarrow> res = - snd (k_call E m)))"
proof -
  let ?a = "a\<lparr>calls := Suc (calls a)\<rparr>"
  show ?thesis
  proof (cases "\<exists>m > calls a. fst (k_call E m) = - 1")
    case True
    define m where "m = (LEAST m. calls a < m \<and> fst (k_call E m) = - 1)"
    have m: "calls a < m" "fst (k_call E m) = - 1"
      using True LeastI_ex [of "\<lambda>m. calls a < m \<and> fst (k_call E m) = - 1"] by (auto simp: m_def)
    have least: "fst (k_call E i) \<noteq> - 1" if "calls a < i" "i < m" for i
      using that not_less_Least [of i "\<lambda>m. calls a < m \<and> fst (k_call E m) = - 1"] by (auto simp: m_def)
    have "aaf_flush_loop E ?a = Some (snd (k_call E m), ?a\<lparr>calls := Suc m\<rparr>)"
      using m least by (intro flush_loop_returns) auto
    then have "aaf_start E a =
        Some (if snd (k_call E m) = EAGAIN \<or> snd (k_call E m) \<le> 0 then
                0 else - snd (k_call E m), a\<lparr>calls := Suc m\<rparr>)"
      using assms by (simp add: aaf_start_def aaf_flush_rx_buf_def Let_def not_less)
    then obtain res where start: "aaf_start E a = Some (res, a\<lparr>calls := Suc m\<rparr>)"
        "snd (k_call E m) = EAGAIN \<longrightarrow> res = 0"
        "0 < snd (k_call E m) \<and> snd (k_call E m) \<noteq> EAGAIN \<longrightarrow> res = - snd (k_call E m)"
      by fastforce
    show ?thesis unfolding start(1) option.case prod.case
      using m least start(2,3) by (intro exI [of _ m] conjI allI impI) simp_all
  next
    case False
    then have "aaf_flush_loop E ?a = None"
      using flush_loop_fails [of E ?a] by (cases "aaf_flush_loop E ?a") (auto simp: Suc_le_eq)
    then show ?thesis using assms False by (simp add: aaf_start_def aaf_flush_rx_buf_def Let_def)
  qed
qed

subsection \<open>Witnesses\<close>

definition demo_poll_env :: "(avtp_field \<Rightarrow> u64, nat) aaf_env" where
  "demo_poll_env = ref_env (\<lambda>n. if n = 0 then (8, 0) else (- 1, EAGAIN)) (0, 0) (\<lambda>_. 0, [])"

definition demo_present :: "(avtp_field \<Rightarrow> u64, nat) aaf" where
  "demo_present = demo_aaf CAPTURE 2 []\<lparr>hw_virt_ptr := 6\<rparr>"

theorem aaf_pointers_bounded_witness:
  "let a = (demo_aaf CAPTURE 2 []); a0 = snd (aaf_prepare demo_poll_env a []);
       b = snd (aaf_stop demo_poll_env a0) in hw_ptr b \<le> boundary b \<and> hw_virt_ptr b \<le> boundary b"
proof -
  let ?a = "demo_aaf CAPTURE 2 []"
  obtain r a0 where p: "aaf_prepare demo_poll_env ?a [] = (r, a0)" by fastforce
  obtain q b where s: "aaf_stop demo_poll_env a0 = (q, b)" by fastforce
  have "bounds_ok ?a" by (simp add: bounds_ok_def demo_defs)
  moreover have "(aaf_step demo_poll_env)\<^sup>*\<^sup>* a0 b" using step_stop [OF s] by blast
  ultimately show ?thesis using aaf_pointers_bounded [OF _ p] p s by (simp add: Let_def)
qed

theorem aaf_timer_timeout_capture_witness:
  "\<exists>r b. aaf_timer_timeout demo_poll_env demo_present = (r, b)
     \<and> (\<exists>k \<le> unat (k_expirations demo_poll_env 0). hw_ptr b = present_steps k demo_present)"
proof -
  obtain r b where t: "aaf_timer_timeout demo_poll_env demo_present = (r, b)" by fastforce
  have "io_stream (io demo_present) = CAPTURE" "calls demo_present = 0"
    "0 \<le> fst (k_call demo_poll_env (calls demo_present))"
    by (simp_all add: demo_present_def demo_defs demo_poll_env_def ref_env_sel)
  with aaf_timer_timeout_capture [OF this(1) t this(3)] t show ?thesis by auto
qed

theorem aaf_start_drains_witness:
  "\<exists>b. aaf_start demo_poll_env demo_present = Some (0, b)"
proof -
  let ?a = demo_present
  have s: "io_stream (io ?a) = CAPTURE" "k_alloc demo_poll_env (calls ?a)" "calls ?a = 0"
    by (simp_all add: demo_present_def demo_defs demo_poll_env_def ref_env_sel)
  have k: "snd (k_call demo_poll_env m) = EAGAIN \<and> fst (k_call demo_poll_env m) = - 1" if "0 < m" for m
    using that by (simp add: demo_poll_env_def ref_env_sel)
  show ?thesis
    using aaf_start_drains [OF s(1,2)] k s(3) by (auto split: option.splits prod.splits)
qed

end
