(* ===== verification/MaemoDsp.thy ===== *)
theory MaemoDsp
  imports Alsa
begin

section \<open>The Maemo DSP protocol (maemo/dsp-protocol.c)\<close>

text \<open>
  The library drives a PCM task node of the DSP through a device file: 16-bit command words
  and structures are written, status structures are read back, audio goes through a shared
  buffer. A semaphore named after the device excludes other processes and a mutex other
  threads.

  \<open>dsp_env\<close> is the kernel: call number \<open>n\<close> returns \<open>k_ret n\<close> (value and errno), and what a
  \<open>read\<close> left in the caller's structure is the corresponding field at \<open>n\<close>, whatever the
  return value (a short read leaves the rest of the structure as it was). \<open>dsp\<close> is
  \<open>dsp_protocol_t\<close> with, as ghost state, the number of calls, the thread's \<open>errno\<close>, the
  number of live \<open>strdup\<close> copies and the trace of writes and semaphore operations. A model
  returns the C result and the state; \<open>None\<close> is undefined behaviour or a loop that does
  not end. Floating-point expressions are written in integers: all their values are dyadic
  fractions of few enough bits to be exact.
\<close>

subsection \<open>Constants and data\<close>

abbreviation (input) DSP_CMD_INIT :: u16 where "DSP_CMD_INIT \<equiv> 0x01"
abbreviation (input) DSP_CMD_DATA_WRITE :: u16 where "DSP_CMD_DATA_WRITE \<equiv> 0x03"
abbreviation (input) DSP_CMD_PLAY :: u16 where "DSP_CMD_PLAY \<equiv> 0x04"
abbreviation (input) DSP_CMD_PAUSE :: u16 where "DSP_CMD_PAUSE \<equiv> 0x05"
abbreviation (input) DSP_CMD_STOP :: u16 where "DSP_CMD_STOP \<equiv> 0x06"
abbreviation (input) DSP_CMD_SET_VOLUME :: u16 where "DSP_CMD_SET_VOLUME \<equiv> 0x07"
abbreviation (input) DSP_CMD_STATE :: u16 where "DSP_CMD_STATE \<equiv> 0x08"
abbreviation (input) DSP_CMD_SET_PANNING :: u16 where "DSP_CMD_SET_PANNING \<equiv> 0x0D"
abbreviation (input) DSP_CMD_MUTE :: u16 where "DSP_CMD_MUTE \<equiv> 0x0F"
abbreviation (input) DSP_CMD_UNMUTE :: u16 where "DSP_CMD_UNMUTE \<equiv> 0x10"
abbreviation (input) DSP_CMD_CLOSE :: u16 where "DSP_CMD_CLOSE \<equiv> 0x14"
abbreviation (input) DSP_CMD_DATA_READ :: u16 where "DSP_CMD_DATA_READ \<equiv> 0x25"
abbreviation (input) DSP_OK :: u16 where "DSP_OK \<equiv> 1"
abbreviation (input) CHANNELS_1 :: int where "CHANNELS_1 \<equiv> 1"
abbreviation (input) CHANNELS_2 :: int where "CHANNELS_2 \<equiv> 2"
abbreviation (input) STATE_INITIALISED :: int where "STATE_INITIALISED \<equiv> 0"
abbreviation (input) STATE_PLAYING :: int where "STATE_PLAYING \<equiv> 1"
abbreviation (input) STATE_STOPPED :: int where "STATE_STOPPED \<equiv> 2"
abbreviation (input) STATE_PAUSED :: int where "STATE_PAUSED \<equiv> 3"
abbreviation (input) STATE_UNINITIALISED :: int where "STATE_UNINITIALISED \<equiv> 4"

record audio_init_status =
  is_dsp_cmd :: u16
  is_init_status :: u16
  is_stream_id :: u16
  is_bridge_buffer_size :: u16
  is_mmap_buffer_size :: u16

record audio_params =
  ap_dsp_cmd :: u16
  ap_dsp_audio_fmt :: u16
  ap_sample_rate :: u16
  ap_number_channels :: u16
  ap_ds_stream_id :: u16
  ap_stream_priority :: u16

record speech_params =
  sp_dsp_cmd :: u16
  sp_audio_fmt :: u16
  sp_sample_rate :: u16
  sp_ds_stream_id :: u16
  sp_stream_priority :: u16
  sp_frame_size :: u16

record audio_status_info =
  si_dsp_cmd :: u16
  si_stream_id :: u16
  si_ds_stream_id :: u16
  si_bridge_buffer_size :: u16
  si_mmap_buffer_size :: u16
  si_status :: u16
  si_num_frames :: u32
  si_sample_rate :: u16
  si_number_channels :: u16
  si_vol_scale :: u16
  si_vol_power2 :: u16
  si_left_gain :: u16
  si_right_gain :: u16
  si_dsp_audio_fmt :: u16
  si_mute :: u16
  si_samples_played_high :: u32
  si_samples_played_low :: u32

text \<open>
  \<open>dsp_cmd_status_t\<close>, and the two fields the code reads of \<open>write_status_t\<close> and
  \<open>read_status_t\<close>.
\<close>

record cmd_status =
  cs_dsp_cmd :: u16
  cs_status :: u16

datatype dsp_out =
    Out_cmd u16
  | Out_audio_params audio_params
  | Out_speech_params speech_params
  | Out_data_write (dw_cmd: u16) (dw_size: u16)
  | Out_cmd_status cmd_status
  | Out_volume (vd_cmd: u16) (vd_scale: u16) (vd_power2: u16)
  | Out_panning (pd_cmd: u16) (pd_left: u16) (pd_right: u16) (pd_steps: u16)

datatype dsp_event = Ev_write dsp_out | Ev_down | Ev_up

datatype mutex = Mutex_free | Mutex_mine | Mutex_other

datatype mapping_ptr = Map_null | Map_failed | Map_words "u16 list"

record dsp_env =
  k_ret :: "nat \<Rightarrow> int \<times> int"
  k_info :: "nat \<Rightarrow> audio_status_info"
  k_init :: "nat \<Rightarrow> audio_init_status"
  k_cmd_status :: "nat \<Rightarrow> cmd_status"
  k_shared :: "nat \<Rightarrow> nat \<Rightarrow> u16"

record dsp =
  d_fd :: int
  d_device :: "string option"
  d_state :: int
  d_mute :: int
  d_stream_id :: u32
  d_bridge_size :: u32
  d_mmap_size :: u32
  d_mmap :: mapping_ptr
  d_mutex :: mutex
  d_sem_set_id :: int
  d_errno :: int
  d_calls :: nat
  d_strings :: nat
  d_trace :: "dsp_event list"

subsection \<open>System calls\<close>

definition dsp_call :: "dsp_env \<Rightarrow> dsp \<Rightarrow> int \<times> dsp" where
  "dsp_call E d =
     (let (r, e) = k_ret E (d_calls d) in
      (r, d\<lparr>d_calls := Suc (d_calls d), d_errno := (if r < 0 then e else d_errno d)\<rparr>))"

definition dsp_write :: "dsp_env \<Rightarrow> dsp_out \<Rightarrow> dsp \<Rightarrow> int \<times> dsp" where
  "dsp_write E out d =
     (let (r, d) = dsp_call E d in
      (r, if r < 0 then d else d\<lparr>d_trace := d_trace d @ [Ev_write out]\<rparr>))"

definition dsp_strdup :: "string \<Rightarrow> dsp \<Rightarrow> dsp" where
  "dsp_strdup s d = d\<lparr>d_device := Some s, d_strings := Suc (d_strings d)\<rparr>"

subsection \<open>The semaphore and the mutex\<close>

definition dsp_get_sem :: "dsp_env \<Rightarrow> dsp \<Rightarrow> int \<times> dsp" where
  "dsp_get_sem E d =
     (let (key, d) = dsp_call E d in
      if key = - 1 then (- ENODEV, d)
      else
        let (id1, d) = dsp_call E d; d = d\<lparr>d_sem_set_id := id1\<rparr> in
        if id1 = - 1 then
          let (id2, d) = dsp_call E d; d = d\<lparr>d_sem_set_id := id2\<rparr> in
          if id2 = - 1 then (- ENODEV, d)
          else let (rc, d) = dsp_call E d in if rc = - 1 then (- ENODEV, d) else (0, d)
        else (0, d))"

text \<open>
  \<open>pthread_mutex_trylock\<close> returns \<open>EBUSY\<close> when the mutex is taken and does not touch
  \<open>errno\<close>; \<open>pthread_mutex_unlock\<close> of an error-checking mutex held by another thread fails.
\<close>

definition dsp_lock_dev :: "dsp_env \<Rightarrow> dsp \<Rightarrow> int \<times> dsp" where
  "dsp_lock_dev E d =
     (if d_mutex d \<noteq> Mutex_free then (if d_errno d = EBUSY then 0 else EBUSY, d)
      else
        let d = d\<lparr>d_mutex := Mutex_mine\<rparr>; (r, d) = dsp_call E d in
        if r = - 1 then (- d_errno d, d\<lparr>d_mutex := Mutex_free\<rparr>)
        else (0, d\<lparr>d_trace := d_trace d @ [Ev_down]\<rparr>))"

definition dsp_unlock_dev :: "dsp_env \<Rightarrow> dsp \<Rightarrow> dsp" where
  "dsp_unlock_dev E d =
     (let (r, d) = dsp_call E d; d = d\<lparr>d_trace := d_trace d @ [Ev_up]\<rparr> in
      if d_mutex d = Mutex_mine then d\<lparr>d_mutex := Mutex_free\<rparr> else d)"

text \<open>
  The shape of every operation: \<open>if ((ret = lock_dev()) < 0) goto out; \<dots> unlock:
  unlock_dev(); out: return ret;\<close>. The body gives the operation's results, \<open>fail\<close> those
  of the early exit.
\<close>

definition dsp_locked ::
    "dsp_env \<Rightarrow> (int \<Rightarrow> 'a) \<Rightarrow> (dsp \<Rightarrow> ('a \<times> dsp) option) \<Rightarrow> dsp \<Rightarrow> ('a \<times> dsp) option" where
  "dsp_locked E fail body d =
     (let (ret, d) = dsp_lock_dev E d in
      if ret < 0 then Some (fail ret, d)
      else do { (x, d) \<leftarrow> body d; Some (x, dsp_unlock_dev E d) })"

subsection \<open>Commands\<close>

partial_function (option) dsp_flush :: "dsp_env \<Rightarrow> dsp \<Rightarrow> (int \<times> dsp) option" where
  "dsp_flush E d =
     (let (p, d) = dsp_call E d in
      if p > 0 then
        let (n, d) = dsp_call E d in if n = 0 then Some (0, d) else dsp_flush E d
      else Some (0, d))"

definition dsp_send_command :: "dsp_env \<Rightarrow> u16 \<Rightarrow> dsp \<Rightarrow> int \<times> dsp" where
  "dsp_send_command E command d =
     (let (w, d) = dsp_write E (Out_cmd command) d;
          ret = (if w < 0 then - EIO else 0);
          st = k_cmd_status E (d_calls d);
          (r, d) = dsp_call E d
      in if r < 0 then (- 1, d)
         else if cs_status st \<noteq> DSP_OK then (- EIO, d) else (ret, d))"

definition dsp_update_state :: "dsp_env \<Rightarrow> dsp \<Rightarrow> (int \<times> dsp) option" where
  "dsp_update_state E d = do {
     (f, d) \<leftarrow> dsp_flush E d;
     if f < 0 then Some (f, d)
     else
       let (w, d) = dsp_write E (Out_cmd DSP_CMD_STATE) d in
       if w < 0 then Some (- EIO, d)
       else
         let info = k_info E (d_calls d); (r, d) = dsp_call E d in
         if r < 0 then Some (r, d)
         else Some (uint (si_number_channels info),
                d\<lparr>d_stream_id := ucast (si_stream_id info),
                  d_bridge_size := ucast (si_bridge_buffer_size info),
                  d_mmap_size := ucast (si_mmap_buffer_size info),
                  d_state := uint (si_status info), d_mute := uint (si_mute info)\<rparr>)
   }"

end
