(* ===== verification/MaemoOps.thy ===== *)
theory MaemoOps
  imports MaemoDsp
begin

section \<open>The Maemo DSP protocol: its operations\<close>

text \<open>
  The exported functions of maemo/dsp-protocol.c, in the file's order. A parameter the C code
  writes through (the data of \<open>receive_audio_data\<close>, the two volumes) is part of the result.
\<close>

subsection \<open>Initialisation\<close>

definition dsp_protocol_create :: "bool \<Rightarrow> int \<times> dsp option" where
  "dsp_protocol_create alloc_ok =
     (if \<not> alloc_ok then (- ENOMEM, None)
      else (0, Some \<lparr>d_fd = - 1, d_device = None, d_state = STATE_UNINITIALISED, d_mute = 0,
                   d_stream_id = 0, d_bridge_size = 0, d_mmap_size = 0, d_mmap = Map_null,
                   d_mutex = Mutex_free, d_sem_set_id = - 1, d_errno = 0, d_calls = 0,
                   d_strings = 0, d_trace = []\<rparr>))"

text \<open>The part of \<open>open_node\<close> between the lock and the label \<open>unlock\<close>.\<close>

definition dsp_open_locked :: "dsp_env \<Rightarrow> dsp \<Rightarrow> (int \<times> dsp) option" where
  "dsp_open_locked E d = do {
     (f, d) \<leftarrow> dsp_flush E d;
     if f < 0 then Some (f, d)
     else
       let (w, d) = dsp_write E (Out_cmd DSP_CMD_STATE) d in
       if w < 0 then Some (- EIO, d)
       else
         let info = k_info E (d_calls d); (r, d) = dsp_call E d in
         if r < 0 then Some (r, d)
         else if uint (si_status info) = STATE_UNINITIALISED then
           let (w, d) = dsp_write E (Out_cmd DSP_CMD_INIT) d in
           if w < 0 then Some (- EIO, d)
           else
             let init = k_init E (d_calls d); (r, d) = dsp_call E d in
             if r < 0 then Some (r, d)
             else
               let d = d\<lparr>d_stream_id := ucast (is_stream_id init),
                         d_bridge_size := ucast (is_bridge_buffer_size init),
                         d_mmap_size := ucast (is_mmap_buffer_size init)\<rparr>;
                   n = d_calls d;
                   (m, d) = dsp_call E d
               in if m = - 1 then Some (- ENOMEM, d\<lparr>d_mmap := Map_failed\<rparr>)
                  else Some (0, d\<lparr>d_mmap := Map_words (map (k_shared E n) [0..<unat (d_mmap_size d) div 2]),
                                  d_state := STATE_INITIALISED\<rparr>)
         else Some (- EBUSY, d)
   }"

definition dsp_protocol_open_node :: "dsp_env \<Rightarrow> string \<Rightarrow> dsp \<Rightarrow> (int \<times> dsp) option" where
  "dsp_protocol_open_node E device d =
     (if d_state d \<noteq> STATE_UNINITIALISED then Some (- EIO, d)
      else
        let (fd, d) = dsp_call E d; d = d\<lparr>d_fd := fd\<rparr> in
        if fd < 0 then Some (d_errno d, d)
        else dsp_locked E id (dsp_open_locked E) (snd (dsp_get_sem E (dsp_strdup device d))))"

definition dsp_params_locked :: "dsp_env \<Rightarrow> (u16 \<Rightarrow> dsp_out) \<Rightarrow> dsp \<Rightarrow> (int \<times> dsp) option" where
  "dsp_params_locked E params d =
     (let (w, d) = dsp_write E (params (ucast (d_stream_id d))) d in
      if w < 0 then Some (- 1, d)
      else
        let st = k_cmd_status E (d_calls d); (r, d) = dsp_call E d in
        if r < 0 then Some (- 1, d)
        else if cs_status st \<noteq> DSP_OK then Some (- 1, d) else Some (0, d))"

definition dsp_protocol_send_audio_params :: "dsp_env \<Rightarrow> audio_params \<Rightarrow> dsp \<Rightarrow> (int \<times> dsp) option" where
  "dsp_protocol_send_audio_params E p d =
     (if d_state d \<noteq> STATE_INITIALISED then Some (- EIO, d)
      else dsp_locked E id
             (dsp_params_locked E (\<lambda>sid. Out_audio_params (p\<lparr>ap_ds_stream_id := sid\<rparr>))) d)"

definition dsp_protocol_send_speech_params :: "dsp_env \<Rightarrow> speech_params \<Rightarrow> dsp \<Rightarrow> (int \<times> dsp) option" where
  "dsp_protocol_send_speech_params E p d =
     (if d_state d \<noteq> STATE_INITIALISED then Some (- EIO, d)
      else dsp_locked E id
             (dsp_params_locked E (\<lambda>sid. Out_speech_params (p\<lparr>sp_ds_stream_id := sid\<rparr>))) d)"

subsection \<open>Execution\<close>

definition dsp_play_locked :: "dsp_env \<Rightarrow> dsp \<Rightarrow> (int \<times> dsp) option" where
  "dsp_play_locked E d =
     (if d_state d = STATE_PLAYING then Some (0, d)
      else
        let (ret, d) = dsp_send_command E DSP_CMD_PLAY d;
            d = (if ret = 0 then d\<lparr>d_state := STATE_PLAYING\<rparr> else d)
        in do { (f, d) \<leftarrow> dsp_flush E d; Some (ret, d) })"

definition dsp_protocol_send_play :: "dsp_env \<Rightarrow> dsp \<Rightarrow> (int \<times> dsp) option" where
  "dsp_protocol_send_play E d =
     (if d_state d = STATE_UNINITIALISED then Some (- EIO, d)
      else dsp_locked E id (dsp_play_locked E) d)"

text \<open>\<open>memcpy\<close> of \<open>count\<close> words into the shared buffer: outside it the behaviour is undefined.\<close>

definition shared_put :: "u16 list \<Rightarrow> dsp \<Rightarrow> dsp option" where
  "shared_put data d =
     (case d_mmap d of
        Map_words ws \<Rightarrow>
          if length data \<le> length ws then Some (d\<lparr>d_mmap := Map_words (data @ drop (length data) ws)\<rparr>)
          else None
      | _ \<Rightarrow> if data = [] then Some d else None)"

definition shared_get :: "dsp_env \<Rightarrow> nat \<Rightarrow> dsp \<Rightarrow> u16 list option" where
  "shared_get E count d =
     (case d_mmap d of
        Map_words ws \<Rightarrow> if count \<le> length ws then Some (map (k_shared E (d_calls d)) [0..<count]) else None
      | _ \<Rightarrow> if count = 0 then Some [] else None)"

definition dsp_send_data_locked :: "dsp_env \<Rightarrow> u16 list \<Rightarrow> dsp \<Rightarrow> (int \<times> dsp) option" where
  "dsp_send_data_locked E data d = do {
     d \<leftarrow> shared_put data d;
     let (w, d) = dsp_write E (Out_data_write DSP_CMD_DATA_WRITE (of_nat (length data))) d in
     if w < 0 then Some (w, d)
     else
       let st = k_cmd_status E (d_calls d); (r, d) = dsp_call E d in
       if r < 0 then Some (r, d)
       else if cs_dsp_cmd st = DSP_CMD_DATA_WRITE then
         Some (if cs_status st = DSP_OK then int (length data) else 0, d)
       else Some (0, d)
   }"

definition dsp_protocol_send_audio_data :: "dsp_env \<Rightarrow> u16 list \<Rightarrow> dsp \<Rightarrow> (int \<times> dsp) option" where
  "dsp_protocol_send_audio_data E data d =
     (if d_state d \<noteq> STATE_PLAYING then Some (0, d)
      else dsp_locked E id (dsp_send_data_locked E data) d)"

text \<open>The received words are what the buffer holds right after the lock.\<close>

definition dsp_receive_data_locked ::
    "dsp_env \<Rightarrow> int \<Rightarrow> dsp \<Rightarrow> ((int \<times> u16 list option) \<times> dsp) option" where
  "dsp_receive_data_locked E count d = do {
     data \<leftarrow> (if count < 0 then None else shared_get E (nat count) d);
     let (w, d) = dsp_write E (Out_cmd_status \<lparr>cs_dsp_cmd = DSP_CMD_DATA_READ, cs_status = DSP_OK\<rparr>) d in
     if w < 0 then Some ((w, Some data), d)
     else
       let st = k_cmd_status E (d_calls d); (r, d) = dsp_call E d in
       if r < 0 then Some ((r, Some data), d)
       else if cs_dsp_cmd st = DSP_CMD_DATA_READ then
         Some ((if cs_status st = DSP_OK then count else 0, Some data), d)
       else Some ((0, Some data), d)
   }"

definition dsp_protocol_receive_audio_data ::
    "dsp_env \<Rightarrow> int \<Rightarrow> dsp \<Rightarrow> ((int \<times> u16 list option) \<times> dsp) option" where
  "dsp_protocol_receive_audio_data E count d =
     (if d_state d \<noteq> STATE_PLAYING then Some ((0, None), d)
      else dsp_locked E (\<lambda>r. (r, None)) (dsp_receive_data_locked E count) d)"

text \<open>\<open>send_pause\<close> and \<open>send_stop\<close> differ in the command and the state it leads to.\<close>

definition dsp_halt_locked :: "dsp_env \<Rightarrow> u16 \<Rightarrow> int \<Rightarrow> dsp \<Rightarrow> (int \<times> dsp) option" where
  "dsp_halt_locked E command st d =
     (if d_state d = st then Some (0, d)
      else
        let (ret, d) = dsp_send_command E command d
        in Some (ret, if ret = 0 then d\<lparr>d_state := st\<rparr> else d))"

definition dsp_protocol_send_pause :: "dsp_env \<Rightarrow> dsp \<Rightarrow> (int \<times> dsp) option" where
  "dsp_protocol_send_pause E d =
     (if d_state d \<noteq> STATE_PLAYING then Some (- EIO, d)
      else dsp_locked E id (dsp_halt_locked E DSP_CMD_PAUSE STATE_PAUSED) d)"

definition dsp_protocol_send_stop :: "dsp_env \<Rightarrow> dsp \<Rightarrow> (int \<times> dsp) option" where
  "dsp_protocol_send_stop E d =
     (if d_state d \<noteq> STATE_PLAYING then Some (- EIO, d)
      else dsp_locked E id (dsp_halt_locked E DSP_CMD_STOP STATE_STOPPED) d)"

subsection \<open>Deletion\<close>

definition dsp_close_fields :: "dsp_env \<Rightarrow> dsp \<Rightarrow> dsp" where
  "dsp_close_fields E d =
     (let d = (if d_mmap d = Map_null then d else snd (dsp_call E d));
          d = snd (dsp_call E d)
      in d\<lparr>d_fd := - 1, d_strings := d_strings d - (if d_device d = None then 0 else 1),
           d_device := None, d_state := STATE_UNINITIALISED, d_mute := 0, d_stream_id := 0,
           d_bridge_size := 0, d_mmap_size := 0, d_mmap := Map_null\<rparr>)"

definition dsp_close_locked :: "dsp_env \<Rightarrow> dsp \<Rightarrow> (int \<times> dsp) option" where
  "dsp_close_locked E d = do {
     (f, d) \<leftarrow> dsp_flush E d;
     if f < 0 then Some (f, d)
     else
       let (ret, d) = dsp_send_command E DSP_CMD_CLOSE d in
       if ret < 0 then Some (ret, d) else Some (0, dsp_close_fields E d)
   }"

definition dsp_protocol_close_node :: "dsp_env \<Rightarrow> dsp \<Rightarrow> (int \<times> dsp) option" where
  "dsp_protocol_close_node E d =
     (if d_state d \<noteq> STATE_UNINITIALISED then dsp_locked E id (dsp_close_locked E) d
      else Some (0, dsp_unlock_dev E (dsp_close_fields E d)))"

text \<open>\<open>destroy\<close> frees the device name and the structure: what stays allocated is the result.\<close>

definition dsp_protocol_destroy :: "dsp option \<Rightarrow> int \<times> nat" where
  "dsp_protocol_destroy d =
     (case d of None \<Rightarrow> (0, 0)
      | Some d \<Rightarrow> (0, d_strings d - (if d_device d = None then 0 else 1)))"

subsection \<open>Volume in Q15\<close>

abbreviation (input) MAGIC_NUMBER :: int where "MAGIC_NUMBER \<equiv> 0x00A3D70A"
abbreviation (input) PANNING_STEP :: u16 where "PANNING_STEP \<equiv> 0x06"

text \<open>\<open>while (val < 0x40000000) { power2--; val <<= 1; }\<close>, which does not end for 0.\<close>

partial_function (option) q15_normalise :: "int \<Rightarrow> u16 \<Rightarrow> (int \<times> u16) option" where
  "q15_normalise val p2 =
     (if val < 0x40000000 then q15_normalise (2 * val) (p2 - 1) else Some (val, p2))"

text \<open>\<open>MAGIC_NUMBER * input\<close> is an \<open>int\<close> product: its overflow is undefined.\<close>

definition dsp_protocol_linear2Q15 :: "u16 \<Rightarrow> (u16 \<times> u16) option" where
  "dsp_protocol_linear2Q15 input =
     (if MAGIC_NUMBER * uint input \<ge> 2 ^ 31 then None
      else if input = 0 then Some (0, 0)
      else do {
        (val, p2) \<leftarrow> q15_normalise (MAGIC_NUMBER * uint input) 1;
        Some (word_of_int (val div 2 ^ 16), p2)
      })"

text \<open>
  \<open>scale / 2^15 * 2^power2 * 100\<close> rounded to the nearest integer, halves down. The shift is
  undefined from 31 on, the conversion to \<open>short\<close> outside its range.
\<close>

definition dsp_protocol_Q152linear :: "u16 \<Rightarrow> u16 \<Rightarrow> u16 option" where
  "dsp_protocol_Q152linear scale p2 =
     (if p2 \<ge> 31 then None
      else
        let num = uint scale * 2 ^ unat p2 * 100; q = num div 0x8000; r = num mod 0x8000 in
        if q \<ge> 2 ^ 15 then None
        else Some (word_of_int (if 2 * r > 0x8000 then q + 1 else q)))"

definition pan_gain :: "u8 \<Rightarrow> u8 \<Rightarrow> u16" where
  "pan_gain this other =
     (if this < other then word_of_int (uint this * 0x4000 div uint other) else 0x4000)"

definition dsp_set_volume_locked :: "dsp_env \<Rightarrow> u8 \<Rightarrow> u8 \<Rightarrow> dsp \<Rightarrow> (int \<times> dsp) option" where
  "dsp_set_volume_locked E left right d = do {
     (scale, p2) \<leftarrow> dsp_protocol_linear2Q15 (ucast (if left > right then left else right));
     let (w, d) = dsp_write E (Out_volume DSP_CMD_SET_VOLUME scale p2) d in
     if w < 0 then Some (w, d)
     else
       let st = k_cmd_status E (d_calls d); (r, d) = dsp_call E d in
       if r < 0 then Some (- EINVAL, d)
       else if cs_status st \<noteq> DSP_OK then Some (- EIO, d)
       else
         let (w, d) = dsp_write E (Out_panning DSP_CMD_SET_PANNING (pan_gain left right)
                        (pan_gain right left) PANNING_STEP) d in
         if w < 0 then Some (w, d)
         else
           let st = k_cmd_status E (d_calls d); (r, d) = dsp_call E d in
           if r < 0 then Some (- EINVAL, d)
           else if cs_status st \<noteq> DSP_OK then Some (- EIO, d) else Some (0, d)
   }"

definition dsp_protocol_set_volume :: "dsp_env \<Rightarrow> u8 \<Rightarrow> u8 \<Rightarrow> dsp \<Rightarrow> (int \<times> dsp) option" where
  "dsp_protocol_set_volume E left right d = dsp_locked E id (dsp_set_volume_locked E left right) d"

text \<open>\<open>v * gain / 0x4000\<close>, halves down; the conversion to \<open>unsigned char\<close> is undefined from 256 on.\<close>

definition apply_gain :: "u8 \<Rightarrow> u16 \<Rightarrow> u8 option" where
  "apply_gain v gain =
     (let num = uint v * uint gain; q = num div 0x4000; r = num mod 0x4000 in
      if q \<ge> 256 then None else Some (word_of_int (if 2 * r > 0x4000 then q + 1 else q)))"

definition dsp_volume_of :: "audio_status_info \<Rightarrow> (u8 \<times> u8) option" where
  "dsp_volume_of info = do {
     tmp \<leftarrow> dsp_protocol_Q152linear (si_vol_scale info) (si_vol_power2 info);
     let left = ucast tmp;
     let right = ucast tmp;
     if uint (si_number_channels info) = CHANNELS_2 then do {
       right \<leftarrow> (if si_left_gain info > si_right_gain info
                then apply_gain right (si_right_gain info) else Some right);
       left \<leftarrow> (if si_left_gain info < si_right_gain info
               then apply_gain left (si_left_gain info) else Some left);
       Some (left, right)
     } else Some (left, right)
   }"

text \<open>The volumes are written only on the path that returns 0.\<close>

definition dsp_get_volume_locked ::
    "dsp_env \<Rightarrow> dsp \<Rightarrow> ((int \<times> (u8 \<times> u8) option) \<times> dsp) option" where
  "dsp_get_volume_locked E d =
     (let (w, d) = dsp_write E (Out_cmd DSP_CMD_STATE) d in
      if w < 0 then Some ((- EIO, None), d)
      else
        let info = k_info E (d_calls d); (r, d) = dsp_call E d in
        if r < 0 then Some ((r, None), d)
        else do {
          v \<leftarrow> dsp_volume_of info;
          Some ((0, Some v), d\<lparr>d_state := uint (si_status info)\<rparr>)
        })"

definition dsp_protocol_get_volume ::
    "dsp_env \<Rightarrow> dsp \<Rightarrow> ((int \<times> (u8 \<times> u8) option) \<times> dsp) option" where
  "dsp_protocol_get_volume E d = dsp_locked E (\<lambda>r. (r, None)) (dsp_get_volume_locked E) d"

subsection \<open>Mute, microphone, probing\<close>

definition dsp_set_mute_locked :: "dsp_env \<Rightarrow> u8 \<Rightarrow> dsp \<Rightarrow> (int \<times> dsp) option" where
  "dsp_set_mute_locked E mute d =
     (let (ret, d) = dsp_send_command E (if mute = 1 then DSP_CMD_MUTE else DSP_CMD_UNMUTE) d
      in Some (ret, d\<lparr>d_mute := uint mute\<rparr>))"

definition dsp_protocol_set_mute :: "dsp_env \<Rightarrow> u8 \<Rightarrow> dsp \<Rightarrow> (int \<times> dsp) option" where
  "dsp_protocol_set_mute E mute d = dsp_locked E id (dsp_set_mute_locked E mute) d"

definition dsp_get_mute_locked :: "dsp_env \<Rightarrow> dsp \<Rightarrow> (int \<times> dsp) option" where
  "dsp_get_mute_locked E d = do {
     (ret, d) \<leftarrow> dsp_update_state E d;
     Some (if ret \<ge> 0 then d_mute d else ret, d)
   }"

definition dsp_protocol_get_mute :: "dsp_env \<Rightarrow> dsp \<Rightarrow> (int \<times> dsp) option" where
  "dsp_protocol_get_mute E d = dsp_locked E id (dsp_get_mute_locked E) d"

text \<open>
  The build without the resource manager: the result and what is written to the control file,
  which may fail to open.
\<close>

definition dsp_protocol_set_mic_enabled :: "bool \<Rightarrow> int \<Rightarrow> int \<times> string option" where
  "dsp_protocol_set_mic_enabled open_ok enabled =
     (0, if open_ok then Some (if enabled \<noteq> 0 then ''1'' else ''0'') else None)"

definition dsp_probe_locked :: "dsp_env \<Rightarrow> string \<Rightarrow> dsp \<Rightarrow> (int \<times> dsp) option" where
  "dsp_probe_locked E device d = do {
     (ret, d) \<leftarrow> dsp_update_state E (dsp_strdup device d);
     Some (if ret \<noteq> CHANNELS_1 \<and> ret \<noteq> CHANNELS_2 then CHANNELS_1 else ret, d)
   }"

definition dsp_protocol_probe_node :: "dsp_env \<Rightarrow> string \<Rightarrow> dsp \<Rightarrow> (int \<times> dsp) option" where
  "dsp_protocol_probe_node E device d =
     (if d_state d \<noteq> STATE_UNINITIALISED then Some (- EIO, d)
      else
        let (fd, d) = dsp_call E d; d = d\<lparr>d_fd := fd\<rparr> in
        if fd < 0 then Some (d_errno d, d)
        else dsp_locked E id (dsp_probe_locked E device) (snd (dsp_get_sem E (dsp_strdup device d))))"

text \<open>
  \<open>safe_strtol\<close>: \<open>strtol\<close> with base 0 is a parameter giving the value, the rest of the
  string and \<open>errno\<close>.
\<close>

definition safe_strtol :: "(string \<Rightarrow> int \<times> string \<times> int) \<Rightarrow> string \<Rightarrow> int \<times> int option" where
  "safe_strtol strtol str =
     (if str = [] then (- EINVAL, None)
      else let (v, rest, e) = strtol str in
        if e \<noteq> 0 then (- e, None)
        else if rest \<noteq> [] then (- EINVAL, None)
        else (0, Some v))"

end
