(* ===== verification/MaemoLaws.thy ===== *)
theory MaemoLaws
  imports MaemoOps
begin

section \<open>The Maemo DSP protocol: the contract of an operation\<close>

text \<open>
  Every operation runs a body between \<open>lock_dev\<close> and \<open>unlock_dev\<close>. The locale
  \<open>device_op\<close> states what a body promises: which messages it may write, that it leaves the
  lock alone, and how it may move the protocol state. What follows for the operation is
  proved there once and read off for each body through its interpretation.
\<close>

subsection \<open>What the primitives do to the trace, the lock and the state\<close>

definition errno_pos :: "dsp_env \<Rightarrow> bool" where
  "errno_pos E \<longleftrightarrow> (\<forall>n. fst (k_ret E n) < 0 \<longrightarrow> 0 < snd (k_ret E n))"

named_theorems dsp_simps \<open>the primitives, field by field\<close>

lemma call_view [dsp_simps]:
  "d_trace (snd (dsp_call E d)) = d_trace d" "d_mutex (snd (dsp_call E d)) = d_mutex d"
  "d_state (snd (dsp_call E d)) = d_state d" "d_mmap (snd (dsp_call E d)) = d_mmap d"
  "d_device (snd (dsp_call E d)) = d_device d" "d_strings (snd (dsp_call E d)) = d_strings d"
  "d_calls (snd (dsp_call E d)) = Suc (d_calls d)"
  "d_stream_id (snd (dsp_call E d)) = d_stream_id d"
  "fst (dsp_call E d) = fst (k_ret E (d_calls d))"
  by (simp_all add: dsp_call_def case_prod_beta)

lemma call_pair: "dsp_call E d = (x, d') \<Longrightarrow> x = fst (k_ret E (d_calls d)) \<and> d' = snd (dsp_call E d)"
  using call_view(9) [of E d] by simp

lemma call_errno: "fst (dsp_call E d) < 0 \<Longrightarrow> d_errno (snd (dsp_call E d)) = snd (k_ret E (d_calls d))"
  by (simp add: dsp_call_def case_prod_beta)

lemma write_view [dsp_simps]:
  "d_trace (snd (dsp_write E out d)) = d_trace d @ (if fst (k_ret E (d_calls d)) < 0 then [] else [Ev_write out])"
  "d_mutex (snd (dsp_write E out d)) = d_mutex d" "d_state (snd (dsp_write E out d)) = d_state d"
  "d_mmap (snd (dsp_write E out d)) = d_mmap d" "d_device (snd (dsp_write E out d)) = d_device d"
  "d_strings (snd (dsp_write E out d)) = d_strings d"
  "d_calls (snd (dsp_write E out d)) = Suc (d_calls d)"
  "fst (dsp_write E out d) = fst (k_ret E (d_calls d))"
  by (simp_all add: dsp_write_def case_prod_beta dsp_simps)

lemma command_view [dsp_simps]:
  "d_mutex (snd (dsp_send_command E c d)) = d_mutex d" "d_state (snd (dsp_send_command E c d)) = d_state d"
  "d_trace (snd (dsp_send_command E c d)) =
     d_trace d @ (if fst (k_ret E (d_calls d)) < 0 then [] else [Ev_write (Out_cmd c)])"
  "d_device (snd (dsp_send_command E c d)) = d_device d" "d_mmap (snd (dsp_send_command E c d)) = d_mmap d"
  "d_strings (snd (dsp_send_command E c d)) = d_strings d"
  by (simp_all add: dsp_send_command_def case_prod_beta Let_def dsp_simps)

lemma command_pair: "dsp_send_command E c d = (x, d') \<Longrightarrow> d' = snd (dsp_send_command E c d)"
  by simp

lemma command_result: "fst (dsp_send_command E c d) \<le> 0"
  by (simp add: dsp_send_command_def case_prod_beta Let_def)

lemma command_sent: "fst (dsp_send_command E c d) = 0 \<Longrightarrow> 0 \<le> fst (k_ret E (d_calls d))"
  by (simp add: dsp_send_command_def case_prod_beta Let_def dsp_simps split: if_splits)

lemma flush_raw:
  "dsp_flush E d = Some r \<Longrightarrow> fst r = 0 \<and> d_trace (snd r) = d_trace d \<and> d_mutex (snd r) = d_mutex d
     \<and> d_state (snd r) = d_state d \<and> d_device (snd r) = d_device d \<and> d_strings (snd r) = d_strings d
     \<and> d_mmap (snd r) = d_mmap d"
proof (rule dsp_flush.raw_induct [where P = "\<lambda>E d r. fst r = 0 \<and> d_trace (snd r) = d_trace d
     \<and> d_mutex (snd r) = d_mutex d \<and> d_state (snd r) = d_state d \<and> d_device (snd r) = d_device d
     \<and> d_strings (snd r) = d_strings d \<and> d_mmap (snd r) = d_mmap d"], goal_cases)
  case (1 f E d r)
  then show ?case
    by (auto simp: case_prod_beta Let_def dsp_simps split: if_splits)
qed

lemma flush_view:
  "dsp_flush E d = Some (r, d') \<Longrightarrow> r = 0 \<and> d_trace d' = d_trace d \<and> d_mutex d' = d_mutex d
     \<and> d_state d' = d_state d \<and> d_device d' = d_device d \<and> d_strings d' = d_strings d
     \<and> d_mmap d' = d_mmap d"
  by (drule flush_raw) simp

lemma sem_view [dsp_simps]:
  "d_trace (snd (dsp_get_sem E d)) = d_trace d" "d_mutex (snd (dsp_get_sem E d)) = d_mutex d"
  "d_state (snd (dsp_get_sem E d)) = d_state d" "d_strings (snd (dsp_get_sem E d)) = d_strings d"
  "d_device (snd (dsp_get_sem E d)) = d_device d" "d_mmap (snd (dsp_get_sem E d)) = d_mmap d"
  by (simp_all add: dsp_get_sem_def case_prod_beta Let_def dsp_simps)

lemma close_fields_view [dsp_simps]:
  "d_trace (dsp_close_fields E d) = d_trace d" "d_mutex (dsp_close_fields E d) = d_mutex d"
  "d_state (dsp_close_fields E d) = STATE_UNINITIALISED"
  "d_strings (dsp_close_fields E d) = d_strings d - (if d_device d = None then 0 else 1)"
  "d_device (dsp_close_fields E d) = None"
  by (auto simp: dsp_close_fields_def Let_def dsp_simps)

lemma strdup_view [dsp_simps]:
  "d_trace (dsp_strdup s d) = d_trace d" "d_mutex (dsp_strdup s d) = d_mutex d"
  "d_state (dsp_strdup s d) = d_state d" "d_mmap (dsp_strdup s d) = d_mmap d"
  "d_strings (dsp_strdup s d) = Suc (d_strings d)" "d_device (dsp_strdup s d) = Some s"
  by (simp_all add: dsp_strdup_def)

lemma lock_view [dsp_simps]: "d_state (snd (dsp_lock_dev E d)) = d_state d"
  "d_strings (snd (dsp_lock_dev E d)) = d_strings d" "d_device (snd (dsp_lock_dev E d)) = d_device d"
  "d_mmap (snd (dsp_lock_dev E d)) = d_mmap d"
  by (simp_all add: dsp_lock_dev_def case_prod_beta Let_def dsp_simps)

lemma unlock_view [dsp_simps]: "d_state (dsp_unlock_dev E d) = d_state d"
  "d_strings (dsp_unlock_dev E d) = d_strings d" "d_device (dsp_unlock_dev E d) = d_device d"
  "d_mmap (dsp_unlock_dev E d) = d_mmap d"
  "d_trace (dsp_unlock_dev E d) = d_trace d @ [Ev_up]"
  "d_mutex (dsp_unlock_dev E d) = (if d_mutex d = Mutex_mine then Mutex_free else d_mutex d)"
  by (simp_all add: dsp_unlock_dev_def case_prod_beta Let_def dsp_simps)

text \<open>\<open>lock_dev\<close> with the mutex free either takes both locks or neither.\<close>

lemma lock_free:
  assumes "errno_pos E" "d_mutex d = Mutex_free" "dsp_lock_dev E d = (r, d')"
  shows "r < 0 \<and> d_mutex d' = Mutex_free \<and> d_trace d' = d_trace d
       \<or> r = 0 \<and> d_mutex d' = Mutex_mine \<and> d_trace d' = d_trace d @ [Ev_down]"
proof -
  have "0 < snd (k_ret E n)" if "fst (k_ret E n) = - 1" for n
    using assms(1) that by (simp add: errno_pos_def)
  then show ?thesis using assms(2,3)
    by (auto simp: dsp_lock_dev_def case_prod_beta Let_def dsp_call_def split: if_splits)
qed

subsection \<open>The contract\<close>

definition writes_in :: "dsp_out set \<Rightarrow> dsp \<Rightarrow> dsp \<Rightarrow> bool" where
  "writes_in S d d' \<longleftrightarrow> d_mutex d' = d_mutex d
     \<and> (\<exists>ws. set ws \<subseteq> S \<and> d_trace d' = d_trace d @ map Ev_write ws)"

lemma writes_in_0: "d_mutex d' = d_mutex d \<Longrightarrow> d_trace d' = d_trace d \<Longrightarrow> writes_in S d d'"
  by (auto simp: writes_in_def intro: exI [of _ "[]"])

lemma writes_in_1: "d_mutex d' = d_mutex d \<Longrightarrow> d_trace d' = d_trace d @ [Ev_write x] \<Longrightarrow> x \<in> S \<Longrightarrow>
    writes_in S d d'"
  by (auto simp: writes_in_def intro: exI [of _ "[x]"])

lemma writes_in_2: "d_mutex d' = d_mutex d \<Longrightarrow> d_trace d' = d_trace d @ [Ev_write x, Ev_write y] \<Longrightarrow>
    x \<in> S \<Longrightarrow> y \<in> S \<Longrightarrow> writes_in S d d'"
  by (auto simp: writes_in_def intro: exI [of _ "[x, y]"])

lemma writes_in_if: "d_mutex d' = d_mutex d \<Longrightarrow> d_trace d' = d_trace d @ (if c then [] else [Ev_write x]) \<Longrightarrow>
    x \<in> S \<Longrightarrow> writes_in S d d'"
  by (cases c) (auto intro: writes_in_0 writes_in_1)

lemmas writes_in_intros = writes_in_0 writes_in_1 writes_in_2

locale device_op =
  fixes E :: dsp_env
    and fail :: "int \<Rightarrow> 'a"
    and body :: "dsp \<Rightarrow> ('a \<times> dsp) option"
    and allowed :: "dsp_out set"
    and edge :: "int \<Rightarrow> 'a \<Rightarrow> int \<Rightarrow> bool"
  assumes body_writes: "body d = Some (x, d') \<Longrightarrow> writes_in allowed d d'"
    and body_edge: "body d = Some (x, d') \<Longrightarrow> edge (d_state d) x (d_state d')"
begin

lemma locked_trace:
  assumes "errno_pos E" "d_mutex d = Mutex_free" "dsp_locked E fail body d = Some (x, d')"
  shows "d_mutex d' = Mutex_free \<and> (d_trace d' = d_trace d
    \<or> (\<exists>ws. set ws \<subseteq> allowed \<and> d_trace d' = d_trace d @ [Ev_down] @ map Ev_write ws @ [Ev_up]))"
proof -
  obtain r d1 where l: "dsp_lock_dev E d = (r, d1)" by fastforce
  from lock_free [OF assms(1,2) l] show ?thesis
  proof
    assume "r < 0 \<and> d_mutex d1 = Mutex_free \<and> d_trace d1 = d_trace d"
    then show ?thesis using assms(3) l by (auto simp: dsp_locked_def)
  next
    assume r: "r = 0 \<and> d_mutex d1 = Mutex_mine \<and> d_trace d1 = d_trace d @ [Ev_down]"
    then obtain d2 where b: "body d1 = Some (x, d2)" "d' = dsp_unlock_dev E d2"
      using assms(3) l by (auto simp: dsp_locked_def Option.bind_eq_Some_conv)
    from body_writes [OF b(1)] show ?thesis using r b(2)
      by (auto simp: writes_in_def dsp_simps)
  qed
qed

lemma locked_edge:
  assumes "dsp_locked E fail body d = Some (x, d')"
  shows "(\<exists>r < 0. x = fail r \<and> d_state d' = d_state d) \<or> edge (d_state d) x (d_state d')"
proof -
  obtain r d1 where l: "dsp_lock_dev E d = (r, d1)" by fastforce
  then have st: "d_state d1 = d_state d" using lock_view(1) [of E d] by simp
  show ?thesis
  proof (cases "r < 0")
    case True
    then show ?thesis using assms l st by (auto simp: dsp_locked_def)
  next
    case False
    then obtain d2 where b: "body d1 = Some (x, d2)" "d' = dsp_unlock_dev E d2"
      using assms l by (auto simp: dsp_locked_def Option.bind_eq_Some_conv)
    then show ?thesis using body_edge [OF b(1)] st by (simp add: dsp_simps)
  qed
qed

end

end
