(* ===== verification/MaemoSafety.thy ===== *)
theory MaemoSafety
  imports MaemoLaws
begin

section \<open>The Maemo DSP protocol: safety and the state machine\<close>

text \<open>
  The bodies of all operations satisfy the contract \<open>device_op\<close>. Two properties of every
  operation follow: the locks are taken and released in pairs around exactly the messages the
  state allows, and the protocol state moves along the edges of an abstract machine.
\<close>

subsection \<open>Every body satisfies the contract\<close>

abbreviation (input) keep_state :: "int \<Rightarrow> 'a \<Rightarrow> int \<Rightarrow> bool" where
  "keep_state s x s' \<equiv> s' = s"

definition to_state :: "int \<Rightarrow> int \<Rightarrow> int \<Rightarrow> int \<Rightarrow> bool" where
  "to_state t s ret s' \<longleftrightarrow> ret \<le> 0 \<and> s' = (if ret = 0 then t else s)"

definition reported :: "int \<Rightarrow> int \<Rightarrow> bool" where
  "reported s s' \<longleftrightarrow> s' = s \<or> 0 \<le> s' \<and> s' < 2 ^ 16"

lemma reported_refl [simp]: "reported s s"
  by (simp add: reported_def)

lemma reported_uint [simp]: "reported s (uint (w :: u16))"
proof -
  have "uint w < 2 ^ 16" using unsigned_less [of w, where ?'a = int] by simp
  then show ?thesis by (simp add: reported_def)
qed

lemma update_state_view:
  assumes "dsp_update_state E d = Some (r, d')"
  shows "writes_in {Out_cmd DSP_CMD_STATE} d d' \<and> reported (d_state d) (d_state d')"
  using assms
  by (auto simp: dsp_update_state_def Option.bind_eq_Some_conv case_prod_beta Let_def dsp_simps
      split: if_splits dest!: flush_view intro: writes_in_intros)

interpretation params_op: device_op E id "dsp_params_locked E params" "range params" keep_state
  for E params
  by unfold_locales (auto simp: dsp_params_locked_def Let_def case_prod_beta dsp_simps
      split: if_splits intro: writes_in_intros)

interpretation play_op: device_op E id "dsp_play_locked E" "{Out_cmd DSP_CMD_PLAY}"
  "to_state STATE_PLAYING" for E
proof unfold_locales
  fix d d' :: dsp and x
  assume b: "dsp_play_locked E d = Some (x, d')"
  show "writes_in {Out_cmd DSP_CMD_PLAY} d d'" using b
    by (auto simp: dsp_play_locked_def Option.bind_eq_Some_conv case_prod_beta Let_def dsp_simps
        split: if_splits dest!: flush_view intro: writes_in_0 intro!: writes_in_if)
  show "to_state STATE_PLAYING (d_state d) x (d_state d')"
    using b command_result [of E DSP_CMD_PLAY d]
    by (auto simp: dsp_play_locked_def to_state_def Option.bind_eq_Some_conv case_prod_beta Let_def
        dsp_simps split: if_splits dest!: flush_view)
qed

interpretation halt_op: device_op E id "dsp_halt_locked E c t" "{Out_cmd c}" "to_state t" for E c t
proof unfold_locales
  fix d d' :: dsp and x
  assume b: "dsp_halt_locked E c t d = Some (x, d')"
  show "writes_in {Out_cmd c} d d'" using b
    by (auto simp: dsp_halt_locked_def case_prod_beta Let_def dsp_simps
        split: if_splits intro: writes_in_0 intro!: writes_in_if)
  show "to_state t (d_state d) x (d_state d')" using b command_result [of E c d]
    by (auto simp: dsp_halt_locked_def to_state_def case_prod_beta Let_def dsp_simps split: if_splits)
qed

interpretation send_op: device_op E id "dsp_send_data_locked E data"
  "{Out_data_write DSP_CMD_DATA_WRITE (of_nat (length data))}" keep_state for E data
proof unfold_locales
  fix d d' :: dsp and x
  assume b: "dsp_send_data_locked E data d = Some (x, d')"
  have p: "d_trace d1 = d_trace d \<and> d_mutex d1 = d_mutex d \<and> d_state d1 = d_state d"
    if "shared_put data d = Some d1" for d1
    using that by (auto simp: shared_put_def split: mapping_ptr.splits if_splits)
  show "writes_in {Out_data_write DSP_CMD_DATA_WRITE (of_nat (length data))} d d'" using b
    by (auto simp: dsp_send_data_locked_def Option.bind_eq_Some_conv case_prod_beta Let_def dsp_simps
        split: if_splits dest!: p intro: writes_in_intros)
  show "d_state d' = d_state d" using b
    by (auto simp: dsp_send_data_locked_def Option.bind_eq_Some_conv case_prod_beta Let_def dsp_simps
        split: if_splits dest!: p)
qed

definition read_ack :: dsp_out where
  "read_ack = Out_cmd_status \<lparr>cs_dsp_cmd = DSP_CMD_DATA_READ, cs_status = DSP_OK\<rparr>"

interpretation receive_op: device_op E "\<lambda>r. (r, None)" "dsp_receive_data_locked E count"
  "{read_ack}" keep_state for E count
  by unfold_locales (auto simp: dsp_receive_data_locked_def Option.bind_eq_Some_conv case_prod_beta
      read_ack_def Let_def dsp_simps split: if_splits intro: writes_in_intros)

interpretation close_op: device_op E id "dsp_close_locked E" "{Out_cmd DSP_CMD_CLOSE}"
  "to_state STATE_UNINITIALISED" for E
proof unfold_locales
  fix d d' :: dsp and x
  assume b: "dsp_close_locked E d = Some (x, d')"
  then obtain r d1 where f: "dsp_flush E d = Some (r, d1)"
    by (auto simp: dsp_close_locked_def Option.bind_eq_Some_conv)
  note v = flush_view [OF f]
  let ?c = "dsp_send_command E DSP_CMD_CLOSE d1"
  have x: "x = fst ?c" and d': "d' = (if x < 0 then snd ?c else dsp_close_fields E (snd ?c))"
    using b f v command_result [of E DSP_CMD_CLOSE d1]
    by (auto simp: dsp_close_locked_def case_prod_beta split: if_splits)
  show "writes_in {Out_cmd DSP_CMD_CLOSE} d d'"
    using v by (auto simp: d' dsp_simps intro!: writes_in_if)
  show "to_state STATE_UNINITIALISED (d_state d) x (d_state d')"
    using v x command_result [of E DSP_CMD_CLOSE d1] by (auto simp: d' to_state_def dsp_simps)
qed

interpretation open_op: device_op E id "dsp_open_locked E"
  "{Out_cmd DSP_CMD_STATE, Out_cmd DSP_CMD_INIT}" "to_state STATE_INITIALISED" for E
proof unfold_locales
  fix d d' :: dsp and x
  assume b: "dsp_open_locked E d = Some (x, d')"
  obtain r d1 where f: "dsp_flush E d = Some (r, d1)"
    using b by (auto simp: dsp_open_locked_def Option.bind_eq_Some_conv)
  note v = flush_view [OF f]
  show "writes_in {Out_cmd DSP_CMD_STATE, Out_cmd DSP_CMD_INIT} d d'" using b f v
    by (auto simp: dsp_open_locked_def case_prod_beta
        Let_def dsp_simps split: if_splits intro: writes_in_intros)
  show "to_state STATE_INITIALISED (d_state d) x (d_state d')" using b f v
    by (simp add: dsp_open_locked_def case_prod_beta Let_def split: if_splits)
      (auto simp: to_state_def dsp_simps dest!: call_pair)
qed

definition is_volume :: "dsp_out \<Rightarrow> bool" where
  "is_volume out \<longleftrightarrow> (\<exists>s p. out = Out_volume DSP_CMD_SET_VOLUME s p)
     \<or> (\<exists>l r. out = Out_panning DSP_CMD_SET_PANNING l r PANNING_STEP)"

interpretation set_volume_op: device_op E id "dsp_set_volume_locked E l r"
  "Collect is_volume" keep_state for E l r
proof unfold_locales
  fix d d' :: dsp and x
  assume b: "dsp_set_volume_locked E l r d = Some (x, d')"
  show "writes_in (Collect is_volume) d d'" using b
    by (auto simp: dsp_set_volume_locked_def Option.bind_eq_Some_conv case_prod_beta
        Let_def dsp_simps is_volume_def split: if_splits intro: writes_in_intros)
  show "d_state d' = d_state d" using b
    by (auto simp: dsp_set_volume_locked_def Option.bind_eq_Some_conv
        case_prod_beta Let_def dsp_simps split: if_splits)
qed

interpretation get_volume_op: device_op E "\<lambda>r. (r, None)" "dsp_get_volume_locked E"
  "{Out_cmd DSP_CMD_STATE}" "\<lambda>s x s'. reported s s'" for E
  by unfold_locales (auto simp: dsp_get_volume_locked_def Option.bind_eq_Some_conv case_prod_beta
      Let_def dsp_simps split: if_splits intro: writes_in_intros)

interpretation set_mute_op: device_op E id "dsp_set_mute_locked E m"
  "{Out_cmd DSP_CMD_MUTE, Out_cmd DSP_CMD_UNMUTE}" keep_state for E m
  by unfold_locales (auto simp: dsp_set_mute_locked_def case_prod_beta
      Let_def dsp_simps intro!: writes_in_if)

interpretation get_mute_op: device_op E id "dsp_get_mute_locked E"
  "{Out_cmd DSP_CMD_STATE}" "\<lambda>s x s'. reported s s'" for E
  by unfold_locales (auto simp: dsp_get_mute_locked_def Option.bind_eq_Some_conv dest!: update_state_view)

interpretation probe_op: device_op E id "dsp_probe_locked E dev"
  "{Out_cmd DSP_CMD_STATE}" "\<lambda>s x s'. reported s s'" for E dev
  by unfold_locales (auto simp: dsp_probe_locked_def Option.bind_eq_Some_conv writes_in_def dsp_simps
      dest!: update_state_view)

subsection \<open>All operations\<close>

datatype dsp_op =
    Op_open string | Op_audio_params audio_params | Op_speech_params speech_params | Op_play
  | Op_send "u16 list" | Op_receive int | Op_pause | Op_stop | Op_close
  | Op_set_volume u8 u8 | Op_get_volume | Op_set_mute u8 | Op_get_mute | Op_probe string

fun dsp_exec :: "dsp_env \<Rightarrow> dsp_op \<Rightarrow> dsp \<Rightarrow> (int \<times> dsp) option" where
  "dsp_exec E (Op_open dev) d = dsp_protocol_open_node E dev d"
| "dsp_exec E (Op_audio_params p) d = dsp_protocol_send_audio_params E p d"
| "dsp_exec E (Op_speech_params p) d = dsp_protocol_send_speech_params E p d"
| "dsp_exec E Op_play d = dsp_protocol_send_play E d"
| "dsp_exec E (Op_send data) d = dsp_protocol_send_audio_data E data d"
| "dsp_exec E (Op_receive n) d = map_option (\<lambda>((r, _), d). (r, d)) (dsp_protocol_receive_audio_data E n d)"
| "dsp_exec E Op_pause d = dsp_protocol_send_pause E d"
| "dsp_exec E Op_stop d = dsp_protocol_send_stop E d"
| "dsp_exec E Op_close d = dsp_protocol_close_node E d"
| "dsp_exec E (Op_set_volume l r) d = dsp_protocol_set_volume E l r d"
| "dsp_exec E Op_get_volume d = map_option (\<lambda>((r, _), d). (r, d)) (dsp_protocol_get_volume E d)"
| "dsp_exec E (Op_set_mute m) d = dsp_protocol_set_mute E m d"
| "dsp_exec E Op_get_mute d = dsp_protocol_get_mute E d"
| "dsp_exec E (Op_probe dev) d = dsp_protocol_probe_node E dev d"

text \<open>What an operation may send in a state.\<close>

fun may_send :: "dsp_op \<Rightarrow> int \<Rightarrow> dsp_out \<Rightarrow> bool" where
  "may_send (Op_open _) s out \<longleftrightarrow> s = STATE_UNINITIALISED \<and> (out = Out_cmd DSP_CMD_STATE \<or> out = Out_cmd DSP_CMD_INIT)"
| "may_send (Op_audio_params p) s out \<longleftrightarrow> s = STATE_INITIALISED \<and> (\<exists>sid. out = Out_audio_params (p\<lparr>ap_ds_stream_id := sid\<rparr>))"
| "may_send (Op_speech_params p) s out \<longleftrightarrow> s = STATE_INITIALISED \<and> (\<exists>sid. out = Out_speech_params (p\<lparr>sp_ds_stream_id := sid\<rparr>))"
| "may_send Op_play s out \<longleftrightarrow> s \<noteq> STATE_UNINITIALISED \<and> out = Out_cmd DSP_CMD_PLAY"
| "may_send (Op_send data) s out \<longleftrightarrow> s = STATE_PLAYING \<and> out = Out_data_write DSP_CMD_DATA_WRITE (of_nat (length data))"
| "may_send (Op_receive _) s out \<longleftrightarrow> s = STATE_PLAYING \<and> out = read_ack"
| "may_send Op_pause s out \<longleftrightarrow> s = STATE_PLAYING \<and> out = Out_cmd DSP_CMD_PAUSE"
| "may_send Op_stop s out \<longleftrightarrow> s = STATE_PLAYING \<and> out = Out_cmd DSP_CMD_STOP"
| "may_send Op_close s out \<longleftrightarrow> s \<noteq> STATE_UNINITIALISED \<and> out = Out_cmd DSP_CMD_CLOSE"
| "may_send (Op_set_volume _ _) s out \<longleftrightarrow> is_volume out"
| "may_send Op_get_volume s out \<longleftrightarrow> out = Out_cmd DSP_CMD_STATE"
| "may_send (Op_set_mute _) s out \<longleftrightarrow> out = Out_cmd DSP_CMD_MUTE \<or> out = Out_cmd DSP_CMD_UNMUTE"
| "may_send Op_get_mute s out \<longleftrightarrow> out = Out_cmd DSP_CMD_STATE"
| "may_send (Op_probe _) s out \<longleftrightarrow> s = STATE_UNINITIALISED \<and> out = Out_cmd DSP_CMD_STATE"

definition balanced :: "(dsp_out \<Rightarrow> bool) \<Rightarrow> dsp \<Rightarrow> dsp \<Rightarrow> bool" where
  "balanced S d d' \<longleftrightarrow> d_mutex d' = Mutex_free \<and> (d_trace d' = d_trace d
     \<or> (\<exists>ws. (\<forall>w \<in> set ws. S w) \<and> d_trace d' = d_trace d @ [Ev_down] @ map Ev_write ws @ [Ev_up]))"

lemma balanced_intro:
  "d_mutex d' = Mutex_free \<and> (d_trace d' = d_trace d
     \<or> (\<exists>ws. set ws \<subseteq> A \<and> d_trace d' = d_trace d @ [Ev_down] @ map Ev_write ws @ [Ev_up])) \<Longrightarrow>
   (\<And>w. w \<in> A \<Longrightarrow> S w) \<Longrightarrow> balanced S d d'"
  unfolding balanced_def by blast

lemma balanced_refl: "d_mutex d = Mutex_free \<Longrightarrow> d_mutex d' = Mutex_free \<Longrightarrow> d_trace d' = d_trace d \<Longrightarrow>
    balanced S d d'"
  by (simp add: balanced_def)

lemma map_option_pair: "map_option (\<lambda>((r, _), d). (r, d)) m = Some (ret, d') \<Longrightarrow> \<exists>v. m = Some ((ret, v), d')"
  by (cases m) auto


subsection \<open>The protocol state machine\<close>

text \<open>The abstract machine: from state \<open>s\<close>, result \<open>ret\<close>, to state \<open>s'\<close>.\<close>

fun dsp_edge :: "dsp_op \<Rightarrow> int \<Rightarrow> int \<Rightarrow> int \<Rightarrow> bool" where
  "dsp_edge (Op_open _) s ret s' \<longleftrightarrow>
     (if s = STATE_UNINITIALISED then s' = (if ret = 0 then STATE_INITIALISED else s) else ret = - EIO \<and> s' = s)"
| "dsp_edge (Op_audio_params _) s ret s' \<longleftrightarrow> s' = s \<and> (s \<noteq> STATE_INITIALISED \<longrightarrow> ret = - EIO)"
| "dsp_edge (Op_speech_params _) s ret s' \<longleftrightarrow> s' = s \<and> (s \<noteq> STATE_INITIALISED \<longrightarrow> ret = - EIO)"
| "dsp_edge Op_play s ret s' \<longleftrightarrow>
     (if s = STATE_UNINITIALISED then ret = - EIO \<and> s' = s else s' = (if ret = 0 then STATE_PLAYING else s))"
| "dsp_edge (Op_send _) s ret s' \<longleftrightarrow> s' = s \<and> (s \<noteq> STATE_PLAYING \<longrightarrow> ret = 0)"
| "dsp_edge (Op_receive _) s ret s' \<longleftrightarrow> s' = s \<and> (s \<noteq> STATE_PLAYING \<longrightarrow> ret = 0)"
| "dsp_edge Op_pause s ret s' \<longleftrightarrow>
     (if s \<noteq> STATE_PLAYING then ret = - EIO \<and> s' = s else s' = (if ret = 0 then STATE_PAUSED else s))"
| "dsp_edge Op_stop s ret s' \<longleftrightarrow>
     (if s \<noteq> STATE_PLAYING then ret = - EIO \<and> s' = s else s' = (if ret = 0 then STATE_STOPPED else s))"
| "dsp_edge Op_close s ret s' \<longleftrightarrow>
     s' = (if ret = 0 then STATE_UNINITIALISED else s) \<and> (s = STATE_UNINITIALISED \<longrightarrow> ret = 0)"
| "dsp_edge (Op_set_volume _ _) s ret s' \<longleftrightarrow> s' = s"
| "dsp_edge Op_get_volume s ret s' \<longleftrightarrow> reported s s'"
| "dsp_edge (Op_set_mute _) s ret s' \<longleftrightarrow> s' = s"
| "dsp_edge Op_get_mute s ret s' \<longleftrightarrow> reported s s'"
| "dsp_edge (Op_probe _) s ret s' \<longleftrightarrow> reported s s' \<and> (s \<noteq> STATE_UNINITIALISED \<longrightarrow> ret = - EIO \<and> s' = s)"

lemma id_fail: "(\<exists>r < 0. x = id r \<and> P) \<longleftrightarrow> x < (0 :: int) \<and> P"
  by auto

text \<open>
  C8: refinement of the abstract machine. Whatever the device and the kernel answer, every
  operation that returns moves the protocol state along the edge its result announces: a
  state changes only on result 0, to the state of the command; requests from a wrong state
  are refused with \<open>-EIO\<close> (audio data with 0) and change nothing; only the queries
  (\<open>get_volume\<close>, \<open>get_mute\<close>, \<open>probe_node\<close>) adopt the state the device reports.
\<close>

theorem dsp_exec_edge:
  assumes "errno_pos E" "dsp_exec E op d = Some (ret, d')"
  shows "dsp_edge op (d_state d) ret (d_state d')"
proof -
  note lock = params_op.locked_edge play_op.locked_edge halt_op.locked_edge send_op.locked_edge
    receive_op.locked_edge close_op.locked_edge set_volume_op.locked_edge get_volume_op.locked_edge
    set_mute_op.locked_edge get_mute_op.locked_edge
  show ?thesis
  proof (cases op)
    case (Op_open dev)
    let ?d = "snd (dsp_get_sem E (dsp_strdup dev ((snd (dsp_call E d))\<lparr>d_fd := fst (dsp_call E d)\<rparr>)))"
    consider "d_state d \<noteq> STATE_UNINITIALISED" | "d_state d = STATE_UNINITIALISED" "fst (dsp_call E d) < 0"
      | "d_state d = STATE_UNINITIALISED" "\<not> fst (dsp_call E d) < 0" by blast
    then show ?thesis
    proof cases
      case 2
      then have "0 < d_errno (snd (dsp_call E d))"
        using assms(1) call_errno [of E d] by (simp add: errno_pos_def dsp_simps)
      then show ?thesis using 2 assms(2) Op_open
        by (auto simp: dsp_protocol_open_node_def case_prod_beta Let_def dsp_simps)
    next
      case 3
      then have "dsp_locked E id (dsp_open_locked E) ?d = Some (ret, d')"
        using assms(2) Op_open by (simp add: dsp_protocol_open_node_def case_prod_beta Let_def)
      from open_op.locked_edge [OF this] 3 Op_open show ?thesis
        by (auto simp: dsp_simps to_state_def)
    qed (use assms(2) Op_open in \<open>simp add: dsp_protocol_open_node_def\<close>)
  next
    case (Op_probe dev)
    let ?d = "snd (dsp_get_sem E (dsp_strdup dev ((snd (dsp_call E d))\<lparr>d_fd := fst (dsp_call E d)\<rparr>)))"
    show ?thesis
    proof (cases "d_state d = STATE_UNINITIALISED \<and> \<not> fst (dsp_call E d) < 0")
      case True
      then have "dsp_locked E id (dsp_probe_locked E dev) ?d = Some (ret, d')"
        using assms(2) Op_probe by (simp add: dsp_protocol_probe_node_def case_prod_beta Let_def)
      from probe_op.locked_edge [OF this] True Op_probe show ?thesis by (auto simp: dsp_simps)
    next
      case False
      then show ?thesis using assms(2) Op_probe
        by (auto simp: dsp_protocol_probe_node_def case_prod_beta Let_def dsp_simps split: if_splits)
    qed
  next
    case Op_close
    then show ?thesis using assms(2)
      by (auto simp: dsp_protocol_close_node_def dsp_simps to_state_def split: if_splits
          dest!: close_op.locked_edge)
  next
    case Op_play
    then show ?thesis using assms(2)
      by (auto simp: dsp_protocol_send_play_def to_state_def split: if_splits dest!: play_op.locked_edge)
  next
    case Op_pause
    then show ?thesis using assms(2)
      by (auto simp: dsp_protocol_send_pause_def to_state_def split: if_splits dest!: halt_op.locked_edge)
  next
    case Op_stop
    then show ?thesis using assms(2)
      by (auto simp: dsp_protocol_send_stop_def to_state_def split: if_splits dest!: halt_op.locked_edge)
  qed (use assms(2) in \<open>auto simp: dsp_protocol_send_audio_params_def dsp_protocol_send_speech_params_def
      dsp_protocol_send_audio_data_def dsp_protocol_receive_audio_data_def dsp_protocol_set_volume_def
      dsp_protocol_get_volume_def dsp_protocol_set_mute_def dsp_protocol_get_mute_def
      split: if_splits dest!: map_option_pair lock\<close>)
qed

end
