(* ===== verification/MaemoData.thy ===== *)
theory MaemoData
  imports MaemoSafety
begin

section \<open>The Maemo DSP protocol: the shared buffer\<close>

text \<open>
  A connected instance has its buffer mapped. The locale \<open>mapped_op\<close> extends the contract of
  an operation by keeping a mapping; the bodies of the operations that run on a connection
  satisfy it, \<open>open_node\<close> establishes it and \<open>close_node\<close> ends it. Audio data then reaches
  the device as given.
\<close>

definition mapped :: "dsp \<Rightarrow> bool" where
  "mapped d \<longleftrightarrow> (case d_mmap d of Map_words _ \<Rightarrow> True | _ \<Rightarrow> False)"

definition connected :: "dsp \<Rightarrow> bool" where
  "connected d \<longleftrightarrow> d_state d = STATE_UNINITIALISED \<or> mapped d"

lemma mapped_eq: "d_mmap d' = d_mmap d \<Longrightarrow> mapped d' = mapped d"
  by (simp add: mapped_def)

locale mapped_op = device_op +
  assumes body_mapped: "body d = Some (x, d') \<Longrightarrow> mapped d \<Longrightarrow> mapped d'"
begin

lemma locked_mapped:
  assumes "mapped d" "dsp_locked E fail body d = Some (x, d')"
  shows "mapped d'"
proof -
  have l: "mapped (snd (dsp_lock_dev E d))" using assms(1) by (simp add: mapped_def dsp_simps)
  have u: "mapped (dsp_unlock_dev E d1)" if "mapped d1" for d1
    using that by (simp add: mapped_def dsp_simps)
  show ?thesis using assms(2) l u body_mapped
    by (auto simp: dsp_locked_def case_prod_beta Let_def Option.bind_eq_Some_conv split: if_splits)
qed

end

interpretation params_map: mapped_op E id "dsp_params_locked E params" "range params" keep_state
  for E params
  by unfold_locales (auto simp: dsp_params_locked_def mapped_def Let_def case_prod_beta dsp_simps
      split: if_splits)

interpretation play_map: mapped_op E id "dsp_play_locked E" "{Out_cmd DSP_CMD_PLAY}"
  "to_state STATE_PLAYING" for E
  by unfold_locales (auto simp: dsp_play_locked_def mapped_def Option.bind_eq_Some_conv case_prod_beta
      Let_def dsp_simps split: if_splits dest!: flush_view)

interpretation halt_map: mapped_op E id "dsp_halt_locked E c t" "{Out_cmd c}" "to_state t" for E c t
  by unfold_locales (auto simp: dsp_halt_locked_def mapped_def case_prod_beta Let_def dsp_simps
      split: if_splits)

interpretation send_map: mapped_op E id "dsp_send_data_locked E data"
  "{Out_data_write DSP_CMD_DATA_WRITE (of_nat (length data))}" keep_state for E data
proof unfold_locales
  fix d d' :: dsp and x
  assume b: "dsp_send_data_locked E data d = Some (x, d')" and m: "mapped d"
  have "mapped d1" if "shared_put data d = Some d1" for d1
    using that m by (auto simp: shared_put_def mapped_def split: mapping_ptr.splits if_splits)
  then show "mapped d'" using b
    by (auto simp: dsp_send_data_locked_def mapped_def Option.bind_eq_Some_conv case_prod_beta Let_def
        dsp_simps split: if_splits)
qed

interpretation receive_map: mapped_op E "\<lambda>r. (r, None)" "dsp_receive_data_locked E count"
  "{read_ack}" keep_state for E count
  by unfold_locales (auto simp: dsp_receive_data_locked_def mapped_def Option.bind_eq_Some_conv
      case_prod_beta Let_def dsp_simps split: if_splits)

interpretation set_volume_map: mapped_op E id "dsp_set_volume_locked E l r"
  "Collect is_volume" keep_state for E l r
  by unfold_locales (auto simp: dsp_set_volume_locked_def mapped_def Option.bind_eq_Some_conv
      case_prod_beta Let_def dsp_simps split: if_splits)

interpretation set_mute_map: mapped_op E id "dsp_set_mute_locked E m"
  "{Out_cmd DSP_CMD_MUTE, Out_cmd DSP_CMD_UNMUTE}" keep_state for E m
  by unfold_locales (auto simp: dsp_set_mute_locked_def mapped_def case_prod_beta Let_def dsp_simps)

lemma open_maps: "dsp_open_locked E d = Some (0, d') \<Longrightarrow> errno_pos E \<Longrightarrow> mapped d'"
  by (auto simp: dsp_open_locked_def mapped_def Option.bind_eq_Some_conv case_prod_beta Let_def dsp_simps
      split: if_splits dest!: flush_view call_pair)

lemma close_keeps: "dsp_close_locked E d = Some (r, d') \<Longrightarrow> r \<noteq> 0 \<Longrightarrow> mapped d \<Longrightarrow> mapped d'"
  using command_result [of E DSP_CMD_CLOSE]
  by (auto simp: dsp_close_locked_def mapped_def Option.bind_eq_Some_conv case_prod_beta Let_def dsp_simps
      split: if_splits dest!: flush_view command_pair)

subsection \<open>Runs from \<open>create\<close>\<close>

fun is_query :: "dsp_op \<Rightarrow> bool" where
  "is_query Op_get_volume \<longleftrightarrow> True"
| "is_query Op_get_mute \<longleftrightarrow> True"
| "is_query (Op_probe _) \<longleftrightarrow> True"
| "is_query _ \<longleftrightarrow> False"

lemma connected_id: "connected d \<Longrightarrow> d_state d \<noteq> STATE_UNINITIALISED \<Longrightarrow> mapped d"
  by (simp add: connected_def)

lemma locked_open_connected:
  assumes "errno_pos E" "d_state d = STATE_UNINITIALISED" "dsp_locked E id (dsp_open_locked E) d = Some (ret, d')"
  shows "connected d'"
proof -
  obtain r d1 where l: "dsp_lock_dev E d = (r, d1)" by fastforce
  have st: "d_state d1 = STATE_UNINITIALISED" using l assms(2) lock_view(1) [of E d] by simp
  show ?thesis
  proof (cases "r < 0")
    case True
    then show ?thesis using assms(3) l st by (simp add: dsp_locked_def connected_def)
  next
    case False
    then obtain d2 where b: "dsp_open_locked E d1 = Some (ret, d2)" "d' = dsp_unlock_dev E d2"
      using assms(3) l by (auto simp: dsp_locked_def Option.bind_eq_Some_conv)
    from open_op.body_edge [OF b(1)] st open_maps [of E d1 d2] b(1) assms(1)
    have "connected d2" by (auto simp: connected_def to_state_def split: if_splits)
    then show ?thesis using b(2) by (simp add: connected_def mapped_def dsp_simps)
  qed
qed

lemma locked_close_connected:
  assumes "mapped d" "dsp_locked E id (dsp_close_locked E) d = Some (ret, d')"
  shows "connected d'"
proof -
  obtain r d1 where l: "dsp_lock_dev E d = (r, d1)" by fastforce
  have m: "mapped d1" using l assms(1) lock_view(4) [of E d] mapped_eq [of d1 d] by simp
  show ?thesis
  proof (cases "r < 0")
    case True
    then show ?thesis using assms(2) l m by (simp add: dsp_locked_def connected_def)
  next
    case False
    then obtain d2 where b: "dsp_close_locked E d1 = Some (ret, d2)" "d' = dsp_unlock_dev E d2"
      using assms(2) l by (auto simp: dsp_locked_def Option.bind_eq_Some_conv)
    from close_op.body_edge [OF b(1)] m close_keeps [OF b(1)]
    have "connected d2" by (auto simp: connected_def to_state_def split: if_splits)
    then show ?thesis using b(2) by (simp add: connected_def mapped_def dsp_simps)
  qed
qed

lemma connected_view: "connected d \<Longrightarrow> d_state d' = d_state d \<Longrightarrow> d_mmap d' = d_mmap d \<Longrightarrow> connected d'"
  by (simp add: connected_def mapped_def)

lemma unlocked_close_connected: "connected (dsp_unlock_dev E (dsp_close_fields E d))"
  by (simp add: connected_def dsp_simps)

lemma dsp_exec_connected:
  assumes "errno_pos E" "connected d" "\<not> is_query op" "dsp_exec E op d = Some (ret, d')"
  shows "connected d'"
proof -
  note on = connected_id [OF assms(2)]
  have via: "connected x" if "mapped x" for x using that by (simp add: connected_def)
  show ?thesis
  proof (cases op)
    case (Op_open dev)
    let ?d = "snd (dsp_get_sem E (dsp_strdup dev ((snd (dsp_call E d))\<lparr>d_fd := fst (dsp_call E d)\<rparr>)))"
    show ?thesis
    proof (cases "d_state d = STATE_UNINITIALISED \<and> \<not> fst (dsp_call E d) < 0")
      case True
      then have "dsp_locked E id (dsp_open_locked E) ?d = Some (ret, d')"
        using assms(4) Op_open by (simp add: dsp_protocol_open_node_def case_prod_beta Let_def)
      from locked_open_connected [OF assms(1) _ this] True show ?thesis by (simp add: dsp_simps)
    next
      case False
      then have "d_state d' = d_state d" "d_mmap d' = d_mmap d" using assms(4) Op_open
        by (auto simp: dsp_protocol_open_node_def case_prod_beta Let_def dsp_simps split: if_splits)
      then show ?thesis using connected_view assms(2) by blast
    qed
  next
    case Op_close
    then show ?thesis using assms(2,4) locked_close_connected [OF on] unlocked_close_connected
      by (auto simp: dsp_protocol_close_node_def split: if_splits)
  next
    case Op_play
    then show ?thesis using assms(2,4) play_map.locked_mapped [OF on, THEN via]
      by (auto simp: dsp_protocol_send_play_def split: if_splits)
  next
    case (Op_audio_params p)
    then show ?thesis using assms(2,4) params_map.locked_mapped [OF on, THEN via]
      by (auto simp: dsp_protocol_send_audio_params_def split: if_splits)
  next
    case (Op_speech_params p)
    then show ?thesis using assms(2,4) params_map.locked_mapped [OF on, THEN via]
      by (auto simp: dsp_protocol_send_speech_params_def split: if_splits)
  next
    case (Op_send data)
    then show ?thesis using assms(2,4) send_map.locked_mapped [OF on, THEN via]
      by (auto simp: dsp_protocol_send_audio_data_def split: if_splits)
  next
    case (Op_receive n)
    then show ?thesis using assms(2,4) receive_map.locked_mapped [OF on, THEN via]
      by (auto simp: dsp_protocol_receive_audio_data_def split: if_splits dest!: map_option_pair)
  next
    case Op_pause
    then show ?thesis using assms(2,4) halt_map.locked_mapped [OF on, THEN via]
      by (auto simp: dsp_protocol_send_pause_def split: if_splits)
  next
    case Op_stop
    then show ?thesis using assms(2,4) halt_map.locked_mapped [OF on, THEN via]
      by (auto simp: dsp_protocol_send_stop_def split: if_splits)
  next
    case (Op_set_volume l r)
    then have lk: "dsp_locked E id (dsp_set_volume_locked E l r) d = Some (ret, d')"
      using assms(4) by (simp add: dsp_protocol_set_volume_def)
    then show ?thesis
      using assms(2) set_volume_map.locked_mapped [OF _ lk] set_volume_op.locked_edge [OF lk]
      by (auto simp: connected_def)
  next
    case (Op_set_mute m)
    then have lk: "dsp_locked E id (dsp_set_mute_locked E m) d = Some (ret, d')"
      using assms(4) by (simp add: dsp_protocol_set_mute_def)
    then show ?thesis
      using assms(2) set_mute_map.locked_mapped [OF _ lk] set_mute_op.locked_edge [OF lk]
      by (auto simp: connected_def)
  qed (use assms(3) in simp_all)
qed

fun dsp_run :: "dsp_env \<Rightarrow> dsp_op list \<Rightarrow> dsp \<Rightarrow> dsp option" where
  "dsp_run E [] d = Some d"
| "dsp_run E (op # ops) d = do { (ret, d) \<leftarrow> dsp_exec E op d; dsp_run E ops d }"

lemma dsp_run_connected:
  assumes "errno_pos E"
  shows "connected d \<Longrightarrow> list_all (Not \<circ> is_query) ops \<Longrightarrow> dsp_run E ops d = Some d' \<Longrightarrow> connected d'"
proof (induction ops arbitrary: d)
  case Nil
  then show ?case by simp
next
  case (Cons op ops)
  then obtain ret d1 where e: "dsp_exec E op d = Some (ret, d1)" and r: "dsp_run E ops d1 = Some d'"
    by (auto simp: Option.bind_eq_Some_conv)
  have "connected d1"
    using Cons.prems by (intro dsp_exec_connected [OF assms _ _ e]) auto
  then show ?case using Cons.IH r Cons.prems(2) by simp
qed

lemma send_locked_delivers:
  assumes "d_mmap d = Map_words ws" "length data \<le> length ws"
  shows "\<exists>ret d'. dsp_send_data_locked E data d = Some (ret, d') \<and> (ret < 0 \<or> ret = 0 \<or> ret = int (length data))
    \<and> d_mmap d' = Map_words (data @ drop (length data) ws)
    \<and> (0 < ret \<longrightarrow> d_trace d' = d_trace d @ [Ev_write (Out_data_write DSP_CMD_DATA_WRITE (of_nat (length data)))])"
  using assms
  by (auto simp: dsp_send_data_locked_def shared_put_def case_prod_beta Let_def dsp_simps)

lemma send_audio_data_mapped:
  assumes "d_state d = STATE_PLAYING" "d_mmap d = Map_words ws" "length data \<le> length ws"
  shows "\<exists>ret d'. dsp_protocol_send_audio_data E data d = Some (ret, d') \<and> (ret < 0 \<or> ret = 0 \<or> ret = int (length data))
     \<and> (0 < ret \<longrightarrow> d_mmap d' = Map_words (data @ drop (length data) ws)
          \<and> Ev_write (Out_data_write DSP_CMD_DATA_WRITE (of_nat (length data))) \<in> set (d_trace d'))"
proof -
  obtain r d1 where l: "dsp_lock_dev E d = (r, d1)" by fastforce
  then have "d_mmap d1 = Map_words ws" using assms(2) lock_view(4) [of E d] by simp
  from send_locked_delivers [OF this assms(3), of E] obtain ret d2 where
    "dsp_send_data_locked E data d1 = Some (ret, d2)" "ret < 0 \<or> ret = 0 \<or> ret = int (length data)"
    "d_mmap d2 = Map_words (data @ drop (length data) ws)"
    "0 < ret \<longrightarrow> d_trace d2 = d_trace d1 @ [Ev_write (Out_data_write DSP_CMD_DATA_WRITE (of_nat (length data)))]"
    by blast
  then show ?thesis using l assms(1)
    by (auto simp: dsp_protocol_send_audio_data_def dsp_locked_def dsp_simps)
qed


end
