(* ===== verification/MaemoVolume.thy ===== *)
theory MaemoVolume
  imports MaemoData
begin

section \<open>The Maemo DSP protocol: volume in Q15\<close>

text \<open>
  Volumes of 0 to 100 travel as a Q15 mantissa with a power of two, the balance as two gains
  relative to \<open>0x4000\<close>. The lemmas compute both conversions over the integers; the round trip
  is exact from 51 on, below that the exponent would be negative and wraps.
\<close>

lemma uint_of_u8 [simp]: "0 \<le> x \<Longrightarrow> x < 256 \<Longrightarrow> uint (word_of_int x :: u8) = x"
  by (simp add: unsigned_of_int take_bit_int_eq_self)

lemma uint_of_u16 [simp]: "0 \<le> x \<Longrightarrow> x < 65536 \<Longrightarrow> uint (word_of_int x :: u16) = x"
  by (simp add: unsigned_of_int take_bit_int_eq_self)

lemma uint_ucast_8_16 [simp]: "uint (ucast (x :: u8) :: u16) = uint x"
proof -
  have "uint x < 2 ^ 8" using unsigned_less [of x, where ?'a = int] by simp
  then have "take_bit 16 (uint x) = uint x" by (intro take_bit_int_eq_self) simp_all
  then show ?thesis by (simp add: unsigned_ucast_eq)
qed

lemma ucast_u8_u16: "ucast (ucast (x :: u8) :: u16) = x"
proof -
  have "uint x < 2 ^ 8" using unsigned_less [of x, where ?'a = int] by simp
  then have "uint (ucast (ucast x :: u16) :: u8) = uint x"
    by (simp only: unsigned_ucast_eq [of "ucast x :: u16"] uint_ucast_8_16)
      (simp add: take_bit_int_eq_self)
  then show ?thesis by (simp add: word_uint_eq_iff)
qed

lemma div_unique_int:
  fixes a b q :: int
  assumes "b * q \<le> a" "a < b * q + b"
  shows "a div b = q" "a mod b = a - b * q"
proof -
  have "a = b * q + (a - b * q)" by simp
  then show "a div b = q" using assms by (intro int_div_pos_eq [of a b q "a - b * q"]) simp_all
  then show "a mod b = a - b * q" by (simp add: minus_mult_div_eq_mod [symmetric])
qed

lemma div_lt_int:
  fixes a b c :: int
  assumes "0 < b" "0 \<le> a" "a < c * b"
  shows "a div b < c \<and> 0 \<le> a div b"
proof -
  have "\<not> c \<le> a div b"
  proof
    assume "c \<le> a div b"
    then have "c * b \<le> a div b * b" using assms(1) by (intro mult_right_mono) simp_all
    also have "\<dots> \<le> a" using pos_mod_sign [OF assms(1), of a] div_mult_mod_eq [of a b] by linarith
    finally show False using assms(3) by simp
  qed
  then show ?thesis using assms(1,2) by (simp add: pos_imp_zdiv_nonneg_iff)
qed

definition q15_scale :: "int \<Rightarrow> int" where
  "q15_scale n = 2 * (0x00A3D70A * n) div 2 ^ 16"

lemma q15_high:
  assumes "51 \<le> n" "n \<le> 100"
  shows "q15_normalise (0x00A3D70A * n) 1 = Some (2 * (0x00A3D70A * n), 0)"
  using assms by (subst q15_normalise.simps, subst q15_normalise.simps) simp

lemma q15_scale_bounds:
  assumes "51 \<le> n" "n \<le> 100"
  shows "32768 * n - 101 < 100 * q15_scale n" "100 * q15_scale n < 32768 * n"
proof -
  have e: "65536 * q15_scale n + (21474836 * n) mod 65536 = 21474836 * n"
  proof -
    have "q15_scale n = 21474836 * n div 65536"
      unfolding q15_scale_def by (rule arg_cong2 [where f = "(div)"]) simp_all
    then show ?thesis using mult_div_mod_eq [of 65536 "21474836 * n"] by (simp only:)
  qed
  have "0 \<le> (21474836 * n) mod 65536" "(21474836 * n) mod 65536 < 65536" by simp_all
  with e assms show "32768 * n - 101 < 100 * q15_scale n" "100 * q15_scale n < 32768 * n" by linarith+
qed

lemma q15_decode:
  assumes "51 \<le> n" "n \<le> 100"
  shows "dsp_protocol_Q152linear (word_of_int (q15_scale n)) 0 = Some (word_of_int n)"
proof -
  note b = q15_scale_bounds [OF assms]
  have u: "uint (word_of_int (q15_scale n) :: u16) = q15_scale n"
    using b assms by (intro uint_of_u16) linarith+
  have "32768 * (n - 1) \<le> 100 * q15_scale n" "100 * q15_scale n < 32768 * (n - 1) + 32768"
    using b by (auto simp: algebra_simps)
  note d = div_unique_int [OF this]
  show ?thesis using d b assms
    by (simp add: dsp_protocol_Q152linear_def Let_def u mult.commute)
qed

lemma q15_encode:
  assumes "51 \<le> uint (x :: u16)" "uint x \<le> 100"
  shows "dsp_protocol_linear2Q15 x = Some (word_of_int (q15_scale (uint x)), 0)"
proof -
  have "x \<noteq> 0" using assms(1) by auto
  then show ?thesis using assms q15_high [OF assms]
    by (simp add: dsp_protocol_linear2Q15_def q15_scale_def)
qed

lemma gain_decode:
  fixes big small :: u8
  assumes "small < big" "uint big \<le> 100"
  shows "apply_gain big (pan_gain small big) = Some small"
proof -
  let ?b = "uint big" and ?s = "uint small"
  have lt: "?s < ?b" "0 \<le> ?s" using assms(1) by (simp_all add: word_less_def)
  then have p: "0 < ?b" by linarith
  let ?g = "?s * 0x4000 div ?b"
  have e: "?b * ?g + ?s * 0x4000 mod ?b = ?s * 0x4000" by (simp add: mult.commute)
  have m: "0 \<le> ?s * 0x4000 mod ?b" "?s * 0x4000 mod ?b < ?b" using p by simp_all
  have "?g < 0x4000" "0 \<le> ?g" using div_lt_int [of ?b "?s * 0x4000" "0x4000"] lt p by simp_all
  then have g: "uint (pan_gain small big) = ?g" using assms(1) by (simp add: pan_gain_def)
  have w: "word_of_int ?s = small" by simp
  show ?thesis
  proof (cases "?s * 0x4000 mod ?b = 0")
    case True
    then have "?b * ?g = 0x4000 * ?s" using e by simp
    then show ?thesis using lt assms(2) w by (simp add: apply_gain_def Let_def g)
  next
    case False
    have q: "0x4000 * (?s - 1) \<le> ?b * ?g" "?b * ?g < 0x4000 * (?s - 1) + 0x4000"
      "0x4000 < 2 * (?b * ?g - 0x4000 * (?s - 1))"
    proof -
      obtain k z where k: "k = ?b * ?g" "k + z = ?s * 0x4000" "0 < z" "z < ?b"
        using e m False by (metis order_le_imp_less_or_eq)
      then show "0x4000 * (?s - 1) \<le> ?b * ?g" "?b * ?g < 0x4000 * (?s - 1) + 0x4000"
        "0x4000 < 2 * (?b * ?g - 0x4000 * (?s - 1))"
        using assms(2) k(2-4) unfolding k(1) [symmetric] by (auto simp: algebra_simps)
    qed
    note d = div_unique_int [OF q(1,2)]
    show ?thesis using lt assms(2) q(3) w unfolding apply_gain_def Let_def g d by simp
  qed
qed

lemma pan_gain_full: "\<not> this < other \<Longrightarrow> pan_gain this other = 0x4000"
  by (simp add: pan_gain_def)

lemma pan_gain_less:
  fixes big small :: u8
  assumes "small < big"
  shows "pan_gain small big < 0x4000 \<and> \<not> 0x4000 < pan_gain small big"
proof -
  have lt: "uint small < uint big" "0 \<le> uint small" using assms by (simp_all add: word_less_def)
  then have "0 < uint big" by linarith
  then have "uint small * 0x4000 div uint big < 0x4000" "0 \<le> uint small * 0x4000 div uint big"
    using div_lt_int [of "uint big" "uint small * 0x4000" "0x4000"] lt by simp_all
  then have "pan_gain small big < 0x4000" using assms by (simp add: pan_gain_def word_less_def)
  then show ?thesis using less_asym by blast
qed

subsection \<open>The round trip through the device\<close>

definition louder :: "u8 \<Rightarrow> u8 \<Rightarrow> u8" where
  "louder l r = (if l > r then l else r)"

lemma volume_decode:
  assumes "51 \<le> uint (louder l r)" "uint (louder l r) \<le> 100"
    and "si_vol_scale info = word_of_int (q15_scale (uint (louder l r)))" "si_vol_power2 info = 0"
    and "si_left_gain info = pan_gain l r" "si_right_gain info = pan_gain r l"
    and "si_number_channels info = 2"
  shows "dsp_volume_of info = Some (l, r)"
proof -
  have dec: "dsp_protocol_Q152linear (si_vol_scale info) (si_vol_power2 info) = Some (word_of_int (uint (louder l r)))"
    using q15_decode assms(1-4) by simp
  have cast: "ucast (word_of_int (uint (louder l r)) :: u16) = louder l r"
    by (simp add: ucast_u8_u16)
  consider "l > r" | "l = r" | "l < r" by fastforce
  then show ?thesis
  proof cases
    case 1
    then have "louder l r = l" "\<not> l < r" by (auto simp: louder_def)
    moreover have "apply_gain l (pan_gain r l) = Some r" using 1 assms(2) calculation by (intro gain_decode) auto
    ultimately show ?thesis using 1 dec cast assms(5-7) pan_gain_less [of r l] pan_gain_full [of l r]
      by (simp add: dsp_volume_of_def Let_def)
  next
    case 2
    then show ?thesis using dec cast assms(5-7)
      by (simp add: dsp_volume_of_def Let_def louder_def)
  next
    case 3
    then have "louder l r = r" "\<not> r < l" by (auto simp: louder_def)
    moreover have "apply_gain r (pan_gain l r) = Some l" using 3 assms(2) calculation by (intro gain_decode) auto
    ultimately show ?thesis using 3 dec cast assms(5-7) pan_gain_less [of l r] pan_gain_full [of r l]
      by (simp add: dsp_volume_of_def Let_def)
  qed
qed

lemma set_volume_locked_writes:
  assumes "51 \<le> uint (louder l r)" "uint (louder l r) \<le> 100"
  shows "\<exists>ret d'. dsp_set_volume_locked E l r d = Some (ret, d')
    \<and> (ret = 0 \<longrightarrow> d_mutex d' = d_mutex d \<and> d_trace d' = d_trace d @ map Ev_write
         [Out_volume DSP_CMD_SET_VOLUME (word_of_int (q15_scale (uint (louder l r)))) 0,
          Out_panning DSP_CMD_SET_PANNING (pan_gain l r) (pan_gain r l) PANNING_STEP])"
proof -
  have e: "dsp_protocol_linear2Q15 (ucast (if l > r then l else r))
      = Some (word_of_int (q15_scale (uint (louder l r))), 0)"
    using q15_encode [of "ucast (louder l r)"] assms by (simp add: louder_def split: if_splits)
  show ?thesis unfolding dsp_set_volume_locked_def e
    by (auto simp: case_prod_beta Let_def dsp_simps)
qed

text \<open>
  C16: volumes of which the louder is 51 to 100 survive the DSP. \<open>set_volume\<close> then never
  traps, and when it succeeds it has sent, between the lock and the unlock, a volume and a
  panning message such that \<open>get_volume\<close>, from a status reporting exactly the values of these
  messages for two channels, computes the two volumes set.
\<close>

theorem dsp_volume_roundtrip:
  assumes "errno_pos E" "d_mutex d = Mutex_free" "51 \<le> uint (louder l r)" "uint (louder l r) \<le> 100"
  shows "\<exists>ret d'. dsp_protocol_set_volume E l r d = Some (ret, d')
    \<and> (ret = 0 \<longrightarrow> (\<exists>scale p2 gl gr. d_trace d' = d_trace d @ [Ev_down,
          Ev_write (Out_volume DSP_CMD_SET_VOLUME scale p2),
          Ev_write (Out_panning DSP_CMD_SET_PANNING gl gr PANNING_STEP), Ev_up]
        \<and> (\<forall>info. si_vol_scale info = scale \<and> si_vol_power2 info = p2 \<and> si_left_gain info = gl
             \<and> si_right_gain info = gr \<and> si_number_channels info = 2 \<longrightarrow> dsp_volume_of info = Some (l, r))))"
proof -
  obtain lk d1 where l: "dsp_lock_dev E d = (lk, d1)" by fastforce
  show ?thesis
  proof (cases "lk < 0")
    case True
    then show ?thesis using l by (simp add: dsp_protocol_set_volume_def dsp_locked_def)
  next
    case False
    then have d1: "d_trace d1 = d_trace d @ [Ev_down]" using lock_free [OF assms(1,2) l] by auto
    obtain ret d2 where b: "dsp_set_volume_locked E l r d1 = Some (ret, d2)"
      "ret = 0 \<longrightarrow> d_mutex d2 = d_mutex d1 \<and> d_trace d2 = d_trace d1 @ map Ev_write
         [Out_volume DSP_CMD_SET_VOLUME (word_of_int (q15_scale (uint (louder l r)))) 0,
          Out_panning DSP_CMD_SET_PANNING (pan_gain l r) (pan_gain r l) PANNING_STEP]"
      using set_volume_locked_writes [OF assms(3,4), of E d1] by blast
    have op: "dsp_protocol_set_volume E l r d = Some (ret, dsp_unlock_dev E d2)"
      using l False b(1) by (simp add: dsp_protocol_set_volume_def dsp_locked_def)
    show ?thesis
    proof (intro exI conjI impI)
      show "dsp_protocol_set_volume E l r d = Some (ret, dsp_unlock_dev E d2)" by (fact op)
    next
      assume "ret = 0"
      then show "d_trace (dsp_unlock_dev E d2) = d_trace d @ [Ev_down,
          Ev_write (Out_volume DSP_CMD_SET_VOLUME (word_of_int (q15_scale (uint (louder l r)))) 0),
          Ev_write (Out_panning DSP_CMD_SET_PANNING (pan_gain l r) (pan_gain r l) PANNING_STEP), Ev_up]"
        using b(2) d1 by (simp add: dsp_simps)
    qed (use volume_decode [OF assms(3,4)] in blast)
  qed
qed

lemma q15_normalise_shift:
  assumes "0 < v" "2 ^ 30 \<le> v * 2 ^ k" "k = 0 \<or> v * 2 ^ (k - 1) < 2 ^ 30"
  shows "q15_normalise v p = Some (v * 2 ^ k, p - of_nat k)"
  using assms
proof (induction k arbitrary: v p)
  case 0
  then show ?case by (subst q15_normalise.simps) simp
next
  case (Suc k)
  have "v \<le> v * 2 ^ k" using Suc.prems(1) by simp
  then have v: "v < 0x40000000" using Suc.prems(3) by simp
  have "q15_normalise (2 * v) (p - 1) = Some (2 * v * 2 ^ k, p - 1 - of_nat k)"
    using Suc.prems by (intro Suc.IH) (cases k; simp)+
  then show ?case using v by (subst q15_normalise.simps) (simp add: mult_ac diff_diff_eq)
qed

text \<open>
  for volumes of 1 to 50 the exponent becomes negative and is stored in an unsigned short:
  \<open>linear2Q15\<close> gives 65530 to 65535, and the inverse conversion, which shifts by that number,
  is undefined. \<open>set_volume\<close> sends the value; a device that reports it back breaks
  \<open>get_volume\<close>.
\<close>

theorem dsp_volume_low_wraps:
  assumes "1 \<le> uint (x :: u16)" "uint x \<le> 50"
  shows "\<exists>scale p2. dsp_protocol_linear2Q15 x = Some (scale, p2) \<and> 65530 \<le> p2
    \<and> dsp_protocol_Q152linear scale p2 = None"
proof -
  let ?v = "0x00A3D70A * uint x"
  have "\<exists>k \<in> {2, 3, 4, 5, 6, 7}. 2 ^ 30 \<le> ?v * 2 ^ k \<and> ?v * 2 ^ (k - 1) < 2 ^ 30"
    using assms by simp arith
  then obtain k where k: "k \<in> {2, 3, 4, 5, 6, 7}" "2 ^ 30 \<le> ?v * 2 ^ k" "?v * 2 ^ (k - 1) < 2 ^ 30"
    by blast
  have "q15_normalise ?v 1 = Some (?v * 2 ^ k, 1 - of_nat k)"
    using k assms by (intro q15_normalise_shift) auto
  moreover have "65530 \<le> (1 - of_nat k :: u16)" using k(1) by auto
  moreover have "31 \<le> (1 - of_nat k :: u16)" using k(1) by auto
  moreover have "x \<noteq> 0" using assms(1) by auto
  ultimately show ?thesis using assms
    by (auto simp: dsp_protocol_linear2Q15_def dsp_protocol_Q152linear_def)
qed

end
