(* ===== verification/MaemoFaults.thy ===== *)
theory MaemoFaults
  imports MaemoVolume
begin

section \<open>The Maemo DSP protocol: loops, error paths, witnesses\<close>

text \<open>
  When the flush loop ends, and four behaviours of the error paths that differ from what the
  comments of maemo/dsp-protocol.c promise or its callers expect. The witnesses run the model
  against a small device, given as a table of answers.
\<close>

subsection \<open>The flush loop\<close>

definition flush_ends :: "dsp_env \<Rightarrow> nat \<Rightarrow> bool" where
  "flush_ends E c \<longleftrightarrow> (\<exists>i. fst (k_ret E (c + 2 * i)) \<le> 0 \<or> fst (k_ret E (c + 2 * i + 1)) = 0)"

lemma flush_ends_step:
  "flush_ends E c \<longleftrightarrow> fst (k_ret E c) \<le> 0 \<or> fst (k_ret E (Suc c)) = 0 \<or> flush_ends E (Suc (Suc c))"
proof
  assume "flush_ends E c"
  then obtain i where i: "fst (k_ret E (c + 2 * i)) \<le> 0 \<or> fst (k_ret E (c + 2 * i + 1)) = 0"
    by (auto simp: flush_ends_def)
  show "fst (k_ret E c) \<le> 0 \<or> fst (k_ret E (Suc c)) = 0 \<or> flush_ends E (Suc (Suc c))"
  proof (cases i)
    case 0
    then show ?thesis using i by auto
  next
    case (Suc j)
    then show ?thesis using i by (auto simp: flush_ends_def intro!: exI [of _ j])
  qed
next
  assume "fst (k_ret E c) \<le> 0 \<or> fst (k_ret E (Suc c)) = 0 \<or> flush_ends E (Suc (Suc c))"
  then show "flush_ends E c"
  proof (elim disjE)
    assume "flush_ends E (Suc (Suc c))"
    then obtain i where "fst (k_ret E (Suc (Suc c) + 2 * i)) \<le> 0 \<or> fst (k_ret E (Suc (Suc c) + 2 * i + 1)) = 0"
      by (auto simp: flush_ends_def)
    then show ?thesis unfolding flush_ends_def by (intro exI [of _ "Suc i"]) simp
  qed (auto simp: flush_ends_def intro: exI [of _ 0])
qed

lemma flush_end_if: "dsp_flush E d = Some r \<Longrightarrow> flush_ends E (d_calls d)"
proof (rule dsp_flush.raw_induct [where P = "\<lambda>E d r. flush_ends E (d_calls d)"], goal_cases)
  case (1 f E d r)
  show ?case using 1(3)
    by (subst flush_ends_step) (auto simp: case_prod_beta Let_def dsp_simps split: if_splits dest!: 1(2))
qed

lemma flush_stops:
  assumes "fst (k_ret E (c + 2 * i)) \<le> 0 \<or> fst (k_ret E (c + 2 * i + 1)) = 0" "d_calls d = c"
  shows "\<exists>d'. dsp_flush E d = Some (0, d')"
  using assms
proof (induction i arbitrary: c d)
  case 0
  then show ?case by (subst dsp_flush.simps) (auto simp: case_prod_beta Let_def dsp_simps)
next
  case (Suc i)
  let ?d = "snd (dsp_call E (snd (dsp_call E d)))"
  have "\<exists>d'. dsp_flush E ?d = Some (0, d')"
    using Suc.prems by (intro Suc.IH [of "c + 2"]) (simp_all add: dsp_simps)
  then show ?case
    by (subst dsp_flush.simps) (auto simp: case_prod_beta Let_def dsp_simps)
qed

text \<open>
  the flush loop returns, with 0, exactly if some \<open>poll\<close> reports nothing or some \<open>read\<close>
  returns 0. A \<open>read\<close> that fails does not end it: on a descriptor in error, where \<open>poll\<close> keeps
  returning a positive number and \<open>read\<close> keeps failing, the loop runs forever.
\<close>

theorem dsp_flush_returns:
  "(\<exists>d'. dsp_flush E d = Some (0, d')) \<longleftrightarrow>
   (\<exists>i. fst (k_ret E (d_calls d + 2 * i)) \<le> 0 \<or> fst (k_ret E (d_calls d + 2 * i + 1)) = 0)"
  using flush_end_if [of E d] flush_stops [of E "d_calls d"] unfolding flush_ends_def by blast

subsection \<open>Error paths\<close>

text \<open>
  \<open>close_node\<close> on an instance without a connection releases a semaphore it has not taken:
  its trace is a single semaphore up. \<open>alsa_dsp_open_dsp_task\<close> makes this call for every
  node that \<open>open_node\<close> found busy, which admits one more process to that node.
\<close>

theorem dsp_close_unconnected_releases:
  assumes "d_state d = STATE_UNINITIALISED"
  shows "\<exists>d'. dsp_protocol_close_node E d = Some (0, d') \<and> d_trace d' = d_trace d @ [Ev_up]"
  using assms by (auto simp: dsp_protocol_close_node_def dsp_simps)

text \<open>
  while another thread holds the mutex, \<open>lock_dev\<close> returns the positive \<open>EBUSY\<close> (or 0),
  which no caller takes for an error: \<open>set_mute\<close> sends its command without the semaphore and
  then releases the semaphore that the other thread holds.
\<close>

theorem dsp_busy_lock_ignored:
  assumes "d_mutex d = Mutex_other" "0 \<le> fst (k_ret E (d_calls d))"
  shows "\<exists>ret d' command. dsp_protocol_set_mute E m d = Some (ret, d')
    \<and> d_trace d' = d_trace d @ [Ev_write (Out_cmd command), Ev_up]"
proof -
  have "dsp_lock_dev E d = (if d_errno d = EBUSY then 0 else EBUSY, d)"
    using assms(1) by (simp add: dsp_lock_dev_def)
  then show ?thesis using assms(2)
    by (auto simp: dsp_protocol_set_mute_def dsp_locked_def dsp_set_mute_locked_def case_prod_beta
        Let_def dsp_simps)
qed

text \<open>
  when the device file cannot be opened, \<open>open_node\<close> returns the positive errno and no
  connection. The caller's test for a negative value takes that for success and stops the
  search for a usable node.
\<close>

theorem dsp_open_failure_positive:
  assumes "errno_pos E" "d_state d = STATE_UNINITIALISED" "fst (k_ret E (d_calls d)) < 0"
  shows "\<exists>ret d'. dsp_protocol_open_node E dev d = Some (ret, d') \<and> 0 < ret
    \<and> d_state d' = STATE_UNINITIALISED \<and> d_trace d' = d_trace d"
proof -
  have "0 < d_errno (snd (dsp_call E d))"
    using assms(1,3) call_errno [of E d] by (simp add: errno_pos_def dsp_simps)
  then show ?thesis using assms(2,3)
    by (auto simp: dsp_protocol_open_node_def case_prod_beta Let_def dsp_simps)
qed

text \<open>
  \<open>probe_node\<close> copies the device name twice and keeps one pointer: after it has reached the
  device, \<open>destroy\<close> leaves one more string allocated than there was before.
\<close>

theorem dsp_probe_leaks:
  assumes "errno_pos E" "d_mutex d = Mutex_free" "d_state d = STATE_UNINITIALISED"
    and "dsp_protocol_probe_node E dev d = Some (ret, d')" "d_trace d' \<noteq> d_trace d"
  shows "dsp_protocol_destroy (Some d') = (0, Suc (d_strings d))"
proof -
  let ?d = "snd (dsp_get_sem E (dsp_strdup dev ((snd (dsp_call E d))\<lparr>d_fd := fst (dsp_call E d)\<rparr>)))"
  have fd: "\<not> fst (dsp_call E d) < 0"
    using assms(3-5) by (auto simp: dsp_protocol_probe_node_def case_prod_beta Let_def dsp_simps)
  then have lk: "dsp_locked E id (dsp_probe_locked E dev) ?d = Some (ret, d')"
    using assms(3,4) by (simp add: dsp_protocol_probe_node_def case_prod_beta Let_def)
  obtain l d1 where l: "dsp_lock_dev E ?d = (l, d1)" by fastforce
  have "d1 = snd (dsp_lock_dev E ?d)" by (simp only: l snd_conv)
  then have d1: "d_strings d1 = Suc (d_strings d)" by (simp add: dsp_simps)
  have "\<not> l < 0"
  proof
    assume "l < 0"
    then have "d_trace d' = d_trace ?d"
      using lock_free [OF assms(1) _ l] assms(2) lk l by (auto simp: dsp_locked_def dsp_simps)
    then show False using assms(5) by (simp add: dsp_simps)
  qed
  then obtain d2 where b: "dsp_probe_locked E dev d1 = Some (ret, d2)" "d' = dsp_unlock_dev E d2"
    using lk l by (auto simp: dsp_locked_def Option.bind_eq_Some_conv)
  obtain r d3 where u: "dsp_update_state E (dsp_strdup dev d1) = Some (r, d3)" "d2 = d3"
    using b(1) by (auto simp: dsp_probe_locked_def Option.bind_eq_Some_conv)
  have "d_strings d3 = Suc (d_strings d1) \<and> d_device d3 \<noteq> None"
    using u(1) by (auto simp: dsp_update_state_def Option.bind_eq_Some_conv case_prod_beta Let_def
        dsp_simps split: if_splits dest!: flush_view)
  then show ?thesis using b(2) u(2) d1 by (simp add: dsp_protocol_destroy_def dsp_simps)
qed

subsection \<open>A small device\<close>

definition demo_dev :: dsp_env where
  "demo_dev = \<lparr>k_ret = (\<lambda>_. (0, 0)),
     k_info = (\<lambda>_. \<lparr>si_dsp_cmd = DSP_CMD_STATE, si_stream_id = 1, si_ds_stream_id = 1,
        si_bridge_buffer_size = 8, si_mmap_buffer_size = 8, si_status = 4, si_num_frames = 0,
        si_sample_rate = 3, si_number_channels = 2, si_vol_scale = 0, si_vol_power2 = 0, si_left_gain = 0,
        si_right_gain = 0, si_dsp_audio_fmt = 2, si_mute = 0, si_samples_played_high = 0,
        si_samples_played_low = 0\<rparr>),
     k_init = (\<lambda>_. \<lparr>is_dsp_cmd = DSP_CMD_INIT, is_init_status = DSP_OK, is_stream_id = 1, is_bridge_buffer_size = 8, is_mmap_buffer_size = 8\<rparr>),
     k_cmd_status = (\<lambda>_. \<lparr>cs_dsp_cmd = DSP_CMD_DATA_WRITE, cs_status = DSP_OK\<rparr>),
     k_shared = (\<lambda>_ _. 0)\<rparr>"

definition demo_dsp :: "int \<Rightarrow> mutex \<Rightarrow> dsp" where
  "demo_dsp st mx = \<lparr>d_fd = - 1, d_device = None, d_state = st, d_mute = 0, d_stream_id = 0,
     d_bridge_size = 0, d_mmap_size = 0, d_mmap = Map_null, d_mutex = mx, d_sem_set_id = - 1,
     d_errno = 0, d_calls = 0, d_strings = 0, d_trace = []\<rparr>"

lemma demo_errno: "errno_pos demo_dev"
  by (simp add: errno_pos_def demo_dev_def)

lemma demo_call: "dsp_call demo_dev d = (0, d\<lparr>d_calls := Suc (d_calls d)\<rparr>)"
  by (simp add: dsp_call_def demo_dev_def)

lemma demo_flush: "dsp_flush demo_dev d = Some (0, d\<lparr>d_calls := Suc (d_calls d)\<rparr>)"
  by (subst dsp_flush.simps) (simp add: demo_call)

lemmas demo_dsp_simps = demo_call demo_flush demo_dsp_def dsp_lock_dev_def dsp_unlock_dev_def dsp_locked_def
  dsp_write_def dsp_send_command_def dsp_get_sem_def dsp_strdup_def Let_def

lemma demo_status: "cs_status (k_cmd_status demo_dev n) = DSP_OK" "fst (k_ret demo_dev n) = 0"
  by (simp_all add: demo_dev_def)


theorem dsp_exec_edge_witness:
  "\<exists>d'. dsp_exec demo_dev Op_stop (demo_dsp STATE_PLAYING Mutex_free) = Some (0, d')
    \<and> d_state d' = STATE_STOPPED"
proof -
  let ?d = "demo_dsp STATE_PLAYING Mutex_free"
  obtain d' where e: "dsp_exec demo_dev Op_stop ?d = Some (0, d')"
    by (simp add: dsp_protocol_send_stop_def dsp_halt_locked_def demo_dsp_simps demo_status)
  then show ?thesis using dsp_exec_edge [OF demo_errno e] by (simp add: demo_dsp_def)
qed


theorem dsp_volume_roundtrip_witness:
  "\<exists>ret d'. dsp_protocol_set_volume demo_dev 100 73 (demo_dsp STATE_PLAYING Mutex_free) = Some (ret, d')"
proof -
  have "51 \<le> uint (louder 100 73)" "uint (louder 100 73) \<le> 100" "d_mutex (demo_dsp STATE_PLAYING Mutex_free) = Mutex_free"
    by (simp_all add: louder_def demo_dsp_def)
  from dsp_volume_roundtrip [OF demo_errno this(3,1,2)] show ?thesis by blast
qed

theorem dsp_volume_low_wraps_witness:
  "\<exists>scale p2. dsp_protocol_linear2Q15 30 = Some (scale, p2) \<and> dsp_protocol_Q152linear scale p2 = None"
  using dsp_volume_low_wraps [of 30] by auto

theorem dsp_close_unconnected_releases_witness:
  "\<exists>d'. dsp_protocol_close_node demo_dev (demo_dsp STATE_UNINITIALISED Mutex_free) = Some (0, d')
     \<and> d_trace d' = [Ev_up]"
  using dsp_close_unconnected_releases [of "demo_dsp STATE_UNINITIALISED Mutex_free" demo_dev]
  by (simp add: demo_dsp_def)

theorem dsp_busy_lock_ignored_witness:
  "\<exists>ret d' command. dsp_protocol_set_mute demo_dev 1 (demo_dsp STATE_PLAYING Mutex_other) = Some (ret, d')
     \<and> d_trace d' = [Ev_write (Out_cmd command), Ev_up]"
  using dsp_busy_lock_ignored [of "demo_dsp STATE_PLAYING Mutex_other" demo_dev 1]
  by (simp add: demo_dsp_def demo_status)

theorem dsp_open_failure_positive_witness:
  "\<exists>ret d'. dsp_protocol_open_node (demo_dev\<lparr>k_ret := \<lambda>_. (- 1, ENODEV)\<rparr>) ''pcm0''
      (demo_dsp STATE_UNINITIALISED Mutex_free) = Some (ret, d') \<and> 0 < ret"
proof -
  let ?E = "demo_dev\<lparr>k_ret := \<lambda>_. (- 1, ENODEV)\<rparr>" and ?d = "demo_dsp STATE_UNINITIALISED Mutex_free"
  have "errno_pos ?E" "d_state ?d = STATE_UNINITIALISED" "fst (k_ret ?E (d_calls ?d)) < 0"
    by (simp_all add: errno_pos_def demo_dsp_def)
  from dsp_open_failure_positive [OF this, of "''pcm0''"] show ?thesis by blast
qed

theorem dsp_probe_leaks_witness:
  "\<exists>ret d'. dsp_protocol_probe_node demo_dev ''pcm0'' (demo_dsp STATE_UNINITIALISED Mutex_free) = Some (ret, d')
     \<and> dsp_protocol_destroy (Some d') = (0, 1)"
proof -
  let ?d = "demo_dsp STATE_UNINITIALISED Mutex_free"
  obtain ret d' where p: "dsp_protocol_probe_node demo_dev ''pcm0'' ?d = Some (ret, d')" "d_trace d' \<noteq> d_trace ?d"
    by (simp add: dsp_protocol_probe_node_def dsp_probe_locked_def dsp_update_state_def demo_dsp_simps demo_status)
  have "d_mutex ?d = Mutex_free" "d_state ?d = STATE_UNINITIALISED" by (simp_all add: demo_dsp_def)
  from dsp_probe_leaks [OF demo_errno this p] p(1) show ?thesis by (simp add: demo_dsp_def)
qed

end
