(* ===== verification/Arcam.thy ===== *)
theory Arcam
  imports Alsa
begin

section \<open>The Arcam AV amplifier: serial protocol (arcam-av/arcam_av.c)\<close>

text \<open>
  The amplifier is driven by 7-byte requests \<open>PC_\<close>, command, two parameters, carriage
  return, and answers with 8-byte replies \<open>AV_\<close>, command, return code, two parameters,
  carriage return. The receiver is a byte-wise automaton in static variables, so a reply may
  arrive in any number of reads.

  \<open>av_env\<close> is the kernel. Call number \<open>n\<close> returns \<open>av_ret n\<close> (value, and errno when it is
  negative); a \<open>read\<close> gives the first bytes of \<open>av_data n\<close> that fit, and when there are
  none it has returned 0 or -1, as \<open>av_ret n\<close> says. \<open>av\<close> is the state of a process: the
  call counter, errno, the receiver's static variables, the bytes written to the amplifier and
  read from it. Bytes are \<open>u8\<close>.
\<close>

subsection \<open>Codes and data\<close>

abbreviation (input) ARCAM_AV_ZONE1 :: u8 where "ARCAM_AV_ZONE1 \<equiv> 0x31"
abbreviation (input) ARCAM_AV_ZONE2 :: u8 where "ARCAM_AV_ZONE2 \<equiv> 0x32"
abbreviation (input) ARCAM_AV_POWER :: u8 where "ARCAM_AV_POWER \<equiv> 0x2A"
abbreviation (input) ARCAM_AV_VOLUME_CHANGE :: u8 where "ARCAM_AV_VOLUME_CHANGE \<equiv> 0x2F"
abbreviation (input) ARCAM_AV_VOLUME_SET :: u8 where "ARCAM_AV_VOLUME_SET \<equiv> 0x30"
abbreviation (input) ARCAM_AV_MUTE :: u8 where "ARCAM_AV_MUTE \<equiv> 0x2E"
abbreviation (input) ARCAM_AV_SOURCE :: u8 where "ARCAM_AV_SOURCE \<equiv> 0x31"
abbreviation (input) ARCAM_AV_SOURCE_TYPE :: u8 where "ARCAM_AV_SOURCE_TYPE \<equiv> 0x37"
abbreviation (input) ARCAM_AV_DIRECT :: u8 where "ARCAM_AV_DIRECT \<equiv> 0x33"
abbreviation (input) ARCAM_AV_STEREO_DECODE :: u8 where "ARCAM_AV_STEREO_DECODE \<equiv> 0x34"
abbreviation (input) ARCAM_AV_MULTI_DECODE :: u8 where "ARCAM_AV_MULTI_DECODE \<equiv> 0x35"
abbreviation (input) ARCAM_AV_STEREO_EFFECT :: u8 where "ARCAM_AV_STEREO_EFFECT \<equiv> 0x36"
abbreviation (input) ARCAM_AV_OK :: u8 where "ARCAM_AV_OK \<equiv> 0x50"
abbreviation (input) ARCAM_AV_REQUEST :: u8 where "ARCAM_AV_REQUEST \<equiv> 0x39"
abbreviation (input) byte_A :: u8 where "byte_A \<equiv> 0x41"
abbreviation (input) byte_V :: u8 where "byte_V \<equiv> 0x56"
abbreviation (input) byte_P :: u8 where "byte_P \<equiv> 0x50"
abbreviation (input) byte_C :: u8 where "byte_C \<equiv> 0x43"
abbreviation (input) byte_under :: u8 where "byte_under \<equiv> 0x5F"
abbreviation (input) byte_CR :: u8 where "byte_CR \<equiv> 0x0D"

record av_env =
  av_ret :: "nat \<Rightarrow> int \<times> int"
  av_data :: "nat \<Rightarrow> u8 list"
  av_ready :: "nat \<Rightarrow> int set"
  av_thread :: "nat \<Rightarrow> nat"
  av_accept :: "nat \<Rightarrow> int set \<Rightarrow> int"

record av_rx =
  rx_index :: nat
  rx_command :: u8
  rx_param1 :: u8
  rx_param2 :: u8

record av =
  av_calls :: nat
  av_errno :: int
  av_rx :: av_rx
  av_out :: "u8 list"
  av_in :: "u8 list"

type_synonym av_msg = "u8 \<times> u8 \<times> u8"

record av_zone1 =
  z1_power :: u8
  z1_volume :: u8
  z1_mute :: u8
  z1_direct :: u8
  z1_source :: u8
  z1_source_type :: u8
  z1_stereo_decode :: u8
  z1_stereo_effect :: u8
  z1_multi_decode :: u8

record av_zone2 =
  z2_power :: u8
  z2_volume :: u8
  z2_mute :: u8
  z2_source :: u8

record av_state =
  zone1 :: av_zone1
  zone2 :: av_zone2

subsection \<open>System calls\<close>

definition av_call :: "av_env \<Rightarrow> av \<Rightarrow> int \<times> av" where
  "av_call E a =
     (let (r, e) = av_ret E (av_calls a) in
      (r, a\<lparr>av_calls := Suc (av_calls a), av_errno := (if r < 0 then e else av_errno a)\<rparr>))"

definition av_read :: "av_env \<Rightarrow> nat \<Rightarrow> av \<Rightarrow> u8 list \<times> av" where
  "av_read E n a =
     (let bytes = take n (av_data E (av_calls a)); (r, e) = av_ret E (av_calls a) in
      (bytes, a\<lparr>av_calls := Suc (av_calls a),
                av_errno := (if bytes = [] \<and> r < 0 then e else av_errno a),
                av_in := av_in a @ bytes\<rparr>))"

definition arcam_av_connect :: "av_env \<Rightarrow> av \<Rightarrow> int \<times> av" where
  "arcam_av_connect E a =
     (let (fd, a) = av_call E a in
      if fd < 0 then (- av_errno a, a)
      else let (_, a) = av_call E a; (_, a) = av_call E a in (fd, a))"

subsection \<open>Requests\<close>

definition av_request :: "u8 \<Rightarrow> u8 \<Rightarrow> u8 \<Rightarrow> u8 list" where
  "av_request command param1 param2 = [byte_P, byte_C, byte_under, command, param1, param2, byte_CR]"

text \<open>
  The \<open>do \<dots> while\<close> loop over partial writes; \<open>rest\<close> is what \<open>cursor\<close> has not passed.
  \<open>write\<close> takes at most what it is given.
\<close>

function av_write_all :: "av_env \<Rightarrow> u8 list \<Rightarrow> av \<Rightarrow> int \<times> av" where
  "av_write_all E rest a =
     (let (w, a) = av_call E a; bytes = min (nat w) (length rest) in
      if bytes = 0 then (- av_errno a, a)
      else
        let a = a\<lparr>av_out := av_out a @ take bytes rest\<rparr> in
        if length rest - bytes > 0 then av_write_all E (drop bytes rest) a else (0, a))"
  by pat_completeness auto
termination by (relation "measure (\<lambda>(E, rest, a). length rest)") auto

declare av_write_all.simps [simp del]

definition arcam_av_send :: "av_env \<Rightarrow> u8 \<Rightarrow> u8 \<Rightarrow> u8 \<Rightarrow> av \<Rightarrow> int \<times> av" where
  "arcam_av_send E command param1 param2 a =
     (let (_, a) = av_call E a in av_write_all E (av_request command param1 param2) a)"

definition av_queries :: "av_msg list" where
  "av_queries =
     [(ARCAM_AV_POWER, ARCAM_AV_ZONE1, ARCAM_AV_REQUEST),
      (ARCAM_AV_VOLUME_CHANGE, ARCAM_AV_ZONE1, ARCAM_AV_REQUEST),
      (ARCAM_AV_MUTE, ARCAM_AV_ZONE1, ARCAM_AV_REQUEST),
      (ARCAM_AV_DIRECT, ARCAM_AV_ZONE1, ARCAM_AV_REQUEST),
      (ARCAM_AV_SOURCE, ARCAM_AV_ZONE1, ARCAM_AV_REQUEST),
      (ARCAM_AV_SOURCE_TYPE, ARCAM_AV_ZONE1, ARCAM_AV_REQUEST),
      (ARCAM_AV_STEREO_DECODE, ARCAM_AV_ZONE1, ARCAM_AV_REQUEST),
      (ARCAM_AV_MULTI_DECODE, ARCAM_AV_ZONE1, ARCAM_AV_REQUEST),
      (ARCAM_AV_STEREO_EFFECT, ARCAM_AV_ZONE1, ARCAM_AV_REQUEST),
      (ARCAM_AV_POWER, ARCAM_AV_ZONE2, ARCAM_AV_REQUEST),
      (ARCAM_AV_VOLUME_CHANGE, ARCAM_AV_ZONE2, ARCAM_AV_REQUEST),
      (ARCAM_AV_MUTE, ARCAM_AV_ZONE2, ARCAM_AV_REQUEST),
      (ARCAM_AV_SOURCE, ARCAM_AV_ZONE2, ARCAM_AV_REQUEST)]"

definition arcam_av_state_query :: "av_env \<Rightarrow> av \<Rightarrow> av" where
  "arcam_av_state_query E a = foldl (\<lambda>a (c, p, q). snd (arcam_av_send E c p q a)) a av_queries"

subsection \<open>The receiver\<close>

text \<open>
  One byte, with the retries: \<open>index = 0; continue;\<close> looks at the same byte again in state
  0, which either starts a reply or drops it.
\<close>

definition rx_restart :: "av_rx \<Rightarrow> u8 \<Rightarrow> av_rx" where
  "rx_restart s b = s\<lparr>rx_index := (if b = byte_A then 1 else 0)\<rparr>"

definition rx_byte :: "av_rx \<Rightarrow> u8 \<Rightarrow> av_rx" where
  "rx_byte s b =
     (let next = (\<lambda>s. s\<lparr>rx_index := Suc (rx_index s)\<rparr>) in
      if rx_index s = 0 then rx_restart s b
      else if rx_index s = 1 then (if b = byte_V then next s else rx_restart s b)
      else if rx_index s = 2 then (if b = byte_under then next s else rx_restart s b)
      else if rx_index s = 3 then next (s\<lparr>rx_command := b\<rparr>)
      else if rx_index s = 4 then (if b = ARCAM_AV_OK then next s else rx_restart s b)
      else if rx_index s = 5 then next (s\<lparr>rx_param1 := b\<rparr>)
      else if rx_index s = 6 then next (s\<lparr>rx_param2 := b\<rparr>)
      else if rx_index s = 7 then (if b = byte_CR then next s else rx_restart s b)
      else next s)"

partial_function (option) arcam_av_receive :: "av_env \<Rightarrow> av_msg \<Rightarrow> av \<Rightarrow> (int \<times> av_msg \<times> av) option" where
  "arcam_av_receive E msg a =
     (let (bytes, a) = av_read E (8 - rx_index (av_rx a)) a in
      if bytes = [] then Some (- av_errno a, msg, a)
      else
        let rx = foldl rx_byte (av_rx a) bytes; a = a\<lparr>av_rx := rx\<rparr> in
        if rx_index rx < 8 then arcam_av_receive E msg a
        else Some (0, (rx_command rx, rx_param1 rx, rx_param2 rx), a\<lparr>av_rx := rx\<lparr>rx_index := 0\<rparr>\<rparr>))"

subsection \<open>The shared state\<close>

text \<open>The effect of a reply, and whether it is one the table knows (\<open>result = 0\<close>).\<close>

definition av_apply :: "av_msg \<Rightarrow> av_state \<Rightarrow> bool \<times> av_state" where
  "av_apply msg st =
     (let (command, param1, param2) = msg;
          set1 = (\<lambda>f. if param1 = ARCAM_AV_ZONE1 then (True, st\<lparr>zone1 := f (zone1 st)\<rparr>) else (False, st));
          both = (\<lambda>f g. if param1 = ARCAM_AV_ZONE1 then (True, st\<lparr>zone1 := f (zone1 st)\<rparr>)
                   else if param1 = ARCAM_AV_ZONE2 then (True, st\<lparr>zone2 := g (zone2 st)\<rparr>)
                   else (False, st))
      in if command = ARCAM_AV_POWER then both (z1_power_update (\<lambda>_. param2)) (z2_power_update (\<lambda>_. param2))
         else if command = ARCAM_AV_VOLUME_CHANGE \<or> command = ARCAM_AV_VOLUME_SET then
           both (z1_volume_update (\<lambda>_. param2)) (z2_volume_update (\<lambda>_. param2))
         else if command = ARCAM_AV_MUTE then both (z1_mute_update (\<lambda>_. param2)) (z2_mute_update (\<lambda>_. param2))
         else if command = ARCAM_AV_DIRECT then set1 (z1_direct_update (\<lambda>_. param2))
         else if command = ARCAM_AV_SOURCE then both (z1_source_update (\<lambda>_. param2)) (z2_source_update (\<lambda>_. param2))
         else if command = ARCAM_AV_SOURCE_TYPE then set1 (z1_source_type_update (\<lambda>_. param2))
         else if command = ARCAM_AV_STEREO_DECODE then set1 (z1_stereo_decode_update (\<lambda>_. param2))
         else if command = ARCAM_AV_STEREO_EFFECT then set1 (z1_stereo_effect_update (\<lambda>_. param2))
         else if command = ARCAM_AV_MULTI_DECODE then set1 (z1_multi_decode_update (\<lambda>_. param2))
         else (False, st))"

partial_function (option) av_update_loop ::
    "av_env \<Rightarrow> int \<Rightarrow> av_msg \<Rightarrow> av_state \<Rightarrow> av \<Rightarrow> (int \<times> av_state \<times> av) option" where
  "av_update_loop E result msg st a = do {
     (err, msg, a) \<leftarrow> arcam_av_receive E msg a;
     if err \<noteq> 0 then Some (result, st, a)
     else
       let (known, st) = av_apply msg st
       in av_update_loop E (if known then 0 else result) msg st a
   }"

definition arcam_av_update :: "av_env \<Rightarrow> av_state \<Rightarrow> av \<Rightarrow> (int \<times> av_state \<times> av) option" where
  "arcam_av_update E st a = av_update_loop E (- 1) (0, 0, 0) st a"

end
