(* ===== verification/ArcamProto.thy ===== *)
theory ArcamProto
  imports Arcam
begin

section \<open>The Arcam protocol: what send, receive and update do\<close>

text \<open>
  The receiver as a machine on byte streams: \<open>rx_run\<close> feeds bytes and collects the replies.
  It is an instance of \<open>stream_machine\<close>, so where the stream is cut into reads does not
  matter; the C function, which never asks for more bytes than the current reply may still
  have, stops exactly at the end of one.
\<close>

subsection \<open>The receiver as a stream machine\<close>

definition rx_message :: "av_rx \<Rightarrow> av_msg" where
  "rx_message s = (rx_command s, rx_param1 s, rx_param2 s)"

definition rx_step :: "av_rx \<Rightarrow> u8 \<Rightarrow> av_rx \<times> av_msg list" where
  "rx_step s b =
     (let s = rx_byte s b in
      if rx_index s < 8 then (s, []) else (s\<lparr>rx_index := 0\<rparr>, [rx_message s]))"

fun rx_run :: "av_rx \<Rightarrow> u8 list \<Rightarrow> av_rx \<times> av_msg list" where
  "rx_run s [] = (s, [])"
| "rx_run s (b # bs) =
     (let (s1, o1) = rx_step s b; (s2, o2) = rx_run s1 bs in (s2, o1 @ o2))"

lemma rx_byte_index: "rx_index s < 8 \<Longrightarrow> rx_index (rx_byte s b) \<le> Suc (rx_index s)"
  by (auto simp: rx_byte_def rx_restart_def Let_def)

lemma rx_step_inv: "rx_index s < 8 \<Longrightarrow> rx_index (fst (rx_step s b)) < 8"
  by (simp add: rx_step_def Let_def)

lemma rx_run_inv: "rx_index s < 8 \<Longrightarrow> rx_index (fst (rx_run s bs)) < 8"
  by (induction bs arbitrary: s) (auto simp: Let_def case_prod_beta rx_step_inv)

lemma rx_run_append:
  "rx_run s (xs @ ys) = (let (s1, o1) = rx_run s xs; (s2, o2) = rx_run s1 ys in (s2, o1 @ o2))"
  by (induction xs arbitrary: s) (auto simp: Let_def case_prod_beta)

interpretation rx: stream_machine "\<lambda>s. rx_index s < 8" id rx_run
  by unfold_locales (simp_all add: rx_run_inv rx_run_append Let_def case_prod_beta)

text \<open>A read of at most the bytes that are missing completes a reply only with its last byte.\<close>

lemma rx_chunk:
  assumes "bytes \<noteq> []" "length bytes \<le> 8 - rx_index s" "rx_index s < 8"
  shows "rx_run s bytes =
    (let t = foldl rx_byte s bytes in
     if rx_index t < 8 then (t, []) else (t\<lparr>rx_index := 0\<rparr>, [rx_message t]))"
  using assms
proof (induction bytes arbitrary: s)
  case Nil
  then show ?case by simp
next
  case (Cons b bs)
  show ?case
  proof (cases "bs = []")
    case True
    then show ?thesis by (simp add: rx_step_def Let_def)
  next
    case False
    then have "1 \<le> length bs" by (cases bs) auto
    then have i: "rx_index (rx_byte s b) < 8" "length bs \<le> 8 - rx_index (rx_byte s b)"
      using rx_byte_index [OF Cons.prems(3), of b] Cons.prems(2) by auto
    then show ?thesis using Cons.IH [OF False i(2,1)] by (simp add: rx_step_def Let_def)
  qed
qed

definition av_reply :: "av_msg \<Rightarrow> u8 list" where
  "av_reply = (\<lambda>(command, param1, param2).
     [byte_A, byte_V, byte_under, command, ARCAM_AV_OK, param1, param2, byte_CR])"

lemma rx_run_reply:
  assumes "rx_index s = 0"
  shows "rx_run s (av_reply m) = (s\<lparr>rx_command := fst m, rx_param1 := fst (snd m), rx_param2 := snd (snd m)\<rparr>, [m])"
  using assms
  by (cases s, cases m) (simp add: av_reply_def rx_step_def rx_byte_def rx_restart_def rx_message_def Let_def)

lemma rx_run_replies:
  "rx_index s = 0 \<Longrightarrow> \<exists>s'. rx_run s (concat (map av_reply ms)) = (s', ms) \<and> rx_index s' = 0"
proof (induction ms arbitrary: s)
  case Nil
  then show ?case by simp
next
  case (Cons m ms)
  from Cons.IH [of "fst (rx_run s (av_reply m))"] Cons.prems show ?case
    by (auto simp: rx_run_append rx_run_reply Let_def)
qed


subsection \<open>receive\<close>

definition receive_spec :: "av_env \<Rightarrow> av_msg \<Rightarrow> av \<Rightarrow> int \<times> av_msg \<times> av \<Rightarrow> bool" where
  "receive_spec E msg a = (\<lambda>(err, msg', a'). rx_index (av_rx a') < 8 \<and> av_out a' = av_out a
     \<and> (\<exists>bs. av_in a' = av_in a @ bs
         \<and> (rx_run (av_rx a) bs = (av_rx a', [msg']) \<and> err = 0 \<and> rx_index (av_rx a') = 0
            \<or> rx_run (av_rx a) bs = (av_rx a', []) \<and> msg' = msg \<and> err = - av_errno a'
              \<and> (\<exists>n. av_calls a' = Suc n \<and> av_data E n = [] \<and>
                   (fst (av_ret E n) < 0 \<longrightarrow> av_errno a' = snd (av_ret E n))))))"

lemma receive_raw:
  assumes "arcam_av_receive E msg a = Some r"
  shows "rx_index (av_rx a) < 8 \<longrightarrow> receive_spec E msg a r"
  using assms
proof (rule arcam_av_receive.raw_induct [where P = "\<lambda>E msg a r. rx_index (av_rx a) < 8 \<longrightarrow> receive_spec E msg a r", rotated])
  fix f and E :: av_env and msg a r
  assume IH: "\<And>E msg a r. f E msg a = Some r \<Longrightarrow> rx_index (av_rx a) < 8 \<longrightarrow> receive_spec E msg a r"
    and eq: "(let (bytes, a) = av_read E (8 - rx_index (av_rx a)) a in
      if bytes = [] then Some (- av_errno a, msg, a)
      else
        let rx = foldl rx_byte (av_rx a) bytes; a = a\<lparr>av_rx := rx\<rparr> in
        if rx_index rx < 8 then f E msg a
        else Some (0, (rx_command rx, rx_param1 rx, rx_param2 rx), a\<lparr>av_rx := rx\<lparr>rx_index := 0\<rparr>\<rparr>)) = Some r"
  show "rx_index (av_rx a) < 8 \<longrightarrow> receive_spec E msg a r"
  proof
    assume i: "rx_index (av_rx a) < 8"
    let ?n = "8 - rx_index (av_rx a)"
    let ?bytes = "take ?n (av_data E (av_calls a))" and ?a = "snd (av_read E ?n a)"
    let ?rx = "foldl rx_byte (av_rx a) ?bytes"
    have v: "fst (av_read E ?n a) = ?bytes" "av_in ?a = av_in a @ ?bytes" "av_rx ?a = av_rx a"
      "av_out ?a = av_out a" "av_calls ?a = Suc (av_calls a)"
      "?bytes = [] \<Longrightarrow> fst (av_ret E (av_calls a)) < 0 \<Longrightarrow> av_errno ?a = snd (av_ret E (av_calls a))"
      by (simp_all add: av_read_def case_prod_beta Let_def)
    show "receive_spec E msg a r"
    proof (cases "?bytes = []")
      case True
      then have "av_data E (av_calls a) = []" using i by (cases "av_data E (av_calls a)") auto
      moreover have "r = (- av_errno ?a, msg, ?a)" using eq True v(1) by (simp add: case_prod_beta)
      ultimately show ?thesis using v i True by (simp add: receive_spec_def)
    next
      case False
      have len: "length ?bytes \<le> ?n" by simp
      note chunk = rx_chunk [OF False len i]
      show ?thesis
      proof (cases "rx_index ?rx < 8")
        case True
        then have "f E msg (?a\<lparr>av_rx := ?rx\<rparr>) = Some r"
          using eq False v by (simp add: case_prod_beta Let_def)
        from IH [OF this] True have "receive_spec E msg (?a\<lparr>av_rx := ?rx\<rparr>) r" by simp
        then show ?thesis using v True chunk
          by (fastforce simp: receive_spec_def rx_run_append Let_def)
      next
        case fin: False
        then have "r = (0, rx_message ?rx, ?a\<lparr>av_rx := ?rx\<lparr>rx_index := 0\<rparr>\<rparr>)"
          using eq False v by (simp add: case_prod_beta Let_def rx_message_def)
        then show ?thesis using v fin chunk by (auto simp: receive_spec_def Let_def)
      qed
    qed
  qed
qed

text \<open>
  \<open>arcam_av_receive\<close> returns one reply of the byte stream or none. When it returns 0 with a
  reply, the bytes it has read are the rest of exactly that reply for the receiver's state, no
  byte of the next one is taken and the receiver is idle; otherwise the last read gave nothing,
  the caller's variables are untouched, the result is \<open>-errno\<close>, and what was read so far is
  kept in the receiver's state.
\<close>

theorem arcam_av_receive_one_reply:
  assumes "arcam_av_receive E msg a = Some (err, msg', a')" "rx_index (av_rx a) < 8"
  shows "\<exists>bs. av_in a' = av_in a @ bs \<and> rx_index (av_rx a') < 8 \<and>
    (err = 0 \<and> rx_run (av_rx a) bs = (av_rx a', [msg']) \<and> rx_index (av_rx a') = 0
     \<or> rx_run (av_rx a) bs = (av_rx a', []) \<and> msg' = msg \<and> err = - av_errno a'
       \<and> (\<exists>n. av_calls a' = Suc n \<and> av_data E n = []))"
  using receive_raw [OF assms(1)] assms(2) unfolding receive_spec_def by auto

subsection \<open>update\<close>

definition no_eof :: "av_env \<Rightarrow> bool" where
  "no_eof E \<longleftrightarrow> (\<forall>n. av_data E n = [] \<longrightarrow> fst (av_ret E n) < 0 \<and> 0 < snd (av_ret E n))"

definition apply_all :: "av_msg list \<Rightarrow> av_state \<Rightarrow> av_state" where
  "apply_all ms st = fold (\<lambda>m st. snd (av_apply m st)) ms st"

definition av_known :: "av_msg \<Rightarrow> bool" where
  "av_known m \<longleftrightarrow> (let (c, p, q) = m in
     (c \<in> {ARCAM_AV_POWER, ARCAM_AV_VOLUME_CHANGE, ARCAM_AV_VOLUME_SET, ARCAM_AV_MUTE, ARCAM_AV_SOURCE}
        \<and> (p = ARCAM_AV_ZONE1 \<or> p = ARCAM_AV_ZONE2))
     \<or> (c \<in> {ARCAM_AV_DIRECT, ARCAM_AV_SOURCE_TYPE, ARCAM_AV_STEREO_DECODE, ARCAM_AV_STEREO_EFFECT,
             ARCAM_AV_MULTI_DECODE} \<and> p = ARCAM_AV_ZONE1))"

lemma av_apply_known: "fst (av_apply m st) = av_known m"
  by (cases m) (auto simp: av_apply_def av_known_def Let_def)

definition update_spec :: "av_env \<Rightarrow> int \<Rightarrow> av_state \<Rightarrow> av \<Rightarrow> int \<times> av_state \<times> av \<Rightarrow> bool" where
  "update_spec E result st a = (\<lambda>(res, st', a'). rx_index (av_rx a') < 8 \<and>
     (\<exists>bs ms. av_in a' = av_in a @ bs \<and> rx_run (av_rx a) bs = (av_rx a', ms)
        \<and> st' = apply_all ms st \<and> res = (if \<exists>m \<in> set ms. av_known m then 0 else result)))"

lemma update_raw:
  assumes "av_update_loop E result msg st a = Some r"
  shows "no_eof E \<and> rx_index (av_rx a) < 8 \<longrightarrow> update_spec E result st a r"
  using assms
proof (rule av_update_loop.raw_induct [where P = "\<lambda>E result msg st a r. no_eof E \<and> rx_index (av_rx a) < 8 \<longrightarrow>
    update_spec E result st a r", rotated])
  fix f and E :: av_env and result msg st a r
  assume IH: "\<And>E result msg st a r. f E result msg st a = Some r \<Longrightarrow>
      no_eof E \<and> rx_index (av_rx a) < 8 \<longrightarrow> update_spec E result st a r"
    and eq: "(do {
     (err, msg, a) \<leftarrow> arcam_av_receive E msg a;
     if err \<noteq> 0 then Some (result, st, a)
     else let (known, st) = av_apply msg st in f E (if known then 0 else result) msg st a }) = Some r"
  show "no_eof E \<and> rx_index (av_rx a) < 8 \<longrightarrow> update_spec E result st a r"
  proof (intro impI, elim conjE)
    assume ne: "no_eof E" and i: "rx_index (av_rx a) < 8"
    obtain err m1 a1 where rc: "arcam_av_receive E msg a = Some (err, m1, a1)"
      and rest0: "(if err \<noteq> 0 then Some (result, st, a1)
        else let (known, st) = av_apply m1 st in f E (if known then 0 else result) m1 st a1) = Some r"
      using eq by (auto simp: Option.bind_eq_Some_conv)
    have rest: "(if err \<noteq> 0 then Some (result, st, a1)
        else f E (if av_known m1 then 0 else result) m1 (snd (av_apply m1 st)) a1) = Some r"
      using rest0 by (simp add: case_prod_beta Let_def av_apply_known split: if_splits)
    have sp: "receive_spec E msg a (err, m1, a1)" using receive_raw [OF rc] i by simp
    then obtain bs where bs: "av_in a1 = av_in a @ bs" "rx_index (av_rx a1) < 8"
      "rx_run (av_rx a) bs = (av_rx a1, [m1]) \<and> err = 0 \<or> rx_run (av_rx a) bs = (av_rx a1, []) \<and> err \<noteq> 0"
      using ne by (auto simp: receive_spec_def no_eof_def)
    show "update_spec E result st a r"
    proof (cases "err = 0")
      case True
      then have "update_spec E (if av_known m1 then 0 else result) (snd (av_apply m1 st)) a1 r"
        using IH rest ne bs(2) by simp
      then show ?thesis using bs True
        by (fastforce simp: update_spec_def apply_all_def rx_run_append Let_def)
    next
      case False
      then have "r = (result, st, a1)" using rest by simp
      then show ?thesis using bs False
        by (auto simp: update_spec_def apply_all_def intro!: exI [of _ bs])
    qed
  qed
qed


lemma receive_eof:
  assumes "av_errno a = 0" "rx_index (av_rx a) < 8" "av_data E (av_calls a) = []" "0 \<le> fst (av_ret E (av_calls a))"
  shows "arcam_av_receive E msg a = Some (0, msg, a\<lparr>av_calls := Suc (av_calls a)\<rparr>)"
  using assms by (subst arcam_av_receive.simps) (simp add: av_read_def case_prod_beta Let_def)

text \<open>
  end of file is taken for a reply. When the port reports end of file from some call on
  and errno is 0, \<open>receive\<close> returns 0 without a reply, and \<open>update\<close> does not return.
\<close>

theorem arcam_av_update_eof:
  assumes "av_errno a = 0" "rx_index (av_rx a) < 8"
    and "\<And>n. av_calls a \<le> n \<Longrightarrow> av_data E n = [] \<and> 0 \<le> fst (av_ret E n)"
  shows "arcam_av_receive E msg a = Some (0, msg, a\<lparr>av_calls := Suc (av_calls a)\<rparr>)
    \<and> arcam_av_update E st a = None"
proof -
  have run: "\<not> (\<forall>n \<ge> av_calls a. av_data E n = [] \<and> 0 \<le> fst (av_ret E n)) \<or> av_errno a \<noteq> 0 \<or> 8 \<le> rx_index (av_rx a)"
    if "av_update_loop E result msg st a = Some r" for result msg st a r
    using that
  proof (rule av_update_loop.raw_induct [where P = "\<lambda>E result msg st a r.
      \<not> (\<forall>n \<ge> av_calls a. av_data E n = [] \<and> 0 \<le> fst (av_ret E n)) \<or> av_errno a \<noteq> 0 \<or> 8 \<le> rx_index (av_rx a)", rotated],
      goal_cases)
    case (1 f E result msg st a r)
    show ?case
    proof (rule ccontr)
      assume "\<not> ?thesis"
      then have c: "\<forall>n \<ge> av_calls a. av_data E n = [] \<and> 0 \<le> fst (av_ret E n)" "av_errno a = 0" "rx_index (av_rx a) < 8"
        by auto
      have rc: "arcam_av_receive E msg a = Some (0, msg, a\<lparr>av_calls := Suc (av_calls a)\<rparr>)"
        using c by (intro receive_eof) auto
      have "\<exists>st' result'. f E result' msg st' (a\<lparr>av_calls := Suc (av_calls a)\<rparr>) = Some r"
        using 1(2) unfolding rc by (cases "av_apply msg st") auto
      then show False using 1(1) c by (fastforce dest: Suc_leD)
    qed
  qed
  have "av_update_loop E (- 1) (0, 0, 0) st a = None"
  proof (cases "av_update_loop E (- 1) (0, 0, 0) st a")
    case (Some r)
    from run [OF this] assms show ?thesis by (auto simp: not_le)
  qed simp
  then show ?thesis using receive_eof assms by (auto simp: arcam_av_update_def)
qed

subsection \<open>send\<close>

definition writes_ok :: "av_env \<Rightarrow> bool" where
  "writes_ok E \<longleftrightarrow> (\<forall>n. fst (av_ret E n) \<le> 0 \<longrightarrow> fst (av_ret E n) < 0 \<and> 0 < snd (av_ret E n))"

lemma write_all_prefix:
  assumes "writes_ok E"
  shows "rest \<noteq> [] \<Longrightarrow> av_write_all E rest a = (r, a') \<Longrightarrow>
    (\<exists>n \<le> length rest. av_out a' = av_out a @ take n rest
      \<and> (if r = 0 then n = length rest else r < 0 \<and> n < length rest))"
proof (induction "length rest" arbitrary: rest a rule: less_induct)
  case less
  obtain w a1 where c: "av_call E a = (w, a1)" by fastforce
  have a1: "av_out a1 = av_out a" "w \<le> 0 \<Longrightarrow> 0 < av_errno a1"
    using c assms by (auto simp: av_call_def case_prod_beta Let_def writes_ok_def)
  let ?n = "min (nat w) (length rest)"
  show ?case
  proof (cases "?n = 0")
    case True
    then have "r = - av_errno a1" "a' = a1"
      using less.prems c by (auto simp: av_write_all.simps [of E rest a])
    moreover have "w \<le> 0" using True less.prems(1) by (auto simp: min_def split: if_splits)
    ultimately show ?thesis using a1 less.prems(1) by (intro exI [of _ 0]) auto
  next
    case False
    obtain k where k: "k = ?n" "0 < k" "k \<le> length rest" using False by simp
    let ?a = "a1\<lparr>av_out := av_out a1 @ take k rest\<rparr>"
    have step: "(if length rest - k > 0 then av_write_all E (drop k rest) ?a else (0, ?a)) = (r, a')"
      using less.prems(2) False unfolding av_write_all.simps [of E rest a] c k(1) Let_def prod.case
      by (simp only: if_False)
    show ?thesis
    proof (cases "length rest - k > 0")
      case True
      then have rec: "av_write_all E (drop k rest) ?a = (r, a')" using step by simp
      have "length (drop k rest) < length rest" "drop k rest \<noteq> []" using k(2) True by auto
      from less.hyps [OF this rec] obtain m where m: "m \<le> length (drop k rest)"
        "av_out a' = av_out ?a @ take m (drop k rest)"
        "if r = 0 then m = length (drop k rest) else r < 0 \<and> m < length (drop k rest)" by blast
      have "take k rest @ take m (drop k rest) = take (k + m) rest" by (rule take_add [symmetric])
      then show ?thesis using m a1 True
        by (intro exI [of _ "k + m"]) (auto split: if_splits)
    next
      case all: False
      then have "r = 0" "a' = ?a" using step by simp_all
      then show ?thesis using a1 all k(3) by (intro exI [of _ k]) auto
    qed
  qed
qed

text \<open>
  \<open>arcam_av_send\<close> terminates on every sequence of partial writes. On result 0 the seven
  bytes of the request are on the line, once and in order; on an error a proper prefix of
  them is.
\<close>

theorem arcam_av_send_writes:
  assumes "writes_ok E" "arcam_av_send E c p q a = (r, a')"
  shows "\<exists>n \<le> 7. av_out a' = av_out a @ take n (av_request c p q)
    \<and> (if r = 0 then n = 7 else r < 0 \<and> n < 7)"
proof -
  obtain w a1 where c: "av_call E a = (w, a1)" by fastforce
  then have a1: "av_out a1 = av_out a" by (auto simp: av_call_def case_prod_beta Let_def)
  have "av_write_all E (av_request c p q) a1 = (r, a')" using assms(2) c by (simp add: arcam_av_send_def)
  moreover have l: "length (av_request c p q) = 7" "av_request c p q \<noteq> []" by (simp_all add: av_request_def)
  ultimately obtain n where "n \<le> 7" "av_out a' = av_out a1 @ take n (av_request c p q)"
    "if r = 0 then n = 7 else r < 0 \<and> n < 7"
    using write_all_prefix [OF assms(1) l(2), of a1 r a'] unfolding l(1) by blast
  then show ?thesis using a1 by (intro exI [of _ n]) simp
qed

subsection \<open>Queries and replies\<close>

definition av_answers :: "(u8 \<Rightarrow> u8 \<Rightarrow> u8) \<Rightarrow> av_msg list" where
  "av_answers v = map (\<lambda>(c, p, q). (c, p, v c p)) av_queries"

definition av_reported :: "(u8 \<Rightarrow> u8 \<Rightarrow> u8) \<Rightarrow> av_state" where
  "av_reported v =
     \<lparr>zone1 = \<lparr>z1_power = v ARCAM_AV_POWER ARCAM_AV_ZONE1, z1_volume = v ARCAM_AV_VOLUME_CHANGE ARCAM_AV_ZONE1,
        z1_mute = v ARCAM_AV_MUTE ARCAM_AV_ZONE1, z1_direct = v ARCAM_AV_DIRECT ARCAM_AV_ZONE1,
        z1_source = v ARCAM_AV_SOURCE ARCAM_AV_ZONE1, z1_source_type = v ARCAM_AV_SOURCE_TYPE ARCAM_AV_ZONE1,
        z1_stereo_decode = v ARCAM_AV_STEREO_DECODE ARCAM_AV_ZONE1,
        z1_stereo_effect = v ARCAM_AV_STEREO_EFFECT ARCAM_AV_ZONE1,
        z1_multi_decode = v ARCAM_AV_MULTI_DECODE ARCAM_AV_ZONE1\<rparr>,
      zone2 = \<lparr>z2_power = v ARCAM_AV_POWER ARCAM_AV_ZONE2, z2_volume = v ARCAM_AV_VOLUME_CHANGE ARCAM_AV_ZONE2,
        z2_mute = v ARCAM_AV_MUTE ARCAM_AV_ZONE2, z2_source = v ARCAM_AV_SOURCE ARCAM_AV_ZONE2\<rparr>\<rparr>"

text \<open>
  the thirteen queries ask for the whole state. If the amplifier answers each of them, in the
  order asked and cut into reads anyhow, the receiver yields the answers and the shared
  state afterwards is the reported one, whatever it was before; every answer is one that
  \<open>update\<close> counts as a success.
\<close>

theorem arcam_queries_determine_state:
  assumes "rx_index s = 0" "concat chunks = concat (map av_reply (av_answers v))"
  shows "snd (run_chunks rx_run s chunks) = av_answers v \<and> apply_all (av_answers v) st = av_reported v
    \<and> list_all av_known (av_answers v)"
proof -
  have "run_chunks rx_run s chunks = rx_run s (concat (map av_reply (av_answers v)))"
    using rx.run_chunks_concat [of s chunks] assms by (simp add: prod_eq_iff)
  then have "snd (run_chunks rx_run s chunks) = av_answers v"
    using rx_run_replies [OF assms(1), of "av_answers v"] by auto
  moreover have "apply_all (av_answers v) st = av_reported v"
    by (cases st; cases "zone1 st"; cases "zone2 st")
      (simp add: apply_all_def av_answers_def av_queries_def av_apply_def av_reported_def Let_def)
  moreover have "list_all av_known (av_answers v)"
    by (simp add: av_answers_def av_queries_def av_known_def)
  ultimately show ?thesis by blast
qed

subsection \<open>Witnesses\<close>

definition demo_av :: av where
  "demo_av = \<lparr>av_calls = 0, av_errno = 0, av_rx = \<lparr>rx_index = 0, rx_command = 0, rx_param1 = 0, rx_param2 = 0\<rparr>,
     av_out = [], av_in = []\<rparr>"

definition demo_av_state :: av_state where
  "demo_av_state = \<lparr>zone1 = \<lparr>z1_power = 0, z1_volume = 0, z1_mute = 0, z1_direct = 0, z1_source = 0,
     z1_source_type = 0, z1_stereo_decode = 0, z1_stereo_effect = 0, z1_multi_decode = 0\<rparr>,
     zone2 = \<lparr>z2_power = 0, z2_volume = 0, z2_mute = 0, z2_source = 0\<rparr>\<rparr>"

text \<open>A reply in two reads, then nothing more; writes go out five bytes at a time.\<close>

definition demo_av_env :: av_env where
  "demo_av_env = \<lparr>av_ret = (\<lambda>n. if n < 2 then (5, 0) else (- 1, EAGAIN)),
     av_data = (\<lambda>n. if n = 0 then [byte_A, byte_V, byte_under, ARCAM_AV_POWER]
                else if n = 1 then [ARCAM_AV_OK, ARCAM_AV_ZONE1, 0x31, byte_CR] else []),
     av_ready = (\<lambda>_. {}), av_thread = (\<lambda>_. 0), av_accept = (\<lambda>_ _. - 1)\<rparr>"

lemma demo_read: "av_read demo_av_env 8 demo_av = ([byte_A, byte_V, byte_under, ARCAM_AV_POWER],
    demo_av\<lparr>av_calls := 1, av_in := [byte_A, byte_V, byte_under, ARCAM_AV_POWER]\<rparr>)"
  "av_calls a = 1 \<Longrightarrow> av_read demo_av_env 4 a = ([ARCAM_AV_OK, ARCAM_AV_ZONE1, 0x31, byte_CR],
    a\<lparr>av_calls := 2, av_in := av_in a @ [ARCAM_AV_OK, ARCAM_AV_ZONE1, 0x31, byte_CR]\<rparr>)"
  by (simp_all add: av_read_def demo_av_def demo_av_env_def Let_def)

lemma demo_fold: "foldl rx_byte (av_rx demo_av) [byte_A, byte_V, byte_under, ARCAM_AV_POWER]
     = \<lparr>rx_index = 4, rx_command = ARCAM_AV_POWER, rx_param1 = 0, rx_param2 = 0\<rparr>"
  "foldl rx_byte \<lparr>rx_index = 4, rx_command = ARCAM_AV_POWER, rx_param1 = 0, rx_param2 = 0\<rparr>
     [ARCAM_AV_OK, ARCAM_AV_ZONE1, 0x31, byte_CR]
     = \<lparr>rx_index = 8, rx_command = ARCAM_AV_POWER, rx_param1 = ARCAM_AV_ZONE1, rx_param2 = 0x31\<rparr>"
  by (simp_all add: demo_av_def rx_byte_def rx_restart_def)

lemma demo_receive1: "\<exists>a'. arcam_av_receive demo_av_env (0, 0, 0) demo_av
    = Some (0, (ARCAM_AV_POWER, ARCAM_AV_ZONE1, 0x31), a') \<and> av_calls a' = 2 \<and> rx_index (av_rx a') = 0"
proof -
  let ?a = "demo_av\<lparr>av_calls := 1, av_in := [byte_A, byte_V, byte_under, ARCAM_AV_POWER],
    av_rx := \<lparr>rx_index = 4, rx_command = ARCAM_AV_POWER, rx_param1 = 0, rx_param2 = 0\<rparr>\<rparr>"
  have i: "8 - rx_index (av_rx demo_av) = 8" "8 - rx_index (av_rx ?a) = 4" "av_calls ?a = 1"
    by (simp_all add: demo_av_def)
  have "arcam_av_receive demo_av_env (0, 0, 0) demo_av = arcam_av_receive demo_av_env (0, 0, 0) ?a"
    by (subst arcam_av_receive.simps, subst i(1), subst demo_read(1))
      (simp add: demo_fold(1) [unfolded foldl.simps])
  moreover have "\<exists>a'. arcam_av_receive demo_av_env (0, 0, 0) ?a
    = Some (0, (ARCAM_AV_POWER, ARCAM_AV_ZONE1, 0x31), a') \<and> av_calls a' = 2 \<and> rx_index (av_rx a') = 0"
    by (subst arcam_av_receive.simps, subst i(2), subst demo_read(2) [OF i(3)])
      (simp add: demo_fold(2) [unfolded foldl.simps])
  ultimately show ?thesis by simp
qed

lemma demo_receive2: "av_calls a = 2 \<Longrightarrow> rx_index (av_rx a) = 0 \<Longrightarrow>
    \<exists>a'. arcam_av_receive demo_av_env msg a = Some (- EAGAIN, msg, a')"
  by (subst arcam_av_receive.simps) (simp add: av_read_def demo_av_env_def Let_def)

theorem arcam_av_receive_one_reply_witness:
  "\<exists>a' bs. arcam_av_receive demo_av_env (0, 0, 0) demo_av = Some (0, (ARCAM_AV_POWER, ARCAM_AV_ZONE1, 0x31), a')
     \<and> av_in a' = bs \<and> rx_index (av_rx a') < 8"
proof -
  obtain a' where r: "arcam_av_receive demo_av_env (0, 0, 0) demo_av
      = Some (0, (ARCAM_AV_POWER, ARCAM_AV_ZONE1, 0x31), a')" using demo_receive1 by blast
  have "rx_index (av_rx demo_av) < 8" by (simp add: demo_av_def)
  from arcam_av_receive_one_reply [OF r this] r show ?thesis by blast
qed

lemma demo_update: "\<exists>st' a'. arcam_av_update demo_av_env demo_av_state demo_av = Some (0, st', a')"
proof -
  obtain a1 where 1: "arcam_av_receive demo_av_env (0, 0, 0) demo_av
      = Some (0, (ARCAM_AV_POWER, ARCAM_AV_ZONE1, 0x31), a1)" "av_calls a1 = 2" "rx_index (av_rx a1) = 0"
    using demo_receive1 by blast
  obtain a2 where 2: "arcam_av_receive demo_av_env (ARCAM_AV_POWER, ARCAM_AV_ZONE1, 0x31) a1
      = Some (- EAGAIN, (ARCAM_AV_POWER, ARCAM_AV_ZONE1, 0x31), a2)" using demo_receive2 1 by blast
  let ?m = "(ARCAM_AV_POWER, ARCAM_AV_ZONE1, 0x31)"
  have l2: "av_update_loop demo_av_env 0 ?m st a1 = Some (0, st, a2)" for st
    by (subst av_update_loop.simps) (simp add: 2)
  have "av_update_loop demo_av_env (- 1) (0, 0, 0) demo_av_state demo_av = Some (0, snd (av_apply ?m demo_av_state), a2)"
    by (subst av_update_loop.simps) (simp add: 1(1) case_prod_beta Let_def av_apply_known av_known_def l2)
  then show ?thesis by (simp add: arcam_av_update_def)
qed


theorem arcam_av_update_eof_witness:
  "arcam_av_update (demo_av_env\<lparr>av_ret := \<lambda>_. (0, 0), av_data := \<lambda>_. []\<rparr>) demo_av_state demo_av = None"
  using arcam_av_update_eof [of demo_av "demo_av_env\<lparr>av_ret := \<lambda>_. (0, 0), av_data := \<lambda>_. []\<rparr>"]
  by (simp add: demo_av_def)

theorem arcam_av_send_writes_witness:
  "\<exists>r a' n. arcam_av_send demo_av_env ARCAM_AV_POWER ARCAM_AV_ZONE1 ARCAM_AV_REQUEST demo_av = (r, a')
     \<and> av_out a' = take n (av_request ARCAM_AV_POWER ARCAM_AV_ZONE1 ARCAM_AV_REQUEST)"
proof -
  obtain r a' where s: "arcam_av_send demo_av_env ARCAM_AV_POWER ARCAM_AV_ZONE1 ARCAM_AV_REQUEST demo_av = (r, a')"
    by fastforce
  have "writes_ok demo_av_env" by (simp add: writes_ok_def demo_av_env_def)
  from arcam_av_send_writes [OF this s] s show ?thesis by (auto simp: demo_av_def)
qed


theorem arcam_queries_determine_state_witness:
  "apply_all (av_answers (\<lambda>c p. c + p)) demo_av_state = av_reported (\<lambda>c p. c + p)"
  using arcam_queries_determine_state [of "av_rx demo_av" "[concat (map av_reply (av_answers (\<lambda>c p. c + p)))]" "\<lambda>c p. c + p"]
  by (simp add: demo_av_def)

end
