(* ===== verification/ArcamServer.thy ===== *)
theory ArcamServer
  imports ArcamProto
begin

section \<open>The Arcam server: sharing the amplifier between processes\<close>

text \<open>
  The first process to bind the port's abstract socket becomes the master: it owns the serial
  port, keeps the shared state up to date and tells its clients. The others connect to it as
  slaves and take over when it goes away. The master is an event loop over descriptor sets;
  \<open>av_server\<close> holds its local variables and, as ghost state, the descriptors it has to
  close and whether it closed one it did not have. \<open>select\<close> leaves a subset of the set it is
  given, \<open>av_ready\<close> says which; \<open>av_accept n S\<close> is the descriptor \<open>accept\<close> gives when \<open>S\<close>
  are open; \<open>av_thread n\<close> is the thread id in the message of a \<open>recv\<close>. \<open>None\<close> is undefined
  behaviour (a descriptor outside an \<open>fd_set\<close>) or not returning.
\<close>

datatype av_packet = Packet_ping | Packet_thread nat

record av_server =
  sv_av :: av
  sv_state :: av_state
  sv_all :: "int set"
  sv_clients :: "int set"
  sv_fd_max :: int
  sv_open :: "int set"
  sv_bad_close :: bool
  sv_sent :: "(int \<times> av_packet) list"

datatype 'a av_flow = Go 'a | Quit int 'a

abbreviation (input) FD_SETSIZE :: int where "FD_SETSIZE \<equiv> 1024"
abbreviation (input) EADDRINUSE :: int where "EADDRINUSE \<equiv> 98"
abbreviation (input) ECONNREFUSED :: int where "ECONNREFUSED \<equiv> 111"
abbreviation (input) sizeof_pthread_t :: int where "sizeof_pthread_t \<equiv> 8"

subsection \<open>The shared memory segment\<close>

definition arcam_av_state_attach :: "av_env \<Rightarrow> av \<Rightarrow> bool \<times> av" where
  "arcam_av_state_attach E a =
     (let (st, a) = av_call E a in
      if st \<noteq> 0 then (False, a)
      else let (key, a) = av_call E a in
      if key < 0 then (False, a)
      else let (shmid, a) = av_call E a in
      if shmid < 0 then (False, a)
      else let (ctl, a) = av_call E a in
      if ctl \<noteq> 0 then (False, a)
      else let (_, a) = av_call E a; (p, a) = av_call E a in (p \<noteq> - 1, a))"

definition arcam_av_state_detach :: "av_env \<Rightarrow> av \<Rightarrow> int \<times> av" where
  "arcam_av_state_detach E a = av_call E a"

subsection \<open>The master's event loop\<close>

definition sv_call :: "av_env \<Rightarrow> av_server \<Rightarrow> int \<times> av_server" where
  "sv_call E sv = (let (r, a) = av_call E (sv_av sv) in (r, sv\<lparr>sv_av := a\<rparr>))"

definition sv_close :: "av_env \<Rightarrow> int \<Rightarrow> av_server \<Rightarrow> av_server" where
  "sv_close E fd sv =
     (let (_, sv) = sv_call E sv in
      sv\<lparr>sv_open := sv_open sv - {fd}, sv_bad_close := sv_bad_close sv \<or> fd \<notin> sv_open sv\<rparr>)"

definition sv_send :: "av_env \<Rightarrow> av_packet \<Rightarrow> av_server \<Rightarrow> int \<Rightarrow> av_server" where
  "sv_send E p sv fd = (let (_, sv) = sv_call E sv in sv\<lparr>sv_sent := sv_sent sv @ [(fd, p)]\<rparr>)"

definition arcam_av_server_broadcast :: "av_env \<Rightarrow> int set \<Rightarrow> av_packet \<Rightarrow> av_server \<Rightarrow> av_server" where
  "arcam_av_server_broadcast E fds p sv =
     foldl (sv_send E p) sv (filter (\<lambda>fd. fd \<in> fds) [0..sv_fd_max sv])"

definition sv_handle ::
    "av_env \<Rightarrow> nat \<Rightarrow> int \<Rightarrow> int \<Rightarrow> int set \<Rightarrow> int \<Rightarrow> av_server \<Rightarrow> av_server av_flow option" where
  "sv_handle E self arcam_fd server_fd read_fds fd sv =
     (if fd \<notin> read_fds then Some (Go sv)
      else if fd = arcam_fd then do {
        (res, st, a) \<leftarrow> arcam_av_update E (sv_state sv) (sv_av sv);
        let sv = sv\<lparr>sv_state := st, sv_av := a\<rparr>;
        Some (Go (if res \<noteq> 0 then sv else arcam_av_server_broadcast E (sv_clients sv) Packet_ping sv))
      }
      else if fd = server_fd then
        let client_fd = av_accept E (av_calls (sv_av sv)) (insert server_fd (sv_open sv));
            (_, sv) = sv_call E sv
        in if client_fd \<ge> 0 then
             if client_fd \<ge> FD_SETSIZE then None
             else Some (Go (sv\<lparr>sv_all := insert client_fd (sv_all sv),
                               sv_clients := insert client_fd (sv_clients sv),
                               sv_fd_max := max (sv_fd_max sv) client_fd,
                               sv_open := insert client_fd (sv_open sv)\<rparr>))
           else Some (Quit (- av_errno (sv_av sv)) sv)
      else
        let thread = av_thread E (av_calls (sv_av sv)); (bytes, sv) = sv_call E sv in
        if bytes > 0 then
          if bytes = sizeof_pthread_t then
            if thread = self then Some (Quit 0 sv)
            else Some (Go (arcam_av_server_broadcast E (sv_clients sv) (Packet_thread thread) sv))
          else Some (Go sv)
        else
          let sv = sv_close E fd sv in
          Some (Go (sv\<lparr>sv_all := sv_all sv - {fd}, sv_clients := sv_clients sv - {fd},
                       sv_fd_max := sv_fd_max sv - (if sv_fd_max sv = fd then 1 else 0)\<rparr>)))"

fun sv_scan ::
    "av_env \<Rightarrow> nat \<Rightarrow> int \<Rightarrow> int \<Rightarrow> int set \<Rightarrow> nat \<Rightarrow> av_server \<Rightarrow> av_server av_flow option" where
  "sv_scan E self arcam_fd server_fd read_fds 0 sv = Some (Go sv)"
| "sv_scan E self arcam_fd server_fd read_fds (Suc n) sv = do {
     flow \<leftarrow> sv_handle E self arcam_fd server_fd read_fds (int (Suc n)) sv;
     case flow of
       Go sv \<Rightarrow> sv_scan E self arcam_fd server_fd read_fds n sv
     | Quit r sv \<Rightarrow> Some (Quit r sv)
   }"

partial_function (option) sv_loop ::
    "av_env \<Rightarrow> nat \<Rightarrow> int \<Rightarrow> int \<Rightarrow> av_server \<Rightarrow> (int \<times> av_server) option" where
  "sv_loop E self arcam_fd server_fd sv =
     (let read_fds = av_ready E (av_calls (sv_av sv)) \<inter> sv_all sv; (r, sv) = sv_call E sv in
      if r < 0 then Some (- av_errno (sv_av sv), sv)
      else do {
        flow \<leftarrow> sv_scan E self arcam_fd server_fd read_fds (nat (sv_fd_max sv)) sv;
        case flow of
          Go sv \<Rightarrow> sv_loop E self arcam_fd server_fd sv
        | Quit r sv \<Rightarrow> Some (r, sv)
      })"

text \<open>The code behind the label \<open>exit\<close>.\<close>

definition sv_exit :: "av_env \<Rightarrow> int \<Rightarrow> av_server \<Rightarrow> av_server" where
  "sv_exit E server_fd sv =
     (let sv = foldl (\<lambda>sv fd. sv_close E fd sv) sv
                 (filter (\<lambda>fd. fd \<noteq> server_fd \<and> fd \<in> sv_all sv) [0..sv_fd_max sv]);
          (_, a) = arcam_av_state_detach E (sv_av sv)
      in sv\<lparr>sv_av := a\<rparr>)"

definition sv_init :: "int \<Rightarrow> int \<Rightarrow> av_state \<Rightarrow> av \<Rightarrow> av_server" where
  "sv_init arcam_fd server_fd st a =
     \<lparr>sv_av = a, sv_state = st, sv_all = {arcam_fd, server_fd}, sv_clients = {},
      sv_fd_max = max arcam_fd server_fd, sv_open = {arcam_fd}, sv_bad_close = False, sv_sent = []\<rparr>"

definition arcam_av_server_master ::
    "av_env \<Rightarrow> nat \<Rightarrow> int \<Rightarrow> av_state \<Rightarrow> av \<Rightarrow> (int \<times> av \<times> av_server option) option" where
  "arcam_av_server_master E self server_fd st a =
     (let (r, a) = av_call E a in
      if r \<noteq> 0 then Some (- av_errno a, a, None)
      else
        let (arcam_fd, a) = arcam_av_connect E a; (ok, a) = arcam_av_state_attach E a in
        if \<not> ok then let (_, a) = av_call E a in Some (- av_errno a, a, None)
        else
          let a = arcam_av_state_query E a; (_, a) = av_call E a in
          if arcam_fd < 0 \<or> arcam_fd \<ge> FD_SETSIZE \<or> server_fd < 0 \<or> server_fd \<ge> FD_SETSIZE then None
          else do {
            (res, sv) \<leftarrow> sv_loop E self arcam_fd server_fd (sv_init arcam_fd server_fd st a);
            let sv = sv_exit E server_fd sv;
            Some (res, sv_av sv, Some sv)
          })"

subsection \<open>Slaves, the server thread, clients\<close>

partial_function (option) arcam_av_server_slave :: "av_env \<Rightarrow> nat \<Rightarrow> av \<Rightarrow> (int \<times> av) option" where
  "arcam_av_server_slave E self a =
     (let thread = av_thread E (av_calls a); (bytes, a) = av_call E a in
      if bytes > 0 then
        if bytes = sizeof_pthread_t \<and> thread = self then Some (0, a)
        else arcam_av_server_slave E self a
      else Some (- 1, a))"

text \<open>
  One round of the thread's \<open>while (!quit)\<close>: the new value of \<open>quit\<close>, and the state, which
  includes whether the semaphore is still to be posted and how often it was.
\<close>

record av_starter =
  st_av :: av
  st_semaphore :: bool
  st_posts :: nat

definition st_post :: "av_starter \<Rightarrow> av_starter" where
  "st_post s = (if st_semaphore s then s\<lparr>st_semaphore := False, st_posts := Suc (st_posts s)\<rparr> else s)"

definition st_call :: "av_env \<Rightarrow> av_starter \<Rightarrow> int \<times> av_starter" where
  "st_call E s = (let (r, a) = av_call E (st_av s) in (r, s\<lparr>st_av := a\<rparr>))"

definition st_round :: "av_env \<Rightarrow> nat \<Rightarrow> av_state \<Rightarrow> av_starter \<Rightarrow> (bool \<times> av_starter) option" where
  "st_round E self st s =
     (let (server_fd, s) = st_call E s in
      if server_fd < 0 then Some (True, s)
      else
        let (b, s) = st_call E s in
        do {
          (quit, s) \<leftarrow>
            (if b = 0 then
               let (l, s) = st_call E s in
               if l = 0 then do {
                 let s = st_post s;
                 (_, a, _) \<leftarrow> arcam_av_server_master E self server_fd st (st_av s);
                 Some (True, s\<lparr>st_av := a\<rparr>)
               }
               else Some (True, s)
             else if av_errno (st_av s) \<noteq> EADDRINUSE then Some (True, s)
             else
               let (c, s) = st_call E s in
               if c = 0 then do {
                 let s = st_post s;
                 (r, a) \<leftarrow> arcam_av_server_slave E self (st_av s);
                 Some (r = 0, s\<lparr>st_av := a\<rparr>)
               }
               else Some (True, s));
          Some (quit, snd (st_call E s))
        })"

partial_function (option) st_loop :: "av_env \<Rightarrow> nat \<Rightarrow> av_state \<Rightarrow> av_starter \<Rightarrow> av_starter option" where
  "st_loop E self st s = do {
     (quit, s) \<leftarrow> st_round E self st s;
     if quit then Some s else st_loop E self st s
   }"

definition arcam_av_server_thread :: "av_env \<Rightarrow> nat \<Rightarrow> av_state \<Rightarrow> av \<Rightarrow> av_starter option" where
  "arcam_av_server_thread E self st a =
     map_option st_post (st_loop E self st \<lparr>st_av = a, st_semaphore = True, st_posts = 0\<rparr>)"

text \<open>\<open>connect\<close> is tried once and then after each of at most five growing pauses.\<close>

fun av_client_retry :: "av_env \<Rightarrow> int \<Rightarrow> nat \<Rightarrow> int list \<Rightarrow> av \<Rightarrow> int \<times> int list \<times> av" where
  "av_client_retry E fd retries pauses a =
     (let (c, a) = av_call E a in
      if c = 0 then (fd, pauses, a)
      else case retries of
        0 \<Rightarrow> (- 1, pauses, snd (av_call E a))
      | Suc retries \<Rightarrow>
          let pause = 10 * (5 - int retries); (_, a) = av_call E a in
          if av_errno a = ECONNREFUSED then av_client_retry E fd retries (pauses @ [pause]) a
          else (- 1, pauses @ [pause], snd (av_call E a)))"

definition arcam_av_client :: "av_env \<Rightarrow> av \<Rightarrow> int \<times> int list \<times> av" where
  "arcam_av_client E a =
     (let (fd, a) = av_call E a in
      if fd < 0 then (- 1, [], a) else av_client_retry E fd 5 [] a)"

definition arcam_av_server_start :: "av_env \<Rightarrow> av \<Rightarrow> int \<times> av" where
  "arcam_av_server_start E a =
     (let (i, a) = av_call E a in
      if i \<noteq> 0 then (- 1, a)
      else
        let (c, a) = av_call E a in
        if c \<noteq> 0 then (- 1, snd (av_call E a))
        else (0, snd (av_call E (snd (av_call E a)))))"

definition arcam_av_server_stop :: "av_env \<Rightarrow> av \<Rightarrow> int \<times> av" where
  "arcam_av_server_stop E a =
     (let (fd, _, a) = arcam_av_client E a in
      if fd < 0 then (- 1, a)
      else
        let (s, a) = av_call E a;
            a = (if s > 0 then snd (av_call E a) else a)
        in (0, snd (av_call E a)))"

end
