(* ===== verification/ArcamServerProofs.thy ===== *)
theory ArcamServerProofs
  imports ArcamServer
begin

section \<open>The Arcam server: descriptors, notifications, start-up\<close>

text \<open>
  The invariant of the master's descriptor sets, kept by every handled descriptor, and what
  follows: every descriptor is closed once, every client hears of every change. The thread
  that starts the server posts the caller's semaphore exactly once on every path.
\<close>

subsection \<open>The invariant\<close>

definition sv_inv :: "int \<Rightarrow> int \<Rightarrow> av_server \<Rightarrow> bool" where
  "sv_inv arcam_fd server_fd sv \<longleftrightarrow>
     sv_all sv \<subseteq> {0..sv_fd_max sv} \<and> arcam_fd \<in> sv_all sv \<and> server_fd \<in> sv_all sv
     \<and> arcam_fd \<noteq> server_fd \<and> sv_clients sv = sv_all sv - {arcam_fd, server_fd}
     \<and> sv_open sv = sv_all sv - {server_fd} \<and> \<not> sv_bad_close sv"

definition accept_ok :: "av_env \<Rightarrow> bool" where
  "accept_ok E \<longleftrightarrow> (\<forall>n S. 0 \<le> av_accept E n S \<longrightarrow> av_accept E n S \<notin> S)"

named_theorems sv_simps \<open>what system calls leave alone\<close>

lemma sv_call_view [sv_simps]:
  "sv_all (snd (sv_call E sv)) = sv_all sv" "sv_clients (snd (sv_call E sv)) = sv_clients sv"
  "sv_fd_max (snd (sv_call E sv)) = sv_fd_max sv" "sv_open (snd (sv_call E sv)) = sv_open sv"
  "sv_bad_close (snd (sv_call E sv)) = sv_bad_close sv" "sv_sent (snd (sv_call E sv)) = sv_sent sv"
  "sv_state (snd (sv_call E sv)) = sv_state sv"
  by (simp_all add: sv_call_def case_prod_beta Let_def)

lemma sv_close_view [sv_simps]:
  "sv_all (sv_close E fd sv) = sv_all sv" "sv_clients (sv_close E fd sv) = sv_clients sv"
  "sv_fd_max (sv_close E fd sv) = sv_fd_max sv" "sv_open (sv_close E fd sv) = sv_open sv - {fd}"
  "sv_bad_close (sv_close E fd sv) = (sv_bad_close sv \<or> fd \<notin> sv_open sv)"
  by (simp_all add: sv_close_def case_prod_beta Let_def sv_simps)

lemma sends_view:
  "sv_all (foldl (sv_send E p) sv l) = sv_all sv \<and> sv_clients (foldl (sv_send E p) sv l) = sv_clients sv
   \<and> sv_fd_max (foldl (sv_send E p) sv l) = sv_fd_max sv \<and> sv_open (foldl (sv_send E p) sv l) = sv_open sv
   \<and> sv_bad_close (foldl (sv_send E p) sv l) = sv_bad_close sv \<and> sv_state (foldl (sv_send E p) sv l) = sv_state sv
   \<and> sv_sent (foldl (sv_send E p) sv l) = sv_sent sv @ map (\<lambda>fd. (fd, p)) l"
  by (induction l arbitrary: sv) (auto simp: sv_send_def case_prod_beta Let_def sv_simps)

lemma broadcast_inv [simp]:
  "sv_inv arcam_fd server_fd (arcam_av_server_broadcast E fds p sv) = sv_inv arcam_fd server_fd sv"
  by (simp add: sv_inv_def arcam_av_server_broadcast_def sends_view)

lemma broadcast_all [sv_simps]: "sv_all (arcam_av_server_broadcast E fds p sv) = sv_all sv"
  by (simp add: arcam_av_server_broadcast_def sends_view)

lemma sv_inv_cong:
  "sv_all sv' = sv_all sv \<Longrightarrow> sv_clients sv' = sv_clients sv \<Longrightarrow> sv_fd_max sv' = sv_fd_max sv \<Longrightarrow>
   sv_open sv' = sv_open sv \<Longrightarrow> sv_bad_close sv' = sv_bad_close sv \<Longrightarrow>
   sv_inv arcam_fd server_fd sv' = sv_inv arcam_fd server_fd sv"
  by (simp add: sv_inv_def)

fun flow_state :: "'a av_flow \<Rightarrow> 'a" where
  "flow_state (Go s) = s"
| "flow_state (Quit _ s) = s"

lemma handle_inv:
  assumes "accept_ok E" "sv_inv arcam_fd server_fd sv" "fd \<in> read_fds \<Longrightarrow> fd \<in> sv_all sv"
    and "sv_handle E self arcam_fd server_fd read_fds fd sv = Some flow"
  shows "sv_inv arcam_fd server_fd (flow_state flow) \<and> sv_all sv - {fd} \<subseteq> sv_all (flow_state flow)"
proof -
  let ?c = "snd (sv_call E sv)"
  have c: "sv_inv arcam_fd server_fd ?c" using assms(2) by (simp add: sv_inv_def sv_simps)
  consider (idle) "fd \<notin> read_fds" | (arcam) "fd \<in> read_fds" "fd = arcam_fd"
    | (server) "fd \<in> read_fds" "fd \<noteq> arcam_fd" "fd = server_fd"
    | (client) "fd \<in> read_fds" "fd \<noteq> arcam_fd" "fd \<noteq> server_fd" by blast
  then show ?thesis
  proof cases
    case idle
    then show ?thesis using assms(2,4) by (auto simp: sv_handle_def)
  next
    case arcam
    then obtain res st a where "arcam_av_update E (sv_state sv) (sv_av sv) = Some (res, st, a)"
      and flow: "flow = Go (let sv = sv\<lparr>sv_state := st, sv_av := a\<rparr> in
        if res \<noteq> 0 then sv else arcam_av_server_broadcast E (sv_clients sv) Packet_ping sv)"
      using assms(4) by (auto simp: sv_handle_def Option.bind_eq_Some_conv Let_def)
    have "sv_inv arcam_fd server_fd (sv\<lparr>sv_state := st, sv_av := a\<rparr>)"
      using assms(2) by (simp add: sv_inv_def)
    then show ?thesis unfolding flow
      by (auto simp: Let_def arcam_av_server_broadcast_def [of E] sends_view sv_inv_def)
  next
    case server
    let ?new = "av_accept E (av_calls (sv_av sv)) (insert server_fd (sv_open sv))"
    have all: "insert server_fd (sv_open sv) = sv_all sv" using assms(2) by (auto simp: sv_inv_def)
    have new: "?new \<notin> sv_all sv" if "0 \<le> ?new" using assms(1) that by (auto simp: accept_ok_def all)
    show ?thesis
    proof (cases "0 \<le> ?new")
      case True
      then have "flow = Go (?c\<lparr>sv_all := insert ?new (sv_all sv), sv_clients := insert ?new (sv_clients sv),
          sv_fd_max := max (sv_fd_max sv) ?new, sv_open := insert ?new (sv_open sv)\<rparr>)"
        using server assms(4) by (simp add: sv_handle_def case_prod_beta Let_def sv_simps split: if_splits)
      then show ?thesis using c True new [OF True] by (fastforce simp: sv_inv_def sv_simps)
    next
      case False
      then show ?thesis using server assms(4) c
        by (auto simp: sv_handle_def case_prod_beta Let_def sv_simps)
    qed
  next
    case client
    have mem: "fd \<in> sv_all sv" using client assms(3) by blast
    show ?thesis
    proof (cases "fst (sv_call E sv) > 0")
      case True
      then show ?thesis using client assms(4) c
        by (auto simp: sv_handle_def case_prod_beta Let_def sv_simps split: if_splits)
    next
      case False
      then have "flow = Go ((sv_close E fd ?c)\<lparr>sv_all := sv_all sv - {fd}, sv_clients := sv_clients sv - {fd},
          sv_fd_max := sv_fd_max sv - (if sv_fd_max sv = fd then 1 else 0)\<rparr>)"
        using client assms(4) by (simp add: sv_handle_def case_prod_beta Let_def sv_simps)
      then show ?thesis using client mem c by (fastforce simp: sv_inv_def sv_simps)
    qed
  qed
qed

lemma scan_inv:
  assumes "accept_ok E"
  shows "sv_inv arcam_fd server_fd sv \<Longrightarrow> (\<forall>fd \<in> read_fds. 1 \<le> fd \<and> fd \<le> int n \<longrightarrow> fd \<in> sv_all sv) \<Longrightarrow>
    sv_scan E self arcam_fd server_fd read_fds n sv = Some flow \<Longrightarrow> sv_inv arcam_fd server_fd (flow_state flow)"
proof (induction n arbitrary: sv)
  case 0
  then show ?case by auto
next
  case (Suc n)
  then obtain fl where h: "sv_handle E self arcam_fd server_fd read_fds (int (Suc n)) sv = Some fl"
    and r: "(case fl of Go sv \<Rightarrow> sv_scan E self arcam_fd server_fd read_fds n sv | Quit r sv \<Rightarrow> Some (Quit r sv)) = Some flow"
    by (auto simp: Option.bind_eq_Some_conv)
  have m: "int (Suc n) \<in> sv_all sv" if "int (Suc n) \<in> read_fds" using Suc.prems(2) that by fastforce
  have fl: "sv_inv arcam_fd server_fd (flow_state fl)" "sv_all sv - {int (Suc n)} \<subseteq> sv_all (flow_state fl)"
    using handle_inv [OF assms Suc.prems(1) m h] by auto
  show ?case
  proof (cases fl)
    case (Go s)
    have "\<forall>fd \<in> read_fds. 1 \<le> fd \<and> fd \<le> int n \<longrightarrow> fd \<in> sv_all s"
      using Suc.prems(2) fl(2) Go by fastforce
    then show ?thesis using Suc.IH [of s] fl(1) r Go by simp
  next
    case (Quit q s)
    then show ?thesis using fl(1) r by auto
  qed
qed

lemma loop_inv:
  assumes "accept_ok E" "sv_inv arcam_fd server_fd sv" "sv_loop E self arcam_fd server_fd sv = Some r"
  shows "sv_inv arcam_fd server_fd (snd r)"
proof -
  have "accept_ok E \<and> sv_inv arcam_fd server_fd sv \<longrightarrow> sv_inv arcam_fd server_fd (snd r)"
    using assms(3)
  proof (rule sv_loop.raw_induct [where P = "\<lambda>E self arcam_fd server_fd sv r. accept_ok E \<and>
      sv_inv arcam_fd server_fd sv \<longrightarrow> sv_inv arcam_fd server_fd (snd r)", rotated], goal_cases)
    case (1 f E self arcam_fd server_fd sv r)
    let ?read = "av_ready E (av_calls (sv_av sv)) \<inter> sv_all sv" and ?sv = "snd (sv_call E sv)"
    show ?case
    proof (intro impI, elim conjE)
      assume a: "accept_ok E" and i: "sv_inv arcam_fd server_fd sv"
      have i': "sv_inv arcam_fd server_fd ?sv" using i by (simp add: sv_inv_def sv_simps)
      show "sv_inv arcam_fd server_fd (snd r)"
      proof (cases "fst (sv_call E sv) < 0")
        case True
        then show ?thesis using 1(2) i' by (auto simp: case_prod_beta)
      next
        case False
        then obtain flow where s: "sv_scan E self arcam_fd server_fd ?read (nat (sv_fd_max ?sv)) ?sv = Some flow"
          and rest: "(case flow of Go sv \<Rightarrow> f E self arcam_fd server_fd sv | Quit r sv \<Rightarrow> Some (r, sv)) = Some r"
          using 1(2) by (auto simp: case_prod_beta Let_def Option.bind_eq_Some_conv)
        have "sv_inv arcam_fd server_fd (flow_state flow)"
          by (rule scan_inv [OF a i' _ s]) (auto simp: sv_simps)
        then show ?thesis using rest 1(1) a by (cases flow) auto
      qed
    qed
  qed
  then show ?thesis using assms(1,2) by blast
qed

subsection \<open>Descriptors\<close>

lemma closes_view:
  "distinct l \<Longrightarrow> set l \<subseteq> sv_open sv \<Longrightarrow>
    sv_open (foldl (\<lambda>sv fd. sv_close E fd sv) sv l) = sv_open sv - set l
    \<and> sv_bad_close (foldl (\<lambda>sv fd. sv_close E fd sv) sv l) = sv_bad_close sv"
proof (induction l arbitrary: sv)
  case Nil
  then show ?case by simp
next
  case (Cons fd l)
  have "set l \<subseteq> sv_open (sv_close E fd sv)" "distinct l" "fd \<in> sv_open sv"
    using Cons.prems by (auto simp: sv_simps)
  from Cons.IH [OF this(2,1)] this(3) show ?case by (auto simp: sv_simps)
qed

lemma exit_closes:
  assumes "sv_inv arcam_fd server_fd sv"
  shows "sv_open (sv_exit E server_fd sv) = {} \<and> \<not> sv_bad_close (sv_exit E server_fd sv)"
proof -
  let ?l = "filter (\<lambda>fd. fd \<noteq> server_fd \<and> fd \<in> sv_all sv) [0..sv_fd_max sv]"
  have sub: "sv_all sv \<subseteq> {0..sv_fd_max sv}" and op: "sv_open sv = sv_all sv - {server_fd}"
    and bad: "\<not> sv_bad_close sv" using assms unfolding sv_inv_def by blast+
  have "set ?l = {fd \<in> {0..sv_fd_max sv}. fd \<noteq> server_fd \<and> fd \<in> sv_all sv}" by simp
  also have "\<dots> = sv_open sv" unfolding op using sub by blast
  finally have "set ?l = sv_open sv" .
  moreover have "distinct ?l" by simp
  ultimately show ?thesis using closes_view [of ?l sv E] bad
    by (simp add: sv_exit_def case_prod_beta Let_def del: set_filter)
qed

lemma init_inv: "0 \<le> arcam_fd \<Longrightarrow> 0 \<le> server_fd \<Longrightarrow> arcam_fd \<noteq> server_fd \<Longrightarrow>
    sv_inv arcam_fd server_fd (sv_init arcam_fd server_fd st a)"
  by (auto simp: sv_inv_def sv_init_def)

text \<open>
  C19: whatever its clients, the amplifier and \<open>select\<close> do, a master that ran its event loop and
  returned has closed every descriptor it opened or accepted, and never one it did not have.
\<close>

theorem arcam_master_closes_all:
  assumes "accept_ok E" "\<forall>a. fst (arcam_av_connect E a) \<noteq> server_fd"
    and "arcam_av_server_master E self server_fd st a = Some (res, a', Some sv)"
  shows "sv_open sv = {} \<and> \<not> sv_bad_close sv"
proof -
  define arcam_fd where "arcam_fd = fst (arcam_av_connect E (snd (av_call E a)))"
  have fd: "0 \<le> arcam_fd" "0 \<le> server_fd"
    and l: "\<exists>a3 r s. sv_loop E self arcam_fd server_fd (sv_init arcam_fd server_fd st a3) = Some (r, s)
      \<and> sv = sv_exit E server_fd s"
    using assms(3) unfolding arcam_fd_def
    by (auto simp: arcam_av_server_master_def case_prod_beta Let_def Option.bind_eq_Some_conv not_less
        split: if_splits)
  have "arcam_fd \<noteq> server_fd" unfolding arcam_fd_def using assms(2) by blast
  note init = init_inv [OF fd this]
  obtain a3 r s where s: "sv_loop E self arcam_fd server_fd (sv_init arcam_fd server_fd st a3) = Some (r, s)"
    "sv = sv_exit E server_fd s" using l by blast
  from loop_inv [OF assms(1) init s(1)] show ?thesis using exit_closes s(2) by simp
qed

subsection \<open>Notifications\<close>

text \<open>
  when the amplifier's port is readable and \<open>update\<close> changed the state, the master stores
  the new state and notifies every connected client exactly once.
\<close>

theorem arcam_master_notifies:
  assumes "sv_inv arcam_fd server_fd sv" "arcam_fd \<in> read_fds"
    and "arcam_av_update E (sv_state sv) (sv_av sv) = Some (0, st, a)"
  shows "\<exists>sv' l. sv_handle E self arcam_fd server_fd read_fds arcam_fd sv = Some (Go sv')
    \<and> sv_state sv' = st \<and> sv_sent sv' = sv_sent sv @ map (\<lambda>fd. (fd, Packet_ping)) l
    \<and> distinct l \<and> set l = sv_clients sv \<and> sv_inv arcam_fd server_fd sv'"
proof -
  let ?sv = "sv\<lparr>sv_state := st, sv_av := a\<rparr>"
  let ?l = "filter (\<lambda>fd. fd \<in> sv_clients sv) [0..sv_fd_max sv]"
  have h: "sv_handle E self arcam_fd server_fd read_fds arcam_fd sv
      = Some (Go (arcam_av_server_broadcast E (sv_clients sv) Packet_ping ?sv))"
    using assms(2,3) by (simp add: sv_handle_def Let_def)
  have v: "sv_state (arcam_av_server_broadcast E (sv_clients sv) Packet_ping ?sv) = st"
    "sv_sent (arcam_av_server_broadcast E (sv_clients sv) Packet_ping ?sv)
       = sv_sent sv @ map (\<lambda>fd. (fd, Packet_ping)) ?l"
    by (simp_all add: arcam_av_server_broadcast_def sends_view)
  have sub: "sv_clients sv \<subseteq> {0..sv_fd_max sv}" using assms(1) unfolding sv_inv_def by blast
  have "set ?l = {fd \<in> {0..sv_fd_max sv}. fd \<in> sv_clients sv}" by simp
  also have "\<dots> = sv_clients sv" using sub by blast
  finally have s: "set ?l = sv_clients sv" "distinct ?l" by simp_all
  have i: "sv_inv arcam_fd server_fd (arcam_av_server_broadcast E (sv_clients sv) Packet_ping ?sv)"
    using assms(1) by (simp add: sv_inv_def arcam_av_server_broadcast_def sends_view)
  show ?thesis using h v s i by blast
qed

subsection \<open>Start-up\<close>

definition st_inv :: "av_starter \<Rightarrow> bool" where
  "st_inv s \<longleftrightarrow> st_posts s = (if st_semaphore s then 0 else 1)"

lemma st_simps [simp]:
  "st_inv (st_post s) = st_inv s" "st_inv (snd (st_call E s)) = st_inv s"
  "st_inv (s\<lparr>st_av := a\<rparr>) = st_inv s"
  by (simp_all add: st_inv_def st_post_def st_call_def case_prod_beta Let_def)

lemma round_inv: "st_round E self st s = Some (quit, s') \<Longrightarrow> st_inv s \<Longrightarrow> st_inv s'"
  by (auto simp: st_round_def case_prod_beta Let_def Option.bind_eq_Some_conv split: if_splits)

lemma st_loop_inv:
  assumes "st_loop E self st s = Some r"
  shows "st_inv s \<longrightarrow> st_inv r"
  using assms
proof (rule st_loop.raw_induct [where P = "\<lambda>E self st s r. st_inv s \<longrightarrow> st_inv r", rotated], goal_cases)
  case (1 f E self st s r)
  then show ?case
    by (fastforce simp: Option.bind_eq_Some_conv split: if_splits dest: round_inv)
qed

text \<open>
  the server thread posts the semaphore its creator waits on exactly once, whichever of its
  system calls fail, in whatever round it becomes master or slave: the creator is woken, and
  the semaphore, which lives on the creator's stack, is not touched again.
\<close>

theorem arcam_server_thread_posts_once:
  assumes "arcam_av_server_thread E self st a = Some s"
  shows "st_posts s = 1 \<and> \<not> st_semaphore s"
proof -
  obtain s1 where s: "st_loop E self st \<lparr>st_av = a, st_semaphore = True, st_posts = 0\<rparr> = Some s1" "s = st_post s1"
    using assms by (auto simp: arcam_av_server_thread_def)
  have "st_inv s1" using st_loop_inv [OF s(1)] by (simp add: st_inv_def)
  then show ?thesis using s(2) by (auto simp: st_inv_def st_post_def split: if_splits)
qed

subsection \<open>Witnesses\<close>

text \<open>The port opens as descriptor 5, the state attaches, and then every call fails.\<close>

definition demo_master_env :: av_env where
  "demo_master_env = \<lparr>av_ret = (\<lambda>n. if n = 1 then (5, 0) else if n < 10 then (0, 0) else (- 1, EIO)),
     av_data = (\<lambda>_. []), av_ready = (\<lambda>_. {}), av_thread = (\<lambda>_. 0), av_accept = (\<lambda>_ _. - 1)\<rparr>"

lemma demo_master_call:
  "av_calls a = 0 \<Longrightarrow> av_call demo_master_env a = (0, a\<lparr>av_calls := 1\<rparr>)"
  "av_calls a = 1 \<Longrightarrow> av_call demo_master_env a = (5, a\<lparr>av_calls := 2\<rparr>)"
  "2 \<le> av_calls a \<Longrightarrow> av_calls a < 10 \<Longrightarrow> av_call demo_master_env a = (0, a\<lparr>av_calls := Suc (av_calls a)\<rparr>)"
  "10 \<le> av_calls a \<Longrightarrow> av_call demo_master_env a = (- 1, a\<lparr>av_calls := Suc (av_calls a), av_errno := EIO\<rparr>)"
  by (simp_all add: av_call_def demo_master_env_def)

lemma demo_master_send: "10 \<le> av_calls a \<Longrightarrow> \<exists>r. arcam_av_send demo_master_env c p q a =
    (r, a\<lparr>av_calls := Suc (Suc (av_calls a)), av_errno := EIO\<rparr>)"
  by (simp add: arcam_av_send_def demo_master_call av_write_all.simps)

lemma demo_master_query: "10 \<le> av_calls a \<Longrightarrow> 10 \<le> av_calls (arcam_av_state_query demo_master_env a)"
proof -
  have "10 \<le> av_calls (foldl (\<lambda>a (c, p, q). snd (arcam_av_send demo_master_env c p q a)) a l)"
    if "10 \<le> av_calls a" for l a
    using that
  proof (induction l arbitrary: a)
    case Nil
    then show ?case by simp
  next
    case (Cons m l)
    obtain c p q where m: "m = (c, p, q)" by (cases m)
    have "10 \<le> av_calls (snd (arcam_av_send demo_master_env c p q a))"
      using demo_master_send [OF Cons.prems, of c p q] Cons.prems by auto
    then show ?case using Cons.IH by (simp add: m)
  qed
  then show "10 \<le> av_calls a \<Longrightarrow> ?thesis" by (simp add: arcam_av_state_query_def)
qed

theorem arcam_master_closes_all_witness:
  "\<exists>res a' sv. arcam_av_server_master demo_master_env 1 3 demo_av_state demo_av = Some (res, a', Some sv)
     \<and> sv_open sv = {} \<and> \<not> sv_bad_close sv"
proof -
  have loop: "\<exists>r s. sv_loop demo_master_env 1 5 3 (sv_init 5 3 demo_av_state a) = Some (r, s)"
    if "10 \<le> av_calls a" for a
    using that by (subst sv_loop.simps) (simp add: sv_call_def sv_init_def demo_master_call Let_def)
  let ?a = "demo_av\<lparr>av_calls := 10\<rparr>"
  let ?q = "arcam_av_state_query demo_master_env ?a"
  have q: "10 \<le> av_calls ?q" by (rule demo_master_query) simp
  then have fc: "av_call demo_master_env ?q = (- 1, ?q\<lparr>av_calls := Suc (av_calls ?q), av_errno := EIO\<rparr>)"
    by (rule demo_master_call)
  obtain r s where l: "sv_loop demo_master_env 1 5 3 (sv_init 5 3 demo_av_state
      (?q\<lparr>av_calls := Suc (av_calls ?q), av_errno := EIO\<rparr>)) = Some (r, s)"
    using loop [of "?q\<lparr>av_calls := Suc (av_calls ?q), av_errno := EIO\<rparr>"] q by auto
  have at: "arcam_av_state_attach demo_master_env (demo_av\<lparr>av_calls := 4\<rparr>) = (True, ?a)"
    by (simp add: arcam_av_state_attach_def demo_master_call)
  have con: "arcam_av_connect demo_master_env (demo_av\<lparr>av_calls := 1\<rparr>) = (5, demo_av\<lparr>av_calls := 4\<rparr>)"
    by (simp add: arcam_av_connect_def demo_master_call)
  have "av_call demo_master_env demo_av = (0, demo_av\<lparr>av_calls := 1\<rparr>)"
    by (rule demo_master_call) (simp add: demo_av_def)
  then obtain res a' sv where m: "arcam_av_server_master demo_master_env 1 3 demo_av_state demo_av = Some (res, a', Some sv)"
    by (simp add: arcam_av_server_master_def con at fc l Let_def del: One_nat_def)
  have ok: "accept_ok demo_master_env" by (simp add: accept_ok_def demo_master_env_def)
  have "\<forall>a. fst (arcam_av_connect demo_master_env a) \<noteq> 3"
    by (auto simp: arcam_av_connect_def av_call_def demo_master_env_def Let_def case_prod_beta)
  from arcam_master_closes_all [OF ok this m] m show ?thesis by blast
qed

theorem arcam_master_notifies_witness:
  "\<exists>sv' l. sv_handle demo_av_env 1 5 3 {5} 5 ((sv_init 5 3 demo_av_state demo_av)
       \<lparr>sv_all := {3, 5, 7}, sv_clients := {7}, sv_fd_max := 7, sv_open := {5, 7}\<rparr>) = Some (Go sv')
     \<and> set l = {7} \<and> sv_sent sv' = map (\<lambda>fd. (fd, Packet_ping)) l"
proof -
  let ?sv = "(sv_init 5 3 demo_av_state demo_av)
     \<lparr>sv_all := {3, 5, 7}, sv_clients := {7}, sv_fd_max := 7, sv_open := {5, 7}\<rparr>"
  obtain st a where u: "arcam_av_update demo_av_env demo_av_state demo_av = Some (0, st, a)"
    using demo_update by blast
  have "sv_inv 5 3 ?sv" by (auto simp: sv_inv_def sv_init_def)
  moreover have "arcam_av_update demo_av_env (sv_state ?sv) (sv_av ?sv) = Some (0, st, a)"
    using u by (simp add: sv_init_def)
  ultimately show ?thesis using arcam_master_notifies [of 5 3 ?sv "{5}" demo_av_env st a 1]
    by (auto simp: sv_init_def)
qed

theorem arcam_server_thread_posts_once_witness:
  "\<exists>s. arcam_av_server_thread (demo_master_env\<lparr>av_ret := \<lambda>_. (- 1, EIO)\<rparr>) 1 demo_av_state demo_av = Some s
     \<and> st_posts s = 1"
proof -
  let ?E = "demo_master_env\<lparr>av_ret := \<lambda>_. (- 1, EIO)\<rparr>"
  obtain s where t: "arcam_av_server_thread ?E 1 demo_av_state demo_av = Some s"
    unfolding arcam_av_server_thread_def
    by (subst (asm) st_loop.simps) (simp add: st_round_def st_call_def av_call_def Let_def)
  from arcam_server_thread_posts_once [OF t] t show ?thesis by blast
qed

end
