(* ===== verification/ArcamCtl.thy ===== *)
theory ArcamCtl
  imports ArcamServer "HOL-Library.Multiset"
begin

section \<open>The Arcam AV control plugin (arcam-av/ctl_arcam_av.c)\<close>

text \<open>
  The ALSA controls of one zone of the amplifier. \<open>global\<close> is the shared memory segment that
  the server of \<open>ArcamServer\<close> keeps up to date, an argument of every callback that reads it;
  \<open>local\<close> is the plugin's own copy, the values last told to the application. The keys are
  the command codes of the protocol. A callback is one step: the segment does not change
  while it runs.
\<close>

subsection \<open>Tables\<close>

datatype av_zone = Zone1 | Zone2

definition zone_byte :: "av_zone \<Rightarrow> u8" where
  "zone_byte z = (case z of Zone1 \<Rightarrow> ARCAM_AV_ZONE1 | Zone2 \<Rightarrow> ARCAM_AV_ZONE2)"

abbreviation (input) KEY_POWER :: u64 where "KEY_POWER \<equiv> 0x2A"
abbreviation (input) KEY_VOLUME_SET :: u64 where "KEY_VOLUME_SET \<equiv> 0x30"
abbreviation (input) KEY_MUTE :: u64 where "KEY_MUTE \<equiv> 0x2E"
abbreviation (input) KEY_SOURCE :: u64 where "KEY_SOURCE \<equiv> 0x31"
abbreviation (input) KEY_SOURCE_TYPE :: u64 where "KEY_SOURCE_TYPE \<equiv> 0x37"
abbreviation (input) KEY_DIRECT :: u64 where "KEY_DIRECT \<equiv> 0x33"
abbreviation (input) KEY_STEREO_DECODE :: u64 where "KEY_STEREO_DECODE \<equiv> 0x34"
abbreviation (input) KEY_MULTI_DECODE :: u64 where "KEY_MULTI_DECODE \<equiv> 0x35"
abbreviation (input) KEY_STEREO_EFFECT :: u64 where "KEY_STEREO_EFFECT \<equiv> 0x36"
abbreviation (input) EXT_KEY_NOT_FOUND :: u64 where "EXT_KEY_NOT_FOUND \<equiv> - 1"
abbreviation (input) ARCAM_AV_POWER_STAND_BY :: u8 where "ARCAM_AV_POWER_STAND_BY \<equiv> 0x30"
abbreviation (input) ARCAM_AV_VOLUME_MIN :: u8 where "ARCAM_AV_VOLUME_MIN \<equiv> 0x30"
abbreviation (input) ARCAM_AV_MUTE_ON :: u8 where "ARCAM_AV_MUTE_ON \<equiv> 0x30"

type_synonym av_table = "(u8 \<times> string) list"

definition arcam_av_zone1 :: av_table where
  "arcam_av_zone1 =
     [(ARCAM_AV_POWER, ''Power Switch''),
      (ARCAM_AV_VOLUME_SET, ''Master Playback Volume''),
      (ARCAM_AV_MUTE, ''Master Playback Switch''),
      (ARCAM_AV_DIRECT, ''Direct Playback Switch''),
      (ARCAM_AV_SOURCE, ''Source Playback Route''),
      (ARCAM_AV_SOURCE_TYPE, ''Source Type Playback Route''),
      (ARCAM_AV_STEREO_DECODE, ''Stereo Decode Playback Route''),
      (ARCAM_AV_MULTI_DECODE, ''Multi-Channel Decode Playback Route''),
      (ARCAM_AV_STEREO_EFFECT, ''Stereo Effect Playback Route'')]"

definition arcam_av_zone2 :: av_table where
  "arcam_av_zone2 =
     [(ARCAM_AV_POWER, ''Power Switch''),
      (ARCAM_AV_VOLUME_SET, ''Master Playback Volume''),
      (ARCAM_AV_MUTE, ''Master Playback Switch''),
      (ARCAM_AV_SOURCE, ''Source Playback Route'')]"

definition arcam_av_sources :: av_table where
  "arcam_av_sources =
     [(0x30, ''DVD''), (0x31, ''SAT''), (0x32, ''AV''), (0x33, ''PVR''), (0x34, ''VCR''),
      (0x35, ''CD''), (0x36, ''FM''), (0x37, ''AM''), (0x38, ''DVDA'')]"

definition arcam_av_source_types :: av_table where
  "arcam_av_source_types = [(0x30, ''Analogue''), (0x31, ''Digital'')]"

definition arcam_av_direct :: av_table where
  "arcam_av_direct = [(0x30, ''Disable''), (0x31, ''Enable'')]"

definition arcam_av_stereo_decode_modes :: av_table where
  "arcam_av_stereo_decode_modes =
     [(0x2E, ''Mono''), (0x2F, ''Stereo''), (0x30, ''Pro Logic II Movie''),
      (0x31, ''Pro Logic II Music''), (0x33, ''Pro Logic IIx Movie''), (0x34, ''Pro Logic IIx Music''),
      (0x36, ''Dolby Pro Logic''), (0x37, ''Neo:6 Cinema''), (0x38, ''Neo:6 Music'')]"

definition arcam_av_multi_decode_modes :: av_table where
  "arcam_av_multi_decode_modes =
     [(0x2E, ''Mono down-mix''), (0x2F, ''Stereo down-mix''), (0x30, ''Multi-channel''), (0x32, ''Pro Logic IIx'')]"

definition arcam_av_stereo_effects :: av_table where
  "arcam_av_stereo_effects =
     [(0x30, ''None''), (0x31, ''Music''), (0x32, ''Party''), (0x33, ''Club''), (0x34, ''Hall''),
      (0x35, ''Sports''), (0x36, ''Church'')]"

definition zone_table :: "av_zone \<Rightarrow> av_table" where
  "zone_table z = (case z of Zone1 \<Rightarrow> arcam_av_zone1 | Zone2 \<Rightarrow> arcam_av_zone2)"

text \<open>The table of an enumerated control; the callbacks return \<open>-EINVAL\<close> for other keys.\<close>

definition item_table :: "u64 \<Rightarrow> av_table option" where
  "item_table key =
     (if key = KEY_SOURCE then Some arcam_av_sources
      else if key = KEY_SOURCE_TYPE then Some arcam_av_source_types
      else if key = KEY_DIRECT then Some arcam_av_direct
      else if key = KEY_STEREO_DECODE then Some arcam_av_stereo_decode_modes
      else if key = KEY_MULTI_DECODE then Some arcam_av_multi_decode_modes
      else if key = KEY_STEREO_EFFECT then Some arcam_av_stereo_effects
      else None)"

fun code_index :: "u8 \<Rightarrow> av_table \<Rightarrow> nat option" where
  "code_index c [] = None"
| "code_index c ((d, _) # t) = (if d = c then Some 0 else map_option Suc (code_index c t))"

subsection \<open>State\<close>

record arcam_ctl =
  ac_port_fd :: int
  ac_poll_fd :: int
  ac_zone :: av_zone
  ac_local :: av_state
  ac_global :: bool

text \<open>The members of the unions: the arrays, in the order of the structures.\<close>

definition zone1_array :: "av_zone1 \<Rightarrow> u8 list" where
  "zone1_array s = [z1_power s, z1_volume s, z1_mute s, z1_direct s, z1_source s, z1_source_type s,
     z1_stereo_decode s, z1_stereo_effect s, z1_multi_decode s]"

definition zone1_struct :: "u8 list \<Rightarrow> av_zone1" where
  "zone1_struct xs = \<lparr>z1_power = xs ! 0, z1_volume = xs ! 1, z1_mute = xs ! 2, z1_direct = xs ! 3, z1_source = xs ! 4,
     z1_source_type = xs ! 5, z1_stereo_decode = xs ! 6, z1_stereo_effect = xs ! 7, z1_multi_decode = xs ! 8\<rparr>"

definition zone2_array :: "av_zone2 \<Rightarrow> u8 list" where
  "zone2_array s = [z2_power s, z2_volume s, z2_mute s, z2_source s]"

definition zone2_struct :: "u8 list \<Rightarrow> av_zone2" where
  "zone2_struct xs = \<lparr>z2_power = xs ! 0, z2_volume = xs ! 1, z2_mute = xs ! 2, z2_source = xs ! 3\<rparr>"

definition zone_array :: "av_zone \<Rightarrow> av_state \<Rightarrow> u8 list" where
  "zone_array z st = (case z of Zone1 \<Rightarrow> zone1_array (zone1 st) | Zone2 \<Rightarrow> zone2_array (zone2 st))"

definition zone_set :: "av_zone \<Rightarrow> u8 list \<Rightarrow> av_state \<Rightarrow> av_state" where
  "zone_set z xs st = (case z of Zone1 \<Rightarrow> st\<lparr>zone1 := zone1_struct xs\<rparr> | Zone2 \<Rightarrow> st\<lparr>zone2 := zone2_struct xs\<rparr>)"

text \<open>
  The member a key stands for in a zone, as its position in the array of that zone. The second
  zone has no member for most enumerated controls (\<open>-EINVAL\<close>).
\<close>

definition key_slot :: "av_zone \<Rightarrow> u64 \<Rightarrow> nat option" where
  "key_slot z key =
     (case z of
        Zone1 \<Rightarrow>
          if key = KEY_POWER then Some 0 else if key = KEY_VOLUME_SET then Some 1 else if key = KEY_MUTE then Some 2
          else if key = KEY_DIRECT then Some 3 else if key = KEY_SOURCE then Some 4 else if key = KEY_SOURCE_TYPE then Some 5
          else if key = KEY_STEREO_DECODE then Some 6 else if key = KEY_STEREO_EFFECT then Some 7
          else if key = KEY_MULTI_DECODE then Some 8 else None
      | Zone2 \<Rightarrow>
          if key = KEY_POWER then Some 0 else if key = KEY_VOLUME_SET then Some 1 else if key = KEY_MUTE then Some 2
          else if key = KEY_SOURCE then Some 3 else None)"

definition slot_get :: "av_zone \<Rightarrow> nat \<Rightarrow> av_state \<Rightarrow> u8" where
  "slot_get z i st = zone_array z st ! i"

definition slot_put :: "av_zone \<Rightarrow> nat \<Rightarrow> u8 \<Rightarrow> av_state \<Rightarrow> av_state" where
  "slot_put z i b st = zone_set z ((zone_array z st)[i := b]) st"

definition put_local :: "nat \<Rightarrow> u8 \<Rightarrow> arcam_ctl \<Rightarrow> arcam_ctl" where
  "put_local i b c = c\<lparr>ac_local := slot_put (ac_zone c) i b (ac_local c)\<rparr>"

subsection \<open>Elements\<close>

definition arcam_av_elem_count :: "arcam_ctl \<Rightarrow> nat" where
  "arcam_av_elem_count c = length (zone_table (ac_zone c))"

text \<open>The name set for an offset, if any.\<close>

definition arcam_av_elem_list :: "arcam_ctl \<Rightarrow> u32 \<Rightarrow> string option" where
  "arcam_av_elem_list c offset =
     (let t = zone_table (ac_zone c) in if unat offset < length t then Some (snd (t ! unat offset)) else None)"

fun find_name :: "string \<Rightarrow> av_table \<Rightarrow> u64" where
  "find_name name [] = EXT_KEY_NOT_FOUND"
| "find_name name ((code, n) # t) = (if name = n then ucast code else find_name name t)"

definition arcam_av_find_elem :: "arcam_ctl \<Rightarrow> u32 \<Rightarrow> string \<Rightarrow> u64" where
  "arcam_av_find_elem c numid name =
     (let t = zone_table (ac_zone c) in
      if numid > 0 \<and> unat (numid - 1) < length t then ucast (fst (t ! unat (numid - 1))) else find_name name t)"

datatype av_type = TYPE_BOOLEAN | TYPE_INTEGER | TYPE_ENUMERATED

definition arcam_av_get_attribute :: "u64 \<Rightarrow> int + (av_type \<times> u32)" where
  "arcam_av_get_attribute key =
     (if key = KEY_POWER then Inr (TYPE_BOOLEAN, 1)
      else if key = KEY_VOLUME_SET then Inr (TYPE_INTEGER, 1)
      else if key = KEY_MUTE then Inr (TYPE_BOOLEAN, 1)
      else if key = KEY_DIRECT then Inr (TYPE_ENUMERATED, 1)
      else if key = KEY_SOURCE then Inr (TYPE_ENUMERATED, 1)
      else if key = KEY_SOURCE_TYPE then Inr (TYPE_ENUMERATED, 1)
      else if key = KEY_STEREO_DECODE then Inr (TYPE_ENUMERATED, 1)
      else if key = KEY_MULTI_DECODE then Inr (TYPE_ENUMERATED, 1)
      else if key = KEY_STEREO_EFFECT then Inr (TYPE_ENUMERATED, 1)
      else Inl (- EINVAL))"

definition arcam_av_get_integer_info :: "arcam_ctl \<Rightarrow> u64 \<Rightarrow> int + (int \<times> int \<times> int)" where
  "arcam_av_get_integer_info c key =
     (if key = KEY_VOLUME_SET then Inr (case ac_zone c of Zone1 \<Rightarrow> (0, 100, 1) | Zone2 \<Rightarrow> (20, 83, 1))
      else Inl (- EINVAL))"

definition arcam_av_get_enumerated_info :: "u64 \<Rightarrow> int + nat" where
  "arcam_av_get_enumerated_info key = (case item_table key of None \<Rightarrow> Inl (- EINVAL) | Some t \<Rightarrow> Inr (length t))"

text \<open>The label, cut to the buffer; with a buffer of no bytes the terminator goes outside it.\<close>

definition arcam_av_get_enumerated_name :: "u64 \<Rightarrow> u32 \<Rightarrow> nat \<Rightarrow> (int + string) option" where
  "arcam_av_get_enumerated_name key item max_len =
     (case item_table key of
        None \<Rightarrow> Some (Inl (- EINVAL))
      | Some t \<Rightarrow>
          if unat item \<ge> length t then Some (Inl (- EINVAL))
          else if max_len = 0 then None
          else Some (Inr (take (max_len - 1) (snd (t ! unat item)))))"

subsection \<open>Reading\<close>

definition MID :: "int \<Rightarrow> int \<Rightarrow> int \<Rightarrow> int" where
  "MID a b c =
     (if a < b then if b < c then b else if a < c then c else a
      else if b > c then b else if a > c then c else a)"

text \<open>The values of \<open>value\<close> and \<open>item\<close> are kept where nothing is stored.\<close>

definition arcam_av_read_integer :: "arcam_ctl \<Rightarrow> av_state \<Rightarrow> u64 \<Rightarrow> int \<Rightarrow> int \<times> int \<times> arcam_ctl" where
  "arcam_av_read_integer c global key val =
     (let z = ac_zone c; got = (\<lambda>i. slot_get z i global) in
      if key = KEY_POWER then (0, (if got 0 = ARCAM_AV_POWER_STAND_BY then 0 else 1), put_local 0 (got 0) c)
      else if key = KEY_VOLUME_SET then
        (0, (let v = uint (got 1) - uint ARCAM_AV_VOLUME_MIN in case z of Zone1 \<Rightarrow> MID 0 v 100 | Zone2 \<Rightarrow> MID 20 v 83),
         put_local 1 (got 1) c)
      else if key = KEY_MUTE then (0, (if got 2 = ARCAM_AV_MUTE_ON then 0 else 1), put_local 2 (got 2) c)
      else (- EINVAL, val, c))"

definition arcam_av_read_enumerated :: "arcam_ctl \<Rightarrow> av_state \<Rightarrow> u64 \<Rightarrow> nat \<Rightarrow> int \<times> nat \<times> arcam_ctl" where
  "arcam_av_read_enumerated c global key item =
     (case item_table key of
        None \<Rightarrow> (- EINVAL, item, c)
      | Some t \<Rightarrow> case key_slot (ac_zone c) key of
          None \<Rightarrow> (- EINVAL, item, c)
        | Some i \<Rightarrow>
            let code = slot_get (ac_zone c) i global in
            (0, case code_index code t of None \<Rightarrow> item | Some k \<Rightarrow> k, put_local i code c))"

subsection \<open>Writing\<close>

definition write_command ::
    "av_env \<Rightarrow> arcam_ctl \<Rightarrow> av_state \<Rightarrow> u64 \<Rightarrow> u8 \<Rightarrow> av \<Rightarrow> int \<times> arcam_ctl \<times> av_state \<times> av" where
  "write_command E c global key param a =
     (let (r, a) = arcam_av_send E (ucast key) (zone_byte (ac_zone c)) param a
      in (if r = 0 then 1 else - 1, c, global, a))"

definition arcam_av_write_integer ::
    "av_env \<Rightarrow> arcam_ctl \<Rightarrow> av_state \<Rightarrow> u64 \<Rightarrow> int \<Rightarrow> av \<Rightarrow> int \<times> arcam_ctl \<times> av_state \<times> av" where
  "arcam_av_write_integer E c global key val a =
     (let z = ac_zone c; got = (\<lambda>i. slot_get z i global); param = 0x30 + word_of_int val in
      if key = KEY_POWER then
        (let new = ARCAM_AV_POWER_STAND_BY + word_of_int val; c = put_local 0 new c in
         if got 0 = new then (0, c, global, a) else write_command E c global key param a)
      else if key = KEY_VOLUME_SET then
        (let new = ARCAM_AV_VOLUME_MIN + word_of_int val; c = put_local 1 new c in
         if got 1 = new then (0, c, global, a)
         else if got 2 = ARCAM_AV_MUTE_ON then (1, c, slot_put z 1 new global, a)
         else write_command E c global key param a)
      else if key = KEY_MUTE then
        (let new = ARCAM_AV_MUTE_ON + word_of_int val; c = put_local 2 new c in
         if got 2 = new then (0, c, global, a)
         else
           let a = (if val \<noteq> 0 then snd (arcam_av_send E ARCAM_AV_VOLUME_SET (zone_byte z) (got 1) a) else a)
           in write_command E c global key param a)
      else (- EINVAL, c, global, a))"

definition arcam_av_write_enumerated ::
    "av_env \<Rightarrow> arcam_ctl \<Rightarrow> av_state \<Rightarrow> u64 \<Rightarrow> u32 \<Rightarrow> av \<Rightarrow> int \<times> arcam_ctl \<times> av_state \<times> av" where
  "arcam_av_write_enumerated E c global key item a =
     (case item_table key of
        None \<Rightarrow> (- EINVAL, c, global, a)
      | Some t \<Rightarrow>
          if unat item \<ge> length t then (- EINVAL, c, global, a)
          else case key_slot (ac_zone c) key of
            None \<Rightarrow> (- EINVAL, c, global, a)
          | Some i \<Rightarrow>
              let code = fst (t ! unat item); c = put_local i code c in
              if slot_get (ac_zone c) i global = code then (0, c, global, a)
              else write_command E c global key code a)"

subsection \<open>Descriptors\<close>

text \<open>\<open>ap_open\<close> is the bag of the descriptors that the plugin has open.\<close>

record arcam_proc =
  ap_av :: av
  ap_open :: "int multiset"

definition ap_call :: "av_env \<Rightarrow> arcam_proc \<Rightarrow> int \<times> arcam_proc" where
  "ap_call E p = (let (r, a) = av_call E (ap_av p) in (r, p\<lparr>ap_av := a\<rparr>))"

definition ap_opened :: "int \<Rightarrow> av \<Rightarrow> arcam_proc \<Rightarrow> arcam_proc" where
  "ap_opened fd a p = p\<lparr>ap_av := a, ap_open := (if fd \<ge> 0 then add_mset fd (ap_open p) else ap_open p)\<rparr>"

definition ap_close :: "av_env \<Rightarrow> int \<Rightarrow> arcam_proc \<Rightarrow> arcam_proc" where
  "ap_close E fd p = p\<lparr>ap_av := snd (av_call E (ap_av p)), ap_open := ap_open p - {#fd#}\<rparr>"

subsection \<open>Events\<close>

fun first_diff :: "u8 list \<Rightarrow> u8 list \<Rightarrow> nat option" where
  "first_diff (x # xs) (y # ys) = (if x \<noteq> y then Some 0 else map_option Suc (first_diff xs ys))"
| "first_diff _ _ = None"

text \<open>
  The element that differs from what was told, with its name and number; when none does, the
  notification is taken from the server's connection, which is opened anew at its end.
\<close>

definition arcam_av_read_event ::
    "av_env \<Rightarrow> arcam_ctl \<Rightarrow> av_state \<Rightarrow> arcam_proc \<Rightarrow> int \<times> (string \<times> nat) option \<times> arcam_ctl \<times> arcam_proc" where
  "arcam_av_read_event E c global p =
     (let z = ac_zone c in
      case first_diff (zone_array z (ac_local c)) (zone_array z global) of
        Some elem \<Rightarrow> (1, Some (snd (zone_table z ! elem), elem + 1), put_local elem (slot_get z elem global) c, p)
      | None \<Rightarrow>
          let (n, p) = ap_call E p in
          if n \<le> 0 then
            let p = ap_close E (ac_poll_fd c) p;
                (fd, _, a) = arcam_av_client E (ap_av p);
                p = ap_opened fd a p;
                p = (if fd > 0 then snd (ap_call E p) else p)
            in (- EAGAIN, None, c\<lparr>ac_poll_fd := fd\<rparr>, p)
          else (- EAGAIN, None, c, p))"

subsection \<open>Opening and closing\<close>

definition arcam_av_close :: "av_env \<Rightarrow> arcam_ctl \<Rightarrow> arcam_proc \<Rightarrow> arcam_proc" where
  "arcam_av_close E c p =
     (let p = (if ac_port_fd c \<ge> 0 then ap_close E (ac_port_fd c) p else p);
          p = (if ac_global c then p\<lparr>ap_av := snd (arcam_av_state_detach E (ap_av p))\<rparr> else p)
      in if ac_poll_fd c \<ge> 0 then
           let p = ap_close E (ac_poll_fd c) p in p\<lparr>ap_av := snd (arcam_av_server_stop E (ap_av p))\<rparr>
         else p)"

fun arcam_av_conf :: "'n config_api \<Rightarrow> 'n list \<Rightarrow> string \<times> int \<Rightarrow> int + string \<times> int" where
  "arcam_av_conf C [] st = Inr st"
| "arcam_av_conf C (n # ns) (port, zone) =
     (case cfg_id C n of
        None \<Rightarrow> arcam_av_conf C ns (port, zone)
      | Some id_str \<Rightarrow>
          if cfg_skipped id_str then arcam_av_conf C ns (port, zone)
          else if id_str = ''port'' then
            (case cfg_string C n of None \<Rightarrow> Inl (- EINVAL) | Some s \<Rightarrow> arcam_av_conf C ns (s, zone))
          else if id_str = ''zone'' then
            (case cfg_integer C n of
               None \<Rightarrow> Inl (- EINVAL)
             | Some v \<Rightarrow> if v < 1 \<or> v > 2 then Inl (- EINVAL) else arcam_av_conf C ns (port, v))
          else Inl (- EINVAL))"

definition zero_state :: av_state where
  "zero_state = \<lparr>zone1 = zone1_struct (replicate 9 0), zone2 = zone2_struct (replicate 4 0)\<rparr>"

definition open_failed :: "av_env \<Rightarrow> int \<Rightarrow> arcam_ctl \<Rightarrow> arcam_proc \<Rightarrow> (int \<times> arcam_ctl option \<times> arcam_proc) option" where
  "open_failed E err c p = Some (err, None, arcam_av_close E c p)"

text \<open>
  \<open>access\<close> failing jumps to the error path before the structure exists: \<open>arcam_av_close\<close> then
  reads through NULL.
\<close>

definition arcam_av_open ::
    "'n config_api \<Rightarrow> bool \<Rightarrow> int \<Rightarrow> av_env \<Rightarrow> 'n list \<Rightarrow> arcam_proc \<Rightarrow> (int \<times> arcam_ctl option \<times> arcam_proc) option" where
  "arcam_av_open C calloc_ok create E conf p =
     (case arcam_av_conf C conf (''/dev/ttyS0'', 1) of
        Inl err \<Rightarrow> Some (err, None, p)
      | Inr (port, zone) \<Rightarrow>
          let (r, p) = ap_call E p in
          if r < 0 then None
          else if \<not> calloc_ok then Some (- ENOMEM, None, p)
          else
            let c = \<lparr>ac_port_fd = - 1, ac_poll_fd = - 1, ac_zone = (if zone \<noteq> 2 then Zone1 else Zone2),
                     ac_local = zero_state, ac_global = False\<rparr>;
                (fd, a) = arcam_av_connect E (ap_av p); p = ap_opened fd a p; c = c\<lparr>ac_port_fd := fd\<rparr>
            in if fd < 0 then open_failed E (- av_errno (ap_av p)) c p
               else
                 let (s, a) = arcam_av_server_start E (ap_av p); p = p\<lparr>ap_av := a\<rparr> in
                 if s \<noteq> 0 then open_failed E (- av_errno (ap_av p)) c p
                 else
                   let (fd, _, a) = arcam_av_client E (ap_av p); p = ap_opened fd a p; c = c\<lparr>ac_poll_fd := fd\<rparr> in
                   if fd < 0 then open_failed E (- av_errno (ap_av p)) c p
                   else
                     let (_, p) = ap_call E p;
                         (g, a) = arcam_av_state_attach E (ap_av p); p = p\<lparr>ap_av := a\<rparr>; c = c\<lparr>ac_global := g\<rparr>
                     in if \<not> g then open_failed E (- av_errno (ap_av p)) c p
                        else if create < 0 then open_failed E create c p
                        else Some (0, Some c, p))"

end
