(* ===== verification/ArcamCtlProofs.thy ===== *)
theory ArcamCtlProofs
  imports ArcamCtl ArcamProto
begin

section \<open>The Arcam AV control plugin: controls and events\<close>

text \<open>
  The members of the shared state as slots of an array, and what the callbacks do with them:
  the replies of the amplifier set the slot that the control of the same key reads, a value
  written is the value read once the amplifier has confirmed it, and the events bring the local
  copy up to date one element at a time.
\<close>

subsection \<open>Slots\<close>

named_theorems slot_simps \<open>reading and writing the members of a zone\<close>

definition slots :: "av_zone \<Rightarrow> nat" where
  "slots z = (case z of Zone1 \<Rightarrow> 9 | Zone2 \<Rightarrow> 4)"

lemma length_9: "length xs = 9 \<Longrightarrow> \<exists>a b c d e f g h i. xs = [a, b, c, d, e, f, g, h, i]"
  by (auto simp: numeral_eq_Suc length_Suc_conv)

lemma length_4: "length xs = 4 \<Longrightarrow> \<exists>a b c d. xs = [a, b, c, d]"
  by (auto simp: numeral_eq_Suc length_Suc_conv)

lemma zone1_array_struct: "length xs = 9 \<Longrightarrow> zone1_array (zone1_struct xs) = xs"
  by (drule length_9) (auto simp: zone1_array_def zone1_struct_def)

lemma zone2_array_struct: "length xs = 4 \<Longrightarrow> zone2_array (zone2_struct xs) = xs"
  by (drule length_4) (auto simp: zone2_array_def zone2_struct_def)

lemma length_zone_array [slot_simps]: "length (zone_array z st) = slots z"
  by (cases z) (simp_all add: zone_array_def slots_def zone1_array_def zone2_array_def)

lemma length_zone_table [slot_simps]: "length (zone_table z) = slots z"
  by (cases z) (simp_all add: zone_table_def slots_def arcam_av_zone1_def arcam_av_zone2_def)

lemma zone_array_set [slot_simps]: "length xs = slots z \<Longrightarrow> zone_array z (zone_set z xs st) = xs"
  by (cases z) (simp_all add: zone_array_def zone_set_def slots_def zone1_array_struct zone2_array_struct)

lemma zone_array_put [slot_simps]: "zone_array z (slot_put z i b st) = (zone_array z st)[i := b]"
  by (simp add: slot_put_def slot_simps)

lemma slot_get_put [slot_simps]:
  "i < slots z \<Longrightarrow> slot_get z i (slot_put z j b st) = (if j = i then b else slot_get z i st)"
  by (simp add: slot_get_def slot_simps nth_list_update)

lemma key_slot_bound: "key_slot z key = Some i \<Longrightarrow> i < slots z"
  by (auto simp: key_slot_def slots_def split: av_zone.splits if_splits)

lemma put_local_view [slot_simps]: "ac_zone (put_local i b c) = ac_zone c" "ac_port_fd (put_local i b c) = ac_port_fd c"
  "ac_poll_fd (put_local i b c) = ac_poll_fd c" "ac_global (put_local i b c) = ac_global c"
  "zone_array (ac_zone c) (ac_local (put_local i b c)) = (zone_array (ac_zone c) (ac_local c))[i := b]"
  by (simp_all add: put_local_def slot_simps)

text \<open>The replies of the amplifier and the controls agree on the members.\<close>

lemma av_apply_slot:
  assumes "key_slot z key = Some i"
  shows "av_apply (ucast key, zone_byte z, b) st = (True, slot_put z i b st)"
proof (cases z)
  case Zone1
  then show ?thesis using assms
    by (cases st; cases "zone1 st")
      (auto simp: key_slot_def slot_put_def zone_set_def zone_array_def zone1_array_def zone1_struct_def av_apply_def zone_byte_def
        split: if_splits)
next
  case Zone2
  then show ?thesis using assms
    by (cases st; cases "zone2 st")
      (auto simp: key_slot_def slot_put_def zone_set_def zone_array_def zone2_array_def zone2_struct_def av_apply_def zone_byte_def
        split: if_splits)
qed

subsection \<open>Names and keys\<close>

lemma zone_table_distinct: "distinct (map snd (zone_table z))" "distinct (map fst (zone_table z))"
  by (cases z; simp add: zone_table_def arcam_av_zone1_def arcam_av_zone2_def)+

lemma zone_table_slots: "list_all (\<lambda>x. key_slot z (ucast (fst x)) \<noteq> None) (zone_table z)"
  by (cases z) (simp_all add: zone_table_def arcam_av_zone1_def arcam_av_zone2_def key_slot_def)

lemma find_name_nth: "distinct (map snd t) \<Longrightarrow> i < length t \<Longrightarrow> find_name (snd (t ! i)) t = ucast (fst (t ! i))"
proof (induction t arbitrary: i)
  case (Cons x t)
  show ?case
  proof (cases i)
    case 0
    then show ?thesis by (cases x) simp
  next
    case (Suc j)
    then have "snd x \<noteq> snd (t ! j)" using Cons.prems by (auto simp: image_iff)
    then show ?thesis using Cons Suc by (cases x) simp
  qed
qed simp

lemma find_name_none: "name \<notin> snd ` set t \<Longrightarrow> find_name name t = EXT_KEY_NOT_FOUND"
  by (induction t) auto

lemma word_index:
  assumes "i < 9"
  shows "unat (word_of_nat (i + 1) - 1 :: u32) = i \<and> (word_of_nat (i + 1) :: u32) > 0"
proof -
  from assms have "unat (word_of_nat (i + 1) :: u32) = i + 1" by (simp only: unsigned_of_nat) (simp add: take_bit_nat_eq_self_iff)
  then have "(word_of_nat (i + 1) :: u32) > 0" by (simp only: word_less_nat_alt) simp
  moreover have "unat (word_of_nat (i + 1) - 1 :: u32) = i"
    using assms by (simp add: unsigned_of_nat take_bit_nat_eq_self_iff)
  ultimately show ?thesis by blast
qed

lemma unat_offset_Suc:
  assumes "unat (offset :: u32) < 9"
  shows "0 < offset + 1 \<and> offset + 1 - 1 = offset"
proof -
  have "offset + 1 \<noteq> 0"
  proof
    assume "offset + 1 = 0"
    then have "offset = - 1" by (simp only: eq_neg_iff_add_eq_0)
    then show False using assms by (simp add: unsigned_minus_1_eq_mask mask_eq_exp_minus_1)
  qed
  then show ?thesis by (simp add: word_neq_0_conv)
qed

text \<open>
  elem_list and find_elem agree: every element of a zone is found by its name alone and by
  its number, as the key that stands for a member of that zone, different elements have
  different keys, and a name that is in no element is not found.
\<close>

theorem arcam_ctl_elements_roundtrip:
  assumes "unat offset < arcam_av_elem_count c"
  shows "\<exists>name key i. arcam_av_elem_list c offset = Some name
    \<and> arcam_av_find_elem c 0 name = key \<and> (\<forall>any. arcam_av_find_elem c (offset + 1) any = key)
    \<and> key_slot (ac_zone c) key = Some i \<and> key = ucast (fst (zone_table (ac_zone c) ! unat offset))
    \<and> (\<forall>other. arcam_av_elem_list c other = Some name \<longrightarrow> other = offset)
    \<and> (\<forall>none. (\<forall>o'. arcam_av_elem_list c o' \<noteq> Some none) \<longrightarrow> arcam_av_find_elem c 0 none = EXT_KEY_NOT_FOUND)"
proof -
  let ?t = "zone_table (ac_zone c)"
  let ?key = "ucast (fst (?t ! unat offset)) :: u64"
  have lt: "unat offset < length ?t" using assms by (simp add: arcam_av_elem_count_def)
  then have "unat offset < 9" by (simp add: slot_simps slots_def split: av_zone.splits)
  note suc = unat_offset_Suc [OF this]
  have nine: "length ?t \<le> 9" by (simp add: slot_simps slots_def split: av_zone.splits)
  have "\<exists>i. key_slot (ac_zone c) ?key = Some i"
    using zone_table_slots [of "ac_zone c"] lt by (auto simp: list_all_length)
  moreover have "other = offset" if "arcam_av_elem_list c other = Some (snd (?t ! unat offset))" for other
    using that lt nth_eq_iff_index_eq [OF zone_table_distinct(1) [of "ac_zone c"], of "unat other" "unat offset"]
    by (auto simp: arcam_av_elem_list_def Let_def word_unat_eq_iff split: if_splits)
  moreover have "arcam_av_find_elem c 0 none = EXT_KEY_NOT_FOUND"
    if none: "\<forall>o'. arcam_av_elem_list c o' \<noteq> Some none" for none
  proof -
    have "none \<noteq> snd (?t ! k)" if "k < length ?t" for k
    proof -
      have "unat (word_of_nat k :: u32) = k" using that nine by (simp add: unsigned_of_nat take_bit_nat_eq_self_iff)
      then show ?thesis using none that by (auto simp: arcam_av_elem_list_def Let_def dest: spec [of _ "word_of_nat k"])
    qed
    then have "none \<notin> snd ` set ?t" by (auto simp: in_set_conv_nth image_iff) (metis snd_conv)
    then show ?thesis by (simp add: arcam_av_find_elem_def find_name_none)
  qed
  ultimately show ?thesis using lt suc find_name_nth [OF zone_table_distinct(1) lt]
    by (auto simp: arcam_av_elem_list_def arcam_av_find_elem_def Let_def)
qed

subsection \<open>Enumerated controls\<close>

lemma code_index_nth: "distinct (map fst t) \<Longrightarrow> k < length t \<Longrightarrow> code_index (fst (t ! k)) t = Some k"
proof (induction t arbitrary: k)
  case (Cons x t)
  show ?case
  proof (cases k)
    case 0
    then show ?thesis by (cases x) simp
  next
    case (Suc j)
    then have "fst x \<noteq> fst (t ! j)" using Cons.prems by (auto simp: image_iff)
    then show ?thesis using Cons Suc by (cases x) simp
  qed
qed simp

lemma item_table_distinct: "item_table key = Some t \<Longrightarrow> distinct (map fst t)"
  by (auto simp: item_table_def arcam_av_sources_def arcam_av_source_types_def arcam_av_direct_def
      arcam_av_stereo_decode_modes_def arcam_av_multi_decode_modes_def arcam_av_stereo_effects_def split: if_splits)

lemma write_command_result:
  assumes "writes_ok E" "write_command E c global key param a = (r, c', global', a')"
  shows "c' = c" "global' = global" "r = 1 \<or> r = - 1"
    "r = 1 \<Longrightarrow> av_out a' = av_out a @ av_request (ucast key) (zone_byte (ac_zone c)) param"
proof -
  obtain w b where s: "arcam_av_send E (ucast key) (zone_byte (ac_zone c)) param a = (w, b)" by fastforce
  have l: "length (av_request (ucast key) (zone_byte (ac_zone c)) param) = 7" by (simp add: av_request_def)
  show "c' = c" "global' = global" "r = 1 \<or> r = - 1"
    using assms(2) s by (auto simp: write_command_def split: if_splits)
  show "r = 1 \<Longrightarrow> av_out a' = av_out a @ av_request (ucast key) (zone_byte (ac_zone c)) param"
    using arcam_av_send_writes [OF assms(1) s] assms(2) s l by (cases "w = 0") (auto simp: write_command_def)
qed


subsection \<open>Volume\<close>

lemma MID_id: "a \<le> b \<Longrightarrow> b \<le> c \<Longrightarrow> MID a b c = b"
  by (auto simp: MID_def)

lemma MID_clamp: "a \<le> c \<Longrightarrow> MID a b c = max a (min b c)"
  by (auto simp: MID_def)

lemma volume_byte:
  assumes "0 \<le> v" "v \<le> 100"
  shows "uint (ARCAM_AV_VOLUME_MIN + word_of_int v) = 48 + v"
proof -
  have "ARCAM_AV_VOLUME_MIN + word_of_int v = (word_of_int (48 + v) :: u8)" by simp
  moreover have "uint (word_of_int (48 + v) :: u8) = 48 + v"
    using assms by (simp only: uint_word_of_int) simp
  ultimately show ?thesis by simp
qed

lemma slot_volume: "key_slot z KEY_VOLUME_SET = Some 1" "1 < slots z" "2 < slots z"
  by (cases z; simp add: key_slot_def slots_def)+

text \<open>
  a volume in the range of the zone is kept. Writing it to a zone that is not muted puts the
  request for it on the line, unless the amplifier has it, and after the confirmation it is the
  volume read. Writing it to a muted zone sends nothing but stores it in the shared state, so
  it is read back at once.
\<close>

theorem arcam_ctl_volume_roundtrip:
  assumes "writes_ok E" "arcam_av_get_integer_info c KEY_VOLUME_SET = Inr (lo, hi, step)" "lo \<le> v" "v \<le> hi"
    and "arcam_av_write_integer E c global KEY_VOLUME_SET v a = (r, c', global', a')" "r \<noteq> - 1"
  defines "z \<equiv> ac_zone c" and "b \<equiv> ARCAM_AV_VOLUME_MIN + word_of_int v"
  shows "if r = 1 \<and> slot_get z 2 global \<noteq> ARCAM_AV_MUTE_ON
    then av_out a' = av_out a @ av_request ARCAM_AV_VOLUME_SET (zone_byte z) b \<and> global' = global
      \<and> (\<exists>st c''. av_apply (ARCAM_AV_VOLUME_SET, zone_byte z, b) global = (True, st)
          \<and> arcam_av_read_integer c' st KEY_VOLUME_SET old = (0, v, c''))
    else a' = a \<and> (\<exists>c''. arcam_av_read_integer c' global' KEY_VOLUME_SET old = (0, v, c''))"
proof -
  have v: "0 \<le> v" "v \<le> 100" and range: "case z of Zone1 \<Rightarrow> 0 \<le> v \<and> v \<le> 100 | Zone2 \<Rightarrow> 20 \<le> v \<and> v \<le> 83"
    using assms(2-4) by (auto simp: arcam_av_get_integer_info_def z_def split: av_zone.splits)
  have b: "uint b - uint ARCAM_AV_VOLUME_MIN = v" using volume_byte [OF v] by (simp add: b_def)
  have read: "\<exists>c''. arcam_av_read_integer c' st KEY_VOLUME_SET old = (0, v, c'')"
    if "slot_get z 1 st = b" "ac_zone c' = z" for st
    using that range b by (simp add: arcam_av_read_integer_def MID_id split: av_zone.splits)
  have w: "(if slot_get z 1 global = b then (0, put_local 1 b c, global, a)
      else if slot_get z 2 global = ARCAM_AV_MUTE_ON then (1, put_local 1 b c, slot_put z 1 b global, a)
      else write_command E (put_local 1 b c) global KEY_VOLUME_SET b a) = (r, c', global', a')"
    using assms(5) by (simp add: arcam_av_write_integer_def Let_def z_def b_def slot_simps split: if_splits)
  consider "slot_get z 1 global = b" "(0, put_local 1 b c, global, a) = (r, c', global', a')"
    | "slot_get z 2 global = ARCAM_AV_MUTE_ON" "(1, put_local 1 b c, slot_put z 1 b global, a) = (r, c', global', a')"
    | "slot_get z 2 global \<noteq> ARCAM_AV_MUTE_ON" "write_command E (put_local 1 b c) global KEY_VOLUME_SET b a = (r, c', global', a')"
    using w by (auto split: if_splits)
  then show ?thesis
  proof cases
    case 3
    note wr = write_command_result [OF assms(1) 3(2)]
    have "av_apply (ARCAM_AV_VOLUME_SET, zone_byte z, b) global = (True, slot_put z 1 b global)"
      using av_apply_slot [OF slot_volume(1) [of z], of b global] by simp
    then show ?thesis using wr 3(1) assms(6) read [of "slot_put z 1 b global"] slot_volume(2) [of z]
      by (simp add: slot_simps z_def)
  qed (use read slot_volume(2) [of z] in \<open>auto simp: slot_simps z_def\<close>)
qed

subsection \<open>Events\<close>

definition diffs :: "u8 list \<Rightarrow> u8 list \<Rightarrow> nat list" where
  "diffs xs ys = filter (\<lambda>i. xs ! i \<noteq> ys ! i) [0..<length xs]"

lemma diffs_Cons: "diffs (x # xs) (y # ys) = (if x \<noteq> y then [0] else []) @ map Suc (diffs xs ys)"
proof -
  have "[0..<length (x # xs)] = 0 # map Suc [0..<length xs]" by (simp add: upt_conv_Cons map_Suc_upt del: upt_Suc)
  then show ?thesis by (simp add: diffs_def filter_map comp_def del: upt_Suc)
qed

lemma first_diff_diffs: "length xs = length ys \<Longrightarrow> first_diff xs ys = (case diffs xs ys of [] \<Rightarrow> None | i # _ \<Rightarrow> Some i)"
proof (induction xs ys rule: list_induct2)
  case (Cons x xs y ys)
  then show ?case by (cases "diffs xs ys") (simp_all add: diffs_Cons)
qed (simp add: diffs_def)

lemma diffs_Cons_upd:
  assumes "length xs = length ys" "diffs xs ys = i # is"
  shows "diffs (xs[i := ys ! i]) ys = is \<and> i < length xs"
  using assms
proof (induction xs ys arbitrary: i "is" rule: list_induct2)
  case (Cons x xs y ys)
  show ?case
  proof (cases "x = y")
    case True
    then obtain j js where "i = Suc j" "is = map Suc js" "diffs xs ys = j # js"
      using Cons.prems by (cases "diffs xs ys") (auto simp: diffs_Cons)
    then show ?thesis using Cons.IH [of j js] True by (simp add: diffs_Cons)
  next
    case False
    then show ?thesis using Cons.prems by (auto simp: diffs_Cons)
  qed
qed (simp add: diffs_def)

lemma diffs_Nil: "length xs = length ys \<Longrightarrow> diffs xs ys = [] \<longleftrightarrow> xs = ys"
proof (induction xs ys rule: list_induct2)
  case (Cons x xs y ys)
  then show ?case by (simp add: diffs_Cons)
qed (simp add: diffs_def)

text \<open>Calling read_event as alsa-lib does after a notification: until it reports none.\<close>

fun drain_events :: "av_env \<Rightarrow> nat \<Rightarrow> arcam_ctl \<Rightarrow> av_state \<Rightarrow> arcam_proc \<Rightarrow> (string \<times> nat) list \<times> arcam_ctl \<times> arcam_proc" where
  "drain_events E 0 c global p = ([], c, p)"
| "drain_events E (Suc n) c global p =
     (case arcam_av_read_event E c global p of
        (r, Some ev, c, p) \<Rightarrow> let (evs, c, p) = drain_events E n c global p in (ev # evs, c, p)
      | (r, None, c, p) \<Rightarrow> ([], c, p))"

lemma read_event_some:
  assumes "diffs (zone_array (ac_zone c) (ac_local c)) (zone_array (ac_zone c) global) = i # is"
  shows "arcam_av_read_event E c global p = (1, Some (snd (zone_table (ac_zone c) ! i), i + 1), put_local i (slot_get (ac_zone c) i global) c, p)"
  using first_diff_diffs [of "zone_array (ac_zone c) (ac_local c)" "zone_array (ac_zone c) global"] assms
  by (simp add: arcam_av_read_event_def Let_def slot_simps)

lemma read_event_none:
  assumes "zone_array (ac_zone c) (ac_local c) = zone_array (ac_zone c) global" "arcam_av_read_event E c global p = (r, ev, c', p')"
  shows "r = - EAGAIN" "ev = None" "ac_local c' = ac_local c" "ac_zone c' = ac_zone c"
proof -
  have "first_diff (zone_array (ac_zone c) global) (zone_array (ac_zone c) global) = None"
    using first_diff_diffs [OF refl, of "zone_array (ac_zone c) global"] diffs_Nil [OF refl, of "zone_array (ac_zone c) global"] by simp
  then show "r = - EAGAIN" "ev = None" "ac_local c' = ac_local c" "ac_zone c' = ac_zone c"
    using assms by (auto simp: arcam_av_read_event_def case_prod_beta Let_def split: if_splits)
qed


text \<open>
  C40: the event for a member names the control that reads this member, except that the members
  of zone 1 for the stereo effect and for the multi-channel decode mode come in one order in the
  structure and in the other in the table of names: a change of the one is announced, by name
  and by number, as a change of the other.
\<close>

theorem arcam_ctl_events_swapped:
  assumes "arcam_av_read_event E c global p = (r, Some (name, num), c', p')"
  shows "\<exists>i. i < slots (ac_zone c) \<and> slot_get (ac_zone c) i (ac_local c) \<noteq> slot_get (ac_zone c) i global
    \<and> key_slot (ac_zone c) (arcam_av_find_elem c (word_of_nat num) name) = Some (if i < 7 then i else 15 - i)
    \<and> arcam_av_find_elem c 0 name = arcam_av_find_elem c (word_of_nat num) name"
proof -
  let ?xs = "zone_array (ac_zone c) (ac_local c)" and ?ys = "zone_array (ac_zone c) global"
  let ?t = "zone_table (ac_zone c)"
  obtain i "is" where di: "diffs ?xs ?ys = i # is"
    using assms first_diff_diffs [of ?xs ?ys]
    by (cases "diffs ?xs ?ys") (auto simp: arcam_av_read_event_def case_prod_beta Let_def slot_simps split: if_splits)
  have name: "name = snd (?t ! i)" "num = i + 1" using assms unfolding read_event_some [OF di] by simp_all
  have i: "i < slots (ac_zone c)" "?xs ! i \<noteq> ?ys ! i"
  proof -
    have "i \<in> set (diffs ?xs ?ys)" by (simp add: di)
    then show "i < slots (ac_zone c)" "?xs ! i \<noteq> ?ys ! i" by (auto simp: diffs_def slot_simps)
  qed
  have nine: "slots (ac_zone c) \<le> 9" by (simp add: slots_def split: av_zone.splits)
  have num: "unat (word_of_nat (i + 1) - 1 :: u32) = i" "(word_of_nat (i + 1) :: u32) > 0"
    using word_index [of i] i(1) nine by simp_all
  have key: "arcam_av_find_elem c (word_of_nat num) name = ucast (fst (?t ! i))"
    "arcam_av_find_elem c 0 name = ucast (fst (?t ! i))"
    using num i(1) find_name_nth [OF zone_table_distinct(1), of i "ac_zone c"] name
    by (auto simp: arcam_av_find_elem_def Let_def slot_simps)
  have "list_all (\<lambda>i. key_slot (ac_zone c) (ucast (fst (?t ! i))) = Some (if i < 7 then i else 15 - i)) [0..<slots (ac_zone c)]"
    by (cases "ac_zone c") (simp_all add: slots_def zone_table_def arcam_av_zone1_def arcam_av_zone2_def key_slot_def upt_rec)
  then have "key_slot (ac_zone c) (ucast (fst (?t ! i))) = Some (if i < 7 then i else 15 - i)"
    using i(1) by (simp add: list_all_iff)
  then show ?thesis using i key by (auto simp: slot_get_def)
qed

end
