(* ===== verification/ArcamCtlLife.thy ===== *)
theory ArcamCtlLife
  imports ArcamCtlProofs
begin

section \<open>The Arcam AV control plugin: sessions\<close>

text \<open>
  Opening, any sequence of callbacks, closing: the descriptors. The error path of open that
  does not work, and the witnesses.
\<close>

subsection \<open>Descriptors\<close>

named_theorems ap_simps \<open>the descriptors after each step\<close>

lemma ap_view [ap_simps]:
  "ap_open (snd (ap_call E p)) = ap_open p" "ap_open (ap_close E fd p) = ap_open p - {#fd#}"
  "ap_open (ap_opened fd a p) = (if fd \<ge> 0 then add_mset fd (ap_open p) else ap_open p)"
  "ap_open (p\<lparr>ap_av := a\<rparr>) = ap_open p"
  by (simp_all add: ap_call_def ap_close_def ap_opened_def case_prod_beta)

lemma close_view [ap_simps]:
  "ap_open (arcam_av_close E c p) =
     ap_open p - (if ac_port_fd c \<ge> 0 then {#ac_port_fd c#} else {#}) - (if ac_poll_fd c \<ge> 0 then {#ac_poll_fd c#} else {#})"
  by (simp add: arcam_av_close_def Let_def ap_simps)

definition conn_bag :: "arcam_ctl \<Rightarrow> int multiset" where
  "conn_bag c = {#ac_port_fd c#} + (if ac_poll_fd c \<ge> 0 then {#ac_poll_fd c#} else {#})"

lemma open_result:
  assumes "arcam_av_open C ok create E conf p = Some (r, oc, p')"
  shows "case oc of None \<Rightarrow> ap_open p' = ap_open p
    | Some c \<Rightarrow> r = 0 \<and> 0 \<le> ac_port_fd c \<and> ac_global c \<and> ap_open p' = ap_open p + conn_bag c"
  using assms
  by (auto simp: arcam_av_open_def open_failed_def conn_bag_def case_prod_beta Let_def ap_simps add_mset_commute
      split: sum.splits if_splits)

text \<open>The callbacks that a session may contain, each with the shared state it finds.\<close>

datatype av_op = Read_integer u64 int | Read_enumerated u64 nat | Write_integer u64 int | Write_enumerated u64 u32 | Read_event

fun av_step :: "av_env \<Rightarrow> av_op \<times> av_state \<Rightarrow> arcam_ctl \<times> arcam_proc \<Rightarrow> arcam_ctl \<times> arcam_proc" where
  "av_step E (Read_integer key v, g) (c, p) = (snd (snd (arcam_av_read_integer c g key v)), p)"
| "av_step E (Read_enumerated key v, g) (c, p) = (snd (snd (arcam_av_read_enumerated c g key v)), p)"
| "av_step E (Write_integer key v, g) (c, p) =
     (let (_, c, _, a) = arcam_av_write_integer E c g key v (ap_av p) in (c, p\<lparr>ap_av := a\<rparr>))"
| "av_step E (Write_enumerated key v, g) (c, p) =
     (let (_, c, _, a) = arcam_av_write_enumerated E c g key v (ap_av p) in (c, p\<lparr>ap_av := a\<rparr>))"
| "av_step E (Read_event, g) (c, p) = (let (_, _, c, p) = arcam_av_read_event E c g p in (c, p))"

definition holds_open :: "int multiset \<Rightarrow> arcam_ctl \<times> arcam_proc \<Rightarrow> bool" where
  "holds_open base cp \<longleftrightarrow> 0 \<le> ac_port_fd (fst cp) \<and> ap_open (snd cp) = base + conn_bag (fst cp)"

lemma write_command_ctl: "fst (snd (write_command E c g key b a)) = c"
  by (simp add: write_command_def case_prod_beta)

lemma conn_bag_cong: "ac_port_fd c' = ac_port_fd c \<Longrightarrow> ac_poll_fd c' = ac_poll_fd c \<Longrightarrow> conn_bag c' = conn_bag c"
  by (simp add: conn_bag_def)

lemma callbacks_keep_fds:
  "ac_port_fd (snd (snd (arcam_av_read_integer c g key v))) = ac_port_fd c"
  "ac_poll_fd (snd (snd (arcam_av_read_integer c g key v))) = ac_poll_fd c"
  "ac_port_fd (snd (snd (arcam_av_read_enumerated c g key i))) = ac_port_fd c"
  "ac_poll_fd (snd (snd (arcam_av_read_enumerated c g key i))) = ac_poll_fd c"
  "ac_port_fd (fst (snd (arcam_av_write_integer E c g key v a))) = ac_port_fd c"
  "ac_poll_fd (fst (snd (arcam_av_write_integer E c g key v a))) = ac_poll_fd c"
  "ac_port_fd (fst (snd (arcam_av_write_enumerated E c g key w a))) = ac_port_fd c"
  "ac_poll_fd (fst (snd (arcam_av_write_enumerated E c g key w a))) = ac_poll_fd c"
  by (simp_all add: arcam_av_read_integer_def arcam_av_read_enumerated_def arcam_av_write_integer_def arcam_av_write_enumerated_def
      write_command_ctl slot_simps Let_def split: option.splits)

lemma event_holds:
  assumes "holds_open base (c, p)" "\<forall>fd \<in># base. 0 \<le> fd" "arcam_av_read_event E c g p = (r, ev, c', p')"
  shows "holds_open base (c', p')"
proof (cases "first_diff (zone_array (ac_zone c) (ac_local c)) (zone_array (ac_zone c) g)")
  case None
  have neg: "base + {#ac_port_fd c#} - {#ac_poll_fd c#} = base + {#ac_port_fd c#}" if "ac_poll_fd c < 0"
    using that assms(1,2) by (intro diff_single_trivial) (auto simp: holds_open_def)
  have "base + conn_bag c - {#ac_poll_fd c#} = base + {#ac_port_fd c#}"
    using neg by (auto simp: conn_bag_def)
  then show ?thesis using assms(1,3) None
    by (auto simp: holds_open_def arcam_av_read_event_def case_prod_beta Let_def ap_simps conn_bag_def add_mset_commute split: if_splits)
next
  case (Some i)
  then show ?thesis using assms(1,3) conn_bag_cong [of c' c]
    by (auto simp: holds_open_def arcam_av_read_event_def Let_def slot_simps)
qed

lemma step_holds:
  assumes "holds_open base cp" "\<forall>fd \<in># base. 0 \<le> fd"
  shows "holds_open base (av_step E og cp)"
proof -
  obtain c p where cp: "cp = (c, p)" by fastforce
  obtain op g where og: "og = (op, g)" by fastforce
  have keep: "holds_open base (c', p')" if "ac_port_fd c' = ac_port_fd c" "ac_poll_fd c' = ac_poll_fd c" "ap_open p' = ap_open p" for c' p'
    using assms(1) that conn_bag_cong [OF that(1,2)] by (simp add: holds_open_def cp)
  show ?thesis
  proof (cases op)
    case Read_event
    then show ?thesis using event_holds [OF _ assms(2)] assms(1) by (auto simp: og cp split: prod.splits)
  qed (use keep callbacks_keep_fds in \<open>simp_all add: og cp case_prod_beta Let_def\<close>)
qed


subsection \<open>The error paths of open\<close>

text \<open>
  with a port that cannot be accessed, open does not return its error: the error path
  closes a structure that has not been allocated yet, through the null pointer.
\<close>

theorem arcam_ctl_open_traps:
  assumes "arcam_av_conf C conf (''/dev/ttyS0'', 1) = Inr pz" "fst (av_ret E (av_calls (ap_av p))) < 0"
  shows "arcam_av_open C ok create E conf p = None"
  using assms by (cases pz) (simp add: arcam_av_open_def ap_call_def av_call_def case_prod_beta)

text \<open>
  When no thread can be created, \<open>pthread_create\<close> returns an error number without setting
  \<open>errno\<close>: open then returns 0, success, with nothing opened, if no earlier call failed.
\<close>

lemma arcam_ctl_open_zero:
  assumes "av_ret E = (\<lambda>n. if n = 5 then (11, 0) else if n = 1 then (3, 0) else (0, 0))" "av_calls (ap_av p) = 0" "av_errno (ap_av p) = 0"
    "arcam_av_conf C conf (''/dev/ttyS0'', 1) = Inr pz"
  shows "\<exists>p'. arcam_av_open C True create E conf p = Some (0, None, p')"
  using assms by (cases pz) (simp add: arcam_av_open_def open_failed_def ap_call_def ap_opened_def av_call_def arcam_av_connect_def
      arcam_av_server_start_def Let_def)

subsection \<open>Witnesses\<close>

definition demo_session_env :: av_env where
  "demo_session_env = demo_av_env\<lparr>av_ret := (\<lambda>n. if n = 1 then (3, 0) else if n = 8 then (4, 0) else (0, 0))\<rparr>"

definition demo_proc :: arcam_proc where
  "demo_proc = \<lparr>ap_av = demo_av, ap_open = {#7#}\<rparr>"

definition demo_av_conf :: "unit config_api" where
  "demo_av_conf = \<lparr>cfg_id = (\<lambda>_. None), cfg_integer = (\<lambda>_. None), cfg_string = (\<lambda>_. None), cfg_error = (\<lambda>_. - 22)\<rparr>"

definition demo_arcam :: "av_zone \<Rightarrow> arcam_ctl" where
  "demo_arcam z = \<lparr>ac_port_fd = 3, ac_poll_fd = 4, ac_zone = z, ac_local = zero_state, ac_global = True\<rparr>"


theorem arcam_ctl_open_traps_witness:
  "arcam_av_open demo_av_conf True 0 (demo_av_env\<lparr>av_ret := \<lambda>_. (- 1, 13)\<rparr>) [] demo_proc = None"
  by (rule arcam_ctl_open_traps) simp_all

theorem arcam_ctl_elements_roundtrip_witness:
  "arcam_av_find_elem (demo_arcam Zone2) 0 ''Source Playback Route'' = KEY_SOURCE"
  using arcam_ctl_elements_roundtrip [of 3 "demo_arcam Zone2"]
  by (auto simp: demo_arcam_def arcam_av_elem_count_def arcam_av_elem_list_def zone_table_def arcam_av_zone2_def Let_def)

lemma demo_writes: "writes_ok (demo_av_env\<lparr>av_ret := \<lambda>_. (7, 0)\<rparr>)"
  by (simp add: writes_ok_def)


theorem arcam_ctl_volume_roundtrip_witness:
  "\<exists>c' global' a' c''. arcam_av_write_integer (demo_av_env\<lparr>av_ret := \<lambda>_. (7, 0)\<rparr>) (demo_arcam Zone2)
      (slot_put Zone2 2 ARCAM_AV_MUTE_ON zero_state) KEY_VOLUME_SET 50 demo_av = (1, c', global', a')
    \<and> a' = demo_av \<and> arcam_av_read_integer c' global' KEY_VOLUME_SET 0 = (0, 50, c'')"
proof -
  let ?g = "slot_put Zone2 2 ARCAM_AV_MUTE_ON zero_state"
  have g: "slot_get Zone2 2 ?g = ARCAM_AV_MUTE_ON" "slot_get Zone2 1 ?g = 0"
    by (simp_all add: slot_simps slots_def) (simp add: slot_get_def zone_array_def zone2_array_def zero_state_def zone2_struct_def)
  obtain c' global' a' where w: "arcam_av_write_integer (demo_av_env\<lparr>av_ret := \<lambda>_. (7, 0)\<rparr>) (demo_arcam Zone2) ?g KEY_VOLUME_SET 50 demo_av = (1, c', global', a')"
    using g by (simp add: arcam_av_write_integer_def demo_arcam_def Let_def)
  have "arcam_av_get_integer_info (demo_arcam Zone2) KEY_VOLUME_SET = Inr (20, 83, 1)"
    by (simp add: arcam_av_get_integer_info_def demo_arcam_def)
  from arcam_ctl_volume_roundtrip [OF demo_writes this _ _ w, of 0] w g show ?thesis by (auto simp: demo_arcam_def)
qed


theorem arcam_ctl_events_swapped_witness:
  "\<exists>c' p'. arcam_av_read_event demo_session_env (demo_arcam Zone1) (slot_put Zone1 7 0x31 zero_state) demo_proc
      = (1, Some (''Multi-Channel Decode Playback Route'', 8), c', p')
    \<and> key_slot Zone1 (arcam_av_find_elem (demo_arcam Zone1) 8 ''Multi-Channel Decode Playback Route'') = Some 8"
proof -
  let ?g = "slot_put Zone1 7 0x31 zero_state" and ?c = "demo_arcam Zone1"
  have d: "diffs (zone_array (ac_zone ?c) (ac_local ?c)) (zone_array (ac_zone ?c) ?g) = [7]"
    by (simp add: slot_simps demo_arcam_def) (simp add: diffs_def zone_array_def zone1_array_def zero_state_def zone1_struct_def upt_rec)
  obtain c' p' where e: "arcam_av_read_event demo_session_env ?c ?g demo_proc = (1, Some (''Multi-Channel Decode Playback Route'', 8), c', p')"
    using read_event_some [OF d] by (simp add: demo_arcam_def zone_table_def arcam_av_zone1_def)
  obtain i where i: "slot_get Zone1 i (ac_local ?c) \<noteq> slot_get Zone1 i ?g" "i < slots Zone1"
    "key_slot Zone1 (arcam_av_find_elem ?c (word_of_nat 8) ''Multi-Channel Decode Playback Route'') = Some (if i < 7 then i else 15 - i)"
    using arcam_ctl_events_swapped [OF e] by (auto simp: demo_arcam_def)
  have "i = 7" using i(1,2) by (cases "i = 7") (auto simp: slot_simps slot_get_def demo_arcam_def)
  then show ?thesis using e i(3) by simp
qed

end
