(* ===== verification/Areas.thy ===== *)
theory Areas
  imports Alsa
begin

section \<open>Channel areas: samples in memory\<close>

text \<open>
  \<open>snd_pcm_channel_area_t\<close> and the two address computations the mixing plugins make from
  it (\<open>area_addr\<close> of mix/pcm_upmix.c and mix/pcm_vdownmix.c). Memory is a map from the
  byte address of a 16-bit sample to the sample; \<open>peek\<close> and \<open>poke\<close> read and write a
  run of samples through a stepping pointer, which is what every loop of the two plugins does.
  \<open>area_fits\<close> is the layout under which samples never overlap and the 32-bit bit offset
  does not wrap; on it a frame has one address (\<open>frame_addr\<close>) however it is reached.
\<close>

type_synonym s16 = "16 word"
type_synonym smem = "nat \<Rightarrow> s16"

record area =
  ar_addr :: nat
  ar_first :: u32
  ar_step :: u32

definition area_addr :: "area \<Rightarrow> u64 \<Rightarrow> nat" where
  "area_addr a offset =
     (let bitofs = ucast (ucast (ar_first a) + ucast (ar_step a) * offset) :: u32
      in ar_addr a + unat (bitofs div 8))"

subsection \<open>Runs of samples\<close>

definition peek :: "nat \<Rightarrow> nat \<Rightarrow> nat \<Rightarrow> (nat \<Rightarrow> 'a) \<Rightarrow> 'a list" where
  "peek p s n mem = map (\<lambda>k. mem (p + s * k)) [0..<n]"

fun poke :: "nat \<Rightarrow> nat \<Rightarrow> s16 list \<Rightarrow> smem \<Rightarrow> smem" where
  "poke p s [] mem = mem"
| "poke p s (x # xs) mem = poke (p + s) s xs (mem(p := x))"

definition cells :: "nat \<Rightarrow> nat \<Rightarrow> nat \<Rightarrow> nat set" where
  "cells p s n = (\<lambda>k. p + s * k) ` {..<n}"

named_theorems mem_simps \<open>reading and writing runs of samples\<close>

lemma length_peek [simp]: "length (peek p s n mem) = n"
  by (simp add: peek_def)

lemma peek_0 [simp]: "peek p s 0 mem = []"
  by (simp add: peek_def)

lemma peek_Suc [mem_simps]: "peek p s (Suc n) mem = mem p # peek (p + s) s n mem"
  by (simp add: peek_def upt_conv_Cons map_Suc_upt [symmetric] del: upt_Suc)
    (simp add: comp_def add.assoc)

lemma peek_snoc: "peek p s (Suc n) mem = peek p s n mem @ [mem (p + s * n)]"
  by (simp add: peek_def)

lemma peek_add: "peek p s (m + n) mem = peek p s m mem @ peek (p + s * m) s n mem"
  by (rule nth_equalityI) (auto simp: peek_def nth_append algebra_simps)

lemma take_peek: "take k (peek p s n mem) = peek p s (min k n) mem"
  by (simp add: peek_def take_map min_def)

lemma drop_peek: "drop k (peek p s n mem) = peek (p + s * k) s (n - k) mem"
  by (rule nth_equalityI) (auto simp: peek_def algebra_simps)

lemma peek_cong: "(\<And>a. a \<in> cells p s n \<Longrightarrow> mem a = mem' a) \<Longrightarrow> peek p s n mem = peek p s n mem'"
  unfolding peek_def by (rule map_cong) (auto simp: cells_def intro: imageI)

lemma cells_Suc: "cells p s (Suc n) = insert p (cells (p + s) s n)"
  by (auto simp: cells_def lessThan_Suc_eq_insert_0 image_image add.assoc)

lemma cells_0 [simp]: "cells p s 0 = {}"
  by (simp add: cells_def)

lemma cells_add: "cells p s (m + n) = cells p s m \<union> cells (p + s * m) s n"
proof (induction m arbitrary: p)
  case (Suc m)
  then show ?case by (simp add: cells_Suc ac_simps)
qed simp

lemma poke_other [mem_simps]: "a \<notin> cells p s (length xs) \<Longrightarrow> poke p s xs mem a = mem a"
  by (induction p s xs mem rule: poke.induct) (auto simp: cells_Suc)

lemma notin_later_cells: "0 < s \<Longrightarrow> p \<notin> cells (p + s) s n"
  by (auto simp: cells_def)

lemma peek_poke [mem_simps]: "0 < s \<Longrightarrow> peek p s (length xs) (poke p s xs mem) = xs"
proof (induction p s xs mem rule: poke.induct)
  case (2 p s x xs mem)
  then show ?case by (simp add: peek_Suc poke_other notin_later_cells fun_upd_def)
qed simp

lemma peek_poke_other [mem_simps]:
  "cells p s n \<inter> cells q t (length xs) = {} \<Longrightarrow> peek p s n (poke q t xs mem) = peek p s n mem"
  by (rule peek_cong) (auto simp: poke_other disjoint_iff)

lemma poke_append: "poke p s (xs @ ys) mem = poke (p + s * length xs) s ys (poke p s xs mem)"
  by (induction p s xs mem rule: poke.induct) (simp_all add: algebra_simps fun_upd_def)

lemma poke_upd_swap:
  "q \<notin> cells p s (length xs) \<Longrightarrow> (poke p s xs mem)(q := y) = poke p s xs (mem(q := y))"
proof (induction p s xs mem rule: poke.induct)
  case (2 p s x xs mem)
  then have "(mem(p := x))(q := y) = (mem(q := y))(p := x)"
    by (intro fun_upd_twist) (auto simp: cells_Suc)
  then show ?case using 2 by (simp add: cells_Suc fun_upd_def)
qed simp

lemma poke_poke_swap:
  "cells p s (length xs) \<inter> cells q t (length ys) = {} \<Longrightarrow>
     poke p s xs (poke q t ys mem) = poke q t ys (poke p s xs mem)"
proof (induction p s xs mem rule: poke.induct)
  case (2 p s x xs mem)
  then have "(poke q t ys mem)(p := x) = poke q t ys (mem(p := x))"
    by (intro poke_upd_swap) (auto simp: cells_Suc)
  moreover have "cells (p + s) s (length xs) \<inter> cells q t (length ys) = {}"
    using "2.prems" by (auto simp: cells_Suc)
  ultimately show ?case using "2.IH" by (simp only: poke.simps)
qed simp

subsection \<open>Areas whose samples do not overlap\<close>

definition area_fits :: "area \<Rightarrow> nat \<Rightarrow> bool" where
  "area_fits a n \<longleftrightarrow> even (ar_addr a) \<and> 16 dvd unat (ar_first a) \<and> 16 dvd unat (ar_step a)
     \<and> 0 < unat (ar_step a) \<and> unat (ar_first a) + unat (ar_step a) * n < 2 ^ 32"

definition frame_addr :: "area \<Rightarrow> nat \<Rightarrow> nat" where
  "frame_addr a i = ar_addr a + (unat (ar_first a) + unat (ar_step a) * i) div 8"

text \<open>The bytes from a frame of an area to the next.\<close>

definition pitch :: "area \<Rightarrow> nat" where
  "pitch a = unat (ar_step a) div 8"

definition chan :: "area \<Rightarrow> nat \<Rightarrow> nat \<Rightarrow> smem \<Rightarrow> s16 list" where
  "chan a off n mem = peek (frame_addr a off) (pitch a) n mem"

definition chan_cells :: "area \<Rightarrow> nat \<Rightarrow> nat \<Rightarrow> nat set" where
  "chan_cells a off n = cells (frame_addr a off) (pitch a) n"

lemma area_fits_mono: "area_fits a n \<Longrightarrow> m \<le> n \<Longrightarrow> area_fits a m"
  unfolding area_fits_def by (meson add_left_mono le_less_trans mult_le_mono2)

lemma area_fits_less: "area_fits a n \<Longrightarrow> n < 2 ^ 28"
proof -
  assume a: "area_fits a n"
  then have "16 dvd unat (ar_step a)" by (simp add: area_fits_def)
  then obtain j where j: "unat (ar_step a) = 16 * j" by (rule dvdE)
  with a have "16 * j * n < 2 ^ 32" "0 < j" by (auto simp: area_fits_def)
  then have "16 * n < 2 ^ 32" using le_less_trans [of "16 * n" "16 * j * n"] by simp
  then show ?thesis by simp
qed

lemma pitch_pos: "area_fits a n \<Longrightarrow> 0 < pitch a"
  by (auto simp: area_fits_def pitch_def)

lemma even_pitch: "area_fits a n \<Longrightarrow> even (pitch a)"
  by (auto simp: area_fits_def pitch_def)

lemma frame_addr_add:
  assumes "area_fits a n"
  shows "frame_addr a (i + k) = frame_addr a i + pitch a * k"
proof -
  obtain f s where "unat (ar_first a) = 16 * f" "unat (ar_step a) = 16 * s"
    using assms unfolding area_fits_def by (meson dvdE)
  then show ?thesis by (simp add: frame_addr_def pitch_def algebra_simps)
qed

lemma area_addr_frame:
  assumes "area_fits a n" "unat off \<le> n"
  shows "area_addr a off = frame_addr a (unat off)"
proof -
  have lim: "unat (ar_first a) + unat (ar_step a) * unat off < 2 ^ 32"
    using area_fits_mono [OF assms] by (simp add: area_fits_def)
  have m: "unat (ucast (ar_step a) * off :: u64) = unat (ar_step a) * unat off"
    using lim by (subst unat_mult_lem [THEN iffD1]) (auto simp: word_nat)
  then have "unat (ucast (ar_first a) + ucast (ar_step a) * off :: u64)
      = unat (ar_first a) + unat (ar_step a) * unat off"
    using lim by (subst unat_plus_u64) (auto simp: word_nat)
  then show ?thesis
    using lim by (simp add: area_addr_def frame_addr_def Let_def unat_div word_nat)
qed

lemma chan_0 [simp]: "chan a off 0 mem = []"
  by (simp add: chan_def)

lemma length_chan [simp]: "length (chan a off n mem) = n"
  by (simp add: chan_def)

lemma chan_add:
  "area_fits a N \<Longrightarrow> chan a off (m + n) mem = chan a off m mem @ chan a (off + m) n mem"
  by (simp add: chan_def peek_add frame_addr_add)

lemma chan_cells_add:
  "area_fits a N \<Longrightarrow> chan_cells a off (m + n) = chan_cells a off m \<union> chan_cells a (off + m) n"
  by (simp add: chan_cells_def cells_add frame_addr_add)

lemma chan_cells_part:
  assumes "area_fits a (off + N)" "k + n \<le> N"
  shows "chan_cells a (off + k) n \<subseteq> chan_cells a off N"
proof -
  have "chan_cells a off (k + (n + (N - k - n))) = chan_cells a off k \<union>
      (chan_cells a (off + k) n \<union> chan_cells a (off + k + n) (N - k - n))"
    by (simp only: chan_cells_add [OF assms(1)])
  then show ?thesis using assms(2) by auto
qed

lemma disjoint_mono: "A' \<inter> B' = {} \<Longrightarrow> A \<subseteq> A' \<Longrightarrow> B \<subseteq> B' \<Longrightarrow> A \<inter> B = {}"
  by blast

lemma chan_cong:
  "(\<And>b. b \<in> chan_cells a off n \<Longrightarrow> mem b = mem' b) \<Longrightarrow> chan a off n mem = chan a off n mem'"
  unfolding chan_def chan_cells_def by (rule peek_cong) auto

end
