(* ===== verification/Vdownmix.thy ===== *)
theory Vdownmix
  imports Areas
begin

section \<open>The vdownmix plugin (mix/pcm_vdownmix.c)\<close>

text \<open>
  4, 5 or 6 channels of 16-bit samples to two, each source channel through a filter given by
  taps (delay and weight) over a ring of the last 128 frames. The model follows the build
  without \<open>I_AM_POWERFUL\<close>, as the file has it: \<open>taps\<close> says how many entries of the
  table are used. The accumulators are C ints; the code lets them overflow, which is undefined
  in C and wraps here (\<open>c_int\<close>). The definitions are \<open>vdownmix_transfer\<close> with its
  loops, \<open>vdownmix_init\<close>, the channel maps and the constructor of the plugin.
\<close>

unbundle bit_operations_syntax

abbreviation (input) RINGBUF_SIZE :: int where "RINGBUF_SIZE \<equiv> 128"
abbreviation (input) RINGBUF_MASK :: int where "RINGBUF_MASK \<equiv> 127"

type_synonym vdownmix_tap = "int \<times> int"

record vdownmix_filter =
  vf_taps :: nat
  vf_tap :: "vdownmix_tap list"

record vdownmix =
  vd_channels :: int
  vd_curpos :: u32
  vd_rbuf :: "s16 list list"

definition tap_filters :: "vdownmix_filter list" where
  "tap_filters = [
     \<lparr>vf_taps = 14, vf_tap =
       [(0, c_int 0xfffffd0a), (1, 0x41d), (2, c_int 0xffffe657), (3, 0x6eb5),
        (4, c_int 0xffffe657), (5, 0x41d), (6, c_int 0xfffffd0a), (71, c_int 0xffffff1c),
        (72, 0x12e), (73, c_int 0xfffff81a), (74, 0x24de), (75, c_int 0xfffff81a),
        (76, 0x12e), (77, c_int 0xffffff1c), (265, c_int 0xfffffc65), (266, 0xee1),
        (267, c_int 0xfffffc65), (395, 0x46a)]\<rparr>,
     \<lparr>vf_taps = 10, vf_tap =
       [(8, 0xcf), (9, 0xa7b), (10, 0xcd7), (11, 0x5b3), (12, 0x859), (13, 0xaf),
        (80, 0x38b), (81, 0x454), (82, 0x218), (83, 0x2c1), (268, 0x58b), (275, 0xc2),
        (397, 0xbd), (398, 0x1e8), (506, c_int 0xfffffeac), (507, 0x636),
        (508, c_int 0xfffffeac)]\<rparr>,
     \<lparr>vf_taps = 1, vf_tap =
       [(3, 0x4000), (125, 0x12a), (126, 0xda1), (127, 0x12a), (193, c_int 0xfffffed3),
        (194, 0xdb9), (195, c_int 0xfffffed3), (454, 0x10a), (483, c_int 0xfffffe97),
        (484, 0x698), (485, c_int 0xfffffe97)]\<rparr>,
     \<lparr>vf_taps = 10, vf_tap =
       [(5, 0x1cb), (6, 0x9c5), (7, 0x117e), (8, 0x200), (9, 0x533), (10, 0x1c6),
        (11, 0x167), (12, 0x5ff), (13, 0x425), (14, 0xd9), (128, 0x247), (129, 0x5e1),
        (130, 0xb7), (131, 0x122), (135, 0x10a), (200, 0x1b6), (201, 0xa7), (202, 0x188),
        (203, 0x1d9), (445, c_int 0xffffff44), (446, 0x5e2), (447, c_int 0xffffff44),
        (484, c_int 0xffffff51), (485, 0x449), (486, c_int 0xffffff51)]\<rparr>,
     \<lparr>vf_taps = 7, vf_tap =
       [(0, c_int 0xfffffdee), (1, 0x28b), (2, c_int 0xffffed1e), (3, 0x6336),
        (4, c_int 0xffffed1e), (5, 0x28b), (6, c_int 0xfffffdee), (51, c_int 0xffffff2c),
        (52, 0x105), (53, c_int 0xfffff86b), (54, 0x27d9), (55, c_int 0xfffff86b),
        (56, 0x105), (57, c_int 0xffffff2c), (333, c_int 0xfffffd69), (334, 0xb2f),
        (335, c_int 0xfffffd69), (339, 0xdf), (340, 0x168), (342, 0xa6), (343, 0xba)]\<rparr>]"

definition tap_index :: "nat list list" where
  "tap_index = [[0, 1], [1, 0], [2, 3], [3, 2], [4, 4]]"

definition vd_area_step :: "area \<Rightarrow> u32" where
  "vd_area_step a = ar_step a div 8"

subsection \<open>One frame\<close>

text \<open>
  \<open>vd_taps\<close> is the innermost loop, over the taps of a filter; \<open>vd_channel\<close> the body
  of the loop over the channels (the sample enters the ring, both outputs accumulate);
  \<open>vd_frame\<close> the loop over the channels of one frame.
\<close>

fun vd_taps :: "s16 list list \<Rightarrow> nat \<Rightarrow> int \<Rightarrow> vdownmix_tap list \<Rightarrow> int \<Rightarrow> int" where
  "vd_taps rbuf ch curpos [] acc = acc"
| "vd_taps rbuf ch curpos ((delay, weight) # ts) acc =
     (let p = (curpos + RINGBUF_SIZE - delay) AND RINGBUF_MASK
      in vd_taps rbuf ch curpos ts (c_int (acc + sint (rbuf ! nat p ! ch) * weight)))"

definition vd_filter :: "s16 list list \<Rightarrow> nat \<Rightarrow> int \<Rightarrow> nat \<Rightarrow> int \<Rightarrow> int" where
  "vd_filter rbuf ch curpos idx acc =
     (let filter = tap_filters ! (tap_index ! ch ! idx)
      in vd_taps rbuf ch curpos (take (vf_taps filter) (vf_tap filter)) acc)"

definition vd_channel ::
  "int \<Rightarrow> nat \<Rightarrow> s16 \<Rightarrow> s16 list list \<times> int \<times> int \<Rightarrow> s16 list list \<times> int \<times> int" where
  "vd_channel curpos ch x = (\<lambda>(rbuf, acc0, acc1).
     (let rbuf = rbuf[nat curpos := (rbuf ! nat curpos)[ch := x]]
      in (rbuf, vd_filter rbuf ch curpos 0 acc0, vd_filter rbuf ch curpos 1 acc1)))"

fun vd_channels_loop ::
  "int \<Rightarrow> nat \<Rightarrow> s16 list \<Rightarrow> s16 list list \<times> int \<times> int \<Rightarrow> s16 list list \<times> int \<times> int" where
  "vd_channels_loop curpos ch [] st = st"
| "vd_channels_loop curpos ch (x # xs) st =
     vd_channels_loop curpos (Suc ch) xs (vd_channel curpos ch x st)"

definition vd_clip :: "int \<Rightarrow> s16" where
  "vd_clip acc =
     (let acc = drop_bit 14 acc
      in if acc < - 32768 then word_of_int (- 32768)
         else if acc > 32767 then word_of_int 32767
         else word_of_int acc)"

definition vd_frame :: "int \<Rightarrow> s16 list list \<Rightarrow> s16 list \<Rightarrow> int \<times> s16 list list \<times> s16 \<times> s16" where
  "vd_frame curpos rbuf xs =
     (let (rbuf, acc0, acc1) = vd_channels_loop curpos 0 xs (rbuf, 0, 0)
      in ((curpos + 1) AND RINGBUF_MASK, rbuf, vd_clip acc0, vd_clip acc1))"

subsection \<open>The transfer callback\<close>

text \<open>
  \<open>src\<close> and \<open>ptr\<close> are the running pointers, one per channel, with their steps in
  samples (two bytes each). The frame counter is the C int \<open>fr = size\<close>; a size that turns
  negative there makes the countdown overflow: \<open>None\<close>.
\<close>

fun vd_loop :: "nat \<Rightarrow> int \<Rightarrow> s16 list list \<Rightarrow> nat list \<Rightarrow> u32 list \<Rightarrow> nat \<times> nat \<Rightarrow> u32 \<times> u32 \<Rightarrow> smem
    \<Rightarrow> int \<times> s16 list list \<times> smem" where
  "vd_loop 0 curpos rbuf src src_step ptr step mem = (curpos, rbuf, mem)"
| "vd_loop (Suc fr) curpos rbuf src src_step ptr step mem =
     (let (curpos, rbuf, y0, y1) = vd_frame curpos rbuf (map mem src);
          mem = mem(fst ptr := y0);
          mem = mem(snd ptr := y1)
      in vd_loop fr curpos rbuf (map2 (\<lambda>p s. p + 2 * unat s) src src_step) src_step
           (fst ptr + 2 * unat (fst step), snd ptr + 2 * unat (snd step)) step mem)"

definition vdownmix_transfer ::
  "vdownmix \<Rightarrow> area list \<Rightarrow> u64 \<Rightarrow> area list \<Rightarrow> u64 \<Rightarrow> u64 \<Rightarrow> smem \<Rightarrow> (u64 \<times> vdownmix \<times> smem) option" where
  "vdownmix_transfer mix dst_areas dst_offset src_areas src_offset sz mem =
     (let ptr = (area_addr (dst_areas ! 0) dst_offset, area_addr (dst_areas ! 1) dst_offset);
          step = (vd_area_step (dst_areas ! 0) div 2, vd_area_step (dst_areas ! 1) div 2);
          chs = [0..<nat (vd_channels mix)];
          src = map (\<lambda>ch. area_addr (src_areas ! ch) src_offset) chs;
          src_step = map (\<lambda>ch. vd_area_step (src_areas ! ch) div 2) chs;
          fr = c_int (uint sz)
      in if fr < 0 then None
         else let (curpos, rbuf, mem) =
                vd_loop (nat fr) (c_int (uint (vd_curpos mix))) (vd_rbuf mix) src src_step ptr step mem
              in Some (sz, mix\<lparr>vd_curpos := word_of_int curpos, vd_rbuf := rbuf\<rparr>, mem))"

definition vdownmix_init :: "extplug \<Rightarrow> vdownmix \<Rightarrow> int \<times> vdownmix" where
  "vdownmix_init ext mix =
     (let channels = c_int (uint (ext_channels ext));
          channels = (if channels > 5 then 5 else channels)
      in (0, mix\<lparr>vd_channels := channels, vd_curpos := 0,
               vd_rbuf := replicate 128 (replicate 5 0)\<rparr>))"

subsection \<open>Channel maps and the constructor\<close>

text \<open>
  The map functions allocate; \<open>alloc k\<close> says whether the k-th allocation of the call
  succeeds. The query frees what it has and returns \<open>NULL\<close> when one fails.
\<close>

definition vd_chmap :: "chmap_pos list" where
  "vd_chmap = [CHMAP_FL, CHMAP_FR, CHMAP_RL, CHMAP_RR, CHMAP_FC, CHMAP_LFE]"

fun vd_query_loop :: "(nat \<Rightarrow> bool) \<Rightarrow> nat list \<Rightarrow> chmap list \<Rightarrow> chmap list option" where
  "vd_query_loop alloc [] maps = Some maps"
| "vd_query_loop alloc (i # is) maps =
     (if \<not> alloc (Suc i) then None
      else vd_query_loop alloc is (maps @ [\<lparr>cm_channels = i + 4, cm_pos = take (i + 4) vd_chmap\<rparr>]))"

definition vdownmix_query_chmaps :: "(nat \<Rightarrow> bool) \<Rightarrow> chmap list option" where
  "vdownmix_query_chmaps alloc = (if \<not> alloc 0 then None else vd_query_loop alloc [0..<3] [])"

definition vdownmix_get_chmap :: "bool \<Rightarrow> extplug \<Rightarrow> chmap option" where
  "vdownmix_get_chmap alloc ext =
     (if ext_channels ext < 4 \<or> ext_channels ext > 6 then None
      else if \<not> alloc then None
      else Some \<lparr>cm_channels = unat (ext_channels ext),
                 cm_pos = take (unat (ext_channels ext)) vd_chmap\<rparr>)"

text \<open>
  The configuration loop returns the slave node; the constructor then allocates, creates the
  extplug (\<open>create\<close>, alsa-lib's) and sets its parameters. A value \<open>Inr\<close> is the
  return value 0 with the plugin and the parameter calls made.
\<close>

fun vdownmix_conf :: "'n config_api \<Rightarrow> 'n list \<Rightarrow> 'n option \<Rightarrow> int + 'n option" where
  "vdownmix_conf C [] sconf = Inr sconf"
| "vdownmix_conf C (n # ns) sconf =
     (case cfg_id C n of
        None \<Rightarrow> vdownmix_conf C ns sconf
      | Some key \<Rightarrow>
          if cfg_skipped key then vdownmix_conf C ns sconf
          else if key = ''slave'' then vdownmix_conf C ns (Some n)
          else Inl (- EINVAL))"

definition vdownmix_open ::
  "'n config_api \<Rightarrow> bool \<Rightarrow> ('n \<Rightarrow> int) \<Rightarrow> 'n list \<Rightarrow> int + vdownmix \<times> ext_call list" where
  "vdownmix_open C alloc create conf =
     (case vdownmix_conf C conf None of
        Inl err \<Rightarrow> Inl err
      | Inr None \<Rightarrow> Inl (- EINVAL)
      | Inr (Some sconf) \<Rightarrow>
          if \<not> alloc then Inl (- ENOMEM)
          else
            let mix = \<lparr>vd_channels = 0, vd_curpos = 0, vd_rbuf = replicate 128 (replicate 5 0)\<rparr>;
                err = create sconf
            in if err < 0 then Inl err
               else Inr (mix, [Set_param_minmax HW_CHANNELS 4 6, Set_slave_param HW_CHANNELS 2,
                               Set_param HW_FORMAT S16, Set_slave_param HW_FORMAT S16]))"

end
