(* ===== verification/VdownmixProofs.thy ===== *)
theory VdownmixProofs
  imports Vdownmix
begin

section \<open>The downmix is a pair of FIR filters on a stream\<close>

text \<open>
  The accumulators in closed form (a wrapped sum of products), the ring as the history of the
  last 128 frames, the frame loop as a stream machine (an interpretation of
  \<open>stream_transducer\<close>: where the stream is cut into transfers does not matter), and the
  memory-level callback as a refinement of that machine.
\<close>

subsection \<open>The accumulators\<close>

lemma c_int_c_int [simp]: "c_int (c_int x) = c_int x"
  by (simp add: c_int_def)

lemma c_int_add [simp]: "c_int (c_int x + y) = c_int (x + y)"
  unfolding c_int_def by (metis signed_take_bit_add signed_take_bit_signed_take_bit min.idem)

lemma c_int_0 [simp]: "c_int 0 = 0"
  by (simp add: c_int_def)

definition ring_tap :: "s16 list list \<Rightarrow> nat \<Rightarrow> int \<Rightarrow> vdownmix_tap \<Rightarrow> int" where
  "ring_tap rbuf ch curpos t = sint (rbuf ! nat ((curpos + 128 - fst t) mod 128) ! ch) * snd t"

definition used_taps :: "nat \<Rightarrow> nat \<Rightarrow> vdownmix_tap list" where
  "used_taps ch idx = (let f = tap_filters ! (tap_index ! ch ! idx) in take (vf_taps f) (vf_tap f))"

lemma ring_index: "(x :: int) AND 127 = x mod 128"
  using take_bit_eq_mask [of 7 x] by (simp add: take_bit_eq_mod mask_eq_exp_minus_1)

lemma vd_taps_sum:
  "vd_taps rbuf ch curpos ts (c_int a) = c_int (a + (\<Sum>t\<leftarrow>ts. ring_tap rbuf ch curpos t))"
  by (induction ts arbitrary: a) (auto simp: ring_tap_def ring_index add.assoc)

lemma vd_filter_sum:
  "vd_filter rbuf ch curpos idx (c_int a) =
     c_int (a + (\<Sum>t\<leftarrow>used_taps ch idx. ring_tap rbuf ch curpos t))"
  by (simp add: vd_filter_def used_taps_def vd_taps_sum Let_def)

text \<open>The ring after the samples of one frame have entered it.\<close>

fun row_write :: "nat \<Rightarrow> s16 list \<Rightarrow> s16 list \<Rightarrow> s16 list" where
  "row_write ch [] row = row"
| "row_write ch (x # xs) row = row_write (Suc ch) xs (row[ch := x])"

lemma length_row_write [simp]: "length (row_write ch xs row) = length row"
  by (induction ch xs row rule: row_write.induct) auto

lemma nth_row_write:
  "ch + length xs \<le> length row \<Longrightarrow>
     row_write ch xs row ! j = (if ch \<le> j \<and> j < ch + length xs then xs ! (j - ch) else row ! j)"
proof (induction ch xs row rule: row_write.induct)
  case (2 ch x xs row)
  then show ?case by (auto simp: nth_Cons' nth_list_update Suc_diff_Suc [symmetric])
qed auto

lemma ring_tap_cong:
  "(\<And>i. r ! i ! ch = r' ! i ! ch) \<Longrightarrow> ring_tap r ch curpos t = ring_tap r' ch curpos t"
  by (simp add: ring_tap_def)

definition channel_sum :: "s16 list list \<Rightarrow> int \<Rightarrow> nat \<Rightarrow> nat \<Rightarrow> int" where
  "channel_sum rbuf curpos idx ch = (\<Sum>t\<leftarrow>used_taps ch idx. ring_tap rbuf ch curpos t)"

lemma channel_sum_cong:
  "(\<And>i. r ! i ! ch = r' ! i ! ch) \<Longrightarrow> channel_sum r curpos idx ch = channel_sum r' curpos idx ch"
  unfolding channel_sum_def by (simp add: ring_tap_cong [of r ch r'] cong: map_cong)

lemma channel_sum_row_write:
  assumes "j < ch" "ch + length xs \<le> length (r ! c)"
  shows "channel_sum (r[c := row_write ch xs (r ! c)]) curpos idx j = channel_sum r curpos idx j"
proof (rule channel_sum_cong)
  fix i
  show "r[c := row_write ch xs (r ! c)] ! i ! j = r ! i ! j"
    using assms by (cases "c < length r"; cases "i = c") (auto simp: nth_row_write list_update_beyond)
qed

lemma vd_channels_loop_sum:
  assumes "nat c < length r" "ch + length xs \<le> length (r ! nat c)"
  shows "vd_channels_loop c ch xs (r, c_int a0, c_int a1) =
    (let r' = r[nat c := row_write ch xs (r ! nat c)]
     in (r', c_int (a0 + (\<Sum>k\<leftarrow>[ch..<ch + length xs]. channel_sum r' c 0 k)),
             c_int (a1 + (\<Sum>k\<leftarrow>[ch..<ch + length xs]. channel_sum r' c 1 k))))"
  using assms
proof (induction xs arbitrary: ch r a0 a1)
  case (Cons x xs)
  let ?r1 = "r[nat c := (r ! nat c)[ch := x]]"
  let ?r' = "?r1[nat c := row_write (Suc ch) xs (?r1 ! nat c)]"
  have step: "vd_channel c ch x (r, c_int a0, c_int a1) =
      (?r1, c_int (a0 + channel_sum ?r1 c 0 ch), c_int (a1 + channel_sum ?r1 c 1 ch))"
    by (simp add: vd_channel_def vd_filter_sum channel_sum_def Let_def)
  have col: "channel_sum ?r' c idx ch = channel_sum ?r1 c idx ch" for idx
    using Cons.prems by (intro channel_sum_row_write) auto
  have r': "?r' = r[nat c := row_write ch (x # xs) (r ! nat c)]"
    using Cons.prems by simp
  have up: "[ch..<ch + length (x # xs)] = ch # [Suc ch..<Suc ch + length xs]"
    by (simp add: upt_conv_Cons del: upt_Suc)
  have IH: "vd_channels_loop c (Suc ch) xs (?r1, c_int b0, c_int b1) =
      (?r', c_int (b0 + (\<Sum>k\<leftarrow>[Suc ch..<Suc ch + length xs]. channel_sum ?r' c 0 k)),
            c_int (b1 + (\<Sum>k\<leftarrow>[Suc ch..<Suc ch + length xs]. channel_sum ?r' c 1 k)))" for b0 b1
    using Cons.IH [of ?r1 "Suc ch" b0 b1] Cons.prems unfolding Let_def by simp
  show ?case
    unfolding vd_channels_loop.simps step IH up Let_def r' [symmetric]
    by (simp only: list.map sum_list.Cons col add.assoc)
qed simp

subsection \<open>The ring is the history\<close>

text \<open>
  The specification: a FIR filter over the frames so far, oldest first; a tap that reaches
  before the first frame reads silence.
\<close>

definition fir_tap :: "s16 list list \<Rightarrow> nat \<Rightarrow> vdownmix_tap \<Rightarrow> int" where
  "fir_tap hist ch t =
     (if nat (fst t) < length hist then sint (hist ! (length hist - 1 - nat (fst t)) ! ch) * snd t
      else 0)"

definition fir_sum :: "nat \<Rightarrow> s16 list list \<Rightarrow> nat \<Rightarrow> int" where
  "fir_sum n hist idx = (\<Sum>ch\<leftarrow>[0..<n]. \<Sum>t\<leftarrow>used_taps ch idx. fir_tap hist ch t)"

definition fir_out :: "nat \<Rightarrow> s16 list list \<Rightarrow> s16 \<times> s16" where
  "fir_out n hist = (vd_clip (c_int (fir_sum n hist 0)), vd_clip (c_int (fir_sum n hist 1)))"

definition ring_ok :: "int \<times> s16 list list \<Rightarrow> bool" where
  "ring_ok = (\<lambda>(cur, rbuf). 0 \<le> cur \<and> cur < 128 \<and> length rbuf = 128 \<and> (\<forall>row\<in>set rbuf. length row = 5))"

definition ring_hist :: "nat \<Rightarrow> int \<Rightarrow> s16 list list \<Rightarrow> s16 list list \<Rightarrow> bool" where
  "ring_hist n cur rbuf hist \<longleftrightarrow>
     (\<forall>d<128. \<forall>ch<n. rbuf ! nat ((cur + 127 - int d) mod 128) ! ch =
        (if d < length hist then hist ! (length hist - 1 - d) ! ch else 0))"

lemma ring_ok_row: "ring_ok (cur, rbuf) \<Longrightarrow> length (rbuf ! nat cur) = 5"
  by (auto simp: ring_ok_def)

lemma ring_ok_enter:
  assumes "ring_ok (cur, rbuf)"
  shows "ring_ok ((cur + 1) mod 128, rbuf[nat cur := row_write 0 xs (rbuf ! nat cur)])"
proof -
  have "length (rbuf ! nat cur) = 5" using assms by (rule ring_ok_row)
  then show ?thesis
    using assms unfolding ring_ok_def by (auto dest!: set_update_subset_insert [THEN subsetD])
qed

lemma ring_slot: "((cur + 1) mod 128 + 127 - d) mod 128 = (cur + 128 - d) mod (128 :: int)"
  using mod_add_left_eq [of "cur + 1" 128 "127 - d"] by (simp add: algebra_simps)

lemma ring_hist_enter:
  assumes ok: "ring_ok (cur, rbuf)" and h: "ring_hist n cur rbuf hist" and n: "length xs = n" "n \<le> 5"
  shows "ring_hist n ((cur + 1) mod 128) (rbuf[nat cur := row_write 0 xs (rbuf ! nat cur)]) (hist @ [xs])"
  unfolding ring_hist_def
proof (intro allI impI)
  fix d ch :: nat
  assume d: "d < 128" and ch: "ch < n"
  let ?r = "rbuf[nat cur := row_write 0 xs (rbuf ! nat cur)]"
  let ?i = "nat (((cur + 1) mod 128 + 127 - int d) mod 128)"
  have cur: "0 \<le> cur" "cur < 128" "length rbuf = 128" "length (rbuf ! nat cur) = 5"
    using ok by (auto simp: ring_ok_def)
  have i: "?i = nat ((cur + 128 - int d) mod 128)"
    by (simp only: ring_slot)
  show "?r ! ?i ! ch = (if d < length (hist @ [xs]) then (hist @ [xs]) ! (length (hist @ [xs]) - 1 - d) ! ch else 0)"
  proof (cases d)
    case 0
    then have "?i = nat cur" unfolding i using cur by simp
    then show ?thesis using cur ch n 0 by (simp add: nth_row_write)
  next
    case (Suc e)
    have idx: "(cur + 127 - int e) mod 128 = (cur + 128 - int d) mod 128"
      using Suc by (simp add: algebra_simps)
    have "(cur + 128 - int d) mod 128 \<noteq> cur mod 128"
      using d Suc zdvd_imp_le [of 128 "128 - int d"] by (auto simp: mod_eq_dvd_iff)
    then have ne: "?i \<noteq> nat cur" using cur unfolding i by (simp add: nat_eq_iff)
    have "rbuf ! nat ((cur + 127 - int e) mod 128) ! ch =
        (if e < length hist then hist ! (length hist - 1 - e) ! ch else 0)"
      using h Suc d ch unfolding ring_hist_def by simp
    then show ?thesis
      using ne Suc unfolding idx i by (auto simp: nth_append)
  qed
qed

lemma used_taps_delay:
  assumes "ch < 5" "idx < 2" "t \<in> set (used_taps ch idx)"
  shows "0 \<le> fst t \<and> fst t < 128"
proof -
  have "ch = 0 \<or> ch = 1 \<or> ch = 2 \<or> ch = 3 \<or> ch = 4" "idx = 0 \<or> idx = 1"
    using assms(1,2) by auto
  then show ?thesis
    using assms(3) by (elim disjE) (auto simp: used_taps_def tap_filters_def tap_index_def)
qed

lemma channel_sum_fir:
  assumes "ring_hist n ((cur + 1) mod 128) r hist" "ch < n" "n \<le> 5" "idx < 2"
  shows "channel_sum r cur idx ch = (\<Sum>t\<leftarrow>used_taps ch idx. fir_tap hist ch t)"
proof -
  have "ring_tap r ch cur t = fir_tap hist ch t" if t: "t \<in> set (used_taps ch idx)" for t
  proof -
    have d: "0 \<le> fst t" "fst t < 128" using used_taps_delay [OF _ _ t] assms by auto
    have "r ! nat (((cur + 1) mod 128 + 127 - int k) mod 128) ! ch =
        (if k < length hist then hist ! (length hist - 1 - k) ! ch else 0)" if "k < 128" for k
      using assms(1,2) that unfolding ring_hist_def by blast
    from this [of "nat (fst t)"] show ?thesis
      unfolding ring_slot using d by (auto simp: ring_tap_def fir_tap_def)
  qed
  then show ?thesis unfolding channel_sum_def by (simp cong: map_cong)
qed

lemma vd_frame_fir:
  assumes "ring_ok (cur, rbuf)" "ring_hist n cur rbuf hist" "length xs = n" "n \<le> 5"
  shows "vd_frame cur rbuf xs =
    (let r' = rbuf[nat cur := row_write 0 xs (rbuf ! nat cur)]
     in ((cur + 1) mod 128, r', fir_out n (hist @ [xs])))"
proof -
  let ?r = "rbuf[nat cur := row_write 0 xs (rbuf ! nat cur)]"
  have "nat cur < length rbuf" "length (rbuf ! nat cur) = 5"
    using assms(1) ring_ok_row by (auto simp: ring_ok_def)
  from vd_channels_loop_sum [of cur rbuf 0 xs 0 0, OF this(1)] this(2)
  have loop: "vd_channels_loop cur 0 xs (rbuf, 0, 0) =
      (?r, c_int (\<Sum>k\<leftarrow>[0..<n]. channel_sum ?r cur 0 k), c_int (\<Sum>k\<leftarrow>[0..<n]. channel_sum ?r cur 1 k))"
    using assms(3,4) by (simp add: Let_def)
  have "channel_sum ?r cur idx ch = (\<Sum>t\<leftarrow>used_taps ch idx. fir_tap (hist @ [xs]) ch t)"
    if "ch < n" "idx < 2" for ch idx
    using channel_sum_fir [OF ring_hist_enter [OF assms] that(1) assms(4) that(2)] .
  then have "(\<Sum>k\<leftarrow>[0..<n]. channel_sum ?r cur idx k) = fir_sum n (hist @ [xs]) idx" if "idx < 2" for idx
    using that unfolding fir_sum_def by (intro arg_cong [of _ _ sum_list] map_cong) auto
  then show ?thesis
    by (simp add: vd_frame_def loop ring_index fir_out_def Let_def)
qed

subsection \<open>The stream machine\<close>

text \<open>One round of the frame loop without the memory: a frame in, a pair of samples out.\<close>

definition vd_step :: "int \<times> s16 list list \<Rightarrow> s16 list \<Rightarrow> (int \<times> s16 list list) \<times> s16 \<times> s16" where
  "vd_step = (\<lambda>(cur, rbuf) x. let (cur, rbuf, y) = vd_frame cur rbuf x in ((cur, rbuf), y))"

lemma row_length_channels_loop:
  "\<forall>row\<in>set r. length row = 5 \<Longrightarrow> vd_channels_loop c ch xs (r, b0, b1) = (r', d0, d1) \<Longrightarrow>
     length r' = length r \<and> (\<forall>row\<in>set r'. length row = 5)"
proof (induction xs arbitrary: ch r b0 b1)
  case (Cons x xs)
  let ?r1 = "r[nat c := (r ! nat c)[ch := x]]"
  have "\<forall>row\<in>set ?r1. length row = 5"
  proof (cases "nat c < length r")
    case True
    then have "length (r ! nat c) = 5" using Cons.prems(1) by simp
    then show ?thesis using Cons.prems(1) by (auto dest!: set_update_subset_insert [THEN subsetD])
  qed (use Cons.prems(1) in \<open>simp add: list_update_beyond\<close>)
  from Cons.IH [OF this] Cons.prems(2) show ?case
    by (auto simp: vd_channel_def Let_def)
qed simp

lemma vd_frame_ok:
  assumes "ring_ok (cur, rbuf)" "vd_frame cur rbuf x = (cur', rbuf', y)"
  shows "ring_ok (cur', rbuf')"
proof -
  obtain d0 d1 where l: "vd_channels_loop cur 0 x (rbuf, 0, 0) = (rbuf', d0, d1)"
    and c: "cur' = (cur + 1) mod 128"
    using assms(2) by (auto simp: vd_frame_def ring_index Let_def split: prod.splits)
  show ?thesis using row_length_channels_loop [OF _ l] assms(1) c by (simp add: ring_ok_def)
qed

lemma vd_step_ok: "ring_ok st \<Longrightarrow> ring_ok (fst (vd_step st x))"
  using vd_frame_ok by (cases st) (auto simp: vd_step_def Let_def split: prod.splits)

interpretation vdm: step_machine ring_ok vd_step
  by unfold_locales (rule vd_step_ok)

lemma vd_step_fir:
  assumes "ring_ok st" "ring_hist n (fst st) (snd st) hist" "length x = n" "n \<le> 5"
  shows "snd (vd_step st x) = fir_out n (hist @ [x])
    \<and> ring_hist n (fst (fst (vd_step st x))) (snd (fst (vd_step st x))) (hist @ [x])"
  using assms vd_frame_fir [of "fst st" "snd st" n hist x] ring_hist_enter [of "fst st" "snd st" n hist x]
  by (auto simp: vd_step_def Let_def split: prod.splits)

lemma run_vd_fir:
  assumes "ring_ok st" "ring_hist n (fst st) (snd st) hist" "\<forall>x\<in>set fs. length x = n" "n \<le> 5"
  shows "snd (run_steps vd_step st fs) = map (\<lambda>t. fir_out n (hist @ take (Suc t) fs)) [0..<length fs]"
  using assms(1-3)
proof (induction fs arbitrary: st hist)
  case (Cons x fs)
  let ?st = "fst (vd_step st x)"
  have s: "snd (vd_step st x) = fir_out n (hist @ [x])"
      "ring_hist n (fst ?st) (snd ?st) (hist @ [x])"
    using vd_step_fir [OF Cons.prems(1,2) _ assms(4)] Cons.prems(3) by auto
  have "snd (run_steps vd_step ?st fs) =
      map (\<lambda>t. fir_out n ((hist @ [x]) @ take (Suc t) fs)) [0..<length fs]"
    using Cons.IH [OF vd_step_ok [OF Cons.prems(1)] s(2)] Cons.prems(3) by simp
  then show ?case
    using s(1) by (simp add: Let_def upt_conv_Cons map_Suc_upt [symmetric] comp_def del: upt_Suc)
qed simp

definition vd_stream :: "vdownmix \<Rightarrow> int \<times> s16 list list" where
  "vd_stream mix = (uint (vd_curpos mix), vd_rbuf mix)"

lemma ring_start:
  "ring_ok (0, replicate 128 (replicate 5 0))"
  "n \<le> 5 \<Longrightarrow> ring_hist n 0 (replicate 128 (replicate 5 0)) []"
  by (auto simp: ring_ok_def ring_hist_def nat_less_iff)

subsection \<open>The accumulators do not overflow on quieter samples\<close>

lemma abs_sum_list_le: "\<bar>\<Sum>t\<leftarrow>ts. f t\<bar> \<le> (\<Sum>t\<leftarrow>ts. \<bar>f t :: int\<bar>)"
  by (induction ts) auto

lemma sum_list_bound: "(\<And>t. t \<in> set ts \<Longrightarrow> f t \<le> B * g t) \<Longrightarrow> (\<Sum>t\<leftarrow>ts. f t) \<le> B * (\<Sum>t\<leftarrow>ts. g t :: int)"
  by (induction ts) (auto simp: distrib_left add_mono)

lemma fir_tap_bound:
  assumes "\<forall>x\<in>set hist. \<forall>ch<n. \<bar>sint (x ! ch)\<bar> \<le> B" "ch < n" "0 \<le> B"
  shows "\<bar>fir_tap hist ch t\<bar> \<le> B * \<bar>snd t\<bar>"
proof (cases "nat (fst t) < length hist")
  case True
  then have "hist ! (length hist - 1 - nat (fst t)) \<in> set hist" by (intro nth_mem) auto
  then show ?thesis using assms True by (auto simp: fir_tap_def abs_mult intro: mult_right_mono)
qed (use assms in \<open>simp add: fir_tap_def\<close>)

definition tap_weight :: "nat \<Rightarrow> nat \<Rightarrow> int" where
  "tap_weight n idx = (\<Sum>ch\<leftarrow>[0..<n]. \<Sum>t\<leftarrow>used_taps ch idx. \<bar>snd t\<bar>)"

lemma fir_sum_bound:
  assumes "\<forall>x\<in>set hist. \<forall>ch<n. \<bar>sint (x ! ch)\<bar> \<le> B" "0 \<le> B"
  shows "\<bar>fir_sum n hist idx\<bar> \<le> B * tap_weight n idx"
proof -
  have "\<bar>\<Sum>t\<leftarrow>used_taps ch idx. fir_tap hist ch t\<bar> \<le> B * (\<Sum>t\<leftarrow>used_taps ch idx. \<bar>snd t\<bar>)"
    if "ch < n" for ch
    by (rule order_trans [OF abs_sum_list_le sum_list_bound])
      (rule fir_tap_bound [OF assms(1) that assms(2)])
  then have "(\<Sum>ch\<leftarrow>[0..<n]. \<bar>\<Sum>t\<leftarrow>used_taps ch idx. fir_tap hist ch t\<bar>) \<le> B * tap_weight n idx"
    unfolding tap_weight_def by (intro sum_list_bound) auto
  then show ?thesis unfolding fir_sum_def using abs_sum_list_le by (rule order_trans [rotated])
qed

lemma tap_weight_le:
  assumes "n \<le> 5" "idx < 2"
  shows "tap_weight n idx \<le> 139566"
proof -
  have "n = 0 \<or> n = 1 \<or> n = 2 \<or> n = 3 \<or> n = 4 \<or> n = 5" "idx = 0 \<or> idx = 1"
    using assms by auto
  then show ?thesis
    by (elim disjE) (simp_all add: tap_weight_def used_taps_def tap_filters_def tap_index_def
        c_int_def upt_rec numeral_eq_Suc)
qed

end
