(* ===== verification/VdownmixTransfer.thy ===== *)
theory VdownmixTransfer
  imports VdownmixProofs
begin

section \<open>The downmix callback on memory\<close>

text \<open>
  \<open>vdownmix_transfer\<close> walks its channels with stepping pointers. On areas that do not
  overlap it is the stream machine of \<open>VdownmixProofs\<close> on the frames the areas hold
  (\<open>vd_loop_run\<close>, \<open>vdownmix_transfer_run\<close>); the properties follow from the machine's
  laws and from the FIR form of its output.
\<close>

subsection \<open>The pointer loop is the stream machine\<close>

definition frames_at :: "nat list \<Rightarrow> nat list \<Rightarrow> nat \<Rightarrow> smem \<Rightarrow> s16 list list" where
  "frames_at ps ss n mem = map (\<lambda>k. map2 (\<lambda>p s. mem (p + s * k)) ps ss) [0..<n]"

lemma frames_at_Suc:
  "length ps = length ss \<Longrightarrow>
     frames_at ps ss (Suc n) mem = map mem ps # frames_at (map2 (+) ps ss) ss n mem"
proof (rule nth_equalityI)
  fix i
  assume len: "length ps = length ss" and "i < length (frames_at ps ss (Suc n) mem)"
  then show "frames_at ps ss (Suc n) mem ! i = (map mem ps # frames_at (map2 (+) ps ss) ss n mem) ! i"
    by (cases i) (auto simp: frames_at_def nth_append add.assoc less_Suc_eq intro!: nth_equalityI
        simp del: upt_Suc)
qed (simp add: frames_at_def)

lemma frames_at_cong:
  assumes "\<And>p s a. (p, s) \<in> set (zip ps ss) \<Longrightarrow> a \<in> cells p s n \<Longrightarrow> mem a = mem' a"
  shows "frames_at ps ss n mem = frames_at ps ss n mem'"
proof -
  have "mem (p + s * k) = mem' (p + s * k)" if "(p, s) \<in> set (zip ps ss)" "k < n" for p s k
    using assms [OF that(1), of "p + s * k"] that(2) unfolding cells_def by blast
  then show ?thesis unfolding frames_at_def by (auto intro!: map_cong)
qed

definition clear_of :: "nat set \<Rightarrow> nat list \<Rightarrow> nat list \<Rightarrow> nat \<Rightarrow> bool" where
  "clear_of A ps ss n \<longleftrightarrow> (\<forall>(p, s)\<in>set (zip ps ss). cells p s n \<inter> A = {})"

lemma clear_of_Suc:
  assumes "length ps = length ss" "clear_of A ps ss (Suc n)" "B \<subseteq> A"
  shows "clear_of B (map2 (+) ps ss) ss n \<and> (\<forall>p\<in>set ps. p \<notin> A)"
proof -
  have zip: "zip (map2 (+) ps ss) ss = map (\<lambda>(p, s). (p + s, s)) (zip ps ss)"
    by (rule nth_equalityI) auto
  have "\<exists>s. (p, s) \<in> set (zip ps ss)" if "p \<in> set ps" for p
    using that assms(1) by (metis in_set_impl_in_set_zip1)
  then show ?thesis
    using assms(2,3) unfolding clear_of_def zip by (fastforce simp: cells_Suc)
qed

lemma vd_loop_run:
  assumes "length src = length steps" "0 < unat t0" "0 < unat t1"
    "cells p0 (2 * unat t0) n \<inter> cells p1 (2 * unat t1) n = {}"
    "clear_of (cells p0 (2 * unat t0) n \<union> cells p1 (2 * unat t1) n) src (map (\<lambda>s. 2 * unat s) steps) n"
  shows "vd_loop n cur rbuf src steps (p0, p1) (t0, t1) mem =
    (let r = run_steps vd_step (cur, rbuf) (frames_at src (map (\<lambda>s. 2 * unat s) steps) n mem)
     in (fst (fst r), snd (fst r), poke p1 (2 * unat t1) (map snd (snd r))
           (poke p0 (2 * unat t0) (map fst (snd r)) mem)))"
  using assms
proof (induction n arbitrary: cur rbuf src p0 p1 mem)
  case 0
  then show ?case by (simp add: frames_at_def)
next
  case (Suc n)
  let ?ss = "map (\<lambda>s. 2 * unat s) steps"
  let ?src = "map2 (+) src ?ss"
  obtain c r y0 y1 where f: "vd_frame cur rbuf (map mem src) = (c, r, y0, y1)"
    by (metis prod_cases4)
  let ?mem = "mem(p0 := y0, p1 := y1)"
  let ?q0 = "p0 + 2 * unat t0" and ?q1 = "p1 + 2 * unat t1"
  have cells: "cells ?q0 (2 * unat t0) n \<inter> cells ?q1 (2 * unat t1) n = {}"
    "p0 \<noteq> p1" "p0 \<notin> cells ?q1 (2 * unat t1) n" "p1 \<notin> cells ?q0 (2 * unat t0) n"
    using Suc.prems(4) by (auto simp: cells_Suc)
  have clr: "clear_of (cells ?q0 (2 * unat t0) n \<union> cells ?q1 (2 * unat t1) n \<union> {p0, p1}) ?src ?ss n"
    by (rule clear_of_Suc [THEN conjunct1, OF _ Suc.prems(5)])
      (use Suc.prems(1) in \<open>auto simp: cells_Suc\<close>)
  have clr': "clear_of (cells ?q0 (2 * unat t0) n \<union> cells ?q1 (2 * unat t1) n) ?src ?ss n"
    using clr unfolding clear_of_def by blast
  have fr: "frames_at ?src ?ss n ?mem = frames_at ?src ?ss n mem"
    using clr unfolding clear_of_def by (intro frames_at_cong) fastforce
  have step: "vd_step (cur, rbuf) (map mem src) = ((c, r), y0, y1)"
    by (simp add: vd_step_def f)
  have src: "map2 (\<lambda>p s. p + 2 * unat s) src steps = ?src"
    by (rule nth_equalityI) auto
  have len: "length ?src = length steps" using Suc.prems(1) by simp
  let ?R = "run_steps vd_step (c, r) (frames_at ?src ?ss n mem)"
  have IH: "vd_loop n c r ?src steps (?q0, ?q1) (t0, t1) ?mem =
     (fst (fst ?R), snd (fst ?R), poke ?q1 (2 * unat t1) (map snd (snd ?R))
        (poke ?q0 (2 * unat t0) (map fst (snd ?R)) ?mem))"
    using Suc.IH [OF len Suc.prems(2,3) cells(1) clr', of c r ?mem] unfolding fr Let_def .
  have swap: "poke ?q0 (2 * unat t0) (map fst (snd ?R)) ?mem =
      (poke ?q0 (2 * unat t0) (map fst (snd ?R)) (mem(p0 := y0)))(p1 := y1)"
    by (rule poke_upd_swap [symmetric]) (use cells(4) in \<open>simp add: frames_at_def\<close>)
  have lhs: "vd_loop (Suc n) cur rbuf src steps (p0, p1) (t0, t1) mem
      = vd_loop n c r ?src steps (?q0, ?q1) (t0, t1) ?mem"
    by (simp add: f src)
  have frs: "frames_at src ?ss (Suc n) mem = map mem src # frames_at ?src ?ss n mem"
    by (rule frames_at_Suc) (use Suc.prems(1) in simp)
  show ?case
    unfolding lhs IH swap frs by (simp add: step Let_def)
qed

subsection \<open>The callback\<close>

definition area_frames :: "area list \<Rightarrow> nat \<Rightarrow> nat \<Rightarrow> nat \<Rightarrow> smem \<Rightarrow> s16 list list" where
  "area_frames srcs off n nch mem = map (\<lambda>k. map (\<lambda>ch. chan (srcs ! ch) off n mem ! k) [0..<nch]) [0..<n]"

definition vd_layout :: "area list \<Rightarrow> nat \<Rightarrow> area list \<Rightarrow> nat \<Rightarrow> nat \<Rightarrow> nat \<Rightarrow> bool" where
  "vd_layout dsts doff srcs soff n nch \<longleftrightarrow>
     area_fits (dsts ! 0) (doff + n) \<and> area_fits (dsts ! 1) (doff + n)
     \<and> chan_cells (dsts ! 0) doff n \<inter> chan_cells (dsts ! 1) doff n = {}
     \<and> (\<forall>ch<nch. area_fits (srcs ! ch) (soff + n)
          \<and> chan_cells (srcs ! ch) soff n \<inter> (chan_cells (dsts ! 0) doff n \<union> chan_cells (dsts ! 1) doff n) = {})"

definition vd_cells :: "area list \<Rightarrow> nat \<Rightarrow> nat \<Rightarrow> nat set" where
  "vd_cells dsts doff n = chan_cells (dsts ! 0) doff n \<union> chan_cells (dsts ! 1) doff n"

lemma length_area_frames [simp]: "length (area_frames srcs off n nch mem) = n"
  by (simp add: area_frames_def)

lemma row_area_frames: "x \<in> set (area_frames srcs off n nch mem) \<Longrightarrow> length x = nch"
  by (auto simp: area_frames_def)

lemma vd_step_pitch: "area_fits a n \<Longrightarrow> 2 * unat (vd_area_step a div 2) = pitch a"
  by (auto simp: area_fits_def vd_area_step_def pitch_def unat_div)

lemma frames_at_areas:
  assumes "\<forall>ch<nch. area_fits (srcs ! ch) (soff + n)"
  shows "frames_at (map (\<lambda>ch. frame_addr (srcs ! ch) soff) [0..<nch]) (map (\<lambda>ch. pitch (srcs ! ch)) [0..<nch]) n mem
    = area_frames srcs soff n nch mem"
  by (auto simp: frames_at_def area_frames_def chan_def peek_def intro!: nth_equalityI)

lemma vdownmix_transfer_run:
  assumes lay: "vd_layout dsts (unat doff) srcs (unat soff) (unat sz) (nat (vd_channels mix))"
    and ok: "ring_ok (vd_stream mix)"
  shows "vdownmix_transfer mix dsts doff srcs soff sz mem =
    (let r = run_steps vd_step (vd_stream mix)
               (area_frames srcs (unat soff) (unat sz) (nat (vd_channels mix)) mem)
     in Some (sz, mix\<lparr>vd_curpos := word_of_int (fst (fst r)), vd_rbuf := snd (fst r)\<rparr>,
          poke (frame_addr (dsts ! 1) (unat doff)) (pitch (dsts ! 1)) (map snd (snd r))
            (poke (frame_addr (dsts ! 0) (unat doff)) (pitch (dsts ! 0)) (map fst (snd r)) mem)))"
proof -
  let ?nch = "nat (vd_channels mix)"
  let ?st = "\<lambda>i. vd_area_step (dsts ! i) div 2"
  let ?steps = "map (\<lambda>ch. vd_area_step (srcs ! ch) div 2) [0..<?nch]"
  have fit: "area_fits (dsts ! 0) (unat doff + unat sz)" "area_fits (dsts ! 1) (unat doff + unat sz)"
    "\<forall>ch<?nch. area_fits (srcs ! ch) (unat soff + unat sz)"
    using lay by (auto simp: vd_layout_def)
  have d: "area_addr (dsts ! 0) doff = frame_addr (dsts ! 0) (unat doff)"
      "area_addr (dsts ! 1) doff = frame_addr (dsts ! 1) (unat doff)"
    using fit by (auto intro!: area_addr_frame)
  have s: "map (\<lambda>ch. area_addr (srcs ! ch) soff) [0..<?nch] = map (\<lambda>ch. frame_addr (srcs ! ch) (unat soff)) [0..<?nch]"
    using fit(3) by (auto intro: area_addr_frame [of _ "unat soff + unat sz"])
  have p: "2 * unat (?st 0) = pitch (dsts ! 0)" "2 * unat (?st 1) = pitch (dsts ! 1)"
      "map (\<lambda>s. 2 * unat s) ?steps = map (\<lambda>ch. pitch (srcs ! ch)) [0..<?nch]"
    using fit vd_step_pitch by auto
  have pos: "0 < unat (?st 0)" "0 < unat (?st 1)"
    using p(1,2) pitch_pos [OF fit(1)] pitch_pos [OF fit(2)] by linarith+
  have n: "unat sz < 2 ^ 28" using area_fits_less [OF fit(1)] by simp
  then have fr: "c_int (uint sz) = int (unat sz)" by (simp add: c_int_uint)
  have cur: "c_int (uint (vd_curpos mix)) = uint (vd_curpos mix)"
  proof (rule c_int_id)
    show "- 2147483648 \<le> uint (vd_curpos mix)" by (rule order_trans [OF _ unsigned_greater_eq]) simp
    show "uint (vd_curpos mix) < 2147483648" using ok by (simp add: ring_ok_def vd_stream_def)
  qed
  have clr: "clear_of (cells (frame_addr (dsts ! 0) (unat doff)) (2 * unat (?st 0)) (unat sz)
        \<union> cells (frame_addr (dsts ! 1) (unat doff)) (2 * unat (?st 1)) (unat sz))
      (map (\<lambda>ch. frame_addr (srcs ! ch) (unat soff)) [0..<?nch]) (map (\<lambda>s. 2 * unat s) ?steps) (unat sz)"
    using lay unfolding p clear_of_def vd_layout_def chan_cells_def zip_map_map
    by (auto simp: zip_same disjoint_iff)
  have dis: "cells (frame_addr (dsts ! 0) (unat doff)) (2 * unat (?st 0)) (unat sz)
      \<inter> cells (frame_addr (dsts ! 1) (unat doff)) (2 * unat (?st 1)) (unat sz) = {}"
    using lay unfolding p vd_layout_def chan_cells_def by blast
  have len: "length (map (\<lambda>ch. frame_addr (srcs ! ch) (unat soff)) [0..<?nch]) = length ?steps" by simp
  note run = vd_loop_run [OF len pos dis clr, unfolded p frames_at_areas [OF fit(3)] Let_def]
  show ?thesis
    unfolding vdownmix_transfer_def Let_def d s fr cur vd_stream_def
    by (simp add: run del: One_nat_def)
qed

text \<open>What the plugin remembers of the frames it has consumed.\<close>

definition vd_remembers :: "vdownmix \<Rightarrow> s16 list list \<Rightarrow> bool" where
  "vd_remembers mix hist \<longleftrightarrow> ring_ok (vd_stream mix) \<and> nat (vd_channels mix) \<le> 5
     \<and> ring_hist (nat (vd_channels mix)) (fst (vd_stream mix)) (snd (vd_stream mix)) hist"

lemma vdownmix_init_remembers: "vd_remembers (snd (vdownmix_init ext mix)) []"
  by (auto simp: vdownmix_init_def vd_remembers_def vd_stream_def Let_def ring_start)

lemma vd_stream_update:
  "ring_ok st \<Longrightarrow> vd_stream (mix\<lparr>vd_curpos := word_of_int (fst st), vd_rbuf := snd st\<rparr>) = st"
  by (auto simp: vd_stream_def ring_ok_def unsigned_of_int take_bit_int_eq_self)

lemma vd_remembers_update:
  "ring_ok st \<Longrightarrow> n = nat (vd_channels mix) \<Longrightarrow> n \<le> 5 \<Longrightarrow> ring_hist n (fst st) (snd st) hist \<Longrightarrow>
     vd_remembers (mix\<lparr>vd_curpos := word_of_int (fst st), vd_rbuf := snd st\<rparr>) hist"
  by (simp add: vd_remembers_def vd_stream_update)

lemma run_vd_hist:
  assumes "ring_ok st" "ring_hist n (fst st) (snd st) hist" "\<forall>x\<in>set fs. length x = n" "n \<le> 5"
  shows "ring_hist n (fst (fst (run_steps vd_step st fs))) (snd (fst (run_steps vd_step st fs))) (hist @ fs)"
  using assms(1-3)
proof (induction fs arbitrary: st hist)
  case (Cons x fs)
  have "ring_hist n (fst (fst (vd_step st x))) (snd (fst (vd_step st x))) (hist @ [x])"
    using vd_step_fir [OF Cons.prems(1,2) _ assms(4)] Cons.prems(3) by auto
  from Cons.IH [OF vd_step_ok [OF Cons.prems(1)] this] Cons.prems(3) show ?case
    by (simp add: Let_def)
qed simp

lemma chan_poke:
  "0 < pitch a \<Longrightarrow> length xs = n \<Longrightarrow> chan a off n (poke (frame_addr a off) (pitch a) xs mem) = xs"
  by (auto simp: chan_def peek_poke)

lemma chan_poke_other:
  "chan_cells a off n \<inter> chan_cells b boff (length xs) = {} \<Longrightarrow>
     chan a off n (poke (frame_addr b boff) (pitch b) xs mem) = chan a off n mem"
  by (simp add: chan_def chan_cells_def peek_poke_other)

subsection \<open>Cutting a transfer in two\<close>

lemma area_frames_add:
  assumes "\<forall>ch<nch. area_fits (srcs ! ch) (off + (m + n))"
  shows "area_frames srcs off (m + n) nch mem = area_frames srcs off m nch mem @ area_frames srcs (off + m) n nch mem"
proof (rule nth_equalityI)
  fix k
  assume k: "k < length (area_frames srcs off (m + n) nch mem)"
  have "chan (srcs ! ch) off (m + n) mem = chan (srcs ! ch) off m mem @ chan (srcs ! ch) (off + m) n mem"
    if "ch < nch" for ch
    using assms that by (intro chan_add) auto
  then show "area_frames srcs off (m + n) nch mem ! k =
      (area_frames srcs off m nch mem @ area_frames srcs (off + m) n nch mem) ! k"
    using k by (auto simp: area_frames_def nth_append)
qed simp

lemma area_frames_cong:
  assumes "\<And>ch b. ch < nch \<Longrightarrow> b \<in> chan_cells (srcs ! ch) off n \<Longrightarrow> mem b = mem' b"
  shows "area_frames srcs off n nch mem = area_frames srcs off n nch mem'"
proof -
  have "chan (srcs ! ch) off n mem = chan (srcs ! ch) off n mem'" if "ch < nch" for ch
    using assms [OF that] by (intro chan_cong)
  then show ?thesis by (auto simp: area_frames_def)
qed

lemma vd_layout_part:
  assumes lay: "vd_layout dsts doff srcs soff N nch" and "k + n \<le> N"
  shows "vd_layout dsts (doff + k) srcs (soff + k) n nch"
proof -
  have fit: "area_fits a (off + k + n)" if "area_fits a (off + N)" for a off
    using area_fits_mono [OF that] assms(2) by simp
  note sub = chan_cells_part [OF _ assms(2)]
  show ?thesis
    unfolding vd_layout_def
  proof (intro conjI allI impI)
    show "chan_cells (dsts ! 0) (doff + k) n \<inter> chan_cells (dsts ! 1) (doff + k) n = {}"
      using lay unfolding vd_layout_def by (elim conjE) (rule disjoint_mono, assumption, (erule sub)+)
    fix ch
    assume "ch < nch"
    then have "area_fits (srcs ! ch) (soff + N)"
      "chan_cells (srcs ! ch) soff N \<inter> (chan_cells (dsts ! 0) doff N \<union> chan_cells (dsts ! 1) doff N) = {}"
      "area_fits (dsts ! 0) (doff + N)" "area_fits (dsts ! 1) (doff + N)"
      using lay unfolding vd_layout_def by blast+
    then show "chan_cells (srcs ! ch) (soff + k) n \<inter>
        (chan_cells (dsts ! 0) (doff + k) n \<union> chan_cells (dsts ! 1) (doff + k) n) = {}"
      by (intro disjoint_mono [OF _ sub Un_mono [OF sub sub]])
  qed (use lay in \<open>auto simp: vd_layout_def intro: fit\<close>)
qed

lemma vd_layout_split:
  assumes lay: "vd_layout dsts doff srcs soff (m + n) nch"
  shows "vd_layout dsts doff srcs soff m nch" "vd_layout dsts (doff + m) srcs (soff + m) n nch"
    "chan_cells (dsts ! 0) (doff + m) n \<inter> chan_cells (dsts ! 1) doff m = {}"
    "ch < nch \<Longrightarrow> chan_cells (srcs ! ch) (soff + m) n \<inter> vd_cells dsts doff m = {}"
proof -
  show "vd_layout dsts doff srcs soff m nch" using vd_layout_part [OF lay, of 0 m] by simp
  show "vd_layout dsts (doff + m) srcs (soff + m) n nch" by (rule vd_layout_part [OF lay]) simp
  have d: "chan_cells (dsts ! i) doff (m + n) = chan_cells (dsts ! i) doff m \<union> chan_cells (dsts ! i) (doff + m) n"
    if "i = 0 \<or> i = 1" for i
    using lay that by (auto simp: vd_layout_def intro!: chan_cells_add)
  have "chan_cells (dsts ! 0) doff (m + n) \<inter> chan_cells (dsts ! 1) doff (m + n) = {}"
    using lay unfolding vd_layout_def by (elim conjE)
  then show "chan_cells (dsts ! 0) (doff + m) n \<inter> chan_cells (dsts ! 1) doff m = {}"
    by (rule disjoint_mono) (use d in auto)
  assume ch: "ch < nch"
  then have "area_fits (srcs ! ch) (soff + (m + n))"
    and dis: "chan_cells (srcs ! ch) soff (m + n) \<inter> vd_cells dsts doff (m + n) = {}"
    using lay unfolding vd_layout_def vd_cells_def by blast+
  then have "chan_cells (srcs ! ch) (soff + m) n \<subseteq> chan_cells (srcs ! ch) soff (m + n)"
    using chan_cells_add by blast
  then show "chan_cells (srcs ! ch) (soff + m) n \<inter> vd_cells dsts doff m = {}"
    by (rule disjoint_mono [OF dis]) (use d in \<open>auto simp: vd_cells_def\<close>)
qed

subsection \<open>Properties\<close>

text \<open>
  C23: one call of the transfer callback is a pair of FIR filters over everything the plugin has
  consumed: it reports the whole size, frame t of the two output channels is the filter sum
  over the history and the frames up to t, the new state remembers the history with the new
  frames appended, and no other sample of memory changes. It holds for every size, every
  cursor and every placement of the areas that do not overlap, so by iteration for any
  sequence of transfers.
\<close>

theorem vdownmix_transfer_fir:
  assumes mem: "vd_remembers mix hist"
    and lay: "vd_layout dsts (unat doff) srcs (unat soff) (unat sz) (nat (vd_channels mix))"
  shows "\<exists>mix' mem'. vdownmix_transfer mix dsts doff srcs soff sz mem = Some (sz, mix', mem')
    \<and> vd_remembers mix' (hist @ area_frames srcs (unat soff) (unat sz) (nat (vd_channels mix)) mem)
    \<and> (let fs = area_frames srcs (unat soff) (unat sz) (nat (vd_channels mix)) mem;
           out = (\<lambda>t. fir_out (nat (vd_channels mix)) (hist @ take (Suc t) fs)) in
        chan (dsts ! 0) (unat doff) (unat sz) mem' = map (\<lambda>t. fst (out t)) [0..<unat sz]
        \<and> chan (dsts ! 1) (unat doff) (unat sz) mem' = map (\<lambda>t. snd (out t)) [0..<unat sz])
    \<and> (\<forall>a. a \<notin> vd_cells dsts (unat doff) (unat sz) \<longrightarrow> mem' a = mem a)"
proof -
  let ?n = "nat (vd_channels mix)"
  let ?fs = "area_frames srcs (unat soff) (unat sz) ?n mem"
  let ?r = "run_steps vd_step (vd_stream mix) ?fs"
  let ?mix = "mix\<lparr>vd_curpos := word_of_int (fst (fst ?r)), vd_rbuf := snd (fst ?r)\<rparr>"
  let ?out = "\<lambda>t. fir_out ?n (hist @ take (Suc t) ?fs)"
  let ?m0 = "poke (frame_addr (dsts ! 0) (unat doff)) (pitch (dsts ! 0)) (map fst (snd ?r)) mem"
  let ?mem = "poke (frame_addr (dsts ! 1) (unat doff)) (pitch (dsts ! 1)) (map snd (snd ?r)) ?m0"
  have ok: "ring_ok (vd_stream mix)" "?n \<le> 5" "ring_hist ?n (fst (vd_stream mix)) (snd (vd_stream mix)) hist"
    using mem by (auto simp: vd_remembers_def)
  have rows: "\<forall>x\<in>set ?fs. length x = ?n" by (auto dest: row_area_frames)
  have outs: "snd ?r = map ?out [0..<unat sz]"
    using run_vd_fir [OF ok(1,3) rows ok(2)] by simp
  have ok': "ring_ok (fst ?r)" using ok(1) by (rule vdm.run_steps_inv)
  have new: "vd_remembers ?mix (hist @ ?fs)"
    by (rule vd_remembers_update [OF ok' refl ok(2) run_vd_hist [OF ok(1,3) rows ok(2)]])
  have dis: "chan_cells (dsts ! 0) (unat doff) (unat sz) \<inter> chan_cells (dsts ! 1) (unat doff) (unat sz) = {}"
    and pos: "0 < pitch (dsts ! 0)" "0 < pitch (dsts ! 1)"
    using lay by (auto simp: vd_layout_def pitch_pos)
  have c1: "chan (dsts ! 1) (unat doff) (unat sz) ?mem = map snd (snd ?r)"
    using pos by (intro chan_poke) auto
  have "chan (dsts ! 0) (unat doff) (unat sz) ?mem = chan (dsts ! 0) (unat doff) (unat sz) ?m0"
    using dis by (intro chan_poke_other) simp
  moreover have "\<dots> = map fst (snd ?r)"
    using pos by (intro chan_poke) auto
  ultimately have c0: "chan (dsts ! 0) (unat doff) (unat sz) ?mem = map fst (snd ?r)" by simp
  have frame: "?mem a = mem a" if "a \<notin> vd_cells dsts (unat doff) (unat sz)" for a
    using that by (simp add: vd_cells_def chan_cells_def poke_other)
  show ?thesis
    using vdownmix_transfer_run [OF lay ok(1), of mem] new c0 c1 frame
    by (intro exI [of _ ?mix] exI [of _ ?mem]) (simp add: Let_def outs)
qed

definition wit_src :: "area list" where
  "wit_src = [\<lparr>ar_addr = 1000, ar_first = 0, ar_step = 64\<rparr>, \<lparr>ar_addr = 1000, ar_first = 16, ar_step = 64\<rparr>,
     \<lparr>ar_addr = 1000, ar_first = 32, ar_step = 64\<rparr>, \<lparr>ar_addr = 1000, ar_first = 48, ar_step = 64\<rparr>]"

definition wit_dst :: "area list" where
  "wit_dst = [\<lparr>ar_addr = 0, ar_first = 0, ar_step = 32\<rparr>, \<lparr>ar_addr = 0, ar_first = 16, ar_step = 32\<rparr>]"

lemma cells_2: "cells p s 2 = {p, p + s}"
  by (auto simp: cells_def lessThan_Suc numeral_2_eq_2)

lemma less_4_cases: "(\<forall>ch<4. P ch) \<longleftrightarrow> P 0 \<and> P 1 \<and> P 2 \<and> P (3 :: nat)"
  by (auto simp: numeral_eq_Suc less_Suc_eq)

lemma vd_wit_layout: "vd_layout wit_dst 0 wit_src 0 2 4"
  by (simp add: vd_layout_def wit_dst_def wit_src_def area_fits_def chan_cells_def cells_2
      frame_addr_def pitch_def less_4_cases)

definition vd_wit_mix :: vdownmix where
  "vd_wit_mix = snd (vdownmix_init \<lparr>ext_channels = 4, ext_slave_channels = 2, ext_rate = 48000\<rparr>
     \<lparr>vd_channels = 0, vd_curpos = 0, vd_rbuf = []\<rparr>)"

lemma vd_wit_mix_channels: "nat (vd_channels vd_wit_mix) = 4"
  by (simp add: vd_wit_mix_def vdownmix_init_def Let_def)

theorem vdownmix_transfer_fir_witness:
  "\<exists>mix' mem'. vdownmix_transfer vd_wit_mix wit_dst 0 wit_src 0 2 (\<lambda>a. 100) = Some (2, mix', mem')
    \<and> vd_remembers mix' (area_frames wit_src 0 2 4 (\<lambda>a. 100))"
proof -
  have "vd_remembers vd_wit_mix []" unfolding vd_wit_mix_def by (rule vdownmix_init_remembers)
  from vdownmix_transfer_fir [OF this, of wit_dst 0 wit_src 0 2 "\<lambda>a. 100"] vd_wit_layout
  show ?thesis by (auto simp: vd_wit_mix_channels)
qed

text \<open>
  where the stream is cut does not matter: transferring m + n frames in one call and
  transferring m frames and then the next n from the advanced offsets leave the same state and
  the same memory.
\<close>

theorem vdownmix_transfer_split:
  assumes ok: "vd_remembers mix hist"
    and lay: "vd_layout dsts (unat doff) srcs (unat soff) (unat m + unat n) (nat (vd_channels mix))"
  shows "(do { (r, mix', mem') \<leftarrow> vdownmix_transfer mix dsts doff srcs soff m mem;
              (r', mix', mem') \<leftarrow> vdownmix_transfer mix' dsts (doff + m) srcs (soff + m) n mem';
              Some (r + r', mix', mem') })
    = vdownmix_transfer mix dsts doff srcs soff (m + n) mem"
proof -
  let ?n = "nat (vd_channels mix)"
  let ?fs = "area_frames srcs (unat soff) (unat m) ?n mem"
  let ?fs' = "area_frames srcs (unat soff + unat m) (unat n) ?n mem"
  let ?r = "run_steps vd_step (vd_stream mix) ?fs"
  let ?r' = "run_steps vd_step (fst ?r) ?fs'"
  let ?mix = "mix\<lparr>vd_curpos := word_of_int (fst (fst ?r)), vd_rbuf := snd (fst ?r)\<rparr>"
  let ?p = "\<lambda>i. frame_addr (dsts ! i) (unat doff)" and ?s = "\<lambda>i. pitch (dsts ! i)"
  let ?q = "\<lambda>i. frame_addr (dsts ! i) (unat doff + unat m)"
  let ?m0 = "poke (?p 0) (?s 0) (map fst (snd ?r)) mem"
  let ?mem = "poke (?p 1) (?s 1) (map snd (snd ?r)) ?m0"
  have fit: "area_fits (dsts ! 0) (unat doff + (unat m + unat n))" "area_fits (dsts ! 1) (unat doff + (unat m + unat n))"
    "\<forall>ch<?n. area_fits (srcs ! ch) (unat soff + (unat m + unat n))"
    using lay by (auto simp: vd_layout_def)
  note split = vd_layout_split [OF lay]
  have ok0: "ring_ok (vd_stream mix)" using ok by (simp add: vd_remembers_def)
  then have ok1: "ring_ok (fst ?r)" by (rule vdm.run_steps_inv)
  have ch: "vd_channels ?mix = vd_channels mix" by simp
  have st1: "vd_stream ?mix = fst ?r" by (rule vd_stream_update [OF ok1])
  have words: "unat (m + n) = unat m + unat n" "unat (doff + m) = unat doff + unat m"
    using area_fits_less [OF fit(1)] by (auto intro!: unat_plus_u64)
  have sw: "unat (soff + m) = unat soff + unat m" if "0 < ?n"
  proof -
    have "area_fits (srcs ! 0) (unat soff + (unat m + unat n))" using fit(3) that by blast
    from area_fits_less [OF this] show ?thesis by (intro unat_plus_u64) simp
  qed
  have same: "area_frames srcs (unat soff + unat m) (unat n) ?n ?mem = ?fs'"
    using split(4) by (intro area_frames_cong) (auto simp: vd_cells_def chan_cells_def poke_other disjoint_iff)
  have sw': "area_frames srcs (unat (soff + m)) (unat n) ?n M = area_frames srcs (unat soff + unat m) (unat n) ?n M" for M
    using sw by (cases "?n = 0") (auto simp: area_frames_def)
  have lay2: "vd_layout dsts (unat (doff + m)) srcs (unat (soff + m)) (unat n) (nat (vd_channels ?mix))"
    using split(2) sw words by (cases "?n = 0") (auto simp: vd_layout_def)
  have fs: "area_frames srcs (unat soff) (unat (m + n)) ?n mem = ?fs @ ?fs'"
    unfolding words by (rule area_frames_add [OF fit(3)])
  have run: "run_steps vd_step (vd_stream mix) (?fs @ ?fs') = (fst ?r', snd ?r @ snd ?r')"
    by (rule run_steps_append)
  have adv: "?q i = ?p i + ?s i * unat m" if "i = 0 \<or> i = 1" for i
    using that fit(1,2) by (auto intro: frame_addr_add)
  have swap: "poke (?q 0) (?s 0) (map fst (snd ?r')) (poke (?p 1) (?s 1) (map snd (snd ?r)) ?m0)
      = poke (?p 1) (?s 1) (map snd (snd ?r)) (poke (?q 0) (?s 0) (map fst (snd ?r')) ?m0)"
    using split(3) by (intro poke_poke_swap) (simp add: chan_cells_def)
  have one: "vdownmix_transfer mix dsts doff srcs soff m mem = Some (m, ?mix, ?mem)"
    using vdownmix_transfer_run [OF split(1) ok0, of mem] by (simp add: Let_def del: One_nat_def)
  have two: "vdownmix_transfer ?mix dsts (doff + m) srcs (soff + m) n ?mem =
      Some (n, ?mix\<lparr>vd_curpos := word_of_int (fst (fst ?r')), vd_rbuf := snd (fst ?r')\<rparr>,
        poke (?q 1) (?s 1) (map snd (snd ?r')) (poke (?q 0) (?s 0) (map fst (snd ?r')) ?mem))"
    using vdownmix_transfer_run [OF lay2, of ?mem] ok1 unfolding st1 ch sw' words same Let_def
    by simp
  have both: "vdownmix_transfer mix dsts doff srcs soff (m + n) mem =
      Some (m + n, mix\<lparr>vd_curpos := word_of_int (fst (fst ?r')), vd_rbuf := snd (fst ?r')\<rparr>,
        poke (?p 1) (?s 1) (map snd (snd ?r @ snd ?r')) (poke (?p 0) (?s 0) (map fst (snd ?r @ snd ?r')) mem))"
    using vdownmix_transfer_run [OF _ ok0, of dsts doff srcs soff "m + n" mem] lay
    unfolding fs run by (simp add: words Let_def del: One_nat_def)
  have mems: "poke (?q 1) (?s 1) (map snd (snd ?r')) (poke (?q 0) (?s 0) (map fst (snd ?r')) ?mem)
      = poke (?p 1) (?s 1) (map snd (snd ?r @ snd ?r')) (poke (?p 0) (?s 0) (map fst (snd ?r @ snd ?r')) mem)"
    unfolding swap by (simp add: poke_append adv [symmetric] del: One_nat_def)
  show ?thesis
    unfolding one both Option.bind.bind_lunit prod.case two mems by simp
qed

theorem vdownmix_transfer_split_witness:
  "(do { (r, mix', mem') \<leftarrow> vdownmix_transfer vd_wit_mix wit_dst 0 wit_src 0 1 (\<lambda>a. 100);
         (r', mix', mem') \<leftarrow> vdownmix_transfer mix' wit_dst 1 wit_src 1 1 mem';
         Some (r + r', mix', mem') })
    = vdownmix_transfer vd_wit_mix wit_dst 0 wit_src 0 2 (\<lambda>a. 100)"
proof -
  have "vd_remembers vd_wit_mix []" unfolding vd_wit_mix_def by (rule vdownmix_init_remembers)
  from vdownmix_transfer_split [OF this, of wit_dst 0 wit_src 0 1 1 "\<lambda>a. 100"] vd_wit_layout
  show ?thesis by (simp add: vd_wit_mix_channels numeral_2_eq_2 [symmetric])
qed

text \<open>
  on samples of magnitude at most 15386 the accumulators do not wrap, so the output is the
  exact filter sum, scaled down by 2^14 and saturated to 16 bits.
\<close>

theorem vdownmix_no_overflow:
  assumes "\<forall>x\<in>set hist. \<forall>ch<n. \<bar>sint (x ! ch)\<bar> \<le> 15386" "n \<le> 5" "idx < 2"
  shows "(if idx = 0 then fst (fir_out n hist) else snd (fir_out n hist))
    = word_of_int (max (- 32768) (min 32767 (fir_sum n hist idx div 2 ^ 14)))"
proof -
  have "\<bar>fir_sum n hist i\<bar> \<le> 15386 * 139566" if "i < 2" for i
    using fir_sum_bound [OF assms(1), of i] tap_weight_le [OF assms(2) that] by linarith
  then have "c_int (fir_sum n hist i) = fir_sum n hist i" if "i < 2" for i
    using that by (intro c_int_id) (fastforce simp: abs_le_iff)+
  moreover have "idx = 0 \<or> idx = 1" using assms(3) by auto
  ultimately show ?thesis
    by (auto simp: fir_out_def vd_clip_def drop_bit_eq_div Let_def max_def min_def)
qed

theorem vdownmix_no_overflow_witness:
  "fst (fir_out 2 [[15386, - 15386]]) =
     word_of_int (max (- 32768) (min 32767 (fir_sum 2 [[15386, - 15386]] 0 div 2 ^ 14)))"
  using vdownmix_no_overflow [of "[[15386, - 15386]]" 2 0]
  by (simp add: numeral_2_eq_2 less_Suc_eq)

text \<open>
  full-scale samples overflow the accumulators before the clipping sees them: after 84
  frames with all five channels at 32767 the filter sum scaled down is 159599, far above the
  largest sample, and both output channels are at the most negative sample instead of the most
  positive one.
\<close>

theorem vdownmix_loud_wraps:
  "let mix = snd (vdownmix_init \<lparr>ext_channels = 6, ext_slave_channels = 2, ext_rate = 48000\<rparr> m0);
       hist = replicate 84 (replicate 5 32767)
   in last (snd (run_steps vd_step (vd_stream mix) hist)) = (word_of_int (- 32768), word_of_int (- 32768))
      \<and> fir_sum 5 hist 0 div 2 ^ 14 = 159599 \<and> fir_sum 5 hist 1 div 2 ^ 14 = 159599"
proof -
  let ?mix = "snd (vdownmix_init \<lparr>ext_channels = 6, ext_slave_channels = 2, ext_rate = 48000\<rparr> m0)"
  let ?h = "replicate 84 (replicate 5 32767) :: s16 list list"
  have tap: "fir_tap ?h ch t = 32767 * snd t" if "ch < 5" "nat (fst t) < 84" for ch t
    using that by (simp add: fir_tap_def)
  have five: "[0..<5] = [0, 1, 2, 3, 4 :: nat]" by (simp add: upt_rec)
  have sums: "fir_sum 5 ?h 0 = 2614872134" "fir_sum 5 ?h 1 = 2614872134"
    unfolding fir_sum_def five
    by (simp_all add: used_taps_def tap_filters_def tap_index_def c_int_def tap)
  have rem: "vd_remembers ?mix []" by (rule vdownmix_init_remembers)
  have ch: "nat (vd_channels ?mix) = 5" by (simp add: vdownmix_init_def)
  have outs: "snd (run_steps vd_step (vd_stream ?mix) ?h) = map (\<lambda>t. fir_out 5 ([] @ take (Suc t) ?h)) [0..<length ?h]"
    using rem unfolding vd_remembers_def ch by (intro run_vd_fir) auto
  have "last (snd (run_steps vd_step (vd_stream ?mix) ?h)) = fir_out 5 ?h"
    unfolding outs by (simp add: last_map del: replicate.simps)
  moreover have "fir_out 5 ?h = (word_of_int (- 32768), word_of_int (- 32768))"
    unfolding fir_out_def sums by (simp add: c_int_def vd_clip_def)
  ultimately show ?thesis by (simp only: Let_def sums) simp
qed

end
