(* ===== verification/Upmix.thy ===== *)
theory Upmix
  imports Areas
begin

section \<open>The upmix plugin (mix/pcm_upmix.c)\<close>

text \<open>
  1 to 8 channels to 4, 6 or 8: plain copies (alsa-lib's \<open>snd_pcm_area_copy\<close> and
  \<open>snd_pcm_areas_copy\<close>, the fields of \<open>copy_api\<close>), the average of left and right for
  centre and LFE, and a delay line for the rear channels. The definitions are the upmixers,
  the table that chooses one, \<open>upmix_transfer\<close>, \<open>upmix_init\<close>, \<open>upmix_close\<close>, the
  channel maps and the constructor. A delay line is \<open>None\<close> while the pointer is \<open>NULL\<close>
  (or freed); an access through it or past its end makes the operation \<open>None\<close>.
\<close>

record copy_api =
  c_area_copy :: "area \<Rightarrow> u64 \<Rightarrow> area \<Rightarrow> u64 \<Rightarrow> u64 \<Rightarrow> smem \<Rightarrow> smem"
  c_areas_copy :: "area list \<Rightarrow> u64 \<Rightarrow> area list \<Rightarrow> u64 \<Rightarrow> nat \<Rightarrow> u64 \<Rightarrow> smem \<Rightarrow> smem"

datatype upmixer =
    Up_1_to_71 | Up_1_to_51 | Up_1_to_40 | Up_2_to_71 | Up_2_to_51 | Up_2_to_40 | Up_3_to_51
  | Up_3_to_40 | Up_4_to_51 | Up_4_to_40 | Up_5_to_51 | Up_6_to_51 | Up_8_to_71

record upmix =
  um_delay_ms :: int
  um_upmix :: "upmixer option"
  um_curpos :: u32
  um_delay :: int
  um_line0 :: "s16 list option"
  um_line1 :: "s16 list option"

definition um_area_step :: "area \<Rightarrow> u32" where
  "um_area_step a = ar_step a div 8 div 2"

subsection \<open>The delay line\<close>

text \<open>
  \<open>dl_out\<close> and \<open>dl_in\<close> are the two loops over \<open>p < delay\<close> of \<open>delayed_copy\<close>, with
  their running pointers; \<open>dl_channel\<close> is the body of its loop over the two channels.
\<close>

fun dl_out :: "nat \<Rightarrow> u32 \<Rightarrow> s16 list option \<Rightarrow> u32 \<Rightarrow> nat \<Rightarrow> u32 \<Rightarrow> smem \<Rightarrow> smem option" where
  "dl_out 0 delay line curpos dst dst_step mem = Some mem"
| "dl_out (Suc p) delay line curpos dst dst_step mem = do {
     l \<leftarrow> line;
     if unat curpos < length l
     then dl_out p delay line ((curpos + 1) mod delay) (dst + 2 * unat dst_step) dst_step
            (mem(dst := l ! unat curpos))
     else None
   }"

fun dl_in :: "nat \<Rightarrow> u32 \<Rightarrow> s16 list option \<Rightarrow> u32 \<Rightarrow> nat \<Rightarrow> u32 \<Rightarrow> smem \<Rightarrow> (s16 list option \<times> u32) option" where
  "dl_in 0 delay line curpos src src_step mem = Some (line, curpos)"
| "dl_in (Suc p) delay line curpos src src_step mem = do {
     l \<leftarrow> line;
     if unat curpos < length l
     then dl_in p delay (Some (l[unat curpos := mem src])) ((curpos + 1) mod delay)
            (src + 2 * unat src_step) src_step mem
     else None
   }"

definition dl_channel ::
  "copy_api \<Rightarrow> upmix \<Rightarrow> u32 \<Rightarrow> area \<Rightarrow> u64 \<Rightarrow> area \<Rightarrow> u64 \<Rightarrow> u32 \<Rightarrow> s16 list option \<Rightarrow> smem
    \<Rightarrow> (s16 list option \<times> u32 \<times> smem) option" where
  "dl_channel C mix delay dst_area dst_offset src_area src_offset sz line mem = do {
     mem \<leftarrow> dl_out (unat delay) (word_of_int (um_delay mix)) line (um_curpos mix)
              (area_addr dst_area dst_offset) (um_area_step dst_area) mem;
     let mem = c_area_copy C dst_area (dst_offset + ucast delay) src_area src_offset
                 (ucast (sz - delay)) mem;
     (line, curpos) \<leftarrow> dl_in (unat delay) (word_of_int (um_delay mix)) line (um_curpos mix)
              (area_addr src_area (src_offset + ucast sz - ucast delay)) (um_area_step src_area) mem;
     Some (line, curpos, mem)
   }"

definition delayed_copy ::
  "copy_api \<Rightarrow> upmix \<Rightarrow> area list \<Rightarrow> u64 \<Rightarrow> area list \<Rightarrow> u64 \<Rightarrow> u32 \<Rightarrow> smem \<Rightarrow> (upmix \<times> smem) option" where
  "delayed_copy C mix dst_areas dst_offset src_areas src_offset sz mem =
     (if um_delay_ms mix = 0
      then Some (mix, c_areas_copy C dst_areas dst_offset src_areas src_offset 2 (ucast sz) mem)
      else do {
        let delay = word_of_int (um_delay mix);
        let delay = (if delay > sz then sz else delay);
        (line0, curpos, mem) \<leftarrow> dl_channel C mix delay (dst_areas ! 0) dst_offset
            (src_areas ! 0) src_offset sz (um_line0 mix) mem;
        (line1, curpos, mem) \<leftarrow> dl_channel C mix delay (dst_areas ! 1) dst_offset
            (src_areas ! 1) src_offset sz (um_line1 mix) mem;
        Some (mix\<lparr>um_line0 := line0, um_line1 := line1, um_curpos := curpos\<rparr>, mem)
      })"

subsection \<open>The average of left and right\<close>

fun avg_loop :: "nat \<Rightarrow> nat \<times> nat \<Rightarrow> u32 \<times> u32 \<Rightarrow> nat \<times> nat \<Rightarrow> u32 \<times> u32 \<Rightarrow> smem \<Rightarrow> smem" where
  "avg_loop 0 dst dst_step src src_step mem = mem"
| "avg_loop (Suc sz) dst dst_step src src_step mem =
     (let val = word_of_int (drop_bit 1 (sint (mem (fst src))) + drop_bit 1 (sint (mem (snd src))));
          mem = mem(fst dst := val);
          mem = mem(snd dst := val)
      in avg_loop sz (fst dst + 2 * unat (fst dst_step), snd dst + 2 * unat (snd dst_step)) dst_step
           (fst src + 2 * unat (fst src_step), snd src + 2 * unat (snd src_step)) src_step mem)"

definition average_copy :: "area list \<Rightarrow> u64 \<Rightarrow> area list \<Rightarrow> u64 \<Rightarrow> u32 \<Rightarrow> smem \<Rightarrow> smem" where
  "average_copy dst_areas dst_offset src_areas src_offset sz mem =
     avg_loop (unat sz)
       (area_addr (dst_areas ! 0) dst_offset, area_addr (dst_areas ! 1) dst_offset)
       (um_area_step (dst_areas ! 0), um_area_step (dst_areas ! 1))
       (area_addr (src_areas ! 0) src_offset, area_addr (src_areas ! 1) src_offset)
       (um_area_step (src_areas ! 0), um_area_step (src_areas ! 1)) mem"

subsection \<open>The upmixers\<close>

text \<open>
  Pointer arithmetic on an area array is \<open>drop\<close>. \<open>size\<close> is 64 bits wide and narrowed to
  the \<open>unsigned int\<close> of \<open>delayed_copy\<close> and \<open>average_copy\<close>.
\<close>

definition mono_copy :: "copy_api \<Rightarrow> nat \<Rightarrow> area list \<Rightarrow> u64 \<Rightarrow> area list \<Rightarrow> u64 \<Rightarrow> u64 \<Rightarrow> smem \<Rightarrow> smem" where
  "mono_copy C n ds doff ss soff sz mem =
     fold (\<lambda>channel. c_area_copy C (ds ! channel) doff (ss ! 0) soff sz) [0..<n] mem"

definition upmix_1_to_71 where
  "upmix_1_to_71 C (mix :: upmix) ds doff ss soff sz mem = Some (mix, mono_copy C 8 ds doff ss soff sz mem)"

definition upmix_1_to_51 where
  "upmix_1_to_51 C (mix :: upmix) ds doff ss soff sz mem = Some (mix, mono_copy C 6 ds doff ss soff sz mem)"

definition upmix_1_to_40 where
  "upmix_1_to_40 C (mix :: upmix) ds doff ss soff sz mem = Some (mix, mono_copy C 4 ds doff ss soff sz mem)"

definition upmix_2_to_71 where
  "upmix_2_to_71 C mix ds doff ss soff sz mem = do {
     let mem = c_areas_copy C ds doff ss soff 2 sz mem;
     (mix, mem) \<leftarrow> delayed_copy C mix (drop 2 ds) doff ss soff (ucast sz) mem;
     let mem = average_copy (drop 4 ds) doff ss soff (ucast sz) mem;
     Some (mix, c_areas_copy C (drop 6 ds) doff ss soff 2 sz mem)
   }"

definition upmix_2_to_51 where
  "upmix_2_to_51 C mix ds doff ss soff sz mem = do {
     let mem = c_areas_copy C ds doff ss soff 2 sz mem;
     (mix, mem) \<leftarrow> delayed_copy C mix (drop 2 ds) doff ss soff (ucast sz) mem;
     Some (mix, average_copy (drop 4 ds) doff ss soff (ucast sz) mem)
   }"

definition upmix_2_to_40 where
  "upmix_2_to_40 C mix ds doff ss soff sz mem =
     delayed_copy C mix (drop 2 ds) doff ss soff (ucast sz) (c_areas_copy C ds doff ss soff 2 sz mem)"

definition upmix_3_to_51 where
  "upmix_3_to_51 C mix ds doff ss soff sz mem = do {
     let mem = c_areas_copy C ds doff ss soff 2 sz mem;
     (mix, mem) \<leftarrow> delayed_copy C mix (drop 2 ds) doff ss soff (ucast sz) mem;
     Some (mix, c_areas_copy C (drop 4 ds) doff ss soff 2 sz mem)
   }"

definition upmix_3_to_40 where
  "upmix_3_to_40 C mix ds doff ss soff sz mem =
     delayed_copy C mix (drop 2 ds) doff ss soff (ucast sz) (c_areas_copy C ds doff ss soff 2 sz mem)"

definition upmix_4_to_51 where
  "upmix_4_to_51 C (mix :: upmix) ds doff ss soff sz mem =
     Some (mix, c_areas_copy C (drop 4 ds) doff ss soff 2 sz (c_areas_copy C ds doff ss soff 4 sz mem))"

definition upmix_4_to_40 where
  "upmix_4_to_40 C (mix :: upmix) ds doff ss soff sz mem = Some (mix, c_areas_copy C ds doff ss soff 4 sz mem)"

definition upmix_5_to_51 where
  "upmix_5_to_51 C (mix :: upmix) ds doff ss soff sz mem =
     Some (mix, c_area_copy C (ds ! 5) doff (ss ! 4) soff sz (c_areas_copy C ds doff ss soff 5 sz mem))"

definition upmix_6_to_51 where
  "upmix_6_to_51 C (mix :: upmix) ds doff ss soff sz mem = Some (mix, c_areas_copy C ds doff ss soff 6 sz mem)"

definition upmix_8_to_71 where
  "upmix_8_to_71 C (mix :: upmix) ds doff ss soff sz mem = Some (mix, c_areas_copy C ds doff ss soff 8 sz mem)"

fun call_upmixer ::
  "upmixer \<Rightarrow> copy_api \<Rightarrow> upmix \<Rightarrow> area list \<Rightarrow> u64 \<Rightarrow> area list \<Rightarrow> u64 \<Rightarrow> u64 \<Rightarrow> smem \<Rightarrow> (upmix \<times> smem) option" where
  "call_upmixer Up_1_to_71 = upmix_1_to_71"
| "call_upmixer Up_1_to_51 = upmix_1_to_51"
| "call_upmixer Up_1_to_40 = upmix_1_to_40"
| "call_upmixer Up_2_to_71 = upmix_2_to_71"
| "call_upmixer Up_2_to_51 = upmix_2_to_51"
| "call_upmixer Up_2_to_40 = upmix_2_to_40"
| "call_upmixer Up_3_to_51 = upmix_3_to_51"
| "call_upmixer Up_3_to_40 = upmix_3_to_40"
| "call_upmixer Up_4_to_51 = upmix_4_to_51"
| "call_upmixer Up_4_to_40 = upmix_4_to_40"
| "call_upmixer Up_5_to_51 = upmix_5_to_51"
| "call_upmixer Up_6_to_51 = upmix_6_to_51"
| "call_upmixer Up_8_to_71 = upmix_8_to_71"

definition do_upmix :: "upmixer list list" where
  "do_upmix = [
     [Up_1_to_40, Up_1_to_51, Up_1_to_71],
     [Up_2_to_40, Up_2_to_51, Up_2_to_71],
     [Up_3_to_40, Up_3_to_51, Up_3_to_51],
     [Up_4_to_40, Up_4_to_51, Up_4_to_51],
     [Up_4_to_40, Up_5_to_51, Up_5_to_51],
     [Up_4_to_40, Up_6_to_51, Up_6_to_51],
     [Up_4_to_40, Up_6_to_51, Up_6_to_51],
     [Up_4_to_40, Up_6_to_51, Up_8_to_71]]"

subsection \<open>The callbacks\<close>

definition upmix_transfer ::
  "copy_api \<Rightarrow> upmix \<Rightarrow> area list \<Rightarrow> u64 \<Rightarrow> area list \<Rightarrow> u64 \<Rightarrow> u64 \<Rightarrow> smem \<Rightarrow> (u64 \<times> upmix \<times> smem) option" where
  "upmix_transfer C mix ds doff ss soff sz mem = do {
     u \<leftarrow> um_upmix mix;
     (mix, mem) \<leftarrow> call_upmixer u C mix ds doff ss soff sz mem;
     Some (sz, mix, mem)
   }"

definition calloc_line :: "bool \<Rightarrow> int \<Rightarrow> s16 list option" where
  "calloc_line ok n = (if ok then Some (replicate (nat n) 0) else None)"

definition upmix_init :: "bool \<Rightarrow> bool \<Rightarrow> extplug \<Rightarrow> upmix \<Rightarrow> int \<times> upmix" where
  "upmix_init alloc0 alloc1 ext mix =
     (let stype = (if ext_slave_channels ext = 6 then 1 else if ext_slave_channels ext = 8 then 2 else 0 :: nat);
          ctype = c_int (uint (ext_channels ext - 1))
      in if ctype < 0 \<or> ctype > 7 then (- EINVAL, mix)
         else
           let mix = mix\<lparr>um_upmix := Some (do_upmix ! nat ctype ! stype)\<rparr>
           in if um_delay_ms mix = 0 then (0, mix)
              else
                let delay = c_int (uint (ext_rate ext * word_of_int (um_delay_ms mix) div 1000));
                    mix = mix\<lparr>um_delay := delay, um_line0 := calloc_line alloc0 delay,
                              um_line1 := calloc_line alloc1 delay\<rparr>
                in if um_line0 mix = None \<or> um_line1 mix = None then (- ENOMEM, mix)
                   else (0, mix\<lparr>um_curpos := 0\<rparr>))"

definition upmix_close :: "upmix \<Rightarrow> int \<times> upmix" where
  "upmix_close mix = (0, mix\<lparr>um_line0 := None, um_line1 := None\<rparr>)"

subsection \<open>Channel maps and the constructor\<close>

definition um_chmap :: "chmap_pos list list" where
  "um_chmap = [
     [CHMAP_MONO],
     [CHMAP_FL, CHMAP_FR],
     [CHMAP_FL, CHMAP_FR, CHMAP_FC],
     [CHMAP_FL, CHMAP_FR, CHMAP_RL, CHMAP_RR],
     [CHMAP_FL, CHMAP_FR, CHMAP_RL, CHMAP_RR, CHMAP_FC],
     [CHMAP_FL, CHMAP_FR, CHMAP_RL, CHMAP_RR, CHMAP_FC, CHMAP_LFE],
     [CHMAP_FL, CHMAP_FR, CHMAP_RL, CHMAP_RR, CHMAP_FC, CHMAP_LFE, CHMAP_UNKNOWN],
     [CHMAP_FL, CHMAP_FR, CHMAP_RL, CHMAP_RR, CHMAP_FC, CHMAP_LFE, CHMAP_SL, CHMAP_SR]]"

fun um_query_loop :: "(nat \<Rightarrow> bool) \<Rightarrow> nat list \<Rightarrow> chmap list \<Rightarrow> chmap list option" where
  "um_query_loop alloc [] maps = Some maps"
| "um_query_loop alloc (i # is) maps =
     (if \<not> alloc (Suc i) then None
      else um_query_loop alloc is
             (maps @ [\<lparr>cm_channels = i + 1, cm_pos = take (i + 1) (um_chmap ! i)\<rparr>]))"

definition upmix_query_chmaps :: "(nat \<Rightarrow> bool) \<Rightarrow> chmap list option" where
  "upmix_query_chmaps alloc = (if \<not> alloc 0 then None else um_query_loop alloc [0..<8] [])"

definition upmix_get_chmap :: "bool \<Rightarrow> extplug \<Rightarrow> chmap option" where
  "upmix_get_chmap alloc ext =
     (if ext_channels ext < 1 \<or> ext_channels ext > 8 then None
      else if \<not> alloc then None
      else Some \<lparr>cm_channels = unat (ext_channels ext),
                 cm_pos = take (unat (ext_channels ext)) (um_chmap ! unat (ext_channels ext - 1))\<rparr>)"

text \<open>
  The configuration loop carries the slave node, the delay (a C int) and the channels (an
  unsigned int), both narrowed from the \<open>long\<close> of the configuration.
\<close>

type_synonym 'n upmix_settings = "'n option \<times> int \<times> u32"

fun upmix_conf :: "'n config_api \<Rightarrow> 'n list \<Rightarrow> 'n upmix_settings \<Rightarrow> int + 'n upmix_settings" where
  "upmix_conf C [] st = Inr st"
| "upmix_conf C (n # ns) (sconf, delay, channels) =
     (case cfg_id C n of
        None \<Rightarrow> upmix_conf C ns (sconf, delay, channels)
      | Some key \<Rightarrow>
          if cfg_skipped key then upmix_conf C ns (sconf, delay, channels)
          else if key = ''slave'' then upmix_conf C ns (Some n, delay, channels)
          else if key = ''delay'' then
            (case cfg_integer C n of
               None \<Rightarrow> Inl (cfg_error C n)
             | Some val \<Rightarrow> upmix_conf C ns (sconf, c_int val, channels))
          else if key = ''channels'' then
            (case cfg_integer C n of
               None \<Rightarrow> Inl (cfg_error C n)
             | Some val \<Rightarrow>
                 let channels = word_of_int val
                 in if channels \<noteq> 4 \<and> channels \<noteq> 6 \<and> channels \<noteq> 0 \<and> channels \<noteq> 8
                    then Inl (- EINVAL)
                    else upmix_conf C ns (sconf, delay, channels))
          else Inl (- EINVAL))"

definition upmix_open ::
  "'n config_api \<Rightarrow> bool \<Rightarrow> ('n \<Rightarrow> int) \<Rightarrow> 'n list \<Rightarrow> int + upmix \<times> ext_call list" where
  "upmix_open C alloc create conf =
     (case upmix_conf C conf (None, 10, 0) of
        Inl err \<Rightarrow> Inl err
      | Inr (None, delay, channels) \<Rightarrow> Inl (- EINVAL)
      | Inr (Some sconf, delay, channels) \<Rightarrow>
          if \<not> alloc then Inl (- ENOMEM)
          else
            let delay = (if delay < 0 then 0 else if delay > 1000 then 1000 else delay);
                mix = \<lparr>um_delay_ms = delay, um_upmix = None, um_curpos = 0, um_delay = 0,
                       um_line0 = None, um_line1 = None\<rparr>;
                err = create sconf
            in if err < 0 then Inl err
               else Inr (mix, [Set_param_minmax HW_CHANNELS 1 8,
                   (if channels \<noteq> 0
                    then Set_slave_param_minmax HW_CHANNELS (unat channels) (unat channels)
                    else Set_slave_param_list HW_CHANNELS [4, 6, 8]),
                   Set_param HW_FORMAT S16, Set_slave_param HW_FORMAT S16]))"

end
