(* ===== verification/UpmixLine.thy ===== *)
theory UpmixLine
  imports Upmix
begin

section \<open>The delay line is a queue\<close>

text \<open>
  The two loops of \<open>delayed_copy\<close> over a line of length D implement, for one channel, a
  FIFO queue that holds exactly D samples: \<open>dl_run\<close> is the pair of loops without the memory,
  \<open>dl_queue\<close> the queue it stands for, and the interpretation of \<open>stream_transducer\<close>
  says that the delayed stream does not depend on the sizes of the transfers although the
  position of the samples in the line does.
\<close>

type_synonym dline = "s16 list \<times> nat"

definition dl_queue :: "dline \<Rightarrow> s16 list" where
  "dl_queue = (\<lambda>(line, cur). ring_read line cur (length line))"

definition dl_ok :: "dline \<Rightarrow> bool" where
  "dl_ok = (\<lambda>(line, cur). line = [] \<or> cur < length line)"

definition dl_run :: "dline \<Rightarrow> s16 list \<Rightarrow> dline \<times> s16 list" where
  "dl_run = (\<lambda>(line, cur) xs.
     let d = min (length line) (length xs)
     in ((ring_write line cur (drop (length xs - d) xs), (cur + d) mod length line),
         ring_read line cur d @ take (length xs - d) xs))"

lemma length_dl_queue [simp]: "length (dl_queue s) = length (fst s)"
  by (cases s) (simp add: dl_queue_def)

lemma ring_read_write_other:
  assumes "length xs \<le> length buf"
  shows "ring_read (ring_write buf off xs) (off + length xs) (length buf - length xs)
    = ring_read buf (off + length xs) (length buf - length xs)"
proof (rule nth_equalityI)
  fix i
  assume "i < length (ring_read (ring_write buf off xs) (off + length xs) (length buf - length xs))"
  then have i: "i < length buf - length xs" by simp
  have "(off + j) mod length buf \<noteq> (off + length xs + i) mod length buf" if j: "j < length xs" for j
  proof
    assume eq: "(off + j) mod length buf = (off + length xs + i) mod length buf"
    have "j < length buf" "length xs + i < length buf" using i j by linarith+
    from mod_ring_inj [OF this, of off] eq j show False by (simp add: add.assoc)
  qed
  then show "ring_read (ring_write buf off xs) (off + length xs) (length buf - length xs) ! i
      = ring_read buf (off + length xs) (length buf - length xs) ! i"
    using i by (simp add: nth_ring_read ring_write_other)
qed simp

lemma ring_read_shift: "L = length buf \<Longrightarrow> ring_read buf (off + L) n = ring_read buf off n"
  by (metis mod_add_self2 ring_read_mod)

lemma dl_run_out: "snd (dl_run s xs) = take (length xs) (dl_queue s @ xs)"
proof -
  obtain line cur where s: "s = (line, cur)" by (cases s)
  have "take (length xs) (ring_read line cur (length line)) = ring_read line cur (min (length line) (length xs))"
    by (rule nth_equalityI) (auto simp: nth_ring_read)
  then show ?thesis by (simp add: s dl_run_def dl_queue_def min_def Let_def)
qed

lemma dl_run_queue:
  assumes "dl_ok s"
  shows "dl_queue (fst (dl_run s xs)) = drop (length xs) (dl_queue s @ xs)"
proof -
  obtain line cur where s: "s = (line, cur)" by (cases s)
  let ?D = "length line" and ?n = "length xs"
  show ?thesis
  proof (cases "?D \<le> ?n")
    case True
    let ?ys = "drop (?n - ?D) xs"
    have len: "length ?ys = ?D" using True by simp
    have "ring_read (ring_write line cur ?ys) ((cur + ?D) mod ?D) ?D = ring_read (ring_write line cur ?ys) (cur + ?D) ?D"
      by (rule ring_read_mod) simp
    also have "\<dots> = ring_read (ring_write line cur ?ys) cur ?D"
      by (rule ring_read_shift) simp
    also have "\<dots> = ?ys"
      using ring_read_write [of ?ys line cur] len by simp
    finally show ?thesis using True by (simp add: s dl_run_def dl_queue_def min_def Let_def)
  next
    case False
    let ?w = "ring_write line cur xs"
    have "ring_read ?w ((cur + ?n) mod ?D) ?D = ring_read ?w (cur + ?n) ((?D - ?n) + ?n)"
      using False by (simp add: ring_read_mod)
    also have "\<dots> = ring_read ?w (cur + ?n) (?D - ?n) @ ring_read ?w (cur + ?n + (?D - ?n)) ?n"
      by (rule ring_read_add)
    also have "ring_read ?w (cur + ?n) (?D - ?n) = ring_read line (cur + ?n) (?D - ?n)"
      using False by (intro ring_read_write_other) simp
    also have "ring_read ?w (cur + ?n + (?D - ?n)) ?n = ring_read ?w cur ?n"
      using False ring_read_shift [of ?D ?w cur ?n] by simp
    also have "\<dots> = xs"
      using False by (intro ring_read_write) simp
    finally have q: "ring_read ?w ((cur + ?n) mod ?D) ?D = ring_read line (cur + ?n) (?D - ?n) @ xs" .
    have "ring_read line cur (?n + (?D - ?n)) = ring_read line cur ?n @ ring_read line (cur + ?n) (?D - ?n)"
      by (rule ring_read_add)
    then have "drop ?n (ring_read line cur ?D) = ring_read line (cur + ?n) (?D - ?n)"
      using False by simp
    then show ?thesis using q False by (simp add: s dl_run_def dl_queue_def min_def Let_def)
  qed
qed

lemma dl_run_ok: "dl_ok s \<Longrightarrow> dl_ok (fst (dl_run s xs))"
proof -
  assume ok: "dl_ok s"
  obtain line cur where s: "s = (line, cur)" by (cases s)
  show ?thesis
  proof (cases line)
    case Nil
    then show ?thesis by (simp add: s dl_ok_def dl_run_def)
  next
    case (Cons x l)
    then have "(cur + min (length line) (length xs)) mod length line < length line"
      by (intro mod_less_divisor) simp
    then show ?thesis by (simp add: s dl_ok_def dl_run_def Let_def)
  qed
qed

lemma length_dl_run [simp]: "length (snd (dl_run s xs)) = length xs"
  by (simp add: dl_run_out)

lemma length_dl_run_line [simp]: "length (fst (fst (dl_run s xs))) = length (fst s)"
  by (cases s) (simp add: dl_run_def Let_def)

text \<open>The queue as a machine of its own; the line is another representation of it.\<close>

definition queue_run :: "'a list \<Rightarrow> 'a list \<Rightarrow> 'a list \<times> 'a list" where
  "queue_run q xs = (drop (length xs) (q @ xs), take (length xs) (q @ xs))"

lemma queue_run_append:
  "snd (queue_run q (xs @ ys)) = snd (queue_run q xs) @ snd (queue_run (fst (queue_run q xs)) ys)"
  "fst (queue_run q (xs @ ys)) = fst (queue_run (fst (queue_run q xs)) ys)"
proof -
  have q: "fst (queue_run q xs) @ ys = drop (length xs) (q @ xs @ ys)" by (simp add: queue_run_def)
  have t: "snd (queue_run q xs) = take (length xs) (q @ xs @ ys)" by (simp add: queue_run_def)
  show "snd (queue_run q (xs @ ys)) = snd (queue_run q xs) @ snd (queue_run (fst (queue_run q xs)) ys)"
    unfolding t unfolding queue_run_def snd_conv q [unfolded queue_run_def] by (simp only: take_add length_append)
  show "fst (queue_run q (xs @ ys)) = fst (queue_run (fst (queue_run q xs)) ys)"
    unfolding queue_run_def fst_conv q [unfolded queue_run_def fst_conv] drop_drop
    by (simp only: length_append add.commute)
qed

interpretation queue: stream_transducer "\<lambda>_. True" id queue_run
  by unfold_locales (simp_all add: queue_run_append, simp_all add: queue_run_def)

lemma dl_run_is_queue:
  "dl_ok s \<Longrightarrow> snd (dl_run s xs) = snd (queue_run (dl_queue s) xs)
     \<and> dl_queue (fst (dl_run s xs)) = fst (queue_run (dl_queue s) xs)"
  by (simp add: queue_run_def dl_run_out dl_run_queue)

interpretation dl: stream_transducer dl_ok dl_queue dl_run
  by unfold_locales (simp_all add: dl_run_is_queue dl_run_ok queue_run_append, simp_all add: queue_run_def)

end
