(* ===== verification/UpmixProofs.thy ===== *)
theory UpmixProofs
  imports UpmixLine
begin

section \<open>The upmixers on memory\<close>

text \<open>
  Every upmixer writes, channel by channel, a list of sample sequences into the destination
  areas (\<open>put_list\<close>). \<open>upmix_spec\<close> gives that list from the samples of the source
  channels and the two queues the delay lines stand for (\<open>UpmixLine\<close>); the step lemmas of
  this theory show it for each kind of copy, and \<open>call_upmixer_spec\<close> for every upmixer.
  What the plugin needs of alsa-lib's copy functions is \<open>copy_ok\<close>: on areas that do not
  overlap they write the samples of the source channels.
\<close>

definition put :: "area \<Rightarrow> nat \<Rightarrow> s16 list \<Rightarrow> smem \<Rightarrow> smem" where
  "put a off xs mem = poke (frame_addr a off) (pitch a) xs mem"

fun put_list :: "area list \<Rightarrow> nat \<Rightarrow> s16 list list \<Rightarrow> smem \<Rightarrow> smem" where
  "put_list ds off [] mem = mem"
| "put_list [] off (xs # xss) mem = mem"
| "put_list (d # ds) off (xs # xss) mem = put_list ds off xss (put d off xs mem)"

definition um_layout :: "area list \<Rightarrow> nat \<Rightarrow> area list \<Rightarrow> nat \<Rightarrow> nat \<Rightarrow> bool" where
  "um_layout ds doff ss soff n \<longleftrightarrow>
     (\<forall>d\<in>set ds. area_fits d (doff + n)) \<and> (\<forall>s\<in>set ss. area_fits s (soff + n))
     \<and> (\<forall>d\<in>set ds. \<forall>s\<in>set ss. chan_cells d doff n \<inter> chan_cells s soff n = {})
     \<and> sorted_wrt (\<lambda>d e. chan_cells d doff n \<inter> chan_cells e doff n = {}) ds"

definition copy_ok :: "copy_api \<Rightarrow> bool" where
  "copy_ok C \<longleftrightarrow>
     (\<forall>d doff s soff sz mem. um_layout [d] (unat doff) [s] (unat soff) (unat sz) \<longrightarrow>
        c_area_copy C d doff s soff sz mem = put d (unat doff) (chan s (unat soff) (unat sz) mem) mem)
   \<and> (\<forall>ds doff ss soff k sz mem. um_layout ds (unat doff) ss (unat soff) (unat sz) \<longrightarrow>
        k \<le> length ds \<longrightarrow> k \<le> length ss \<longrightarrow>
        c_areas_copy C ds doff ss soff k sz mem =
          put_list ds (unat doff) (map (\<lambda>s. chan s (unat soff) (unat sz) mem) (take k ss)) mem)"

lemma um_layout_drop: "um_layout ds doff ss soff n \<Longrightarrow> um_layout (drop k ds) doff ss soff n"
  unfolding um_layout_def by (meson in_set_dropD sorted_wrt_drop)

lemma um_layout_single:
  "um_layout ds doff ss soff n \<Longrightarrow> d \<in> set ds \<Longrightarrow> s \<in> set ss \<Longrightarrow> um_layout [d] doff [s] soff n"
  by (simp add: um_layout_def)

lemma chan_put: "0 < pitch a \<Longrightarrow> length xs = n \<Longrightarrow> chan a off n (put a off xs mem) = xs"
  by (auto simp: chan_def put_def peek_poke)

lemma chan_put_other:
  "chan_cells b boff (length xs) \<inter> chan_cells a off n = {} \<Longrightarrow> chan a off n (put b boff xs mem) = chan a off n mem"
  by (auto simp: chan_def chan_cells_def put_def intro!: peek_poke_other)

lemma chan_put_list_other:
  assumes "\<And>d. d \<in> set (take (length xss) ds) \<Longrightarrow> chan_cells d doff n \<inter> chan_cells a off m = {}"
    "\<forall>xs\<in>set xss. length xs = n"
  shows "chan a off m (put_list ds doff xss mem) = chan a off m mem"
  using assms
proof (induction ds doff xss mem rule: put_list.induct)
  case (3 d ds off xs xss mem)
  then show ?case by (simp add: chan_put_other)
qed simp_all

lemma chan_put_list:
  assumes "um_layout ds doff ss soff n" "length xss \<le> length ds" "\<forall>xs\<in>set xss. length xs = n" "i < length xss"
  shows "chan (ds ! i) doff n (put_list ds doff xss mem) = xss ! i"
  using assms
proof (induction ds doff xss mem arbitrary: i rule: put_list.induct)
  case (3 d ds off xs xss mem)
  have lay: "um_layout ds off ss soff n" using um_layout_drop [OF "3.prems"(1), of 1] by simp
  show ?case
  proof (cases i)
    case 0
    have "chan d off n (put_list ds off xss (put d off xs mem)) = chan d off n (put d off xs mem)"
      using "3.prems" by (intro chan_put_list_other) (auto simp: um_layout_def Int_commute dest: in_set_takeD)
    then show ?thesis
      using "3.prems" 0 by (auto simp: um_layout_def pitch_pos chan_put)
  next
    case (Suc j)
    then show ?thesis using "3.IH" [OF lay, of j] "3.prems" by simp
  qed
qed simp_all

lemma put_list_append:
  "length xss \<le> length ds \<Longrightarrow>
     put_list ds off (xss @ yss) mem = put_list (drop (length xss) ds) off yss (put_list ds off xss mem)"
  by (induction ds off xss mem rule: put_list.induct) auto

lemma put_list_frame:
  assumes "\<And>d. d \<in> set (take (length xss) ds) \<Longrightarrow> b \<notin> chan_cells d doff n" "\<forall>xs\<in>set xss. length xs = n"
  shows "put_list ds doff xss mem b = mem b"
  using assms
  by (induction ds doff xss mem rule: put_list.induct) (auto simp: put_def chan_cells_def poke_other)

text \<open>The samples of the source channels, unchanged by writes to destinations.\<close>

definition src_is :: "area list \<Rightarrow> nat \<Rightarrow> nat \<Rightarrow> s16 list list \<Rightarrow> smem \<Rightarrow> bool" where
  "src_is ss soff n xs mem \<longleftrightarrow> xs = map (\<lambda>s. chan s soff n mem) ss"

lemma src_is_put_list:
  assumes "um_layout ds doff ss soff n" "\<forall>ys\<in>set yss. length ys = n" "src_is ss soff n xs mem"
  shows "src_is ss soff n xs (put_list ds doff yss mem)"
proof -
  have "chan s soff n (put_list ds doff yss mem) = chan s soff n mem" if "s \<in> set ss" for s
    using assms(1,2) that unfolding um_layout_def
    by (intro chan_put_list_other) (blast dest: in_set_takeD)+
  then show ?thesis using assms(3) by (simp add: src_is_def)
qed

lemma src_is_nth: "src_is ss soff n xs mem \<Longrightarrow> i < length ss \<Longrightarrow> chan (ss ! i) soff n mem = xs ! i"
  by (simp add: src_is_def)

lemma src_is_length: "src_is ss soff n xs mem \<Longrightarrow> length xs = length ss \<and> (\<forall>x\<in>set xs. length x = n)"
  by (auto simp: src_is_def)

subsection \<open>The loops of the delay line\<close>

text \<open>The cursor as a word, next to a position in the unrolled ring.\<close>

lemma cursor_next:
  assumes "off mod D = unat cur" "0 < D" "D < 2 ^ 31"
  shows "Suc off mod D = unat ((cur + 1) mod (word_of_int (int D) :: u32))"
proof -
  have d: "unat (word_of_int (int D) :: u32) = D"
    using assms(3) by (simp add: unsigned_of_nat take_bit_nat_eq_self)
  have "unat cur < D" using assms(1,2) by (metis mod_less_divisor)
  then have "unat (cur + 1) = unat cur + 1"
    using assms(3) by (subst unat_add_lem [THEN iffD1]) auto
  then show ?thesis
    using d assms(1) by (simp add: unat_mod mod_Suc_eq [symmetric, of off])
qed

lemma dl_out_ring:
  assumes "off mod length l = unat cur" "0 < length l" "length l < 2 ^ 31"
  shows "dl_out p (word_of_int (int (length l))) (Some l) cur dst step mem
    = Some (poke dst (2 * unat step) (ring_read l off p) mem)"
  using assms(1)
proof (induction p arbitrary: off cur dst mem)
  case (Suc p)
  have "unat cur < length l" using Suc.prems assms(2) by (metis mod_less_divisor)
  moreover have "ring_read l off (Suc p) = l ! unat cur # ring_read l (Suc off) p"
    using ring_read_add [of l off 1 p] Suc.prems by (simp add: ring_read_def)
  ultimately show ?case
    using Suc.IH [OF cursor_next [OF Suc.prems assms(2,3)]] by (simp add: fun_upd_def)
qed simp

lemma dl_in_ring:
  assumes "off mod length l = unat cur" "0 < length l" "length l < 2 ^ 31"
  shows "dl_in p (word_of_int (int (length l))) (Some l) cur src step mem
    = Some (Some (ring_write l off (peek src (2 * unat step) p mem)), word_of_nat ((off + p) mod length l))"
  using assms
proof (induction p arbitrary: off cur src l)
  case (Suc p)
  have "unat cur < length l" using Suc.prems by (metis mod_less_divisor)
  moreover have "Suc off mod length (l[unat cur := mem src]) = unat ((cur + 1) mod (word_of_int (int (length l)) :: u32))"
    using cursor_next [OF Suc.prems] by simp
  ultimately show ?case
    using Suc.IH [of "Suc off" "l[unat cur := mem src]"] Suc.prems by (simp add: peek_Suc)
qed simp

lemma step_pitch: "area_fits a n \<Longrightarrow> 2 * unat (um_area_step a) = pitch a"
  by (auto simp: area_fits_def um_area_step_def pitch_def unat_div)

lemma put_put_part:
  assumes "area_fits d N"
  shows "put d (off + length xs) ys (put d off xs mem) = put d off (xs @ ys) mem"
  by (simp add: put_def poke_append frame_addr_add [OF assms])

lemma um_layout_part:
  assumes "um_layout [d] doff [s] soff n" "k + m \<le> n" "j + m \<le> n"
  shows "um_layout [d] (doff + k) [s] (soff + j) m"
proof -
  have fits: "area_fits d (doff + n)" "area_fits s (soff + n)"
    and dis: "chan_cells d doff n \<inter> chan_cells s soff n = {}"
    using assms(1) by (auto simp: um_layout_def)
  have "chan_cells d (doff + k) m \<inter> chan_cells s (soff + j) m = {}"
    by (rule disjoint_mono [OF dis chan_cells_part [OF fits(1) assms(2)] chan_cells_part [OF fits(2) assms(3)]])
  then show ?thesis
    using area_fits_mono [OF fits(1), of "doff + k + m"] area_fits_mono [OF fits(2), of "soff + j + m"] assms(2,3)
    by (simp add: um_layout_def)
qed

lemma chan_take_drop:
  assumes "area_fits s N" "k \<le> n"
  shows "chan s off (n - k) mem = take (n - k) (chan s off n mem)"
    "chan s (off + (n - k)) k mem = drop (n - k) (chan s off n mem)"
  using chan_add [OF assms(1), of off "n - k" k mem] assms(2) by simp_all

lemma dl_channel_run:
  fixes sz delay :: u32
  assumes C: "copy_ok C" and lay: "um_layout [d] (unat doff) [s] (unat soff) (unat sz)"
    and l: "um_delay mix = int (length l)" "length l < 2 ^ 31" "dl_ok (l, unat (um_curpos mix))"
    and delay: "unat delay = min (length l) (unat sz)"
  shows "dl_channel C mix delay d doff s soff sz (Some l) mem =
    (let r = dl_run (l, unat (um_curpos mix)) (chan s (unat soff) (unat sz) mem)
     in Some (Some (fst (fst r)), word_of_nat (snd (fst r)), put d (unat doff) (snd r) mem))"
proof -
  let ?n = "unat sz" and ?k = "unat delay" and ?cur = "unat (um_curpos mix)"
  let ?xs = "chan s (unat soff) ?n mem"
  have fits: "area_fits d (unat doff + ?n)" "area_fits s (unat soff + ?n)"
    and dis: "chan_cells d (unat doff) ?n \<inter> chan_cells s (unat soff) ?n = {}"
    using lay by (auto simp: um_layout_def)
  have k: "?k \<le> ?n" "?k \<le> length l" using delay by auto
  have small: "unat doff + ?n < 2 ^ 28" "unat soff + ?n < 2 ^ 28"
    using fits by (auto dest: area_fits_less)
  have words: "unat (doff + ucast delay) = unat doff + ?k" "unat (ucast (sz - delay) :: u64) = ?n - ?k"
    "unat (soff + ucast sz - ucast delay) = unat soff + (?n - ?k)"
    using small k by (auto simp: word_nat unat_plus_u64 unat_minus_u64 unat_sub word_le_nat_alt)
  let ?m1 = "put d (unat doff) (ring_read l ?cur ?k) mem"
  have lay': "um_layout [d] (unat doff + ?k) [s] (unat soff) (?n - ?k)"
    using um_layout_part [OF lay, of ?k "?n - ?k" 0] k by simp
  have sub1: "chan_cells d (unat doff) ?k \<subseteq> chan_cells d (unat doff) ?n"
    using chan_cells_part [OF fits(1), of 0 ?k] k by simp
  have sub2: "chan_cells s (unat soff) (?n - ?k) \<subseteq> chan_cells s (unat soff) ?n"
    using chan_cells_part [OF fits(2), of 0 "?n - ?k"] k by simp
  have out: "dl_out ?k (word_of_int (um_delay mix)) (Some l) (um_curpos mix) (area_addr d doff) (um_area_step d) mem
      = Some ?m1"
  proof (cases "l = []")
    case True
    then show ?thesis using k by (simp add: put_def)
  next
    case False
    then have "?cur mod length l = ?cur" using l(3) by (simp add: dl_ok_def)
    moreover have "area_addr d doff = frame_addr d (unat doff)" by (rule area_addr_frame [OF fits(1)]) simp
    ultimately show ?thesis
      using dl_out_ring [of ?cur l "um_curpos mix" ?k "area_addr d doff" "um_area_step d" mem] False l
      by (simp add: put_def step_pitch [OF fits(1)] del: One_nat_def)
  qed
  have src1: "chan s (unat soff) (?n - ?k) ?m1 = take (?n - ?k) ?xs"
  proof -
    have "chan s (unat soff) (?n - ?k) ?m1 = chan s (unat soff) (?n - ?k) mem"
      by (rule chan_put_other) (use disjoint_mono [OF dis sub1 sub2] in simp)
    then show ?thesis using chan_take_drop(1) [OF fits(2) k(1)] by simp
  qed
  let ?ys = "ring_read l ?cur ?k @ take (?n - ?k) ?xs"
  have copy: "c_area_copy C d (doff + ucast delay) s soff (ucast (sz - delay)) ?m1 = put d (unat doff) ?ys mem"
    using C lay' put_put_part [OF fits(1), of "unat doff" "ring_read l ?cur ?k" "take (?n - ?k) ?xs" mem]
    unfolding copy_ok_def by (simp add: words src1)
  have src2: "chan s (unat soff + (?n - ?k)) ?k (put d (unat doff) ?ys mem) = drop (?n - ?k) ?xs"
  proof -
    have "chan s (unat soff + (?n - ?k)) ?k (put d (unat doff) ?ys mem) = chan s (unat soff + (?n - ?k)) ?k mem"
      by (rule chan_put_other [OF disjoint_mono [OF dis]])
        (use k chan_cells_part [OF fits(2), of "?n - ?k" ?k] in auto)
    then show ?thesis using chan_take_drop(2) [OF fits(2) k(1)] by simp
  qed
  have inn: "dl_in ?k (word_of_int (um_delay mix)) (Some l) (um_curpos mix)
      (area_addr s (soff + ucast sz - ucast delay)) (um_area_step s) (put d (unat doff) ?ys mem)
      = Some (Some (ring_write l ?cur (drop (?n - ?k) ?xs)), word_of_nat ((?cur + ?k) mod length l))"
  proof (cases "l = []")
    case True
    then show ?thesis using k by simp
  next
    case False
    then have "?cur mod length l = ?cur" using l(3) by (simp add: dl_ok_def)
    moreover have "area_addr s (soff + ucast sz - ucast delay) = frame_addr s (unat soff + (?n - ?k))"
      using area_addr_frame [OF fits(2), of "soff + ucast sz - ucast delay"] words k by simp
    ultimately show ?thesis
      using dl_in_ring [of ?cur l "um_curpos mix" ?k "frame_addr s (unat soff + (?n - ?k))" "um_area_step s"
          "put d (unat doff) ?ys mem"] False l src2
      by (simp add: chan_def step_pitch [OF fits(2)])
  qed
  show ?thesis
    unfolding dl_channel_def out Option.bind.bind_lunit Let_def copy inn prod.case
    using delay by (simp add: dl_run_def Let_def)
qed

subsection \<open>The copies an upmixer is made of\<close>

definition um_ok :: "upmix \<Rightarrow> bool" where
  "um_ok mix \<longleftrightarrow> um_delay_ms mix = 0 \<or>
     (\<exists>l0 l1. um_line0 mix = Some l0 \<and> um_line1 mix = Some l1 \<and> length l1 = length l0
        \<and> um_delay mix = int (length l0) \<and> length l0 < 2 ^ 31 \<and> dl_ok (l0, unat (um_curpos mix)))"

definition rear_queues :: "upmix \<Rightarrow> s16 list \<times> s16 list" where
  "rear_queues mix =
     (if um_delay_ms mix = 0 then ([], [])
      else (dl_queue (the (um_line0 mix), unat (um_curpos mix)), dl_queue (the (um_line1 mix), unat (um_curpos mix))))"

definition delayed :: "s16 list \<Rightarrow> s16 list \<Rightarrow> s16 list" where
  "delayed q x = take (length x) (q @ x)"

definition average :: "s16 list \<Rightarrow> s16 list \<Rightarrow> s16 list" where
  "average xs ys = map2 (\<lambda>x y. word_of_int (sint x div 2 + sint y div 2)) xs ys"

text \<open>What a call leaves of the plugin, the queues aside.\<close>

definition same_setup :: "upmix \<Rightarrow> upmix \<Rightarrow> bool" where
  "same_setup mix mix' \<longleftrightarrow> um_upmix mix' = um_upmix mix \<and> um_delay_ms mix' = um_delay_ms mix"

lemma length_delayed [simp]: "length (delayed q x) = length x"
  by (simp add: delayed_def)

lemma areas_copy_step:
  assumes "copy_ok C" "um_layout ds (unat doff) ss (unat soff) (unat sz)" "src_is ss (unat soff) (unat sz) xs mem"
    "c \<le> length ds" "c \<le> length ss"
  shows "c_areas_copy C ds doff ss soff c sz mem = put_list ds (unat doff) (take c xs) mem"
  using assms unfolding copy_ok_def src_is_def by (simp add: take_map)

lemma area_copy_step:
  assumes "copy_ok C" "um_layout ds (unat doff) ss (unat soff) (unat sz)" "src_is ss (unat soff) (unat sz) xs mem"
    "k < length ds" "j < length ss"
  shows "c_area_copy C (ds ! k) doff (ss ! j) soff sz mem = put (ds ! k) (unat doff) (xs ! j) mem"
  using assms(1) um_layout_single [OF assms(2) nth_mem nth_mem, OF assms(4,5)] src_is_nth [OF assms(3,5)]
  unfolding copy_ok_def by simp

lemma unat_narrow: "unat (sz :: u64) < 2 ^ 28 \<Longrightarrow> unat (ucast sz :: u32) = unat sz"
  by (simp add: word_nat)

lemma two_areas: "2 \<le> length xs \<Longrightarrow> \<exists>x y zs. xs = x # y # zs"
  by (cases xs; cases "tl xs") auto

lemma dl_run_line_ok:
  assumes "dl_ok (l, c)" "length l < 2 ^ 31" "c < 2 ^ 32"
  shows "unat (word_of_nat (snd (fst (dl_run (l, c) xs))) :: u32) = snd (fst (dl_run (l, c) xs))"
proof -
  have "snd (fst (dl_run (l, c) xs)) < 2 ^ 32"
  proof (cases "l = []")
    case False
    then have "(c + min (length l) (length xs)) mod length l < length l" by simp
    then show ?thesis using assms(2) by (simp add: dl_run_def Let_def)
  qed (use assms(3) in \<open>simp add: dl_run_def\<close>)
  then show ?thesis by (simp add: unsigned_of_nat take_bit_nat_eq_self)
qed

lemma delayed_copy_step:
  fixes sz :: u64
  assumes C: "copy_ok C" and lay: "um_layout ds (unat doff) ss (unat soff) (unat sz)"
    and src: "src_is ss (unat soff) (unat sz) xs mem" and len: "2 \<le> length ds" "2 \<le> length ss"
    and ok: "um_ok mix" and q: "rear_queues mix = (q0, q1)"
  shows "\<exists>mix'. delayed_copy C mix ds doff ss soff (ucast sz) mem =
      Some (mix', put_list ds (unat doff) [delayed q0 (xs ! 0), delayed q1 (xs ! 1)] mem)
    \<and> um_ok mix' \<and> same_setup mix mix'
    \<and> rear_queues mix' = (drop (unat sz) (q0 @ xs ! 0), drop (unat sz) (q1 @ xs ! 1))"
proof -
  obtain d0 d1 ds' where ds: "ds = d0 # d1 # ds'" using two_areas [OF len(1)] by blast
  obtain s0 s1 ss' where ss: "ss = s0 # s1 # ss'" using two_areas [OF len(2)] by blast
  let ?n = "unat sz"
  have n: "?n < 2 ^ 28" using lay ds by (auto simp: um_layout_def dest: area_fits_less)
  note narrow = unat_narrow [OF n]
  have xs: "xs ! 0 = chan s0 (unat soff) ?n mem" "xs ! 1 = chan s1 (unat soff) ?n mem"
    using src by (auto simp: src_is_def ss)
  show ?thesis
  proof (cases "um_delay_ms mix = 0")
    case True
    have wide: "ucast (ucast sz :: u32) = sz"
      using n by (intro word_unat_eq_iff [THEN iffD2]) (simp add: word_nat)
    have "delayed_copy C mix ds doff ss soff (ucast sz) mem = Some (mix, put_list ds (unat doff) (take 2 xs) mem)"
      using True areas_copy_step [OF C lay src len] by (simp add: delayed_copy_def wide)
    moreover have "take 2 xs = [xs ! 0, xs ! 1]" using src by (simp add: src_is_def ss)
    ultimately show ?thesis
      using True ok q xs by (auto simp: rear_queues_def same_setup_def delayed_def)
  next
    case False
    then obtain l0 l1 where l: "um_line0 mix = Some l0" "um_line1 mix = Some l1" "length l1 = length l0"
      "um_delay mix = int (length l0)" "length l0 < 2 ^ 31" "dl_ok (l0, unat (um_curpos mix))"
      using ok by (auto simp: um_ok_def)
    let ?cur = "unat (um_curpos mix)"
    let ?delay = "let delay = word_of_int (um_delay mix) in if delay > ucast sz then ucast sz else (delay :: u32)"
    have dw: "unat (word_of_int (um_delay mix) :: u32) = length l0"
      using l(4,5) by (simp add: unsigned_of_nat take_bit_nat_eq_self)
    then have delay: "unat ?delay = min (length l0) (unat (ucast sz :: u32))"
      by (simp add: Let_def word_less_nat_alt min_def)
    have lays: "um_layout [d0] (unat doff) [s0] (unat soff) ?n" "um_layout [d1] (unat doff) [s1] (unat soff) ?n"
      using um_layout_single [OF lay] by (simp_all add: ds ss)
    have ok1: "dl_ok (l1, ?cur)" using l(3,6) by (auto simp: dl_ok_def)
    let ?r0 = "dl_run (l0, ?cur) (xs ! 0)" and ?r1 = "dl_run (l1, ?cur) (xs ! 1)"
    let ?m = "put d0 (unat doff) (snd ?r0) mem"
    have first: "dl_channel C mix ?delay d0 doff s0 soff (ucast sz) (Some l0) mem
        = Some (Some (fst (fst ?r0)), word_of_nat (snd (fst ?r0)), ?m)"
      using dl_channel_run [OF C, of d0 doff s0 soff "ucast sz" mix l0 ?delay mem] lays(1) l(4,5,6) delay narrow
      by (simp add: xs Let_def)
    have x1: "chan s1 (unat soff) ?n ?m = xs ! 1"
      unfolding xs by (rule chan_put_other) (use lay in \<open>simp add: um_layout_def ds ss\<close>)
    have second: "dl_channel C mix ?delay d1 doff s1 soff (ucast sz) (Some l1) ?m
        = Some (Some (fst (fst ?r1)), word_of_nat (snd (fst ?r1)), put d1 (unat doff) (snd ?r1) ?m)"
      using dl_channel_run [OF C, of d1 doff s1 soff "ucast sz" mix l1 ?delay ?m] lays(2) l(3,4,5) ok1 delay narrow
      by (simp add: x1 Let_def)
    let ?mix = "mix\<lparr>um_line0 := Some (fst (fst ?r0)), um_line1 := Some (fst (fst ?r1)), um_curpos := word_of_nat (snd (fst ?r1))\<rparr>"
    have run: "delayed_copy C mix ds doff ss soff (ucast sz) mem =
        Some (?mix, put_list ds (unat doff) [snd ?r0, snd ?r1] mem)"
      using False first second by (simp add: delayed_copy_def ds ss l(1,2) Let_def)
    have lens: "length (xs ! 0) = ?n" "length (xs ! 1) = ?n" unfolding xs by simp_all
    have curs: "snd (fst ?r1) = snd (fst ?r0)"
      using l(3) by (simp add: dl_run_def Let_def lens del: One_nat_def)
    have curw: "unat (word_of_nat (snd (fst ?r1)) :: u32) = snd (fst ?r1)"
      using dl_run_line_ok [OF ok1] l(3,5) unat_u32_lt [of "um_curpos mix"] by simp
    have qs: "q0 = dl_queue (l0, ?cur)" "q1 = dl_queue (l1, ?cur)"
      using q False l(1,2) by (auto simp: rear_queues_def)
    have pair: "(fst (fst ?r1), snd (fst ?r0)) = fst ?r1" unfolding curs [symmetric] by simp
    have "um_ok ?mix"
      using dl_run_ok [OF l(6), of "xs ! 0"] length_dl_run_line [of "(l0, ?cur)" "xs ! 0"] l(3-5) curs curw False
      by (cases "fst ?r0") (auto simp: um_ok_def)
    moreover have "rear_queues ?mix = (drop ?n (q0 @ xs ! 0), drop ?n (q1 @ xs ! 1))"
      using dl_run_queue [OF l(6), of "xs ! 0"] dl_run_queue [OF ok1, of "xs ! 1"] False curs curw lens
      by (simp add: rear_queues_def qs pair [simplified])
    moreover have "same_setup mix ?mix" by (simp add: same_setup_def)
    ultimately show ?thesis
      using run by (intro exI [of _ ?mix]) (simp add: dl_run_out delayed_def qs)
  qed
qed

subsection \<open>The average\<close>

lemma avg_loop_run:
  assumes "0 < unat t0" "0 < unat t1"
    "cells p0 (2 * unat t0) n \<inter> cells p1 (2 * unat t1) n = {}"
    "(cells p0 (2 * unat t0) n \<union> cells p1 (2 * unat t1) n)
       \<inter> (cells q0 (2 * unat u0) n \<union> cells q1 (2 * unat u1) n) = {}"
  shows "avg_loop n (p0, p1) (t0, t1) (q0, q1) (u0, u1) mem =
    (let ys = average (peek q0 (2 * unat u0) n mem) (peek q1 (2 * unat u1) n mem)
     in poke p1 (2 * unat t1) ys (poke p0 (2 * unat t0) ys mem))"
  using assms(3,4)
proof (induction n arbitrary: p0 p1 q0 q1 mem)
  case 0
  then show ?case by (simp add: average_def)
next
  case (Suc n)
  let ?v = "word_of_int (sint (mem q0) div 2 + sint (mem q1) div 2) :: s16"
  let ?m = "mem(p0 := ?v, p1 := ?v)"
  let ?p0 = "p0 + 2 * unat t0" and ?p1 = "p1 + 2 * unat t1" and ?q0 = "q0 + 2 * unat u0" and ?q1 = "q1 + 2 * unat u1"
  have d: "cells ?p0 (2 * unat t0) n \<inter> cells ?p1 (2 * unat t1) n = {}"
    "(cells ?p0 (2 * unat t0) n \<union> cells ?p1 (2 * unat t1) n)
       \<inter> (cells ?q0 (2 * unat u0) n \<union> cells ?q1 (2 * unat u1) n) = {}"
    and p: "p1 \<notin> cells ?p0 (2 * unat t0) n"
    and q: "p0 \<notin> cells ?q0 (2 * unat u0) n" "p1 \<notin> cells ?q0 (2 * unat u0) n"
      "p0 \<notin> cells ?q1 (2 * unat u1) n" "p1 \<notin> cells ?q1 (2 * unat u1) n"
    using Suc.prems unfolding cells_Suc by blast+
  have same: "peek ?q0 (2 * unat u0) n ?m = peek ?q0 (2 * unat u0) n mem"
    "peek ?q1 (2 * unat u1) n ?m = peek ?q1 (2 * unat u1) n mem"
    using q by (auto intro!: peek_cong)
  let ?ys = "average (peek ?q0 (2 * unat u0) n mem) (peek ?q1 (2 * unat u1) n mem)"
  have step: "avg_loop (Suc n) (p0, p1) (t0, t1) (q0, q1) (u0, u1) mem
      = avg_loop n (?p0, ?p1) (t0, t1) (?q0, ?q1) (u0, u1) ?m"
    by (simp add: drop_bit_eq_div Let_def)
  have ys: "average (peek q0 (2 * unat u0) (Suc n) mem) (peek q1 (2 * unat u1) (Suc n) mem) = ?v # ?ys"
    by (simp add: average_def peek_Suc)
  have swap: "poke ?p0 (2 * unat t0) ?ys ?m = (poke ?p0 (2 * unat t0) ?ys (mem(p0 := ?v)))(p1 := ?v)"
    by (rule poke_upd_swap [symmetric]) (use p in \<open>simp add: average_def\<close>)
  show ?case
    unfolding step ys Suc.IH [OF d, of ?m] same Let_def swap poke.simps ..
qed

lemma length_average [simp]: "length (average xs ys) = min (length xs) (length ys)"
  by (simp add: average_def)

lemma average_copy_step:
  fixes sz :: u64
  assumes lay: "um_layout ds (unat doff) ss (unat soff) (unat sz)" and src: "src_is ss (unat soff) (unat sz) xs mem"
    and len: "2 \<le> length ds" "2 \<le> length ss"
  shows "average_copy ds doff ss soff (ucast sz) mem =
    put_list ds (unat doff) [average (xs ! 0) (xs ! 1), average (xs ! 0) (xs ! 1)] mem"
proof -
  obtain d0 d1 ds' where ds: "ds = d0 # d1 # ds'" using two_areas [OF len(1)] by blast
  obtain s0 s1 ss' where ss: "ss = s0 # s1 # ss'" using two_areas [OF len(2)] by blast
  let ?n = "unat sz"
  have fits: "area_fits d0 (unat doff + ?n)" "area_fits d1 (unat doff + ?n)"
      "area_fits s0 (unat soff + ?n)" "area_fits s1 (unat soff + ?n)"
    using lay by (auto simp: um_layout_def ds ss)
  have dis: "chan_cells d0 (unat doff) ?n \<inter> chan_cells d1 (unat doff) ?n = {}"
    "(chan_cells d0 (unat doff) ?n \<union> chan_cells d1 (unat doff) ?n)
       \<inter> (chan_cells s0 (unat soff) ?n \<union> chan_cells s1 (unat soff) ?n) = {}"
    using lay by (simp_all add: um_layout_def ds ss Int_Un_distrib Int_Un_distrib2)
  have n: "unat (ucast sz :: u32) = ?n" using area_fits_less [OF fits(1)] by (intro unat_narrow) simp
  have addr: "area_addr d0 doff = frame_addr d0 (unat doff)" "area_addr d1 doff = frame_addr d1 (unat doff)"
    "area_addr s0 soff = frame_addr s0 (unat soff)" "area_addr s1 soff = frame_addr s1 (unat soff)"
    using area_addr_frame [OF fits(1)] area_addr_frame [OF fits(2)] area_addr_frame [OF fits(3)]
      area_addr_frame [OF fits(4)] by simp_all
  have xs: "xs ! 0 = chan s0 (unat soff) ?n mem" "xs ! 1 = chan s1 (unat soff) ?n mem"
    using src by (auto simp: src_is_def ss)
  note pitches = step_pitch [OF fits(1)] step_pitch [OF fits(2)] step_pitch [OF fits(3)] step_pitch [OF fits(4)]
  have pos: "0 < unat (um_area_step d0)" "0 < unat (um_area_step d1)"
    using pitches(1,2) pitch_pos [OF fits(1)] pitch_pos [OF fits(2)] by linarith+
  note run = avg_loop_run [OF pos, where n = ?n and ?p0.0 = "frame_addr d0 (unat doff)" and ?p1.0 = "frame_addr d1 (unat doff)"
      and ?q0.0 = "frame_addr s0 (unat soff)" and ?q1.0 = "frame_addr s1 (unat soff)"
      and ?u0.0 = "um_area_step s0" and ?u1.0 = "um_area_step s1", unfolded pitches,
      folded chan_cells_def chan_def put_def, OF dis]
  show ?thesis
    unfolding average_copy_def n ds ss nth_Cons_0 run
    by (simp add: addr run xs [unfolded One_nat_def] put_def [symmetric] Let_def)
qed

end
