(* ===== verification/UpmixSpec.thy ===== *)
theory UpmixSpec
  imports UpmixProofs
begin

section \<open>What each upmixer does\<close>

text \<open>
  The specification of the upmixers (\<open>upmix_spec\<close>): the samples of each destination channel
  from those of the source channels and the rear queues. \<open>call_upmixer_spec\<close> is the
  refinement; the properties are the transfer callback, the choice made by \<open>upmix_init\<close>, the
  channels that some choices leave unwritten, and the bounds set by the constructor.
\<close>

fun um_in :: "upmixer \<Rightarrow> nat" where
  "um_in Up_1_to_71 = 1" | "um_in Up_1_to_51 = 1" | "um_in Up_1_to_40 = 1"
| "um_in Up_2_to_71 = 2" | "um_in Up_2_to_51 = 2" | "um_in Up_2_to_40 = 2"
| "um_in Up_3_to_51 = 2" | "um_in Up_3_to_40 = 2"
| "um_in Up_4_to_51 = 4" | "um_in Up_4_to_40 = 4"
| "um_in Up_5_to_51 = 5" | "um_in Up_6_to_51 = 6" | "um_in Up_8_to_71 = 8"

fun um_delays :: "upmixer \<Rightarrow> bool" where
  "um_delays u \<longleftrightarrow> u \<in> {Up_2_to_71, Up_2_to_51, Up_2_to_40, Up_3_to_51, Up_3_to_40}"

fun upmix_spec :: "upmixer \<Rightarrow> s16 list \<times> s16 list \<Rightarrow> s16 list list \<Rightarrow> s16 list list" where
  "upmix_spec Up_1_to_71 q xs = replicate 8 (xs ! 0)"
| "upmix_spec Up_1_to_51 q xs = replicate 6 (xs ! 0)"
| "upmix_spec Up_1_to_40 q xs = replicate 4 (xs ! 0)"
| "upmix_spec Up_2_to_71 (q0, q1) xs =
     [xs ! 0, xs ! 1, delayed q0 (xs ! 0), delayed q1 (xs ! 1),
      average (xs ! 0) (xs ! 1), average (xs ! 0) (xs ! 1), xs ! 0, xs ! 1]"
| "upmix_spec Up_2_to_51 (q0, q1) xs =
     [xs ! 0, xs ! 1, delayed q0 (xs ! 0), delayed q1 (xs ! 1),
      average (xs ! 0) (xs ! 1), average (xs ! 0) (xs ! 1)]"
| "upmix_spec Up_2_to_40 (q0, q1) xs = [xs ! 0, xs ! 1, delayed q0 (xs ! 0), delayed q1 (xs ! 1)]"
| "upmix_spec Up_3_to_51 (q0, q1) xs =
     [xs ! 0, xs ! 1, delayed q0 (xs ! 0), delayed q1 (xs ! 1), xs ! 0, xs ! 1]"
| "upmix_spec Up_3_to_40 (q0, q1) xs = [xs ! 0, xs ! 1, delayed q0 (xs ! 0), delayed q1 (xs ! 1)]"
| "upmix_spec Up_4_to_51 q xs = take 4 xs @ take 2 xs"
| "upmix_spec Up_4_to_40 q xs = take 4 xs"
| "upmix_spec Up_5_to_51 q xs = take 5 xs @ [xs ! 4]"
| "upmix_spec Up_6_to_51 q xs = take 6 xs"
| "upmix_spec Up_8_to_71 q xs = take 8 xs"

definition um_out :: "upmixer \<Rightarrow> nat" where
  "um_out u = length (upmix_spec u ([], []) (replicate 8 []))"

lemma length_upmix_spec: "um_in u \<le> length xs \<Longrightarrow> length (upmix_spec u q xs) = um_out u"
  by (cases u; cases q) (auto simp: um_out_def)

definition next_queues :: "upmixer \<Rightarrow> nat \<Rightarrow> s16 list \<times> s16 list \<Rightarrow> s16 list list \<Rightarrow> s16 list \<times> s16 list" where
  "next_queues u n = (\<lambda>(q0, q1) xs.
     if um_delays u then (drop n (q0 @ xs ! 0), drop n (q1 @ xs ! 1)) else (q0, q1))"

lemma upmix_spec_lengths:
  assumes "\<forall>x\<in>set xs. length x = n" "um_in u \<le> length xs"
  shows "\<forall>y\<in>set (upmix_spec u q xs). length y = n"
proof -
  have "length (xs ! i) = n" if "i < um_in u" for i
    using assms that by simp
  from this [of 0] this [of 1] this [of 4] show ?thesis
    using assms(1) by (cases u; cases q) (auto dest: in_set_takeD)
qed


definition um_call :: "copy_api \<Rightarrow> area list \<Rightarrow> u64 \<Rightarrow> area list \<Rightarrow> u64 \<Rightarrow> u64 \<Rightarrow> s16 list list \<Rightarrow> smem \<Rightarrow> bool" where
  "um_call C ds doff ss soff sz xs mem \<longleftrightarrow> copy_ok C \<and> um_layout ds (unat doff) ss (unat soff) (unat sz)
     \<and> src_is ss (unat soff) (unat sz) xs mem"

definition written :: "area list \<Rightarrow> u64 \<Rightarrow> u64 \<Rightarrow> s16 list list \<Rightarrow> smem \<Rightarrow> smem" where
  "written ds doff sz yss mem = put_list ds (unat doff) yss mem"

lemma um_call_lengths:
  "um_call C ds doff ss soff sz xs mem \<Longrightarrow> length xs = length ss \<and> (\<forall>x\<in>set xs. length x = unat sz)"
  using src_is_length unfolding um_call_def by blast

lemma um_call_nth: "um_call C ds doff ss soff sz xs mem \<Longrightarrow> i < length ss \<Longrightarrow> length (xs ! i) = unat sz"
  using um_call_lengths nth_mem by metis

lemma um_call_rest:
  assumes "um_call C ds doff ss soff sz xs mem" "\<forall>ys\<in>set yss. length ys = unat sz"
  shows "um_layout (drop k ds) (unat doff) ss (unat soff) (unat sz)"
    "src_is ss (unat soff) (unat sz) xs (written ds doff sz yss mem)"
  using assms by (auto simp: um_call_def written_def intro: um_layout_drop src_is_put_list)

lemma written_append:
  "length yss \<le> length ds \<Longrightarrow>
     put_list (drop (length yss) ds) (unat doff) zss (written ds doff sz yss mem) = written ds doff sz (yss @ zss) mem"
  by (simp add: written_def put_list_append)

lemma then_areas_copy:
  assumes "um_call C ds doff ss soff sz xs mem" "\<forall>ys\<in>set yss. length ys = unat sz"
    "length yss + c \<le> length ds" "c \<le> length ss" "k = length yss"
  shows "c_areas_copy C (drop k ds) doff ss soff c sz (written ds doff sz yss mem)
    = written ds doff sz (yss @ take c xs) mem"
proof -
  have C: "copy_ok C" using assms(1) by (simp add: um_call_def)
  show ?thesis
    using areas_copy_step [OF C um_call_rest [OF assms(1,2)], of c k] assms(3-5) written_append [of yss ds]
    by simp
qed

lemma then_area_copy:
  assumes "um_call C ds doff ss soff sz xs mem" "\<forall>ys\<in>set yss. length ys = unat sz"
    "length yss < length ds" "j < length ss" "k = length yss"
  shows "c_area_copy C (ds ! k) doff (ss ! j) soff sz (written ds doff sz yss mem)
    = written ds doff sz (yss @ [xs ! j]) mem"
proof -
  have C: "copy_ok C" using assms(1) by (simp add: um_call_def)
  have d: "drop (length yss) ds = ds ! length yss # drop (Suc (length yss)) ds"
    using assms(3) by (simp add: Cons_nth_drop_Suc)
  show ?thesis
    using assms(3-5)
      area_copy_step [OF C um_call_rest(1) [OF assms(1,2), of 0, simplified] um_call_rest(2) [OF assms(1,2)], of k j]
      written_append [of yss ds doff "[xs ! j]" sz mem]
    by (simp add: d)
qed

lemma then_average_copy:
  assumes "um_call C ds doff ss soff sz xs mem" "\<forall>ys\<in>set yss. length ys = unat sz"
    "length yss + 2 \<le> length ds" "2 \<le> length ss" "k = length yss"
  shows "average_copy (drop k ds) doff ss soff (ucast sz) (written ds doff sz yss mem)
    = written ds doff sz (yss @ [average (xs ! 0) (xs ! 1), average (xs ! 0) (xs ! 1)]) mem"
  using average_copy_step [OF um_call_rest [OF assms(1,2)], of k] assms(3-5)
    written_append [of yss ds doff "[average (xs ! 0) (xs ! 1), average (xs ! 0) (xs ! 1)]" sz mem]
  by simp

lemma then_delayed_copy:
  assumes "um_call C ds doff ss soff sz xs mem" "\<forall>ys\<in>set yss. length ys = unat sz"
    "length yss + 2 \<le> length ds" "2 \<le> length ss" "k = length yss" "um_ok mix" "rear_queues mix = (q0, q1)"
  shows "\<exists>mix'. delayed_copy C mix (drop k ds) doff ss soff (ucast sz) (written ds doff sz yss mem)
      = Some (mix', written ds doff sz (yss @ [delayed q0 (xs ! 0), delayed q1 (xs ! 1)]) mem)
    \<and> um_ok mix' \<and> same_setup mix mix'
    \<and> rear_queues mix' = (drop (unat sz) (q0 @ xs ! 0), drop (unat sz) (q1 @ xs ! 1))"
proof -
  have C: "copy_ok C" using assms(1) by (simp add: um_call_def)
  show ?thesis
    using delayed_copy_step [OF C um_call_rest(1) [OF assms(1,2), of k] um_call_rest(2) [OF assms(1,2)] _ assms(4,6,7)] assms(3,5)
      written_append [of yss ds doff "[delayed q0 (xs ! 0), delayed q1 (xs ! 1)]" sz mem]
    by simp
qed

lemma then_mono_copy:
  assumes call: "um_call C ds doff ss soff sz xs mem" and "c \<le> length ds" "0 < length ss"
  shows "mono_copy C c ds doff ss soff sz mem = written ds doff sz (replicate c (xs ! 0)) mem"
  using assms(2)
proof (induction c)
  case (Suc c)
  have "length (xs ! 0) = unat sz" using um_call_nth [OF call] assms(3) by blast
  then show ?case
    using Suc then_area_copy [OF call, of "replicate c (xs ! 0)" 0 c] assms(3)
    by (simp add: mono_copy_def replicate_append_same)
qed (simp add: mono_copy_def written_def)

lemma call_upmixer_spec:
  assumes call: "um_call C ds doff ss soff sz xs mem" and ok: "um_ok mix" and q: "rear_queues mix = (q0, q1)"
    and len: "um_out u \<le> length ds" "um_in u \<le> length ss"
  shows "\<exists>mix'. call_upmixer u C mix ds doff ss soff sz mem =
      Some (mix', written ds doff sz (upmix_spec u (q0, q1) xs) mem)
    \<and> um_ok mix' \<and> same_setup mix mix' \<and> rear_queues mix' = next_queues u (unat sz) (q0, q1) xs"
proof -
  have xl: "length xs = length ss" "\<forall>x\<in>set xs. length x = unat sz" using um_call_lengths [OF call] by auto
  have refl: "same_setup mix mix" by (simp add: same_setup_def)
  have take2: "take 2 xs = [xs ! 0, xs ! 1]" if "2 \<le> length ss"
    using two_areas [of xs] that xl by auto
  have areas: "c_areas_copy C ds doff ss soff c sz mem = written ds doff sz (take c xs) mem"
    if "c \<le> length ds" "c \<le> length ss" for c
    using then_areas_copy [OF call, of "[]" c 0] that by (simp add: written_def)
  let ?W4 = "[xs ! 0, xs ! 1, delayed q0 (xs ! 0), delayed q1 (xs ! 1)]"
  let ?avg = "average (xs ! 0) (xs ! 1)"
  have l01: "length (xs ! 0) = unat sz" "length (xs ! 1) = unat sz" if "2 \<le> length ss"
    by (rule um_call_nth [OF call], use that in linarith)+
  have rear: "\<exists>mix'. delayed_copy C mix (drop 2 ds) doff ss soff (ucast sz) (c_areas_copy C ds doff ss soff 2 sz mem)
      = Some (mix', written ds doff sz ?W4 mem) \<and> um_ok mix' \<and> same_setup mix mix'
      \<and> rear_queues mix' = (drop (unat sz) (q0 @ xs ! 0), drop (unat sz) (q1 @ xs ! 1))"
    if "4 \<le> length ds" "2 \<le> length ss"
    using then_delayed_copy [OF call _ _ that(2) _ ok q, of "[xs ! 0, xs ! 1]" 2] that l01 [OF that(2)]
      areas [of 2] take2 [OF that(2)]
    by (simp del: One_nat_def)
  have avg: "average_copy (drop 4 ds) doff ss soff (ucast sz) (written ds doff sz ?W4 mem)
      = written ds doff sz (?W4 @ [?avg, ?avg]) mem" if "6 \<le> length ds" "2 \<le> length ss"
    by (rule then_average_copy [OF call]) (use that l01 in auto)
  have side: "c_areas_copy C (drop 6 ds) doff ss soff 2 sz (written ds doff sz (?W4 @ [?avg, ?avg]) mem)
      = written ds doff sz ((?W4 @ [?avg, ?avg]) @ take 2 xs) mem" if "8 \<le> length ds" "2 \<le> length ss"
    by (rule then_areas_copy [OF call]) (use that l01 in auto)
  have again: "c_areas_copy C (drop 4 ds) doff ss soff 2 sz (written ds doff sz yss mem)
      = written ds doff sz (yss @ take 2 xs) mem"
    if "6 \<le> length ds" "2 \<le> length ss" "length yss = 4" "\<forall>ys\<in>set yss. length ys = unat sz" for yss
    by (rule then_areas_copy [OF call that(4)]) (use that in auto)
  have five: "c_area_copy C (ds ! 5) doff (ss ! 4) soff sz (written ds doff sz (take 5 xs) mem)
      = written ds doff sz (take 5 xs @ [xs ! 4]) mem" if "6 \<le> length ds" "5 \<le> length ss"
    by (rule then_area_copy [OF call]) (use that xl in \<open>auto dest: in_set_takeD\<close>)
  have mono: "mono_copy C c ds doff ss soff sz mem = written ds doff sz (replicate c (xs ! 0)) mem"
    if "c \<le> length ds" "1 \<le> length ss" for c
    by (rule then_mono_copy [OF call that(1)]) (use that(2) in linarith)
  have d4: "\<forall>ys\<in>set (take 4 xs). length ys = unat sz" using xl by (auto dest: in_set_takeD)
  show ?thesis
  proof (cases "um_delays u")
    case True
    then have l: "4 \<le> length ds" "2 \<le> length ss"
      using len by (cases u; simp add: um_out_def)+
    obtain mix' where r: "delayed_copy C mix (drop 2 ds) doff ss soff (ucast sz) (c_areas_copy C ds doff ss soff 2 sz mem)
        = Some (mix', written ds doff sz ?W4 mem)" "um_ok mix'" "same_setup mix mix'"
      "rear_queues mix' = next_queues u (unat sz) (q0, q1) xs"
      using rear [OF l] True by (auto simp: next_queues_def)
    have "call_upmixer u C mix ds doff ss soff sz mem = Some (mix', written ds doff sz (upmix_spec u (q0, q1) xs) mem)"
      using True len r(1) avg side again [of ?W4] l01 take2
      by (cases u) (simp_all add: um_out_def upmix_2_to_71_def upmix_2_to_51_def upmix_2_to_40_def
          upmix_3_to_51_def upmix_3_to_40_def)
    then show ?thesis using r by blast
  next
    case False
    then have "call_upmixer u C mix ds doff ss soff sz mem = Some (mix, written ds doff sz (upmix_spec u (q0, q1) xs) mem)"
      using len areas mono five again [OF _ _ _ d4] xl
      by (cases u) (simp_all add: um_out_def upmix_1_to_71_def upmix_1_to_51_def upmix_1_to_40_def upmix_4_to_51_def
          upmix_4_to_40_def upmix_5_to_51_def upmix_6_to_51_def upmix_8_to_71_def)
    then show ?thesis using ok refl q False by (auto simp: next_queues_def)
  qed
qed

subsection \<open>Properties\<close>

lemma upmix_transfer_run:
  assumes call: "um_call C ds doff ss soff sz xs mem" and ok: "um_ok mix" and u: "um_upmix mix = Some u"
    and len: "um_out u \<le> length ds" "um_in u \<le> length ss"
  shows "\<exists>mix' mem'. upmix_transfer C mix ds doff ss soff sz mem = Some (sz, mix', mem')
    \<and> um_ok mix' \<and> same_setup mix mix' \<and> rear_queues mix' = next_queues u (unat sz) (rear_queues mix) xs
    \<and> (\<forall>i<length ds. chan (ds ! i) (unat doff) (unat sz) mem' =
          (if i < um_out u then upmix_spec u (rear_queues mix) xs ! i
           else chan (ds ! i) (unat doff) (unat sz) mem))"
proof -
  obtain q0 q1 where q: "rear_queues mix = (q0, q1)" by (cases "rear_queues mix")
  let ?out = "upmix_spec u (q0, q1) xs"
  let ?mem = "written ds doff sz ?out mem"
  from call_upmixer_spec [OF call ok q len] obtain mix' where run:
    "call_upmixer u C mix ds doff ss soff sz mem = Some (mix', ?mem)" "um_ok mix'" "same_setup mix mix'"
    "rear_queues mix' = next_queues u (unat sz) (q0, q1) xs" by blast
  have xl: "length xs = length ss" "\<forall>x\<in>set xs. length x = unat sz" using um_call_lengths [OF call] by auto
  have out: "length ?out = um_out u" "\<forall>y\<in>set ?out. length y = unat sz"
    using length_upmix_spec upmix_spec_lengths [OF xl(2)] len(2) xl(1) by auto
  have lay: "um_layout ds (unat doff) ss (unat soff) (unat sz)" using call by (simp add: um_call_def)
  have "chan (ds ! i) (unat doff) (unat sz) ?mem = ?out ! i" if "i < um_out u" for i
    unfolding written_def using chan_put_list [OF lay _ out(2)] that out(1) len(1) by simp
  moreover have "chan (ds ! i) (unat doff) (unat sz) ?mem = chan (ds ! i) (unat doff) (unat sz) mem"
    if i: "\<not> i < um_out u" "i < length ds" for i
    unfolding written_def
  proof (rule chan_put_list_other [OF _ out(2)])
    fix d
    assume "d \<in> set (take (length ?out) ds)"
    then obtain j where j: "j < um_out u" "d = ds ! j" using out(1) by (auto simp: in_set_conv_nth)
    then show "chan_cells d (unat doff) (unat sz) \<inter> chan_cells (ds ! i) (unat doff) (unat sz) = {}"
      using lay i sorted_wrt_nth_less [of _ ds j i] unfolding um_layout_def by fastforce
  qed
  ultimately show ?thesis
    using run u q by (intro exI [of _ mix'] exI [of _ ?mem]) (simp add: upmix_transfer_def)
qed

definition copy_model :: copy_api where
  "copy_model = \<lparr>
     c_area_copy = (\<lambda>d doff s soff sz mem. put d (unat doff) (chan s (unat soff) (unat sz) mem) mem),
     c_areas_copy = (\<lambda>ds doff ss soff k sz mem.
       put_list ds (unat doff) (map (\<lambda>s. chan s (unat soff) (unat sz) mem) (take k ss)) mem)\<rparr>"

lemma copy_model_ok: "copy_ok copy_model"
  by (simp add: copy_ok_def copy_model_def)

text \<open>Planar areas for the witnesses: n channels, 1000 bytes apart.\<close>

definition wit_areas :: "nat \<Rightarrow> nat \<Rightarrow> area list" where
  "wit_areas base n = map (\<lambda>i. \<lparr>ar_addr = base + 1000 * i, ar_first = 0, ar_step = 16\<rparr>) [0..<n]"

lemma wit_cells: "chan_cells \<lparr>ar_addr = a, ar_first = 0, ar_step = 16\<rparr> 0 1 = {a}"
  by (simp add: chan_cells_def frame_addr_def cells_def lessThan_Suc)

lemma wit_layout: "base + 1000 * n \<le> base' \<Longrightarrow> even base \<Longrightarrow> even base' \<Longrightarrow> um_layout (wit_areas base n) 0 (wit_areas base' m) 0 1"
  by (auto simp: um_layout_def wit_areas_def area_fits_def wit_cells [unfolded One_nat_def] sorted_wrt_map
      sorted_wrt_iff_nth_less)

lemma length_wit_areas [simp]: "length (wit_areas base n) = n"
  by (simp add: wit_areas_def)

definition wit_ext :: "nat \<Rightarrow> nat \<Rightarrow> extplug" where
  "wit_ext c s = \<lparr>ext_channels = word_of_nat c, ext_slave_channels = word_of_nat s, ext_rate = 48000\<rparr>"

definition wit_mix :: upmix where
  "wit_mix = \<lparr>um_delay_ms = 10, um_upmix = None, um_curpos = 0, um_delay = 0, um_line0 = None, um_line1 = None\<rparr>"


lemma upmix_init_run:
  assumes ch: "1 \<le> unat (ext_channels ext)" "unat (ext_channels ext) \<le> 8"
    and ms: "0 \<le> um_delay_ms mix" "um_delay_ms mix \<le> 1000" and rate: "unat (ext_rate ext) \<le> 4000000"
  shows "\<exists>mix'. upmix_init True True ext mix = (0, mix') \<and> um_ok mix'
    \<and> um_upmix mix' = Some (do_upmix ! (unat (ext_channels ext) - 1) !
          (if ext_slave_channels ext = 6 then 1 else if ext_slave_channels ext = 8 then 2 else 0))
    \<and> (let D = unat (ext_rate ext) * nat (um_delay_ms mix) div 1000
        in rear_queues mix' = (replicate D 0, replicate D 0))"
proof -
  let ?c = "ext_channels ext" and ?D = "unat (ext_rate ext) * nat (um_delay_ms mix) div 1000"
  have c: "c_int (uint (?c - 1)) = int (unat ?c - 1)"
  proof -
    have u: "unat (?c - 1) = unat ?c - 1" using ch(1) by (intro unat_minus_one) auto
    have "c_int (uint (?c - 1)) = uint (?c - 1)"
      by (rule c_int_uint) (use u ch(2) in simp)
    also have "\<dots> = int (unat (?c - 1))" by simp
    also have "\<dots> = int (unat ?c - 1)" by (simp only: u)
    finally show ?thesis .
  qed
  have ms': "unat (word_of_int (um_delay_ms mix) :: u32) = nat (um_delay_ms mix)"
    using ms by (simp add: unsigned_of_int take_bit_int_eq_self)
  have prod: "unat (ext_rate ext) * nat (um_delay_ms mix) \<le> 4000000 * 1000"
    using ms rate by (intro mult_le_mono) auto
  then have d: "unat (ext_rate ext * word_of_int (um_delay_ms mix) div 1000) = ?D"
    using ms' by (simp add: unat_div unat_mult_lem [THEN iffD1])
  have D: "?D \<le> 4000000" using div_le_mono [OF prod, of 1000] by simp
  then have dd: "c_int (uint (ext_rate ext * word_of_int (um_delay_ms mix) div 1000)) = int ?D"
  proof -
    have "c_int (uint (ext_rate ext * word_of_int (um_delay_ms mix) div 1000))
        = uint (ext_rate ext * word_of_int (um_delay_ms mix) div 1000)"
      by (rule c_int_uint) (use d D in simp)
    also have "\<dots> = int (unat (ext_rate ext * word_of_int (um_delay_ms mix) div 1000))" by simp
    also have "\<dots> = int ?D" by (simp only: d)
    finally show ?thesis .
  qed
  obtain k where k: "unat ?c - 1 = k" "k \<le> 7" using ch by simp
  note c' = c [unfolded k]
  obtain n where n: "?D = n" by blast
  then have n0: "um_delay_ms mix = 0 \<Longrightarrow> n = 0" by auto
  show ?thesis
    using k(2) D n0 unfolding k(1) n
    by (auto simp: upmix_init_def c' dd n calloc_line_def um_ok_def rear_queues_def dl_ok_def dl_queue_def Let_def
        ring_read_whole [of "replicate n 0" for n, simplified])
qed

text \<open>
  C38: the set-up makes the plugin ready for any client of 1 to 8 channels on a slave of 4, 6 or
  8: the call succeeds, the upmixer it chooses reads only channels the client has and writes
  only channels the slave has, the delay lines are allocated for exactly the cursor they will
  be used with, and they hold the configured delay of silence.
\<close>

theorem upmix_init_ready:
  assumes "1 \<le> unat (ext_channels ext)" "unat (ext_channels ext) \<le> 8"
    "unat (ext_slave_channels ext) \<in> {4, 6, 8}" "0 \<le> um_delay_ms mix" "um_delay_ms mix \<le> 1000"
    "unat (ext_rate ext) \<le> 4000000"
  shows "\<exists>mix' u. upmix_init True True ext mix = (0, mix') \<and> um_ok mix' \<and> um_upmix mix' = Some u
    \<and> um_in u \<le> unat (ext_channels ext) \<and> um_out u \<le> unat (ext_slave_channels ext)
    \<and> (let D = unat (ext_rate ext) * nat (um_delay_ms mix) div 1000
        in rear_queues mix' = (replicate D 0, replicate D 0))"
proof -
  let ?c = "unat (ext_channels ext)" and ?s = "ext_slave_channels ext"
  let ?u = "do_upmix ! (?c - 1) ! (if ?s = 6 then 1 else if ?s = 8 then 2 else 0)"
  have c: "?c = 1 \<or> ?c = 2 \<or> ?c = 3 \<or> ?c = 4 \<or> ?c = 5 \<or> ?c = 6 \<or> ?c = 7 \<or> ?c = 8"
    using assms(1,2) by linarith
  have s: "?s = 4 \<or> ?s = 6 \<or> ?s = 8"
    using assms(3) by (auto simp: word_unat_eq_iff)
  have "um_in ?u \<le> ?c" using c by (elim disjE) (simp_all add: do_upmix_def)
  moreover have "um_out ?u \<le> unat ?s"
    using c s by (elim disjE) (simp_all add: do_upmix_def um_out_def)
  ultimately show ?thesis
    using upmix_init_run [OF assms(1,2,4-6)] by blast
qed

theorem upmix_init_ready_witness:
  "\<exists>mix' u. upmix_init True True (wit_ext 2 4) wit_mix = (0, mix') \<and> um_ok mix' \<and> um_upmix mix' = Some u
    \<and> rear_queues mix' = (replicate 480 0, replicate 480 0)"
  using upmix_init_ready [of "wit_ext 2 4" wit_mix] by (auto simp: wit_ext_def wit_mix_def)


text \<open>
  with a client of 3 to 7 channels and a slave of 8, the upmixer that the table gives is one
  for six channels: after a successful set-up and transfer the last two channels of the slave
  still hold whatever they held before.
\<close>

theorem upmix_71_side_unwritten:
  assumes "copy_ok C" "um_layout ds (unat doff) ss (unat soff) (unat sz)" "length ds = 8"
    "length ss = unat (ext_channels ext)"
    "3 \<le> unat (ext_channels ext)" "unat (ext_channels ext) \<le> 7" "ext_slave_channels ext = 8"
    "0 \<le> um_delay_ms mix" "um_delay_ms mix \<le> 1000" "unat (ext_rate ext) \<le> 4000000"
  shows "\<exists>mix1 mix' mem'. upmix_init True True ext mix = (0, mix1)
    \<and> upmix_transfer C mix1 ds doff ss soff sz mem = Some (sz, mix', mem')
    \<and> chan (ds ! 6) (unat doff) (unat sz) mem' = chan (ds ! 6) (unat doff) (unat sz) mem
    \<and> chan (ds ! 7) (unat doff) (unat sz) mem' = chan (ds ! 7) (unat doff) (unat sz) mem"
proof -
  let ?c = "unat (ext_channels ext)"
  let ?u = "do_upmix ! (?c - 1) ! 2"
  from upmix_init_run [of ext mix] assms obtain mix1 where init: "upmix_init True True ext mix = (0, mix1)"
    "um_ok mix1" "um_upmix mix1 = Some ?u" by auto
  have "?c = 3 \<or> ?c = 4 \<or> ?c = 5 \<or> ?c = 6 \<or> ?c = 7" using assms(5,6) by linarith
  then have u: "um_out ?u = 6" "um_in ?u \<le> ?c"
    by (elim disjE; simp add: do_upmix_def um_out_def)+
  have call: "um_call C ds doff ss soff sz (map (\<lambda>s. chan s (unat soff) (unat sz) mem) ss) mem"
    using assms(1,2) by (simp add: um_call_def src_is_def)
  from upmix_transfer_run [OF call init(2,3)] u assms(3,4) obtain mix' mem' where
    "upmix_transfer C mix1 ds doff ss soff sz mem = Some (sz, mix', mem')"
    "\<forall>i<8. chan (ds ! i) (unat doff) (unat sz) mem' = (if i < 6 then upmix_spec ?u (rear_queues mix1)
        (map (\<lambda>s. chan s (unat soff) (unat sz) mem) ss) ! i else chan (ds ! i) (unat doff) (unat sz) mem)"
    by auto
  then show ?thesis using init(1) by (intro exI [of _ mix1] exI [of _ mix'] exI [of _ mem']) simp
qed

theorem upmix_71_side_unwritten_witness:
  "\<exists>mix1 mix' mem'. upmix_init True True (wit_ext 6 8) wit_mix = (0, mix1)
    \<and> upmix_transfer copy_model mix1 (wit_areas 0 8) 0 (wit_areas 10000 6) 0 1 (\<lambda>a. 77) = Some (1, mix', mem')
    \<and> chan (wit_areas 0 8 ! 6) 0 1 mem' = chan (wit_areas 0 8 ! 6) 0 1 (\<lambda>a. 77)"
  using upmix_71_side_unwritten [OF copy_model_ok, of "wit_areas 0 8" 0 "wit_areas 10000 6" 0 1
      "wit_ext 6 8" wit_mix "\<lambda>a. 77"] wit_layout [of 0 8 10000 6]
  by (auto simp: wit_ext_def wit_mix_def)

subsection \<open>A sequence of transfers\<close>

text \<open>
  Each transfer finds its own areas, offsets, size and memory; what the slave takes from it are
  the samples of the destination channels afterwards.
\<close>

record upmix_call =
  uc_ds :: "area list"
  uc_doff :: u64
  uc_ss :: "area list"
  uc_soff :: u64
  uc_sz :: u64
  uc_mem :: smem

fun upmix_stream :: "copy_api \<Rightarrow> upmix \<Rightarrow> upmix_call list \<Rightarrow> (upmix \<times> s16 list list list) option" where
  "upmix_stream C mix [] = Some (mix, [])"
| "upmix_stream C mix (c # cs) = do {
     (r, mix, mem) \<leftarrow> upmix_transfer C mix (uc_ds c) (uc_doff c) (uc_ss c) (uc_soff c) (uc_sz c) (uc_mem c);
     (mix, outs) \<leftarrow> upmix_stream C mix cs;
     Some (mix, map (\<lambda>d. chan d (unat (uc_doff c)) (unat (uc_sz c)) mem) (uc_ds c) # outs)
   }"

definition uc_in :: "upmix_call \<Rightarrow> nat \<Rightarrow> s16 list" where
  "uc_in c k = chan (uc_ss c ! k) (unat (uc_soff c)) (unat (uc_sz c)) (uc_mem c)"

definition uc_ok :: "upmixer \<Rightarrow> upmix_call \<Rightarrow> bool" where
  "uc_ok u c \<longleftrightarrow> um_layout (uc_ds c) (unat (uc_doff c)) (uc_ss c) (unat (uc_soff c)) (unat (uc_sz c))
     \<and> um_out u \<le> length (uc_ds c) \<and> um_in u \<le> length (uc_ss c)"

definition rear_queue :: "upmix \<Rightarrow> nat \<Rightarrow> s16 list" where
  "rear_queue mix k = (if k = 0 then fst (rear_queues mix) else snd (rear_queues mix))"

lemma length_uc_in: "length (uc_in c k) = unat (uc_sz c)"
  by (simp add: uc_in_def)

lemma rear_step:
  assumes "copy_ok C" "um_ok mix" "um_upmix mix = Some u" "um_delays u" "uc_ok u c"
  shows "\<exists>mix' mem'. upmix_transfer C mix (uc_ds c) (uc_doff c) (uc_ss c) (uc_soff c) (uc_sz c) (uc_mem c)
      = Some (uc_sz c, mix', mem') \<and> um_ok mix' \<and> um_upmix mix' = Some u
    \<and> (\<forall>k<2. rear_queue mix' k = fst (queue_run (rear_queue mix k) (uc_in c k))
        \<and> map (\<lambda>d. chan d (unat (uc_doff c)) (unat (uc_sz c)) mem') (uc_ds c) ! (2 + k)
            = snd (queue_run (rear_queue mix k) (uc_in c k)))"
proof -
  let ?xs = "map (\<lambda>s. chan s (unat (uc_soff c)) (unat (uc_sz c)) (uc_mem c)) (uc_ss c)"
  have call: "um_call C (uc_ds c) (uc_doff c) (uc_ss c) (uc_soff c) (uc_sz c) ?xs (uc_mem c)"
    and len: "um_out u \<le> length (uc_ds c)" "um_in u \<le> length (uc_ss c)"
    using assms(1,5) by (simp_all add: um_call_def src_is_def uc_ok_def)
  have u: "um_in u = 2" "4 \<le> um_out u" using assms(4) by (cases u; simp add: um_out_def)+
  obtain q0 q1 where q: "rear_queues mix = (q0, q1)" by (cases "rear_queues mix")
  have xs: "?xs ! 0 = uc_in c 0" "?xs ! 1 = uc_in c 1" using u(1) len(2) unfolding uc_in_def
    by (subst nth_map; linarith?; simp)+
  have rears: "upmix_spec u (q0, q1) ?xs ! 2 = delayed q0 (uc_in c 0)" "upmix_spec u (q0, q1) ?xs ! 3 = delayed q1 (uc_in c 1)"
    using assms(4) xs by (cases u; simp)+
  have next_q: "next_queues u (unat (uc_sz c)) (q0, q1) ?xs =
      (fst (queue_run q0 (uc_in c 0)), fst (queue_run q1 (uc_in c 1)))"
    using assms(4) xs by (simp add: next_queues_def queue_run_def length_uc_in del: One_nat_def nth_map)
  from upmix_transfer_run [OF call assms(2,3) len] obtain mix' mem' where run:
    "upmix_transfer C mix (uc_ds c) (uc_doff c) (uc_ss c) (uc_soff c) (uc_sz c) (uc_mem c) = Some (uc_sz c, mix', mem')"
    "um_ok mix'" "same_setup mix mix'" "rear_queues mix' = next_queues u (unat (uc_sz c)) (q0, q1) ?xs"
    "\<forall>i<length (uc_ds c). chan (uc_ds c ! i) (unat (uc_doff c)) (unat (uc_sz c)) mem' =
       (if i < um_out u then upmix_spec u (q0, q1) ?xs ! i else chan (uc_ds c ! i) (unat (uc_doff c)) (unat (uc_sz c)) (uc_mem c))"
    unfolding q by blast
  have outs: "chan (uc_ds c ! 2) (unat (uc_doff c)) (unat (uc_sz c)) mem' = delayed q0 (uc_in c 0)"
    "chan (uc_ds c ! 3) (unat (uc_doff c)) (unat (uc_sz c)) mem' = delayed q1 (uc_in c 1)"
    using run(5) rears u(2) len(1) by auto
  have "rear_queue mix' k = fst (queue_run (rear_queue mix k) (uc_in c k))
        \<and> map (\<lambda>d. chan d (unat (uc_doff c)) (unat (uc_sz c)) mem') (uc_ds c) ! (2 + k)
            = snd (queue_run (rear_queue mix k) (uc_in c k))" if "k < 2" for k
  proof -
    have "k = 0 \<or> k = 1" using that by auto
    then show ?thesis
      using run(4) next_q outs u(2) len(1) q
      by (elim disjE) (simp_all add: rear_queue_def queue_run_def delayed_def numeral_3_eq_3 [symmetric])
  qed
  then show ?thesis using run(1-3) assms(3) by (auto simp: same_setup_def)
qed

lemma upmix_stream_run:
  assumes "copy_ok C" "um_ok mix" "um_upmix mix = Some u" "um_delays u" "\<forall>c\<in>set calls. uc_ok u c"
  shows "\<exists>mix' outs. upmix_stream C mix calls = Some (mix', outs) \<and> um_ok mix'
    \<and> (\<forall>k<2. concat (map (\<lambda>out. out ! (2 + k)) outs) = snd (run_chunks queue_run (rear_queue mix k) (map (\<lambda>c. uc_in c k) calls)))"
  using assms(2,3,5)
proof (induction calls arbitrary: mix)
  case (Cons c cs)
  obtain mix1 mem1 where s: "upmix_transfer C mix (uc_ds c) (uc_doff c) (uc_ss c) (uc_soff c) (uc_sz c) (uc_mem c)
      = Some (uc_sz c, mix1, mem1)" "um_ok mix1" "um_upmix mix1 = Some u"
    "\<forall>k<2. rear_queue mix1 k = fst (queue_run (rear_queue mix k) (uc_in c k))
        \<and> map (\<lambda>d. chan d (unat (uc_doff c)) (unat (uc_sz c)) mem1) (uc_ds c) ! (2 + k)
            = snd (queue_run (rear_queue mix k) (uc_in c k))"
    using rear_step [OF assms(1) Cons.prems(1,2) assms(4)] Cons.prems(3) by (metis list.set_intros(1))
  from Cons.IH [OF s(2,3)] Cons.prems(3) obtain mix' outs where r:
    "upmix_stream C mix1 cs = Some (mix', outs)" "um_ok mix'"
    "\<forall>k<2. concat (map (\<lambda>out. out ! (2 + k)) outs) = snd (run_chunks queue_run (rear_queue mix1 k) (map (\<lambda>c. uc_in c k) cs))"
    by auto
  show ?case
    using s(1,4) r by (simp add: Let_def case_prod_beta)
qed simp

text \<open>
  over any sequence of transfers of any sizes, with the areas anywhere, the samples of a
  rear channel, one transfer after the other, are the samples of its front channel delayed by
  the queue: the first ones are those the queue held at the start, and none is lost, repeated
  or reordered at the boundaries of the transfers.
\<close>

theorem upmix_rear_stream:
  assumes "copy_ok C" "um_ok mix" "um_upmix mix = Some u" "um_delays u" "\<forall>c\<in>set calls. uc_ok u c" "k < 2"
  shows "\<exists>mix' outs. upmix_stream C mix calls = Some (mix', outs)
    \<and> (let input = concat (map (\<lambda>c. uc_in c k) calls)
        in concat (map (\<lambda>out. out ! (2 + k)) outs) = take (length input) (rear_queue mix k @ input))"
  using upmix_stream_run [OF assms(1-5)] assms(6) queue.run_chunks_concat [of "rear_queue mix k"]
  by (fastforce simp: queue_run_def Let_def)

definition wit_call :: "nat \<Rightarrow> upmix_call" where
  "wit_call v = \<lparr>uc_ds = wit_areas 0 4, uc_doff = 0, uc_ss = wit_areas 10000 2, uc_soff = 0, uc_sz = 1,
     uc_mem = (\<lambda>a. word_of_nat v)\<rparr>"

theorem upmix_rear_stream_witness:
  "\<exists>mix' outs. upmix_stream copy_model (wit_mix\<lparr>um_upmix := Some Up_2_to_40, um_delay := 2,
        um_line0 := Some [5, 6], um_line1 := Some [7, 8], um_curpos := 1\<rparr>) [wit_call 1, wit_call 2, wit_call 3]
      = Some (mix', outs) \<and> concat (map (\<lambda>out. out ! 2) outs) = [6, 5, 1]"
proof -
  have ok: "uc_ok Up_2_to_40 (wit_call v)" for v
    using wit_layout [of 0 4 10000 2] by (simp add: uc_ok_def wit_call_def um_out_def)
  have inp: "uc_in (wit_call v) 0 = [word_of_nat v]" for v
    by (simp add: uc_in_def wit_call_def chan_def peek_def)
  let ?mix = "wit_mix\<lparr>um_upmix := Some Up_2_to_40, um_delay := 2,
        um_line0 := Some [5, 6], um_line1 := Some [7, 8], um_curpos := 1\<rparr>"
  have "um_ok ?mix" by (simp add: um_ok_def dl_ok_def)
  moreover have "rear_queue ?mix 0 = [6, 5]"
    by (simp add: rear_queue_def rear_queues_def wit_mix_def dl_queue_def ring_read_def upt_rec)
  ultimately show ?thesis
    using upmix_rear_stream [OF copy_model_ok, of ?mix Up_2_to_40 "[wit_call 1, wit_call 2, wit_call 3]" 0] ok inp
    by (simp add: Let_def)
qed

subsection \<open>The constructor\<close>

lemma upmix_conf_channels:
  "upmix_conf C ns (sconf, delay, channels) = Inr (sconf', delay', channels') \<Longrightarrow>
     channels \<in> {0, 4, 6, 8} \<Longrightarrow> channels' \<in> {0, 4, 6, 8}"
proof (induction C ns "(sconf, delay, channels)" arbitrary: sconf delay channels rule: upmix_conf.induct)
  case (2 C n ns sconf delay channels)
  then show ?case
    by (simp split: option.splits if_splits add: Let_def) (metis insert_iff)+
qed simp

text \<open>
  whatever the configuration says, a plugin that is created has a delay between 0 and 1000
  ms and no delay line yet, accepts 1 to 8 client channels, and either fixes its slave to one
  of 4, 6 or 8 channels or lets it have any of them, and both sides are 16-bit.
\<close>

theorem upmix_open_bounds:
  assumes "upmix_open C alloc create conf = Inr (mix, calls)"
  shows "0 \<le> um_delay_ms mix \<and> um_delay_ms mix \<le> 1000 \<and> um_line0 mix = None \<and> um_line1 mix = None
    \<and> (\<exists>slave. calls = [Set_param_minmax HW_CHANNELS 1 8, slave, Set_param HW_FORMAT S16, Set_slave_param HW_FORMAT S16]
          \<and> slave \<in> insert (Set_slave_param_list HW_CHANNELS [4, 6, 8])
                    ((\<lambda>n. Set_slave_param_minmax HW_CHANNELS n n) ` {4, 6, 8}))"
proof -
  obtain sconf delay channels where conf: "upmix_conf C conf (None, 10, 0) = Inr (Some sconf, delay, channels)"
    using assms by (auto simp: upmix_open_def split: sum.splits option.splits)
  have "channels \<in> {0, 4, 6, 8}" using upmix_conf_channels [OF conf] by simp
  then show ?thesis
    using assms unfolding upmix_open_def conf
    by (auto simp: Let_def split: if_splits)
qed

definition wit_api :: "(string \<times> int) config_api" where
  "wit_api = \<lparr>cfg_id = (\<lambda>n. Some (fst n)), cfg_integer = (\<lambda>n. Some (snd n)), cfg_string = (\<lambda>n. None), cfg_error = (\<lambda>n. - 22)\<rparr>"

theorem upmix_open_bounds_witness:
  "\<exists>mix calls. upmix_open wit_api True (\<lambda>n. 0) [(''slave'', 0), (''delay'', 5000), (''channels'', 6)] = Inr (mix, calls)
    \<and> um_delay_ms mix \<le> 1000"
proof -
  have "\<exists>mix calls. upmix_open wit_api True (\<lambda>n. 0) [(''slave'', 0), (''delay'', 5000), (''channels'', 6)] = Inr (mix, calls)"
    by (simp add: upmix_open_def wit_api_def cfg_skipped_def Let_def)
  then show ?thesis using upmix_open_bounds by blast
qed

end
