(* ===== verification/UsbStream.thy ===== *)
theory UsbStream
  imports Alsa
begin

section \<open>The usb_stream plugin (usb_stream/pcm_usb_stream.c)\<close>

text \<open>
  The PCM plugins opened on one card share a \<open>struct user_usb_stream\<close>, found in a linked
  list by its card number and counted in \<open>use\<close>; it holds the mapping of the kernel's
  \<open>struct usb_stream\<close>. The list is a heap of nodes with \<open>next\<close> pointers (\<open>None\<close> is
  \<open>NULL\<close>), the loops walk it through a pointer to a pointer (\<open>slot\<close>) and may not end on
  a cyclic list. What the kernel shows in the mapping is an argument of each operation; a
  dereference of a pointer that is \<open>NULL\<close> or \<open>MAP_FAILED\<close> makes the operation
  \<open>None\<close>. The mutex around the list is not represented: each operation runs alone.
\<close>

datatype smap = NoMap | MapFailed | MapHead | MapFull

record uus_node =
  un_card :: int
  un_use :: u32
  un_s :: smap
  un_write_area :: smap
  un_next :: "nat option"

record uus_list =
  ul_head :: "nat option"
  ul_nodes :: "nat \<Rightarrow> uus_node option"

datatype slot = HeadSlot | NextSlot nat

fun slot_get :: "uus_list \<Rightarrow> slot \<Rightarrow> nat option option" where
  "slot_get h HeadSlot = Some (ul_head h)"
| "slot_get h (NextSlot a) = map_option un_next (ul_nodes h a)"

definition node_upd :: "nat \<Rightarrow> (uus_node \<Rightarrow> uus_node) \<Rightarrow> uus_list \<Rightarrow> uus_list" where
  "node_upd a f h = h\<lparr>ul_nodes := (ul_nodes h)(a := map_option f (ul_nodes h a))\<rparr>"

fun slot_set :: "slot \<Rightarrow> nat option \<Rightarrow> uus_list \<Rightarrow> uus_list" where
  "slot_set HeadSlot p h = h\<lparr>ul_head := p\<rparr>"
| "slot_set (NextSlot a) p h = node_upd a (\<lambda>n. n\<lparr>un_next := p\<rparr>) h"

subsection \<open>Finding and releasing the shared stream\<close>

text \<open>
  \<open>get_loop\<close> walks to the node of the card (\<open>Inl\<close>) or to the slot at the end of the list
  (\<open>Inr\<close>). \<open>fresh\<close> is what \<open>calloc\<close> returns.
\<close>

unbundle bit_operations_syntax

partial_function (option) get_loop :: "int \<Rightarrow> uus_list \<Rightarrow> slot \<Rightarrow> (nat + slot) option" where
  "get_loop cardno h l = do {
     p \<leftarrow> slot_get h l;
     case p of
       None \<Rightarrow> Some (Inr l)
     | Some a \<Rightarrow> do {
         n \<leftarrow> ul_nodes h a;
         if un_card n = cardno then Some (Inl a) else get_loop cardno h (NextSlot a)
       }
   }"

definition get_uus :: "int \<Rightarrow> nat option \<Rightarrow> uus_list \<Rightarrow> (nat option \<times> uus_list) option" where
  "get_uus cardno fresh h = do {
     r \<leftarrow> get_loop cardno h HeadSlot;
     case r of
       Inl a \<Rightarrow> Some (Some a, node_upd a (\<lambda>n. n\<lparr>un_use := un_use n + 1\<rparr>) h)
     | Inr l \<Rightarrow>
         (case fresh of
            None \<Rightarrow> Some (None, h)
          | Some a \<Rightarrow>
              let node = \<lparr>un_card = cardno, un_use = 1, un_s = NoMap, un_write_area = NoMap, un_next = None\<rparr>
              in Some (Some a, slot_set l (Some a) (h\<lparr>ul_nodes := (ul_nodes h)(a \<mapsto> node)\<rparr>)))
   }"

partial_function (option) free_loop :: "nat \<Rightarrow> uus_list \<Rightarrow> slot \<Rightarrow> slot option" where
  "free_loop a h n = do {
     p \<leftarrow> slot_get h n;
     if p = Some a then Some n
     else do { b \<leftarrow> p; free_loop a h (NextSlot b) }
   }"

text \<open>
  \<open>uus_free\<close> also reports whether the mappings were released (\<open>munmap\<close> is called, with
  the sizes read through the mapping). A node that is freed leaves the heap.
\<close>

definition uus_free :: "nat option \<Rightarrow> uus_list \<Rightarrow> (bool \<times> uus_list) option" where
  "uus_free us_uus h =
     (case us_uus of
        None \<Rightarrow> Some (False, h)
      | Some a \<Rightarrow> do {
          n \<leftarrow> ul_nodes h a;
          let use = un_use n - 1;
          let h = node_upd a (\<lambda>n. n\<lparr>un_use := use\<rparr>) h;
          if use = 0 then do {
            l \<leftarrow> free_loop a h HeadSlot;
            let h = slot_set l (un_next n) h;
            if un_s n = MapFailed then None
            else Some (un_s n \<noteq> NoMap, h\<lparr>ul_nodes := (ul_nodes h)(a := None)\<rparr>)
          }
          else Some (False, h)
        })"

subsection \<open>The kernel's structure\<close>

datatype us_state = UsInvalid | UsStopped | UsSync0 | UsSync1 | UsReady | UsRunning | UsXrun

record us_packet =
  pk_offset :: u32
  pk_length :: u32

record us_config =
  ucf_version :: u32
  ucf_sample_rate :: u32
  ucf_period_frames :: u32
  ucf_frame_size :: u32

record usb_stream =
  us_cfg :: us_config
  us_read_size :: u32
  us_write_size :: u32
  us_period_size :: u32
  us_dev_state :: us_state
  us_periods_done :: u32
  us_outpacket :: "us_packet list"
  us_inpackets :: u32
  us_inpacket_split :: u32
  us_inpacket_split_at :: u32
  us_inpacket :: "us_packet list"

record us_pcm =
  pu_uus :: "nat option"
  pu_periods_start :: u32
  pu_periods_done :: u32
  pu_channels :: u32
  pu_period_size :: u64
  pu_rate :: u32

definition FRAME_SIZE :: nat where
  "FRAME_SIZE = 6"

text \<open>\<open>us->uus->s\<close>, dereferenced.\<close>

definition us_deref :: "uus_list \<Rightarrow> us_pcm \<Rightarrow> uus_node option" where
  "us_deref h us = do {
     a \<leftarrow> pu_uus us;
     n \<leftarrow> ul_nodes h a;
     if un_s n = NoMap \<or> un_s n = MapFailed then None else Some n
   }"

subsection \<open>The callbacks\<close>

definition snd_pcm_us_pointer :: "uus_list \<Rightarrow> usb_stream \<Rightarrow> ioplug \<Rightarrow> us_pcm \<Rightarrow> int option" where
  "snd_pcm_us_pointer h s io us =
     (case io_state io of
        STATE_RUNNING \<Rightarrow> do {
          _ \<leftarrow> us_deref h us;
          Some (if us_periods_done s - pu_periods_done us \<le> 1
                then (if (us_periods_done s - pu_periods_start us) AND 1 \<noteq> 0
                      then uint (io_period_size io) else 0)
                else - EPIPE)
        }
      | STATE_XRUN \<Rightarrow> Some (- EPIPE)
      | _ \<Rightarrow> Some 0)"

definition snd_pcm_us_start :: "uus_list \<Rightarrow> usb_stream \<Rightarrow> us_pcm \<Rightarrow> (int \<times> us_pcm) option" where
  "snd_pcm_us_start h s us = do {
     _ \<leftarrow> us_deref h us;
     Some (0, us\<lparr>pu_periods_start := us_periods_done s, pu_periods_done := us_periods_done s\<rparr>)
   }"

definition snd_pcm_us_close :: "uus_list \<Rightarrow> us_pcm \<Rightarrow> (int \<times> bool \<times> uus_list) option" where
  "snd_pcm_us_close h us = do {
     (unmapped, h) \<leftarrow> uus_free (pu_uus us) h;
     Some (0, unmapped, h)
   }"

text \<open>
  Byte memory: the mapped areas and the channel area are functions from byte offsets.
\<close>

definition mem_copy :: "bytes \<Rightarrow> nat \<Rightarrow> bytes \<Rightarrow> nat \<Rightarrow> nat \<Rightarrow> bytes" where
  "mem_copy dst doff src soff n = (\<lambda>a. if doff \<le> a \<and> a < doff + n then src (soff + (a - doff)) else dst a)"

definition snd_pcm_us_stop :: "uus_list \<Rightarrow> usb_stream \<Rightarrow> ioplug \<Rightarrow> us_pcm \<Rightarrow> bytes \<Rightarrow> (int \<times> bytes) option" where
  "snd_pcm_us_stop h s io us warea = do {
     a \<leftarrow> pu_uus us;
     n \<leftarrow> ul_nodes h a;
     if un_s n = NoMap then Some (0, warea)
     else if io_stream io = PLAYBACK then do {
       n \<leftarrow> us_deref h us;
       if un_write_area n \<noteq> MapFull then None
       else Some (0, \<lambda>a. if a < unat (us_write_size s) then 0 else warea a)
     }
     else Some (0, warea)
   }"

definition snd_pcm_us_write ::
  "uus_list \<Rightarrow> usb_stream \<Rightarrow> us_pcm \<Rightarrow> bytes \<Rightarrow> u64 \<Rightarrow> u64 \<Rightarrow> bytes \<Rightarrow> (u64 \<times> us_pcm \<times> bytes) option" where
  "snd_pcm_us_write h s us addr offset sz warea = do {
     n \<leftarrow> us_deref h us;
     let src = unat (offset * ucast (ucf_frame_size (us_cfg s)));
     if un_write_area n \<noteq> MapFull then None
     else
       let len0 = pk_length (us_outpacket s ! 0);
           warea = mem_copy warea (unat (pk_offset (us_outpacket s ! 0))) addr src (unat len0);
           bytes = ucast (sz * ucast (ucf_frame_size (us_cfg s))) :: u32;
           warea = (if bytes > len0
                    then mem_copy warea (unat (pk_offset (us_outpacket s ! 1))) addr (src + unat len0)
                           (unat (bytes - len0))
                    else warea)
       in Some (sz, us\<lparr>pu_periods_done := pu_periods_done us + 1\<rparr>, warea)
   }"

text \<open>
  The loop of \<open>usb_stream_read\<close>: \<open>p\<close> the packet, \<open>l\<close> the bytes copied so far, \<open>i\<close> and
  \<open>il\<close> the place and length of the piece to copy. It goes round the ring of packets once; with
  a \<open>split\<close> outside the ring it would not come back.
\<close>

partial_function (option) us_read_loop ::
  "usb_stream \<Rightarrow> bytes \<Rightarrow> u32 \<Rightarrow> u32 \<Rightarrow> nat \<Rightarrow> u32 \<Rightarrow> bytes \<Rightarrow> (u32 \<times> bytes) option" where
  "us_read_loop s rarea p l i il to =
     (let il = (if l + il > us_period_size s then us_period_size s - l else il);
          to = mem_copy to (unat l) rarea i (unat il);
          l = l + il
      in if l \<ge> us_period_size s then Some (l, to)
         else if us_inpackets s = 0 then None
         else
           let p = (p + 1) mod us_inpackets s
           in if unat p \<ge> length (us_inpacket s) then None
              else
                let i = unat (pk_offset (us_inpacket s ! unat p)); il = pk_length (us_inpacket s ! unat p)
                in if p \<noteq> us_inpacket_split s then us_read_loop s rarea p l i il to else Some (l, to))"

definition usb_stream_read :: "usb_stream \<Rightarrow> bytes \<Rightarrow> bytes \<Rightarrow> (u32 \<times> bytes) option" where
  "usb_stream_read s rarea to =
     (let p = us_inpacket_split s in
      if unat p \<ge> length (us_inpacket s) then None
      else us_read_loop s rarea p 0
             (unat (pk_offset (us_inpacket s ! unat p)) + unat (us_inpacket_split_at s))
             (pk_length (us_inpacket s ! unat p) - us_inpacket_split_at s) to)"

text \<open>
  The read callback: \<open>to\<close> is the channel area from the offset of the transfer on. The result is
  the \<open>snd_pcm_sframes_t\<close> returned, negative for an error.
\<close>

definition snd_pcm_us_read ::
  "uus_list \<Rightarrow> usb_stream \<Rightarrow> ioplug \<Rightarrow> us_pcm \<Rightarrow> bytes \<Rightarrow> u64 \<Rightarrow> bytes \<Rightarrow> (int \<times> us_pcm \<times> bytes) option" where
  "snd_pcm_us_read h s io us rarea sz to = do {
     _ \<leftarrow> us_deref h us;
     if sz \<noteq> 0 then
       if sz \<noteq> ucast (ucf_period_frames (us_cfg s)) then Some (- EINVAL, us, to)
       else if us_periods_done s - pu_periods_done us = 1 then do {
         (l, to) \<leftarrow> usb_stream_read s rarea to;
         if ucf_frame_size (us_cfg s) = 0 then None
         else Some (uint (l div ucf_frame_size (us_cfg s)), us\<lparr>pu_periods_done := pu_periods_done us + 1\<rparr>, to)
       }
       else Some (0, us, to)
     else if io_state io = STATE_XRUN then Some (- EPIPE, us, to)
     else Some (0, us, to)
   }"

text \<open>
  \<open>prepare\<close> configures the device and maps its structure in two steps: the head, and, when the
  configuration in it is the one asked for, the whole (its size is in the head) and the write
  area. The environment gives the results of the system calls.
\<close>

record us_env =
  ue_ioctl :: int
  ue_munmap_write :: int
  ue_munmap_read :: int
  ue_errno :: int
  ue_mmap :: bool
  ue_mremap :: bool
  ue_mmap_write :: bool
  ue_poll :: int

text \<open>The two steps end with \<open>Some err\<close> when the function returns from them.\<close>

definition us_unmap :: "us_env \<Rightarrow> nat \<Rightarrow> uus_list \<Rightarrow> (int option \<times> uus_list) option" where
  "us_unmap E a h = do {
     n \<leftarrow> ul_nodes h a;
     if un_s n = MapFailed then None
     else if ue_munmap_write E < 0 then Some (Some (- ue_errno E), h)
     else
       let h = node_upd a (\<lambda>n. n\<lparr>un_write_area := NoMap\<rparr>) h
       in if ue_munmap_read E < 0 then Some (Some (- ue_errno E), h)
          else Some (None, node_upd a (\<lambda>n. n\<lparr>un_s := NoMap\<rparr>) h)
   }"

definition us_map :: "us_env \<Rightarrow> usb_stream \<Rightarrow> us_config \<Rightarrow> nat \<Rightarrow> uus_list \<Rightarrow> int option \<times> uus_list" where
  "us_map E s cfg a h =
     (if \<not> ue_mmap E then (Some (- ue_errno E), node_upd a (\<lambda>n. n\<lparr>un_s := MapFailed\<rparr>) h)
      else
        let h = node_upd a (\<lambda>n. n\<lparr>un_s := MapHead\<rparr>) h
        in if us_cfg s \<noteq> cfg then (Some (- EIO), h)
           else if \<not> ue_mremap E then (Some (- 1), node_upd a (\<lambda>n. n\<lparr>un_s := MapFailed\<rparr>) h)
           else
             let h = node_upd a (\<lambda>n. n\<lparr>un_s := MapFull\<rparr>) h
             in if \<not> ue_mmap_write E then (Some (- 1), node_upd a (\<lambda>n. n\<lparr>un_write_area := MapFailed\<rparr>) h)
                else (None, node_upd a (\<lambda>n. n\<lparr>un_write_area := MapFull\<rparr>) h))"

definition us_request :: "ioplug \<Rightarrow> us_config" where
  "us_request io = \<lparr>ucf_version = 2, ucf_sample_rate = io_rate io,
     ucf_period_frames = ucast (io_period_size io), ucf_frame_size = word_of_nat FRAME_SIZE\<rparr>"

definition snd_pcm_us_prepare ::
  "us_env \<Rightarrow> uus_list \<Rightarrow> usb_stream \<Rightarrow> ioplug \<Rightarrow> us_pcm \<Rightarrow> (int \<times> uus_list) option" where
  "snd_pcm_us_prepare E h s io us =
     (if ue_ioctl E < 0 then Some (ue_ioctl E, h)
      else do {
        a \<leftarrow> pu_uus us;
        n \<leftarrow> ul_nodes h a;
        (ret, h) \<leftarrow> (if ue_ioctl E \<noteq> 0 \<and> un_s n \<noteq> NoMap then us_unmap E a h else Some (None, h));
        case ret of
          Some err \<Rightarrow> Some (err, h)
        | None \<Rightarrow> do {
            n \<leftarrow> ul_nodes h a;
            let (ret, h) = (if un_s n = NoMap then us_map E s (us_request io) a h else (None, h));
            case ret of
              Some err \<Rightarrow> Some (err, h)
            | None \<Rightarrow> do {
                _ \<leftarrow> us_deref h us;
                Some (if us_dev_state s \<noteq> UsReady then - EIO
                      else if ue_poll E < 0 then - ue_errno E else 0, h)
              }
          }
      })"

subsection \<open>Opening\<close>

text \<open>
  The constraints are a chain of calls that stops at the first error (\<open>setp\<close> gives the result
  of each). \<open>us_world\<close> adds to the list the number of hwdep handles open. What
  \<open>snd_pcm_ioplug_delete\<close> does is alsa-lib's and a parameter.
\<close>

definition us_set_hw_constraint :: "(io_call \<Rightarrow> int) \<Rightarrow> us_pcm \<Rightarrow> int" where
  "us_set_hw_constraint setp us =
     (let rate_min = (if pu_rate us \<noteq> 0 then pu_rate us else 44100);
          rate_max = (if pu_rate us \<noteq> 0 then pu_rate us else 96000);
          frame_bytes = ucast (word_of_nat FRAME_SIZE * pu_period_size us) :: u32;
          period_bytes_min = (if pu_period_size us \<noteq> 0 then frame_bytes else 128);
          period_bytes_max = (if pu_period_size us \<noteq> 0 then frame_bytes else 64 * 4096)
      in io_calls setp
           [Io_list IO_ACCESS [MMAP_INTERLEAVED], Io_list IO_FORMAT [S24_3LE],
            Io_minmax IO_CHANNELS (pu_channels us) (pu_channels us),
            Io_minmax IO_RATE rate_min rate_max,
            Io_minmax IO_PERIOD_BYTES period_bytes_min period_bytes_max,
            Io_minmax IO_PERIODS 2 2])"

record us_world =
  uw_list :: uus_list
  uw_hwdeps :: nat

record us_open_env =
  uo_calloc :: bool
  uo_fresh :: "nat option"
  uo_hwdep_open :: int
  uo_create :: int
  uo_setp :: "io_call \<Rightarrow> int"
  uo_delete :: "us_pcm \<Rightarrow> us_world \<Rightarrow> us_world"

definition us_free :: "us_pcm \<Rightarrow> us_world \<Rightarrow> us_world option" where
  "us_free us w = do {
     (_, h) \<leftarrow> uus_free (pu_uus us) (uw_list w);
     Some (w\<lparr>uw_list := h\<rparr>)
   }"

definition snd_pcm_us_open ::
  "us_open_env \<Rightarrow> int \<Rightarrow> u64 \<Rightarrow> u32 \<Rightarrow> us_world \<Rightarrow> (int \<times> us_pcm option \<times> us_world) option" where
  "snd_pcm_us_open E cardno period_size rate w =
     (if \<not> uo_calloc E then Some (- ENOMEM, None, w)
      else do {
        (a, h) \<leftarrow> get_uus cardno (uo_fresh E) (uw_list w);
        let w = w\<lparr>uw_list := h\<rparr>;
        if a = None then Some (- ENOMEM, None, w)
        else
          let us = \<lparr>pu_uus = a, pu_periods_start = 0, pu_periods_done = 0, pu_channels = 0,
                    pu_period_size = 0, pu_rate = 0\<rparr>
          in if uo_hwdep_open E < 0 then do {
               w \<leftarrow> us_free us w;
               Some (uo_hwdep_open E, None, w)
             }
             else
               let w = w\<lparr>uw_hwdeps := Suc (uw_hwdeps w)\<rparr>;
                   us = us\<lparr>pu_channels := 2, pu_period_size := period_size, pu_rate := rate\<rparr>
               in if uo_create E < 0 then do {
                    w \<leftarrow> us_free us w;
                    Some (uo_create E, None, w)
                  }
                  else
                    let err = us_set_hw_constraint (uo_setp E) us
                    in if err < 0 then Some (err, None, uo_delete E us w)
                       else Some (0, Some us, w)
      })"

text \<open>
  The configuration: \<open>get_card\<close> is \<open>snd_config_get_card\<close>; an entry that is not an
  integer has no \<open>cfg_integer\<close>.
\<close>

fun us_conf :: "'n config_api \<Rightarrow> ('n \<Rightarrow> int) \<Rightarrow> 'n list \<Rightarrow> int \<times> int \<times> int \<Rightarrow> int + int \<times> int \<times> int" where
  "us_conf C get_card [] st = Inr st"
| "us_conf C get_card (n # ns) (cardno, period_size, rate) =
     (case cfg_id C n of
        None \<Rightarrow> us_conf C get_card ns (cardno, period_size, rate)
      | Some key \<Rightarrow>
          if cfg_skipped key then us_conf C get_card ns (cardno, period_size, rate)
          else if key = ''card'' then
            (if get_card n < 0 then Inl (- EINVAL)
             else us_conf C get_card ns (get_card n, period_size, rate))
          else if key = ''period_size'' then
            (case cfg_integer C n of
               None \<Rightarrow> Inl (- EINVAL)
             | Some v \<Rightarrow> us_conf C get_card ns (cardno, v, rate))
          else if key = ''rate'' then
            (case cfg_integer C n of
               None \<Rightarrow> Inl (- EINVAL)
             | Some v \<Rightarrow> us_conf C get_card ns (cardno, period_size, v))
          else Inl (- EINVAL))"

definition usb_stream_open ::
  "'n config_api \<Rightarrow> ('n \<Rightarrow> int) \<Rightarrow> us_open_env \<Rightarrow> 'n list \<Rightarrow> us_world \<Rightarrow> (int \<times> us_pcm option \<times> us_world) option" where
  "usb_stream_open C get_card E conf w =
     (case us_conf C get_card conf (- 1, 0, 0) of
        Inl err \<Rightarrow> Some (err, None, w)
      | Inr (cardno, period_size, rate) \<Rightarrow>
          snd_pcm_us_open E cardno (word_of_int period_size) (word_of_int rate) w)"

end
