(* ===== verification/UsbStreamList.thy ===== *)
theory UsbStreamList
  imports UsbStream
begin

section \<open>The shared streams: a list with reference counts\<close>

text \<open>
  The heap of nodes represents a list of addresses (\<open>uus_path\<close>); on it the pointer-to-pointer
  loops end (\<open>get_loop_path\<close>, \<open>free_loop_path\<close>) and insert or remove one element.
  \<open>us_step\<close> is the plugin's life on the list: a client opens or closes, or a prepare maps or
  unmaps; \<open>us_inv\<close> is its invariant: one node per card, and in each the count of the clients
  that hold it.
\<close>

fun uus_path :: "(nat \<Rightarrow> uus_node option) \<Rightarrow> nat option \<Rightarrow> nat list \<Rightarrow> bool" where
  "uus_path ns p [] \<longleftrightarrow> p = None"
| "uus_path ns p (a # as) \<longleftrightarrow> p = Some a \<and> (\<exists>n. ns a = Some n \<and> uus_path ns (un_next n) as)"

definition uus_list_is :: "uus_list \<Rightarrow> nat list \<Rightarrow> bool" where
  "uus_list_is h as \<longleftrightarrow> uus_path (ul_nodes h) (ul_head h) as \<and> distinct as \<and> dom (ul_nodes h) = set as"

definition card_of :: "uus_list \<Rightarrow> nat \<Rightarrow> int" where
  "card_of h a = un_card (the (ul_nodes h a))"

lemma path_upd_other: "a \<notin> set as \<Longrightarrow> uus_path (ns(a := x)) p as = uus_path ns p as"
  by (induction as arbitrary: p) auto

lemma path_upd_same_next:
  "(\<And>n. un_next (f n) = un_next n) \<Longrightarrow> uus_path (ns(a := map_option f (ns a))) p as = uus_path ns p as"
  by (induction as arbitrary: p) auto

lemma path_snoc:
  assumes "uus_path ns p as" "as \<noteq> []" "distinct as" "ns (last as) = Some n" "b \<notin> set as" "ns' b = Some m" "un_next m = None"
    "\<And>a. a \<in> set as \<Longrightarrow> ns' a = (if a = last as then Some (n\<lparr>un_next := Some b\<rparr>) else ns a)"
  shows "uus_path ns' p (as @ [b])"
  using assms
proof (induction as arbitrary: p)
  case (Cons a as)
  show ?case
  proof (cases "as = []")
    case True
    then show ?thesis using Cons.prems by auto
  next
    case False
    then have "last as \<noteq> a" using Cons.prems(3) by auto
    moreover obtain m' where "ns a = Some m'" "uus_path ns (un_next m') as" "p = Some a" using Cons.prems(1) by auto
    moreover have "uus_path ns' (un_next m') (as @ [b])"
      using Cons.prems False calculation by (intro Cons.IH) auto
    ultimately show ?thesis using Cons.prems(8) [of a] False by auto
  qed
qed simp

text \<open>The slot that points to the node after \<open>as\<close>, starting from \<open>l\<close>.\<close>

definition slot_after :: "slot \<Rightarrow> nat list \<Rightarrow> slot" where
  "slot_after l as = (if as = [] then l else NextSlot (last as))"

lemma get_loop_path:
  assumes "slot_get h l = Some p" "uus_path (ul_nodes h) p as"
  shows "get_loop c h l =
    Some (case find (\<lambda>a. card_of h a = c) as of Some a \<Rightarrow> Inl a | None \<Rightarrow> Inr (slot_after l as))"
  using assms
proof (induction as arbitrary: l p)
  case Nil
  then show ?case by (subst get_loop.simps) (simp add: slot_after_def)
next
  case (Cons a as)
  then obtain n where n: "ul_nodes h a = Some n" "uus_path (ul_nodes h) (un_next n) as" "p = Some a" by auto
  then have "get_loop c h (NextSlot a) =
      Some (case find (\<lambda>a. card_of h a = c) as of Some a \<Rightarrow> Inl a | None \<Rightarrow> Inr (slot_after (NextSlot a) as))"
    by (intro Cons.IH [of _ "un_next n"]) auto
  then show ?case
    using Cons.prems(1) n by (subst get_loop.simps) (auto simp: card_of_def slot_after_def split: option.splits)
qed

lemma free_loop_path:
  assumes "slot_get h l = Some p" "uus_path (ul_nodes h) p (as @ a # bs)" "a \<notin> set as"
  shows "free_loop a h l = Some (slot_after l as)"
  using assms
proof (induction as arbitrary: l p)
  case Nil
  then show ?case by (subst free_loop.simps) (simp add: slot_after_def)
next
  case (Cons b as)
  then obtain n where n: "ul_nodes h b = Some n" "uus_path (ul_nodes h) (un_next n) (as @ a # bs)" "p = Some b" by auto
  then have "free_loop a h (NextSlot b) = Some (slot_after (NextSlot b) as)"
    using Cons.prems(3) by (intro Cons.IH [of _ "un_next n"]) auto
  then show ?case
    using Cons.prems n by (subst free_loop.simps) (auto simp: slot_after_def)
qed

lemma path_split:
  assumes "uus_path ns p (as @ a # bs)" "ns a = Some n" "distinct (as @ a # bs)"
    "ns' = (if as = [] then ns else ns(last as := map_option (\<lambda>m. m\<lparr>un_next := un_next n\<rparr>) (ns (last as))))"
  shows "uus_path ns' (if as = [] then un_next n else p) (as @ bs)"
  using assms
proof (induction as arbitrary: p ns')
  case Nil
  then show ?case by auto
next
  case (Cons b as)
  then obtain m where m: "ns b = Some m" "uus_path ns (un_next m) (as @ a # bs)" "p = Some b" by auto
  show ?case
  proof (cases "as = []")
    case True
    have e: "ns' = ns(b := map_option (\<lambda>m. m\<lparr>un_next := un_next n\<rparr>) (ns b))" unfolding Cons.prems(4) using True by simp
    have "uus_path ns' (un_next n) bs = uus_path ns (un_next n) bs"
      unfolding e by (rule path_upd_other) (use Cons.prems(3) in auto)
    moreover have "ns' b = Some (m\<lparr>un_next := un_next n\<rparr>)" using Cons.prems(4) True m(1) by simp
    ultimately show ?thesis using Cons.prems(1,2) True m by simp
  next
    case False
    have "uus_path (ns(last as := map_option (\<lambda>m. m\<lparr>un_next := un_next n\<rparr>) (ns (last as)))) (un_next m) (as @ bs)"
      using Cons.IH [of "un_next m", OF m(2) Cons.prems(2) _ refl] Cons.prems(3) False by (simp add: fun_upd_def)
    moreover have "last as \<noteq> b" using Cons.prems(3) False by auto
    ultimately show ?thesis using m Cons.prems(4) False by (simp add: fun_upd_def)
  qed
qed

subsection \<open>The two operations on the list\<close>

lemma find_Some_mem: "find P xs = Some x \<Longrightarrow> x \<in> set xs \<and> P x"
  by (auto simp: find_Some_iff)

lemma last_node:
  "uus_list_is h as \<Longrightarrow> as \<noteq> [] \<Longrightarrow> \<exists>n. ul_nodes h (last as) = Some n"
  unfolding uus_list_is_def by (metis domD last_in_set)

lemma uus_list_is_upd:
  assumes "uus_list_is h as" "\<And>n. un_next (f n) = un_next n"
  shows "uus_list_is (node_upd a f h) as"
proof -
  have "dom ((ul_nodes h)(a := map_option f (ul_nodes h a))) = dom (ul_nodes h)"
    by (auto simp: dom_def)
  then show ?thesis
    using assms(1) path_upd_same_next [of f "ul_nodes h" a, OF assms(2)]
    unfolding uus_list_is_def node_upd_def by simp
qed

text \<open>A node of the list after an operation, as a function of the one before.\<close>

definition use_of :: "uus_list \<Rightarrow> nat \<Rightarrow> u32" where
  "use_of h a = un_use (the (ul_nodes h a))"

lemma get_uus_known:
  assumes "uus_list_is h as" "find (\<lambda>a. card_of h a = c) as = Some a"
  shows "get_uus c fresh h = Some (Some a, node_upd a (\<lambda>n. n\<lparr>un_use := un_use n + 1\<rparr>) h)"
  using get_loop_path [of h HeadSlot "ul_head h" as c] assms by (simp add: get_uus_def uus_list_is_def)

lemma get_uus_new:
  assumes h: "uus_list_is h as" and new: "find (\<lambda>a. card_of h a = c) as = None" and b: "ul_nodes h b = None"
  shows "\<exists>h'. get_uus c (Some b) h = Some (Some b, h') \<and> uus_list_is h' (as @ [b])
    \<and> ul_nodes h' b = Some \<lparr>un_card = c, un_use = 1, un_s = NoMap, un_write_area = NoMap, un_next = None\<rparr>
    \<and> (\<forall>a\<in>set as. \<exists>n n'. ul_nodes h a = Some n \<and> ul_nodes h' a = Some n'
         \<and> un_card n' = un_card n \<and> un_use n' = un_use n \<and> un_s n' = un_s n \<and> un_write_area n' = un_write_area n)"
proof -
  let ?node = "\<lparr>un_card = c, un_use = 1, un_s = NoMap, un_write_area = NoMap, un_next = None\<rparr>"
  let ?h1 = "h\<lparr>ul_nodes := (ul_nodes h)(b \<mapsto> ?node)\<rparr>"
  let ?h' = "slot_set (slot_after HeadSlot as) (Some b) ?h1"
  have run: "get_uus c (Some b) h = Some (Some b, ?h')"
    using get_loop_path [of h HeadSlot "ul_head h" as c] h new by (simp add: get_uus_def uus_list_is_def)
  have nb: "b \<notin> set as" using h b by (auto simp: uus_list_is_def)
  show ?thesis
  proof (cases "as = []")
    case True
    then show ?thesis using run h b by (auto simp: uus_list_is_def slot_after_def)
  next
    case False
    obtain n where n: "ul_nodes h (last as) = Some n" using last_node [OF h False] by blast
    have lb: "last as \<noteq> b" using nb False last_in_set by metis
    have nodes: "ul_nodes ?h' a = (if a = b then Some ?node else if a = last as then Some (n\<lparr>un_next := Some b\<rparr>) else ul_nodes h a)" for a
      using False n lb by (simp add: slot_after_def node_upd_def)
    have head: "ul_head ?h' = ul_head h" using False by (simp add: slot_after_def node_upd_def)
    have "uus_path (ul_nodes ?h') (ul_head h) (as @ [b])"
      using h False n nb nodes by (intro path_snoc [where ns = "ul_nodes h" and n = n and m = ?node]) (auto simp: uus_list_is_def)
    moreover have "dom (ul_nodes ?h') = set (as @ [b])"
      using h n False nodes unfolding uus_list_is_def dom_def by (auto split: if_splits)
    ultimately have "uus_list_is ?h' (as @ [b])"
      using h nb head by (simp add: uus_list_is_def)
    moreover have "\<exists>n n'. ul_nodes h a = Some n \<and> ul_nodes ?h' a = Some n' \<and> un_card n' = un_card n
        \<and> un_use n' = un_use n \<and> un_s n' = un_s n \<and> un_write_area n' = un_write_area n" if "a \<in> set as" for a
    proof -
      have "a \<noteq> b" "a \<in> dom (ul_nodes h)" using that nb h by (auto simp: uus_list_is_def)
      then obtain m where m: "ul_nodes h a = Some m" by blast
      then have "ul_nodes ?h' a = Some (if a = last as then n\<lparr>un_next := Some b\<rparr> else m)"
        using nodes [of a] \<open>a \<noteq> b\<close> by simp
      moreover have "a = last as \<Longrightarrow> m = n" using m n by simp
      ultimately show ?thesis using m by auto
    qed
    moreover have "ul_nodes ?h' b = Some ?node" using nodes [of b] by simp
    ultimately show ?thesis using run by blast
  qed
qed

lemma uus_free_shared:
  assumes "ul_nodes h a = Some n" "un_use n - 1 \<noteq> 0"
  shows "uus_free (Some a) h = Some (False, node_upd a (\<lambda>m. m\<lparr>un_use := un_use n - 1\<rparr>) h)"
  using assms by (simp add: uus_free_def)

lemma path_next_same: 
  assumes "\<And>a. map_option un_next (ns' a) = map_option un_next (ns a)"
  shows "uus_path ns' p as = uus_path ns p as"
proof (induction as arbitrary: p)
  case (Cons a as)
  then show ?case using assms [of a] by (cases "ns a"; cases "ns' a") auto
qed simp

lemma uus_free_last:
  assumes h: "uus_list_is h as" and a: "a \<in> set as" and n: "ul_nodes h a = Some n"
    and last_use: "un_use n - 1 = 0" and s: "un_s n \<noteq> MapFailed"
  shows "\<exists>h'. uus_free (Some a) h = Some (un_s n \<noteq> NoMap, h') \<and> uus_list_is h' (remove1 a as)
    \<and> (\<forall>b\<in>set (remove1 a as). \<exists>m m'. ul_nodes h b = Some m \<and> ul_nodes h' b = Some m'
         \<and> un_card m' = un_card m \<and> un_use m' = un_use m \<and> un_s m' = un_s m \<and> un_write_area m' = un_write_area m)"
proof -
  obtain xs ys where as: "as = xs @ a # ys" "a \<notin> set xs" using a split_list_first by metis
  have dist: "distinct (xs @ a # ys)" using h as by (simp add: uus_list_is_def)
  let ?h1 = "node_upd a (\<lambda>m. m\<lparr>un_use := un_use n - 1\<rparr>) h"
  have h1: "uus_list_is ?h1 as" by (rule uus_list_is_upd [OF h]) simp
  let ?l = "slot_after HeadSlot xs"
  let ?h2 = "slot_set ?l (un_next n) ?h1"
  let ?h3 = "?h2\<lparr>ul_nodes := (ul_nodes ?h2)(a := None)\<rparr>"
  have loop: "free_loop a ?h1 HeadSlot = Some ?l"
    using free_loop_path [of ?h1 HeadSlot "ul_head ?h1" xs a ys] h1 as by (simp add: uus_list_is_def)
  then have run: "uus_free (Some a) h = Some (un_s n \<noteq> NoMap, ?h3)"
    using n last_use s by (simp add: uus_free_def Let_def)
  let ?ns = "if xs = [] then ul_nodes h else (ul_nodes h)(last xs := map_option (\<lambda>m. m\<lparr>un_next := un_next n\<rparr>) (ul_nodes h (last xs)))"
  have la: "xs \<noteq> [] \<Longrightarrow> last xs \<noteq> a" using as(2) last_in_set by metis
  have nodes: "ul_nodes ?h3 b = (if b = a then None else ?ns b)" for b
    using la by (cases "xs = []") (auto simp: slot_after_def node_upd_def)
  have head: "ul_head ?h3 = (if xs = [] then un_next n else ul_head h)"
    by (simp add: slot_after_def node_upd_def)
  have "uus_path ?ns (if xs = [] then un_next n else ul_head h) (xs @ ys)"
    using path_split [of "ul_nodes h" "ul_head h" xs a ys n ?ns] h n dist unfolding uus_list_is_def as(1) by simp
  then have "uus_path (?ns(a := None)) (ul_head ?h3) (xs @ ys)"
    using path_upd_other [of a "xs @ ys" ?ns None] dist unfolding head by auto
  moreover have "?ns(a := None) = ul_nodes ?h3" by (rule ext) (simp only: nodes fun_upd_apply)
  ultimately have path: "uus_path (ul_nodes ?h3) (ul_head ?h3) (xs @ ys)" by simp
  have "dom ?ns = dom (ul_nodes h)" by (auto simp: dom_def)
  then have "dom (ul_nodes ?h3) = set as - {a}"
    using h nodes unfolding uus_list_is_def dom_def by auto
  moreover have "remove1 a as = xs @ ys" using as by (simp add: remove1_append)
  ultimately have wf: "uus_list_is ?h3 (remove1 a as)"
    using path dist as(1) by (auto simp: uus_list_is_def)
  have "\<exists>m m'. ul_nodes h b = Some m \<and> ul_nodes ?h3 b = Some m' \<and> un_card m' = un_card m
      \<and> un_use m' = un_use m \<and> un_s m' = un_s m \<and> un_write_area m' = un_write_area m"
    if "b \<in> set (remove1 a as)" for b
  proof -
    have "b \<noteq> a" "b \<in> dom (ul_nodes h)" using that h dist as by (auto simp: uus_list_is_def remove1_append)
    then show ?thesis using nodes [of b] by (auto split: if_splits)
  qed
  then show ?thesis using run wf by blast
qed

end
