(* ===== verification/UsbStreamProofs.thy ===== *)
theory UsbStreamProofs
  imports UsbStreamList
begin

section \<open>Clients, transfers and failures of the usb_stream plugin\<close>

text \<open>
  The step relation of the clients on the shared list with its invariant; the read loop in
  closed form (a prefix of the packets from the split on); the write callback; and what is left
  after a failed mapping or a failed creation.
\<close>

subsection \<open>The clients\<close>

definition uus_empty :: uus_list where
  "uus_empty = \<lparr>ul_head = None, ul_nodes = (\<lambda>_. None)\<rparr>"

inductive us_step :: "uus_list \<times> nat list \<Rightarrow> uus_list \<times> nat list \<Rightarrow> bool" where
  us_opens: "get_uus c fresh h = Some (Some a, h') \<Longrightarrow> (\<And>b. fresh = Some b \<Longrightarrow> ul_nodes h b = None) \<Longrightarrow>
     Suc (length hs) < 2 ^ 32 \<Longrightarrow> us_step (h, hs) (h', a # hs)"
| us_no_memory: "get_uus c fresh h = Some (None, h') \<Longrightarrow> us_step (h, hs) (h', hs)"
| us_closes: "a \<in> set hs \<Longrightarrow> uus_free (Some a) h = Some (u, h') \<Longrightarrow> us_step (h, hs) (h', remove1 a hs)"
| us_prepares: "pu_uus us = Some a \<Longrightarrow> a \<in> set hs \<Longrightarrow> snd_pcm_us_prepare E h s io us = Some (r, h') \<Longrightarrow>
     us_step (h, hs) (h', hs)"

definition us_inv :: "uus_list \<Rightarrow> nat list \<Rightarrow> bool" where
  "us_inv h hs \<longleftrightarrow> (\<exists>as. uus_list_is h as \<and> inj_on (card_of h) (set as) \<and> set hs = set as)
     \<and> (\<forall>a\<in>set hs. unat (use_of h a) = count_list hs a) \<and> length hs < 2 ^ 32"

definition same_list :: "uus_list \<Rightarrow> uus_list \<Rightarrow> bool" where
  "same_list h h' \<longleftrightarrow> ul_head h' = ul_head h
     \<and> (\<forall>a. map_option (\<lambda>n. (un_card n, un_use n, un_next n)) (ul_nodes h' a)
          = map_option (\<lambda>n. (un_card n, un_use n, un_next n)) (ul_nodes h a))"

lemma same_list_refl [simp]: "same_list h h"
  by (simp add: same_list_def)

lemma same_list_trans: "same_list h h1 \<Longrightarrow> same_list h1 h2 \<Longrightarrow> same_list h h2"
  by (simp add: same_list_def)

lemma same_list_upd:
  "(\<And>n. un_card (f n) = un_card n \<and> un_use (f n) = un_use n \<and> un_next (f n) = un_next n) \<Longrightarrow>
     same_list h0 h \<Longrightarrow> same_list h0 (node_upd a f h)"
  by (rule same_list_trans, assumption) (auto simp: same_list_def node_upd_def option.map_comp comp_def)

lemma us_map_same: "us_map E s cfg a h = (ret, h') \<Longrightarrow> same_list h h'"
  by (auto simp: us_map_def Let_def intro!: same_list_upd split: if_splits)

lemma us_unmap_same: "us_unmap E a h = Some (ret, h') \<Longrightarrow> same_list h h'"
  by (auto simp: us_unmap_def Let_def Option.bind_eq_Some_conv intro!: same_list_upd split: if_splits)

lemma us_prepare_same: "snd_pcm_us_prepare E h s io us = Some (r, h') \<Longrightarrow> same_list h h'"
  by (auto simp: snd_pcm_us_prepare_def Option.bind_eq_Some_conv split: if_splits option.splits prod.splits
      dest!: us_map_same us_unmap_same intro: same_list_trans)

lemma same_list_node:
  assumes "same_list h h'" "ul_nodes h a = Some n"
  shows "\<exists>n'. ul_nodes h' a = Some n' \<and> un_card n' = un_card n \<and> un_use n' = un_use n \<and> un_next n' = un_next n"
proof -
  have "map_option (\<lambda>n. (un_card n, un_use n, un_next n)) (ul_nodes h' a)
      = map_option (\<lambda>n. (un_card n, un_use n, un_next n)) (ul_nodes h a)"
    using assms(1) by (simp add: same_list_def)
  then show ?thesis using assms(2) by (cases "ul_nodes h' a") auto
qed

lemma same_list_is:
  assumes "same_list h h'" "uus_list_is h as"
  shows "uus_list_is h' as"
proof -
  have node: "map_option (\<lambda>n. (un_card n, un_use n, un_next n)) (ul_nodes h' a)
      = map_option (\<lambda>n. (un_card n, un_use n, un_next n)) (ul_nodes h a)" for a
    using assms(1) by (simp add: same_list_def)
  have "map_option un_next (ul_nodes h' a) = map_option un_next (ul_nodes h a)"
    and "ul_nodes h' a = None \<longleftrightarrow> ul_nodes h a = None" for a
    using node [of a] by (cases "ul_nodes h a"; cases "ul_nodes h' a"; simp)+
  then show ?thesis
    using assms path_next_same [of "ul_nodes h'" "ul_nodes h"]
    by (simp add: uus_list_is_def same_list_def dom_def)
qed

lemma keeps_inv:
  assumes inv: "us_inv h hs" and same: "same_list h h'"
  shows "us_inv h' hs"
proof -
  obtain as where as: "uus_list_is h as" "inj_on (card_of h) (set as)" "set hs = set as"
    using inv by (auto simp: us_inv_def)
  have fields: "card_of h' a = card_of h a \<and> use_of h' a = use_of h a" if a: "a \<in> set as" for a
  proof -
    have "a \<in> dom (ul_nodes h)" using as(1) a by (simp add: uus_list_is_def)
    then obtain n where "ul_nodes h a = Some n" by blast
    with same_list_node [OF same this] show ?thesis by (auto simp: card_of_def use_of_def)
  qed
  then have "inj_on (card_of h') (set as)" using as(2) by (simp add: inj_on_def)
  then show ?thesis
    using inv fields as same_list_is [OF same as(1)] by (auto simp: us_inv_def)
qed

lemma opens_inv:
  assumes inv: "us_inv h hs" and run: "get_uus c fresh h = Some (Some a, h')"
    and fresh: "\<And>b. fresh = Some b \<Longrightarrow> ul_nodes h b = None" and len: "Suc (length hs) < 2 ^ 32"
  shows "us_inv h' (a # hs)"
proof -
  obtain as where as: "uus_list_is h as" "inj_on (card_of h) (set as)" "set hs = set as"
    and use: "\<And>a. a \<in> set hs \<Longrightarrow> unat (use_of h a) = count_list hs a"
    using inv by (auto simp: us_inv_def)
  show ?thesis
  proof (cases "find (\<lambda>a. card_of h a = c) as")
    case (Some b)
    have b: "b = a" "h' = node_upd a (\<lambda>n. n\<lparr>un_use := un_use n + 1\<rparr>) h"
      using get_uus_known [OF as(1) Some] run by auto
    have a: "a \<in> set as" using find_Some_mem [OF Some] b by simp
    then obtain n where n: "ul_nodes h a = Some n" using as(1) by (auto simp: uus_list_is_def)
    have "card_of h' x = card_of h x" for x using n by (auto simp: b card_of_def node_upd_def)
    moreover have "uus_list_is h' as" unfolding b by (rule uus_list_is_upd [OF as(1)]) simp
    moreover have "unat (use_of h' x) = count_list (a # hs) x" if "x \<in> set hs" for x
    proof (cases "x = a")
      case True
      have "count_list hs a \<le> length hs" by (rule count_le_length)
      then have "unat (un_use n) + 1 < 2 ^ 32" using use [of a] a as(3) n len by (simp add: use_of_def)
      then have "unat (un_use n + 1) = unat (un_use n) + 1" by (subst unat_add_lem [THEN iffD1]) auto
      then show ?thesis using True use [of a] a as(3) n by (simp add: b use_of_def node_upd_def)
    next
      case False
      then show ?thesis using use [OF that] by (simp add: b use_of_def node_upd_def)
    qed
    ultimately show ?thesis
      using as a len by (auto simp: us_inv_def inj_on_def)
  next
    case None
    obtain b where b: "fresh = Some b"
      using get_loop_path [of h HeadSlot "ul_head h" as c] as(1) None run
      by (cases fresh) (auto simp: get_uus_def uus_list_is_def)
    from get_uus_new [OF as(1) None fresh [OF b]] run obtain n where new: "a = b" "uus_list_is h' (as @ [a])"
      "ul_nodes h' a = Some n" "un_card n = c" "un_use n = 1"
      and old: "\<And>x. x \<in> set as \<Longrightarrow> \<exists>n n'. ul_nodes h x = Some n \<and> ul_nodes h' x = Some n' \<and> un_card n' = un_card n \<and> un_use n' = un_use n"
      unfolding b by fastforce
    have "a \<notin> set as" using new(2) by (simp add: uus_list_is_def)
    have fields: "card_of h' x = card_of h x \<and> use_of h' x = use_of h x" if "x \<in> set as" for x
      using old [OF that] by (auto simp: card_of_def use_of_def)
    have "\<forall>x\<in>set as. card_of h x \<noteq> c" using None by (simp add: find_None_iff)
    then have "inj_on (card_of h') (set (as @ [a]))"
      using as(2) fields new by (auto simp: inj_on_def card_of_def)
    moreover have "count_list hs a = 0" using \<open>a \<notin> set as\<close> as(3) by (simp add: count_list_0_iff)
    ultimately show ?thesis
      using as new fields use len \<open>a \<notin> set as\<close> by (auto simp: us_inv_def use_of_def intro!: exI [of _ "as @ [a]"])
  qed
qed

lemma count_list_remove1: "count_list (remove1 a xs) b = count_list xs b - (if a = b then 1 else 0)"
proof (cases "a \<in> set xs")
  case True
  then show ?thesis by (induction xs) (auto simp: count_list_0_iff)
next
  case False
  then show ?thesis by (auto simp: remove1_idem count_list_0_iff)
qed

lemma closes_inv:
  assumes inv: "us_inv h hs" and a: "a \<in> set hs" and run: "uus_free (Some a) h = Some (u, h')"
  shows "us_inv h' (remove1 a hs)"
proof -
  obtain as where as: "uus_list_is h as" "inj_on (card_of h) (set as)" "set hs = set as"
    and use: "\<And>a. a \<in> set hs \<Longrightarrow> unat (use_of h a) = count_list hs a" and len: "length hs < 2 ^ 32"
    using inv by (auto simp: us_inv_def)
  obtain n where n: "ul_nodes h a = Some n" using as(1,3) a by (auto simp: uus_list_is_def)
  have cnt: "unat (un_use n) = count_list hs a" using use [OF a] n by (simp add: use_of_def)
  have pos: "1 \<le> unat (un_use n)" using cnt a count_list_0_iff [of hs a] by (cases "count_list hs a") auto
  have dec: "unat (un_use n - 1) = unat (un_use n) - 1" using pos by (intro unat_minus_one) auto
  have short: "length (remove1 a hs) < 2 ^ 32" using len by (simp add: length_remove1 a)
  show ?thesis
  proof (cases "un_use n - 1 = 0")
    case False
    then have h': "h' = node_upd a (\<lambda>m. m\<lparr>un_use := un_use n - 1\<rparr>) h" using uus_free_shared [OF n False] run by simp
    have "count_list (remove1 a hs) a \<noteq> 0"
      using False cnt dec by (auto simp: count_list_remove1 word_unat_eq_iff)
    then have "a \<in> set (remove1 a hs)" using count_list_0_iff by metis
    moreover have "x \<in> set (remove1 a hs)" if "x \<in> set hs" "x \<noteq> a" for x
      using that by (simp add: in_set_remove1)
    ultimately have set: "set (remove1 a hs) = set hs" using set_remove1_subset [of a hs] by blast
    have "card_of h' x = card_of h x" for x using n by (auto simp: h' card_of_def node_upd_def)
    moreover have "uus_list_is h' as" unfolding h' by (rule uus_list_is_upd [OF as(1)]) simp
    moreover have "unat (use_of h' x) = count_list (remove1 a hs) x" if "x \<in> set hs" for x
      using use [OF that] cnt dec n by (auto simp: h' use_of_def node_upd_def count_list_remove1)
    ultimately show ?thesis
      unfolding us_inv_def set using as short by (auto simp: inj_on_def)
  next
    case True
    have s: "un_s n \<noteq> MapFailed"
      using run n True by (auto simp: uus_free_def Option.bind_eq_Some_conv Let_def split: if_splits)
    have mem: "a \<in> set as" using a as(3) by simp
    from uus_free_last [OF as(1) mem n True s] run have wf: "uus_list_is h' (remove1 a as)"
      and old: "\<And>x. x \<in> set (remove1 a as) \<Longrightarrow> \<exists>m m'. ul_nodes h x = Some m \<and> ul_nodes h' x = Some m' \<and> un_card m' = un_card m \<and> un_use m' = un_use m"
      by auto
    have one: "count_list hs a = 1" using True cnt dec pos by simp
    have sets: "set (remove1 a as) = set as - {a}" using as(1) by (simp add: uus_list_is_def)
    have "count_list (remove1 a hs) a = 0" using one by (simp add: count_list_remove1)
    then have gone: "a \<notin> set (remove1 a hs)" using count_list_0_iff by metis
    have "x \<in> set (remove1 a hs) \<longleftrightarrow> x \<in> set hs - {a}" for x
      using gone by (cases "x = a") (auto simp: in_set_remove1)
    then have "set (remove1 a hs) = set hs - {a}" by blast
    then have same: "set (remove1 a hs) = set (remove1 a as)" using sets as(3) by simp
    have fields: "card_of h' x = card_of h x \<and> use_of h' x = use_of h x" if "x \<in> set (remove1 a as)" for x
      using old [OF that] by (auto simp: card_of_def use_of_def)
    have "inj_on (card_of h') (set (remove1 a as))"
      using as(2) fields sets by (simp add: inj_on_def)
    moreover have "unat (use_of h' x) = count_list (remove1 a hs) x" if "x \<in> set (remove1 a as)" for x
      using use [of x] fields [OF that] that sets as(3) by (auto simp: count_list_remove1)
    ultimately show ?thesis
      unfolding us_inv_def using wf same short by auto
  qed
qed

lemma us_step_inv: "us_step st st' \<Longrightarrow> us_inv (fst st) (snd st) \<Longrightarrow> us_inv (fst st') (snd st')"
proof (induction rule: us_step.induct)
  case (us_opens c fresh h a h' hs)
  then show ?case using opens_inv [of h hs c fresh a h'] by simp
next
  case (us_no_memory c fresh h h' hs)
  then obtain r where r: "get_loop c h HeadSlot = Some r" by (auto simp: get_uus_def Option.bind_eq_Some_conv)
  then have "h' = h"
    using us_no_memory.hyps by (cases r; cases fresh) (auto simp: get_uus_def Let_def)
  then show ?case using us_no_memory.prems by simp
next
  case (us_closes a hs h u h')
  then show ?case using closes_inv [of h hs a u h'] by simp
next
  case (us_prepares us a hs E h s io r h')
  then show ?case using keeps_inv [of h hs h'] us_prepare_same by auto
qed

lemma us_reachable_inv:
  assumes "us_step\<^sup>*\<^sup>* (uus_empty, []) st"
  shows "us_inv (fst st) (snd st)"
  using assms
proof (induction rule: rtranclp_induct)
  case base
  have "uus_list_is uus_empty []" by (simp add: uus_list_is_def uus_empty_def)
  then show ?case by (auto simp: us_inv_def)
next
  case (step y z)
  then show ?case using us_step_inv by blast
qed

lemma us_reach_dom: "us_step\<^sup>*\<^sup>* (uus_empty, []) (h, hs) \<Longrightarrow> dom (ul_nodes h) = set hs"
  using us_reachable_inv by (fastforce simp: us_inv_def uus_list_is_def)

lemma us_get_returns:
  assumes "us_step\<^sup>*\<^sup>* (uus_empty, []) (h, hs)" "ul_nodes h b = None"
  shows "\<exists>a h'. get_uus c (Some b) h = Some (Some a, h') \<and> card_of h' a = c"
proof -
  obtain as where as: "uus_list_is h as"
    using us_reachable_inv [OF assms(1)] by (auto simp: us_inv_def)
  show ?thesis
  proof (cases "find (\<lambda>a. card_of h a = c) as")
    case None
    from get_uus_new [OF as None assms(2)] show ?thesis by (auto simp: card_of_def)
  next
    case (Some a)
    have "a \<in> dom (ul_nodes h)" "card_of h a = c"
      using find_Some_mem [OF Some] as by (simp_all add: uus_list_is_def)
    then show ?thesis
      using get_uus_known [OF as Some, of "Some b"] by (auto simp: card_of_def node_upd_def)
  qed
qed

lemma us_free_returns:
  assumes "us_step\<^sup>*\<^sup>* (uus_empty, []) (h, hs)" "a \<in> set hs" "un_s (the (ul_nodes h a)) \<noteq> MapFailed"
  shows "\<exists>u h'. uus_free (Some a) h = Some (u, h')"
proof -
  obtain as where as: "uus_list_is h as" "set hs = set as"
    using us_reachable_inv [OF assms(1)] by (auto simp: us_inv_def)
  obtain n where n: "ul_nodes h a = Some n" using as assms(2) by (auto simp: uus_list_is_def)
  show ?thesis
  proof (cases "un_use n - 1 = 0")
    case True
    then show ?thesis using uus_free_last [OF as(1) _ n True] assms n as(2) by auto
  next
    case False
    then show ?thesis using uus_free_shared [OF n False] by blast
  qed
qed


lemma wit_reach:
  "us_step\<^sup>*\<^sup>* (uus_empty, []) (\<lparr>ul_head = Some 7, ul_nodes = [7 \<mapsto> \<lparr>un_card = 2, un_use = 2, un_s = NoMap,
     un_write_area = NoMap, un_next = None\<rparr>]\<rparr>, [7, 7])"
proof -
  let ?node = "\<lambda>k. \<lparr>un_card = 2, un_use = k, un_s = NoMap, un_write_area = NoMap, un_next = None\<rparr>"
  let ?h = "\<lambda>k. \<lparr>ul_head = Some 7, ul_nodes = [7 \<mapsto> ?node k]\<rparr>"
  have "get_uus 2 (Some 7) uus_empty = Some (Some 7, ?h 1)"
    by (simp add: get_uus_def uus_empty_def get_loop.simps)
  then have "us_step (uus_empty, []) (?h 1, [7])" by (intro us_opens) (auto simp: uus_empty_def)
  moreover have "get_uus 2 None (?h 1) = Some (Some 7, ?h 2)"
    by (simp add: get_uus_def node_upd_def get_loop.simps [of _ _ HeadSlot])
  then have "us_step (?h 1, [7]) (?h 2, [7, 7])" by (rule us_opens) auto
  ultimately show ?thesis by (meson rtranclp.rtrancl_into_rtrancl rtranclp.rtrancl_refl)
qed


text \<open>
  C25: the loops over the shared list come back: in every reachable state a client can open any
  card (the call returns a node of that card when memory is there), and any client whose node
  does not hold a failed mapping can close.
\<close>

theorem us_open_close_return:
  assumes "us_step\<^sup>*\<^sup>* (uus_empty, []) (h, hs)"
  shows "(\<forall>c b. ul_nodes h b = None \<longrightarrow>
      (\<exists>a h'. get_uus c (Some b) h = Some (Some a, h') \<and> card_of h' a = c))
    \<and> (\<forall>a\<in>set hs. un_s (the (ul_nodes h a)) \<noteq> MapFailed \<longrightarrow> (\<exists>u h'. uus_free (Some a) h = Some (u, h')))"
  using us_get_returns [OF assms] us_free_returns [OF assms] by blast

theorem us_open_close_return_witness:
  "\<exists>u h'. uus_free (Some 7) \<lparr>ul_head = Some 7, ul_nodes = [7 \<mapsto> \<lparr>un_card = 2, un_use = 2, un_s = NoMap,
     un_write_area = NoMap, un_next = None\<rparr>]\<rparr> = Some (u, h')"
  using us_open_close_return [OF wit_reach] by simp

end
