(* ===== verification/UsbStreamIO.thy ===== *)
theory UsbStreamIO
  imports UsbStreamProofs
begin

section \<open>Transfers and failures of the usb_stream plugin\<close>

text \<open>
  The read loop in closed form (\<open>us_read_loop_collects\<close>: a prefix of the packets from the split
  on, once round the ring), the write callback, and what a failed mapping or a failed creation
  leaves behind.
\<close>

subsection \<open>The read loop\<close>

lemma mem_copy_piece: "mem_copy to l mem off n = put_bytes to l (piece mem off n)"
  by (rule ext) (auto simp: mem_copy_def put_bytes_def piece_def)

lemma mem_copy_0 [simp]: "mem_copy to l mem off 0 = to"
  by (rule ext) (auto simp: mem_copy_def)

definition packet_bytes :: "usb_stream \<Rightarrow> bytes \<Rightarrow> nat \<Rightarrow> u8 list" where
  "packet_bytes s mem p = piece mem (unat (pk_offset (us_inpacket s ! p))) (unat (pk_length (us_inpacket s ! p)))"

text \<open>The packets still to come after packet \<open>p\<close>, up to the one before the split.\<close>

definition rounds_left :: "usb_stream \<Rightarrow> nat \<Rightarrow> nat" where
  "rounds_left s p = (let split = unat (us_inpacket_split s) in
     if p < split then split - p - 1 else split + unat (us_inpackets s) - p - 1)"

definition packets_after :: "usb_stream \<Rightarrow> bytes \<Rightarrow> nat \<Rightarrow> nat \<Rightarrow> u8 list" where
  "packets_after s mem p r = concat (map (\<lambda>j. packet_bytes s mem ((p + 1 + j) mod unat (us_inpackets s))) [0..<r])"

lemma packets_after_Suc:
  "packets_after s mem p (Suc r) = packet_bytes s mem ((p + 1) mod unat (us_inpackets s))
     @ packets_after s mem ((p + 1) mod unat (us_inpackets s)) r"
proof -
  have "(p + 1 + Suc j) mod N = ((p + 1) mod N + 1 + j) mod N" for j N
    using mod_add_left_eq [of "p + 1" N "1 + j"] by (simp add: add.assoc)
  then show ?thesis
    by (simp add: packets_after_def upt_conv_Cons map_Suc_upt [symmetric] comp_def del: upt_Suc)
qed

lemma rounds_step:
  assumes "unat (us_inpacket_split s) < unat (us_inpackets s)" "p < unat (us_inpackets s)"
  shows "(p + 1) mod unat (us_inpackets s) = unat (us_inpacket_split s) \<longleftrightarrow> rounds_left s p = 0"
    "rounds_left s p = Suc r \<Longrightarrow> rounds_left s ((p + 1) mod unat (us_inpackets s)) = r"
proof -
  have "(p + 1) mod unat (us_inpackets s) = (if p + 1 = unat (us_inpackets s) then 0 else p + 1)"
    using assms(2) by simp
  then show "(p + 1) mod unat (us_inpackets s) = unat (us_inpacket_split s) \<longleftrightarrow> rounds_left s p = 0"
    "rounds_left s p = Suc r \<Longrightarrow> rounds_left s ((p + 1) mod unat (us_inpackets s)) = r"
    using assms by (auto simp: rounds_left_def Let_def split: if_splits)
qed

lemma read_clip:
  fixes l il per :: u32
  assumes "unat l \<le> unat per" "unat l + unat il < 2 ^ 32"
  shows "unat (if l + il > per then per - l else il) = min (unat il) (unat per - unat l)"
    "unat (l + (if l + il > per then per - l else il)) = min (unat l + unat il) (unat per)"
    "l + (if l + il > per then per - l else il) \<ge> per \<longleftrightarrow> unat per \<le> unat l + unat il"
proof -
  have sum: "unat (l + il) = unat l + unat il" using assms(2) by (subst unat_add_lem [THEN iffD1]) auto
  have sub: "unat (per - l) = unat per - unat l" using assms(1) by (simp add: unat_sub word_le_nat_alt)
  show one: "unat (if l + il > per then per - l else il) = min (unat il) (unat per - unat l)"
    using sum sub by (auto simp: word_less_nat_alt min_def)
  have "unat l + unat (if l + il > per then per - l else il) < 2 ^ 32"
    unfolding one using assms(2) by simp
  then have "unat (l + (if l + il > per then per - l else il)) = unat l + min (unat il) (unat per - unat l)"
    unfolding one [symmetric] by (subst unat_add_lem [THEN iffD1]) auto
  then show two: "unat (l + (if l + il > per then per - l else il)) = min (unat l + unat il) (unat per)"
    using assms(1) by (simp split: split_min)
  show "l + (if l + il > per then per - l else il) \<ge> per \<longleftrightarrow> unat per \<le> unat l + unat il"
    unfolding word_le_nat_alt two by auto
qed

lemma us_read_loop_unfold:
  fixes p l il :: u32
  assumes split: "unat (us_inpacket_split s) < unat (us_inpackets s)" "unat (us_inpackets s) \<le> length (us_inpacket s)"
    and p: "unat p < unat (us_inpackets s)" and l: "unat l \<le> unat (us_period_size s)"
    and fits: "unat l + unat il < 2 ^ 32"
  shows "us_read_loop s mem p l i il to =
    (let P = unat (us_period_size s); xs = piece mem i (unat il); q = (p + 1) mod us_inpackets s in
     if P \<le> unat l + unat il then Some (word_of_nat P, put_bytes to (unat l) (take (P - unat l) xs))
     else if rounds_left s (unat p) = 0 then Some (word_of_nat (unat l + unat il), put_bytes to (unat l) xs)
     else us_read_loop s mem q (word_of_nat (unat l + unat il)) (unat (pk_offset (us_inpacket s ! unat q)))
            (pk_length (us_inpacket s ! unat q)) (put_bytes to (unat l) xs))"
    and "unat ((p + 1) mod us_inpackets s) = (unat p + 1) mod unat (us_inpackets s)"
proof -
  let ?P = "unat (us_period_size s)" and ?N = "unat (us_inpackets s)"
  let ?il = "if l + il > us_period_size s then us_period_size s - l else il"
  let ?p = "(p + 1) mod us_inpackets s"
  have N: "us_inpackets s \<noteq> 0" using p by auto
  have p1: "unat (p + 1) = unat p + 1"
    using p unat_u32_lt [of "us_inpackets s"] by (subst unat_add_lem [THEN iffD1]) auto
  show p': "unat ?p = (unat p + 1) mod ?N" by (simp add: unat_mod p1)
  then have in_ring: "\<not> length (us_inpacket s) \<le> unat ?p"
    using split(2) mod_less_divisor [of ?N "unat p + 1"] p by linarith
  have more: "?p = us_inpacket_split s \<longleftrightarrow> rounds_left s (unat p) = 0"
    using rounds_step(1) [OF split(1) p] p' by (simp add: word_unat_eq_iff)
  note clip = read_clip [OF l fits]
  have copied: "mem_copy to (unat l) mem i (unat ?il) = put_bytes to (unat l) (take (?P - unat l) (piece mem i (unat il)))"
    unfolding mem_copy_piece clip(1) by (cases "unat il \<le> ?P - unat l") (simp_all add: take_piece min_def)
  show "us_read_loop s mem p l i il to =
    (let P = unat (us_period_size s); xs = piece mem i (unat il); q = (p + 1) mod us_inpackets s in
     if P \<le> unat l + unat il then Some (word_of_nat P, put_bytes to (unat l) (take (P - unat l) xs))
     else if rounds_left s (unat p) = 0 then Some (word_of_nat (unat l + unat il), put_bytes to (unat l) xs)
     else us_read_loop s mem q (word_of_nat (unat l + unat il)) (unat (pk_offset (us_inpacket s ! unat q)))
            (pk_length (us_inpacket s ! unat q)) (put_bytes to (unat l) xs))"
  proof (cases "?P \<le> unat l + unat il")
    case True
    then have "l + ?il = word_of_nat ?P" using clip(2) by (simp add: word_unat_eq_iff)
    then show ?thesis
      using True clip(3) copied by (subst us_read_loop.simps) (simp add: Let_def)
  next
    case False
    then have il: "?il = il" using clip(1) by (auto simp: word_unat_eq_iff)
    have sum: "l + il = word_of_nat (unat l + unat il)" by (simp add: of_nat_add)
    have "take (?P - unat l) (piece mem i (unat il)) = piece mem i (unat il)" using False by simp
    then show ?thesis
      using False clip(3) copied N in_ring more il unfolding sum [symmetric]
      by (subst us_read_loop.simps) (simp add: Let_def)
  qed
qed

lemma us_read_loop_collects:
  fixes p l il :: u32
  assumes split: "unat (us_inpacket_split s) < unat (us_inpackets s)" "unat (us_inpackets s) \<le> length (us_inpacket s)"
    and "unat p < unat (us_inpackets s)" "rounds_left s (unat p) = r" "unat l \<le> unat (us_period_size s)"
    "unat l + length (piece mem i (unat il) @ packets_after s mem (unat p) r) < 2 ^ 32"
  shows "us_read_loop s mem p l i il to =
    (let D = take (unat (us_period_size s) - unat l) (piece mem i (unat il) @ packets_after s mem (unat p) r)
     in Some (word_of_nat (unat l + length D), put_bytes to (unat l) D))"
  using assms(3-6)
proof (induction r arbitrary: p l i il to)
  case (0 p l i il to)
  let ?P = "unat (us_period_size s)"
  have none: "packets_after s mem (unat p) 0 = []" by (simp add: packets_after_def)
  note unfold = us_read_loop_unfold(1) [OF split 0(1,3), of il mem i to]
  show ?case
  proof (cases "?P \<le> unat l + unat il")
    case True
    then have "min (unat il) (?P - unat l) = ?P - unat l" "unat l + (?P - unat l) = ?P" using 0(3) by simp_all
    then show ?thesis using True 0 unfold by (simp add: Let_def none min.commute del: of_nat_add)
  next
    case False
    then show ?thesis using 0 unfold by (simp add: Let_def none del: of_nat_add)
  qed
next
  case (Suc r)
  let ?P = "unat (us_period_size s)" and ?N = "unat (us_inpackets s)"
  let ?p = "(p + 1) mod us_inpackets s"
  let ?pk = "us_inpacket s ! unat ?p"
  have fits: "unat l + unat il < 2 ^ 32" using Suc.prems(4) by simp
  note unfold = us_read_loop_unfold [OF split Suc.prems(1,3) fits]
  have in_ring: "unat ?p < ?N" using Suc.prems(1) unfold(2) by simp
  have r: "rounds_left s (unat ?p) = r" using rounds_step(2) [OF split(1) Suc.prems(1,2)] unfold(2) by simp
  have data: "packets_after s mem (unat p) (Suc r) = packet_bytes s mem (unat ?p) @ packets_after s mem (unat ?p) r"
    by (simp add: packets_after_Suc unfold(2))
  show ?case
  proof (cases "?P \<le> unat l + unat il")
    case True
    then show ?thesis
      using unfold(1) Suc.prems(3) by (simp add: Let_def)
  next
    case False
    let ?l = "word_of_nat (unat l + unat il) :: u32"
    have sum: "unat ?l = unat l + unat il" using fits by (simp add: unsigned_of_nat take_bit_nat_eq_self del: of_nat_add)
    have "us_read_loop s mem p l i il to = us_read_loop s mem ?p ?l (unat (pk_offset ?pk)) (pk_length ?pk)
        (put_bytes to (unat l) (piece mem i (unat il)))"
      using unfold(1) False Suc.prems(2) by (simp add: Let_def)
    also have "\<dots> = (let D = take (?P - unat ?l) (piece mem (unat (pk_offset ?pk)) (unat (pk_length ?pk)) @ packets_after s mem (unat ?p) r)
       in Some (word_of_nat (unat ?l + length D), put_bytes (put_bytes to (unat l) (piece mem i (unat il))) (unat ?l) D))"
      using False Suc.prems(4) sum by (intro Suc.IH [OF in_ring r]) (auto simp: data packet_bytes_def)
    finally show ?thesis
      using False sum put_bytes_append [of to "unat l" "piece mem i (unat il)"]
      by (simp add: Let_def data packet_bytes_def add.assoc)
  qed
qed

subsection \<open>Properties\<close>

text \<open>The captured data in order: the rest of the split packet, then the packets after it.\<close>

definition us_captured :: "usb_stream \<Rightarrow> bytes \<Rightarrow> u8 list" where
  "us_captured s mem =
     (let split = unat (us_inpacket_split s); at = unat (us_inpacket_split_at s) in
      drop at (packet_bytes s mem split) @ packets_after s mem split (unat (us_inpackets s) - 1))"

text \<open>
  C26: reading a period returns, whatever the packets hold: it goes round the ring of packets at
  most once, and has then copied exactly the first period of the captured bytes, in order and
  without a gap, or all of them when there are fewer; nothing after them is written.
\<close>

theorem usb_stream_read_collects:
  assumes "unat (us_inpacket_split s) < unat (us_inpackets s)" "unat (us_inpackets s) \<le> length (us_inpacket s)"
    "us_inpacket_split_at s \<le> pk_length (us_inpacket s ! unat (us_inpacket_split s))"
    "length (us_captured s mem) < 2 ^ 32"
  shows "usb_stream_read s mem to =
    (let D = take (unat (us_period_size s)) (us_captured s mem) in Some (word_of_nat (length D), put_bytes to 0 D))"
proof -
  let ?split = "us_inpacket_split s" and ?at = "us_inpacket_split_at s"
  let ?pk = "us_inpacket s ! unat ?split"
  have sub: "unat (pk_length ?pk - ?at) = unat (pk_length ?pk) - unat ?at"
    using assms(3) by (simp add: unat_sub word_le_nat_alt)
  have first: "piece mem (unat (pk_offset ?pk) + unat ?at) (unat (pk_length ?pk - ?at)) = drop (unat ?at) (packet_bytes s mem (unat ?split))"
    unfolding sub packet_bytes_def piece_def by (auto intro!: nth_equalityI simp: add.assoc)
  have r: "rounds_left s (unat ?split) = unat (us_inpackets s) - 1"
    by (simp add: rounds_left_def)
  have "unat (us_inpackets s) \<le> length (us_inpacket s)" "unat ?split < length (us_inpacket s)"
    using assms(1,2) by linarith+
  then show ?thesis
    using us_read_loop_collects [OF assms(1,2,1) r, of 0 mem "unat (pk_offset ?pk) + unat ?at" "pk_length ?pk - ?at" to] assms(4)
    by (simp add: usb_stream_read_def us_captured_def first Let_def)
qed

definition wit_stream :: usb_stream where
  "wit_stream = \<lparr>us_cfg = \<lparr>ucf_version = 2, ucf_sample_rate = 48000, ucf_period_frames = 1, ucf_frame_size = 6\<rparr>,
     us_read_size = 4096, us_write_size = 4096, us_period_size = 6, us_dev_state = UsReady, us_periods_done = 1,
     us_outpacket = [\<lparr>pk_offset = 0, pk_length = 4\<rparr>, \<lparr>pk_offset = 100, pk_length = 4\<rparr>],
     us_inpackets = 2, us_inpacket_split = 1, us_inpacket_split_at = 1,
     us_inpacket = [\<lparr>pk_offset = 10, pk_length = 4\<rparr>, \<lparr>pk_offset = 20, pk_length = 4\<rparr>]\<rparr>"

lemma wit_captured: "us_captured wit_stream mem = [mem 21, mem 22, mem 23, mem 10, mem 11, mem 12, mem 13]"
proof -
  have four: "[0..<4] = [0, 1, 2, 3 :: nat]" by (simp add: upt_rec)
  show ?thesis
    by (simp add: us_captured_def wit_stream_def packets_after_def packet_bytes_def piece_def four Let_def)
qed

theorem usb_stream_read_collects_witness:
  "usb_stream_read wit_stream word_of_nat (\<lambda>_. 0) =
    Some (6, put_bytes (\<lambda>_. 0) 0 [21, 22, 23, 10, 11, 12])"
  using usb_stream_read_collects [of wit_stream word_of_nat "\<lambda>_. 0"]
  by (simp add: wit_captured) (simp add: wit_stream_def word_le_nat_alt Let_def)

text \<open>
  a write call puts the bytes of its frames, in order, into the two packets of the period:
  the first fills the first packet, the rest starts the second, nothing else of the write area
  changes, and the client's period count goes up by one.
\<close>

theorem snd_pcm_us_write_fills:
  assumes deref: "us_deref h us = Some n" "un_write_area n = MapFull"
    and size: "unat sz * unat (ucf_frame_size (us_cfg s)) = len0 + rest" "len0 + rest < 2 ^ 32"
    and off: "unat offset * unat (ucf_frame_size (us_cfg s)) < 2 ^ 64"
    and packets: "us_outpacket s = p0 # p1 # ps" "unat (pk_length p0) = len0"
    and apart: "unat (pk_offset p0) + len0 \<le> unat (pk_offset p1)"
  shows "\<exists>warea'. snd_pcm_us_write h s us addr offset sz warea =
      Some (sz, us\<lparr>pu_periods_done := pu_periods_done us + 1\<rparr>, warea')
    \<and> piece warea' (unat (pk_offset p0)) len0 @ piece warea' (unat (pk_offset p1)) rest
        = piece addr (unat offset * unat (ucf_frame_size (us_cfg s))) (len0 + rest)
    \<and> (\<forall>a. a \<notin> {unat (pk_offset p0)..<unat (pk_offset p0) + len0} \<union> {unat (pk_offset p1)..<unat (pk_offset p1) + rest}
         \<longrightarrow> warea' a = warea a)"
proof -
  let ?fs = "ucf_frame_size (us_cfg s)" and ?src = "unat offset * unat (ucf_frame_size (us_cfg s))"
  let ?bytes = "ucast (sz * ucast ?fs) :: u32"
  have src: "unat (offset * ucast ?fs) = ?src"
    using off by (subst unat_mult_lem [THEN iffD1]) (auto simp: word_nat)
  have "unat (sz * ucast ?fs) = unat sz * unat ?fs"
    using size by (subst unat_mult_lem [THEN iffD1]) (auto simp: word_nat)
  then have bytes: "unat ?bytes = len0 + rest" using size by (simp add: word_nat)
  have more: "?bytes > pk_length p0 \<longleftrightarrow> 0 < rest" unfolding word_less_nat_alt bytes packets(2) by simp
  have diff: "0 < rest \<Longrightarrow> unat (?bytes - pk_length p0) = rest"
    using bytes packets(2) by (simp add: unat_sub word_le_nat_alt)
  let ?w0 = "mem_copy warea (unat (pk_offset p0)) addr ?src len0"
  let ?w = "mem_copy ?w0 (unat (pk_offset p1)) addr (?src + len0) rest"
  have run: "snd_pcm_us_write h s us addr offset sz warea = Some (sz, us\<lparr>pu_periods_done := pu_periods_done us + 1\<rparr>, ?w)"
    using deref packets more diff
    by (cases "0 < rest") (simp_all add: snd_pcm_us_write_def src Let_def)
  have "piece ?w (unat (pk_offset p0)) len0 = piece addr ?src len0"
    using apart by (auto simp: piece_def mem_copy_def)
  moreover have "piece ?w (unat (pk_offset p1)) rest = piece addr (?src + len0) rest"
    by (auto simp: piece_def mem_copy_def)
  moreover have "piece addr ?src (len0 + rest) = piece addr ?src len0 @ piece addr (?src + len0) rest"
    by (rule nth_equalityI) (auto simp: piece_def nth_append)
  moreover have "?w a = warea a" if "a \<notin> {unat (pk_offset p0)..<unat (pk_offset p0) + len0} \<union> {unat (pk_offset p1)..<unat (pk_offset p1) + rest}" for a
    using that by (auto simp: mem_copy_def)
  ultimately show ?thesis using run by (intro exI [of _ ?w]) simp
qed

definition wit_uus :: uus_list where
  "wit_uus = \<lparr>ul_head = Some 7, ul_nodes = (\<lambda>a. if a = 7
     then Some \<lparr>un_card = 0, un_use = 1, un_s = MapFull, un_write_area = MapFull, un_next = None\<rparr> else None)\<rparr>"

definition wit_us :: us_pcm where
  "wit_us = \<lparr>pu_uus = Some 7, pu_periods_start = 0, pu_periods_done = 0, pu_channels = 2,
     pu_period_size = 1, pu_rate = 48000\<rparr>"

theorem snd_pcm_us_write_fills_witness:
  "\<exists>warea'. snd_pcm_us_write wit_uus wit_stream wit_us word_of_nat 2 1 (\<lambda>_. 0) =
      Some (1, wit_us\<lparr>pu_periods_done := 1\<rparr>, warea')
    \<and> piece warea' 0 4 @ piece warea' 100 2 = piece word_of_nat 12 6"
proof -
  have "us_deref wit_uus wit_us = Some \<lparr>un_card = 0, un_use = 1, un_s = MapFull, un_write_area = MapFull, un_next = None\<rparr>"
    by (simp add: us_deref_def wit_uus_def wit_us_def)
  from snd_pcm_us_write_fills [OF this, of 1 wit_stream 4 2 2 "\<lparr>pk_offset = 0, pk_length = 4\<rparr>" "\<lparr>pk_offset = 100, pk_length = 4\<rparr>" "[]" word_of_nat "\<lambda>_. 0"]
  show ?thesis by (auto simp: wit_stream_def wit_us_def)
qed

text \<open>
  a prepare that cannot map the device's structure returns an error but leaves the failed
  pointer where later calls take it for a mapping: after it, every further prepare that gets
  past the ioctl dereferences that pointer, and so does the close of the last client.
\<close>

theorem us_failed_map_traps:
  assumes us: "pu_uus us = Some a" "ul_nodes h a = Some n" "un_s n = NoMap"
    and fails: "0 \<le> ue_ioctl E" "\<not> ue_mmap E \<or> us_cfg s = us_request io \<and> \<not> ue_mremap E" "0 < ue_errno E"
  shows "\<exists>r h'. snd_pcm_us_prepare E h s io us = Some (r, h') \<and> r < 0
    \<and> (\<forall>E' s' io'. 0 \<le> ue_ioctl E' \<longrightarrow> snd_pcm_us_prepare E' h' s' io' us = None)
    \<and> (un_use n = 1 \<longrightarrow> uus_free (Some a) h' = None)"
proof -
  obtain r h' where m: "us_map E s (us_request io) a h = (Some r, h')" "r < 0"
    "\<exists>n'. ul_nodes h' a = Some n' \<and> un_s n' = MapFailed \<and> un_use n' = un_use n"
    using us fails by (cases "ue_mmap E") (auto simp: us_map_def node_upd_def Let_def)
  then obtain n' where n': "ul_nodes h' a = Some n'" "un_s n' = MapFailed" "un_use n' = un_use n" by blast
  have "snd_pcm_us_prepare E h s io us = Some (r, h')"
    using us fails(1) m(1) by (simp add: snd_pcm_us_prepare_def)
  moreover have "snd_pcm_us_prepare E' h' s' io' us = None" if "0 \<le> ue_ioctl E'" for E' s' io'
    using us(1) n' that by (simp add: snd_pcm_us_prepare_def us_unmap_def us_deref_def)
  moreover have "uus_free (Some a) h' = None" if "un_use n = 1"
  proof -
    have "un_use n' - 1 = 0" using that n'(3) by simp
    then show ?thesis using n' by (simp add: uus_free_def Let_def)
  qed
  ultimately show ?thesis using m(2) by blast
qed

definition wit_io :: ioplug where
  "wit_io = \<lparr>io_stream = PLAYBACK, io_state = STATE_SETUP, io_format = FORMAT_S24_3LE, io_rate = 48000,
     io_channels = 2, io_period_size = 1, io_buffer_size = 2, io_appl_ptr = 0\<rparr>"

theorem us_failed_map_traps_witness:
  "\<exists>r h'. snd_pcm_us_prepare \<lparr>ue_ioctl = 0, ue_munmap_write = 0, ue_munmap_read = 0, ue_errno = 12, ue_mmap = False,
        ue_mremap = True, ue_mmap_write = True, ue_poll = 1\<rparr>
      (node_upd 7 (\<lambda>n. n\<lparr>un_s := NoMap\<rparr>) wit_uus) wit_stream wit_io wit_us = Some (r, h') \<and> r < 0
    \<and> uus_free (Some 7) h' = None"
proof -
  let ?n = "\<lparr>un_card = 0, un_use = 1, un_s = NoMap, un_write_area = MapFull, un_next = None\<rparr>"
  have "ul_nodes (node_upd 7 (\<lambda>n. n\<lparr>un_s := NoMap\<rparr>) wit_uus) 7 = Some ?n"
    by (simp add: node_upd_def wit_uus_def)
  from us_failed_map_traps [OF _ this, of wit_us "\<lparr>ue_ioctl = 0, ue_munmap_write = 0, ue_munmap_read = 0,
      ue_errno = 12, ue_mmap = False, ue_mremap = True, ue_mmap_write = True, ue_poll = 1\<rparr>" wit_stream wit_io]
  show ?thesis by (auto simp: wit_us_def)
qed

lemma get_uus_maps:
  assumes "uus_list_is h as" "ul_nodes h b = None" "get_uus c (Some b) h = Some (Some a, h')"
    "\<forall>a n. ul_nodes h a = Some n \<longrightarrow> un_s n \<noteq> MapFailed"
  shows "un_s (the (ul_nodes h' a)) \<noteq> MapFailed"
proof (cases "find (\<lambda>a. card_of h a = c) as")
  case None
  from get_uus_new [OF assms(1) None assms(2)] assms(3) show ?thesis by auto
next
  case (Some x)
  have "x \<in> dom (ul_nodes h)" using find_Some_mem [OF Some] assms(1) by (simp add: uus_list_is_def)
  then show ?thesis
    using get_uus_known [OF assms(1) Some, of "Some b"] assms(3,4) by (auto simp: node_upd_def)
qed

text \<open>
  when the ioplug cannot be created, open gives back the shared stream but not the hwdep
  handle it has just opened: the error is returned with one handle more than before.
\<close>

theorem us_create_failure_leaks:
  assumes reach: "us_step\<^sup>*\<^sup>* (uus_empty, []) (uw_list w, hs)" and few: "Suc (length hs) < 2 ^ 32"
    and E: "uo_calloc E" "uo_fresh E = Some b" "ul_nodes (uw_list w) b = None" "0 \<le> uo_hwdep_open E" "uo_create E < 0"
    and maps: "\<forall>a n. ul_nodes (uw_list w) a = Some n \<longrightarrow> un_s n \<noteq> MapFailed"
  shows "\<exists>h'. snd_pcm_us_open E c period_size rate w = Some (uo_create E, None, \<lparr>uw_list = h', uw_hwdeps = Suc (uw_hwdeps w)\<rparr>)
    \<and> dom (ul_nodes h') = dom (ul_nodes (uw_list w))"
proof -
  obtain as where as: "uus_list_is (uw_list w) as" using us_reachable_inv [OF reach] by (auto simp: us_inv_def)
  obtain a h1 where get: "get_uus c (Some b) (uw_list w) = Some (Some a, h1)"
    using us_get_returns [OF reach E(3)] by blast
  have "us_step (uw_list w, hs) (h1, a # hs)" using get E(3) few by (intro us_opens) auto
  with reach have reach1: "us_step\<^sup>*\<^sup>* (uus_empty, []) (h1, a # hs)" by (rule rtranclp.rtrancl_into_rtrancl)
  have "un_s (the (ul_nodes h1 a)) \<noteq> MapFailed" by (rule get_uus_maps [OF as E(3) get maps])
  then obtain u h' where free: "uus_free (Some a) h1 = Some (u, h')"
    using us_free_returns [OF reach1, of a] by (auto intro: that)
  have "us_step (h1, a # hs) (h', remove1 a (a # hs))" using free by (intro us_closes) auto
  with reach1 have "us_step\<^sup>*\<^sup>* (uus_empty, []) (h', hs)" using rtranclp.rtrancl_into_rtrancl by fastforce
  then have "dom (ul_nodes h') = dom (ul_nodes (uw_list w))"
    using us_reach_dom reach by metis
  moreover have "snd_pcm_us_open E c period_size rate w
      = Some (uo_create E, None, \<lparr>uw_list = h', uw_hwdeps = Suc (uw_hwdeps w)\<rparr>)"
    using get free E by (cases w) (simp add: snd_pcm_us_open_def us_free_def Let_def)
  ultimately show ?thesis by blast
qed

theorem us_create_failure_leaks_witness:
  "\<exists>h'. snd_pcm_us_open \<lparr>uo_calloc = True, uo_fresh = Some 1, uo_hwdep_open = 0, uo_create = - 12, uo_setp = (\<lambda>c. 0),
      uo_delete = (\<lambda>us w. w)\<rparr> 2 64 48000 \<lparr>uw_list = uus_empty, uw_hwdeps = 0\<rparr>
    = Some (- 12, None, \<lparr>uw_list = h', uw_hwdeps = 1\<rparr>) \<and> dom (ul_nodes h') = {}"
  using us_create_failure_leaks [of "\<lparr>uw_list = uus_empty, uw_hwdeps = 0\<rparr>" "[]"
      "\<lparr>uo_calloc = True, uo_fresh = Some 1, uo_hwdep_open = 0, uo_create = - 12, uo_setp = (\<lambda>c. 0), uo_delete = (\<lambda>us w. w)\<rparr>" 1 2 64 48000]
  by (simp add: uus_empty_def)

end
