(* ===== verification/RateGcd.thy ===== *)
theory RateGcd
  imports Prelude "HOL-Library.Word"
begin

section \<open>The binary greatest common divisor (rate-lav/gcd.h)\<close>

text \<open>
  The four loops of \<open>gcd\<close> on C ints, as functions that may not return (they do not on zero or
  negative operands): the one that halves both operands, the one that strips the factors of two
  of one operand (used twice), and the subtraction loop. On the operands of its contract they
  return, and the function is the greatest common divisor.
\<close>

unbundle bit_operations_syntax

partial_function (option) gcd_common :: "nat \<Rightarrow> int \<Rightarrow> int \<Rightarrow> (nat \<times> int \<times> int) option" where
  "gcd_common s a b =
     (if (a OR b) AND 1 = 0 then gcd_common (Suc s) (drop_bit 1 a) (drop_bit 1 b) else Some (s, a, b))"

partial_function (option) gcd_strip :: "int \<Rightarrow> int option" where
  "gcd_strip a = (if a AND 1 = 0 then gcd_strip (drop_bit 1 a) else Some a)"

partial_function (option) gcd_loop :: "int \<Rightarrow> int \<Rightarrow> int option" where
  "gcd_loop a b = do {
     b \<leftarrow> gcd_strip b;
     let (a, b) = (if a < b then (a, c_int (b - a)) else (let d = c_int (a - b) in (b, d)));
     let b = drop_bit 1 b;
     if b \<noteq> 0 then gcd_loop a b else Some a
   }"

definition c_gcd :: "int \<Rightarrow> int \<Rightarrow> int option" where
  "c_gcd a b =
     (if a = 0 \<or> b = 0 then Some (a OR b)
      else do {
        (s, a, b) \<leftarrow> gcd_common 0 a b;
        a \<leftarrow> gcd_strip a;
        a \<leftarrow> gcd_loop a b;
        Some (c_int (push_bit s a))
      })"

subsection \<open>The loops return\<close>

lemma and_1_even: "(a :: int) AND 1 = 0 \<longleftrightarrow> even a"
  by (simp add: and_one_eq even_iff_mod_2_eq_zero)

lemma or_even: "even (a OR b :: int) \<longleftrightarrow> even a \<and> even b"
  by (simp add: even_or_iff)

lemma half: "drop_bit 1 (a :: int) = a div 2"
  by (simp add: drop_bit_eq_div)

lemmas half_Suc = half [unfolded One_nat_def]

lemma gcd_strip_returns:
  assumes "0 < b"
  shows "\<exists>c. gcd_strip b = Some c \<and> odd c \<and> 0 < c \<and> c \<le> b \<and> (\<forall>a. odd a \<longrightarrow> gcd a c = gcd a b)"
  using assms
proof (induction "nat b" arbitrary: b rule: less_induct)
  case less
  show ?case
  proof (cases "even b")
    case False
    then show ?thesis using less.prems by (subst gcd_strip.simps) (auto simp: and_1_even)
  next
    case True
    then have pos: "0 < b div 2" and smaller: "nat (b div 2) < nat b" using less.prems by auto
    obtain c where c: "gcd_strip (b div 2) = Some c" "odd c" "0 < c" "c \<le> b div 2"
      "\<forall>a. odd a \<longrightarrow> gcd a c = gcd a (b div 2)" using less.hyps [OF smaller pos] by blast
    have "gcd a (b div 2) = gcd a b" if "odd a" for a
    proof -
      have "coprime a 2" using that by simp
      then have "gcd a (2 * (b div 2)) = gcd a (b div 2)" by (rule gcd_mult_right_left_cancel)
      then show ?thesis using True by simp
    qed
    moreover have "gcd_strip b = gcd_strip (b div 2)"
      using True by (subst gcd_strip.simps) (simp only: and_1_even half if_True)
    ultimately show ?thesis using c less.prems by auto
  qed
qed

lemma gcd_loop_returns:
  assumes "odd a" "0 < a" "0 < b" "a < 2 ^ 31" "b < 2 ^ 31"
  shows "gcd_loop a b = Some (gcd a b)"
  using assms
proof (induction "nat (a + b)" arbitrary: a b rule: less_induct)
  case less
  obtain c where c: "gcd_strip b = Some c" "odd c" "0 < c" "c \<le> b" "gcd a c = gcd a b"
    using gcd_strip_returns [OF less.prems(3)] less.prems(1) by blast
  have half_gcd: "gcd x ((y - x) div 2) = gcd x y" if "odd x" "odd y" for x y :: int
  proof -
    have "coprime x 2" using that by simp
    then have "gcd x (2 * ((y - x) div 2)) = gcd x ((y - x) div 2)" by (rule gcd_mult_right_left_cancel)
    moreover have "2 * ((y - x) div 2) = y - x" using that by simp
    moreover have "gcd x (y - x) = gcd x y" by (metis gcd.commute gcd_diff1)
    ultimately show ?thesis by simp
  qed
  show ?case
  proof (cases "a < c")
    case True
    let ?b = "(c - a) div 2"
    have "even (c - a)" using less.prems(1) c(2) by simp
    then obtain k where "c - a = 2 * k" by (rule evenE)
    then have b: "0 < ?b" "?b < 2 ^ 31" "nat (a + ?b) < nat (a + b)"
      using True less.prems c by auto
    have "gcd_loop a ?b = Some (gcd a ?b)" using less.hyps [OF b(3) less.prems(1,2) b(1)] less.prems b by simp
    then have "gcd_loop a b = Some (gcd a ?b)"
      using True c(1) b(1) less.prems c(3,4) by (subst gcd_loop.simps) (simp add: half_Suc Let_def)
    then show ?thesis using half_gcd [OF less.prems(1) c(2)] c(5) by simp
  next
    case False
    let ?b = "(a - c) div 2"
    have even: "even (a - c)" using less.prems(1) c(2) by simp
    have step: "gcd_loop a b = (if ?b \<noteq> 0 then gcd_loop c ?b else Some c)"
      using False c(1,3,4) less.prems by (subst gcd_loop.simps) (simp add: half_Suc Let_def)
    have g: "gcd c ?b = gcd a b" using half_gcd [OF c(2) less.prems(1)] c(5) by (simp add: gcd.commute)
    show ?thesis
    proof (cases "?b = 0")
      case True
      then have "gcd c ?b = c" using c(3) by simp
      then show ?thesis using step True g by simp
    next
      case b0: False
      then have b: "0 < ?b" using False by simp
      have "nat (c + ?b) < nat (a + b)" "c < 2 ^ 31" "?b < 2 ^ 31" using False less.prems c by auto
      from less.hyps [OF this(1) c(2,3) b this(2,3)] show ?thesis using step b0 g by simp
    qed
  qed
qed

lemma gcd_common_returns:
  assumes "0 < a" "0 < b"
  shows "\<exists>k x y. gcd_common s a b = Some (s + k, x, y) \<and> 0 < x \<and> 0 < y \<and> x \<le> a \<and> y \<le> b
    \<and> (odd x \<or> odd y) \<and> gcd a b = gcd x y * 2 ^ k"
  using assms
proof (induction "nat a" arbitrary: a b s rule: less_induct)
  case less
  show ?case
  proof (cases "even a \<and> even b")
    case False
    then show ?thesis
      using less.prems by (subst gcd_common.simps) (auto simp: and_1_even or_even intro!: exI [of _ 0])
  next
    case True
    then obtain a' b' where ab: "a = 2 * a'" "b = 2 * b'" by (auto elim!: evenE)
    have "nat a' < nat a" "0 < a'" "0 < b'" using less.prems ab by auto
    from less.hyps [OF this, of "Suc s"] obtain k x y where r: "gcd_common (Suc s) a' b' = Some (Suc s + k, x, y)"
      "0 < x" "0 < y" "x \<le> a'" "y \<le> b'" "odd x \<or> odd y" "gcd a' b' = gcd x y * 2 ^ k" by blast
    have "gcd a b = gcd x y * 2 ^ Suc k"
      using r(7) gcd_mult_distrib_int [of 2 a' b'] by (simp add: ab)
    have halves: "drop_bit 1 a = a'" "drop_bit 1 b = b'" unfolding half by (simp_all add: ab)
    have "gcd_common s a b = gcd_common (Suc s) a' b'"
      using True by (subst gcd_common.simps) (simp only: and_1_even or_even halves simp_thms if_True)
    then show ?thesis
      using r ab \<open>gcd a b = gcd x y * 2 ^ Suc k\<close> by (intro exI [of _ "Suc k"]) auto
  qed
qed

text \<open>
  C37: on any two non-negative C ints the function returns, and what it returns is their greatest
  common divisor (with gcd(0, n) = n): no loop runs for ever, and the final shift does not
  overflow.
\<close>

theorem c_gcd_is_gcd:
  assumes "0 \<le> a" "0 \<le> b" "a < 2 ^ 31" "b < 2 ^ 31"
  shows "c_gcd a b = Some (gcd a b)"
proof (cases "a = 0 \<or> b = 0")
  case True
  then show ?thesis using assms by (auto simp: c_gcd_def)
next
  case False
  then have pos: "0 < a" "0 < b" using assms by auto
  obtain k x y where r: "gcd_common 0 a b = Some (k, x, y)" "0 < x" "0 < y" "x \<le> a" "y \<le> b"
    "odd x \<or> odd y" "gcd a b = gcd x y * 2 ^ k" using gcd_common_returns [OF pos, of 0] by auto
  obtain z where z: "gcd_strip x = Some z" "odd z" "0 < z" "z \<le> x" "\<forall>a. odd a \<longrightarrow> gcd a z = gcd a x"
    using gcd_strip_returns [OF r(2)] by blast
  have g: "gcd z y = gcd x y"
  proof (cases "odd y")
    case True
    then show ?thesis using z(5) by (metis gcd.commute)
  next
    case False
    then have "odd x" using r(6) by simp
    then have "z = x" using z(1) by (subst (asm) gcd_strip.simps) (simp add: and_1_even)
    then show ?thesis by simp
  qed
  have loop: "gcd_loop z y = Some (gcd x y)"
    using gcd_loop_returns [OF z(2,3) r(3)] z(4) r assms g by simp
  have "gcd a b \<le> a" using pos by (simp add: gcd_le1_int)
  then have "c_int (push_bit k (gcd x y)) = gcd a b"
    unfolding push_bit_eq_mult r(7) [symmetric] using assms by (intro c_int_id) (auto intro: order_trans [of _ 0])
  then show ?thesis using False r(1) z(1) loop by (simp add: c_gcd_def)
qed

theorem c_gcd_is_gcd_witness: "c_gcd 44100 48000 = Some (gcd 44100 48000)"
  using c_gcd_is_gcd [of 44100 48000] by simp

end
