(* ===== verification/MaemoRing.thy ===== *)
theory MaemoRing
  imports MaemoList
begin

section \<open>What the list operations do to a list\<close>

text \<open>
  \<open>chain s a xs b\<close>: from \<open>a\<close> the next pointers lead through \<open>xs\<close> to \<open>b\<close> and the previous
  pointers lead back. A list is a chain from its head to its head through distinct entries.
  Every operation of list.h is described by its effect on the two pointer fields and then as
  the corresponding operation on the list of entries, with the frame it leaves alone.
\<close>

definition nx :: "'a lists \<Rightarrow> 'a \<Rightarrow> 'a option" where
  "nx s p = (case s p of None \<Rightarrow> None | Some l \<Rightarrow> lh_next l)"

definition pv :: "'a lists \<Rightarrow> 'a \<Rightarrow> 'a option" where
  "pv s p = (case s p of None \<Rightarrow> None | Some l \<Rightarrow> lh_prev l)"

definition upd_next :: "'a \<Rightarrow> 'a option \<Rightarrow> 'a lists \<Rightarrow> 'a lists" where
  "upd_next p v s = s(p \<mapsto> (the (s p))\<lparr>lh_next := v\<rparr>)"

definition upd_prev :: "'a \<Rightarrow> 'a option \<Rightarrow> 'a lists \<Rightarrow> 'a lists" where
  "upd_prev p v s = s(p \<mapsto> (the (s p))\<lparr>lh_prev := v\<rparr>)"

named_theorems store_simps \<open>accesses to the store of list heads\<close>

lemma get_Some [store_simps]:
  "get_next (Some p) s = (if p \<in> dom s then Some (nx s p) else None)"
  "get_prev (Some p) s = (if p \<in> dom s then Some (pv s p) else None)"
  "get_next None s = None" "get_prev None s = None"
  by (auto simp: get_next_def get_prev_def nx_def pv_def split: Option.bind_splits)

lemma set_Some [store_simps]:
  "set_next (Some p) v s = (if p \<in> dom s then Some (upd_next p v s) else None)"
  "set_prev (Some p) v s = (if p \<in> dom s then Some (upd_prev p v s) else None)"
  "set_next None v s = None" "set_prev None v s = None"
  by (auto simp: set_next_def set_prev_def upd_next_def upd_prev_def split: Option.bind_splits)

lemma dom_upd [store_simps]:
  "dom (upd_next p v s) = insert p (dom s)" "dom (upd_prev p v s) = insert p (dom s)"
  by (auto simp: upd_next_def upd_prev_def)

lemma view_upd [store_simps]:
  "nx (upd_next p v s) q = (if q = p then v else nx s q)"
  "pv (upd_prev p v s) q = (if q = p then v else pv s q)"
  "p \<in> dom s \<Longrightarrow> pv (upd_next p v s) q = pv s q"
  "p \<in> dom s \<Longrightarrow> nx (upd_prev p v s) q = nx s q"
  by (auto simp: upd_next_def upd_prev_def nx_def pv_def)

lemma upd_other [store_simps]:
  "q \<noteq> p \<Longrightarrow> upd_next p v s q = s q" "q \<noteq> p \<Longrightarrow> upd_prev p v s q = s q"
  by (simp_all add: upd_next_def upd_prev_def)

subsection \<open>Chains\<close>

fun chain :: "'a lists \<Rightarrow> 'a \<Rightarrow> 'a list \<Rightarrow> 'a \<Rightarrow> bool" where
  "chain s a [] b \<longleftrightarrow> nx s a = Some b \<and> pv s b = Some a"
| "chain s a (x # xs) b \<longleftrightarrow> nx s a = Some x \<and> pv s x = Some a \<and> chain s x xs b"

lemma chain_append: "chain s a (xs @ y # ys) b \<longleftrightarrow> chain s a xs y \<and> chain s y ys b"
  by (induction xs arbitrary: a) auto

lemma chain_first: "chain s a xs b \<Longrightarrow> nx s a = Some (hd (xs @ [b]))"
  by (cases xs) auto

lemma chain_last: "chain s a xs b \<Longrightarrow> pv s b = Some (last (a # xs))"
  by (induction xs arbitrary: a) auto

lemma chain_live: "chain s a xs b \<Longrightarrow> set (a # xs) \<subseteq> dom s"
  by (induction xs arbitrary: a) (auto simp: nx_def split: option.splits)

lemma chain_cong:
  assumes "\<And>u. u \<in> set (a # xs) \<Longrightarrow> nx s' u = nx s u" "\<And>u. u \<in> set (xs @ [b]) \<Longrightarrow> pv s' u = pv s u"
  shows "chain s' a xs b = chain s a xs b"
  using assms by (induction xs arbitrary: a) auto

text \<open>Joining two chains at their ends, skipping what was between them.\<close>

lemma chain_join:
  assumes "chain s a xs x" "chain t y ys b" "distinct (a # xs)" "distinct (ys @ [b])"
    and "last (a # xs) \<notin> set ys" "hd (ys @ [b]) \<notin> set xs"
    and "\<And>u. u \<in> set (a # xs) \<Longrightarrow> nx s' u = (if u = last (a # xs) then Some (hd (ys @ [b])) else nx s u)"
    and "\<And>u. u \<in> set ys \<Longrightarrow> nx s' u = nx t u"
    and "\<And>u. u \<in> set xs \<Longrightarrow> pv s' u = pv s u"
    and "\<And>u. u \<in> set (ys @ [b]) \<Longrightarrow> pv s' u = (if u = hd (ys @ [b]) then Some (last (a # xs)) else pv t u)"
  shows "chain s' a (xs @ ys) b"
  using assms(1,3,5-10)
proof (induction xs arbitrary: a)
  case Nil
  show ?case
  proof (cases ys)
    case Nil
    then show ?thesis using Nil.prems by simp
  next
    case (Cons z zs)
    have "chain s' z zs b = chain t z zs b"
      by (rule chain_cong) (use Nil.prems assms(4) Cons in auto)
    then show ?thesis using assms(2) Nil.prems Cons by simp
  qed
next
  case (Cons z zs)
  have "chain s' z (zs @ ys) b"
    by (rule Cons.IH) (use Cons.prems in \<open>auto split: if_splits\<close>)
  moreover have "nx s' a = Some z" using Cons.prems(1,2,5) by auto
  moreover have "pv s' z = Some a" using Cons.prems by auto
  ultimately show ?case by simp
qed

definition ring :: "'a lists \<Rightarrow> 'a \<Rightarrow> 'a list \<Rightarrow> bool" where
  "ring s h xs \<longleftrightarrow> distinct (h # xs) \<and> chain s h xs h"

lemma ring_live: "ring s h xs \<Longrightarrow> set (h # xs) \<subseteq> dom s"
  using chain_live by (metis ring_def)

lemma ring_cong: "(\<And>u. u \<in> set (h # xs) \<Longrightarrow> s' u = s u) \<Longrightarrow> ring s' h xs = ring s h xs"
  unfolding ring_def by (subst chain_cong [of h xs s' s h]) (auto simp: nx_def pv_def)

lemma ring_next: "ring s h xs \<Longrightarrow> nx s h = Some (hd (xs @ [h]))"
  by (auto simp: ring_def chain_first)

lemma ring_prev: "ring s h xs \<Longrightarrow> pv s h = Some (last (h # xs))"
  unfolding ring_def using chain_last by metis

lemma ring_at:
  assumes "ring s h (xs @ x # ys)"
  shows "nx s x = Some (hd (ys @ [h]))" "pv s x = Some (last (h # xs))"
  using assms chain_first [of s x ys h] chain_last [of s h xs x] by (auto simp: ring_def chain_append)

subsection \<open>The operations on lists\<close>

text \<open>\<open>same_but s s' A\<close>: the store changed at the addresses of \<open>A\<close> only, and none was freed.\<close>

definition same_but :: "'a lists \<Rightarrow> 'a lists \<Rightarrow> 'a set \<Rightarrow> bool" where
  "same_but s s' A \<longleftrightarrow> dom s' = dom s \<and> (\<forall>u. u \<notin> A \<longrightarrow> s' u = s u)"

lemma same_but_ring: "same_but s s' A \<Longrightarrow> A \<inter> set (h # xs) = {} \<Longrightarrow> ring s' h xs = ring s h xs"
  by (rule ring_cong) (auto simp: same_but_def)

lemma same_but_mono: "same_but s s' A \<Longrightarrow> A \<subseteq> B \<Longrightarrow> same_but s s' B"
  by (auto simp: same_but_def)

lemma same_but_trans: "same_but s s' A \<Longrightarrow> same_but s' s'' A \<Longrightarrow> same_but s s'' A"
  by (auto simp: same_but_def)

lemma INIT_LIST_HEAD_ring:
  assumes "h \<in> dom s"
  shows "\<exists>s'. INIT_LIST_HEAD (Some h) s = Some s' \<and> ring s' h [] \<and> same_but s s' {h}"
  using assms by (auto simp: INIT_LIST_HEAD_def store_simps ring_def same_but_def)

text \<open>The stores that insertion and removal compute.\<close>

definition added :: "'a \<Rightarrow> 'a \<Rightarrow> 'a \<Rightarrow> 'a lists \<Rightarrow> 'a lists" where
  "added n p q s = upd_next p (Some n) (upd_prev n (Some p) (upd_next n (Some q) (upd_prev q (Some n) s)))"

lemma list_add_between_added:
  assumes "n \<in> dom s" "p \<in> dom s" "q \<in> dom s"
  shows "list_add_between (Some n) (Some p) (Some q) s = Some (added n p q s)"
  using assms by (simp add: list_add_between_def added_def store_simps)

lemma added_view:
  assumes "n \<in> dom s" "p \<in> dom s" "q \<in> dom s" "n \<noteq> p" "n \<noteq> q"
  shows "nx (added n p q s) u = (if u = p then Some n else if u = n then Some q else nx s u)"
    "pv (added n p q s) u = (if u = n then Some p else if u = q then Some n else pv s u)"
    "same_but s (added n p q s) {n, p, q}"
  using assms by (auto simp: added_def store_simps same_but_def)

lemma added_ring:
  assumes "ring s h (xs @ ys)" "n \<in> dom s" "n \<notin> set (h # xs @ ys)"
  shows "ring (added n (last (h # xs)) (hd (ys @ [h])) s) h (xs @ n # ys)"
proof -
  let ?p = "last (h # xs)" and ?q = "hd (ys @ [h])"
  have in_p: "?p \<in> set (h # xs)" by (rule last_in_set) simp
  have in_q: "?q \<in> set (ys @ [h])" by (rule hd_in_set) simp
  have d: "distinct (h # xs @ ys)" and c: "chain s h (xs @ ys) h" using assms(1) by (auto simp: ring_def)
  have live: "?p \<in> dom s" "?q \<in> dom s" using ring_live [OF assms(1)] in_p in_q by auto
  have ne: "n \<noteq> ?p" "n \<noteq> ?q" using in_p in_q assms(3) by auto
  note v = added_view [OF assms(2) live ne]
  have left: "chain (added n ?p ?q s) h xs n"
  proof (cases xs rule: rev_cases)
    case Nil
    then show ?thesis using v(1,2) ne by simp
  next
    case (snoc as p)
    then have "chain s h as p" using c by (simp add: chain_append)
    moreover have "chain (added n ?p ?q s) h as p = chain s h as p"
      by (rule chain_cong) (use v(1,2) snoc d in_q assms(3) in auto)
    ultimately show ?thesis using snoc v(1,2) ne by (simp add: chain_append)
  qed
  have right: "chain (added n ?p ?q s) n ys h"
  proof (cases ys)
    case Nil
    then show ?thesis using v(1,2) ne by simp
  next
    case (Cons q bs)
    then have "chain s q bs h" using c by (simp add: chain_append)
    moreover have "chain (added n ?p ?q s) q bs h = chain s q bs h"
      by (rule chain_cong) (use v(1,2) Cons d in_p assms(3) in auto)
    ultimately show ?thesis using Cons v(1,2) ne by simp
  qed
  show ?thesis using left right d assms(3) by (auto simp: ring_def chain_append)
qed

lemma list_add_ring:
  assumes "ring s h xs" "n \<in> dom s" "n \<notin> set (h # xs)"
  shows "\<exists>s'. list_add (Some n) (Some h) s = Some s' \<and> ring s' h (n # xs) \<and> same_but s s' (set (n # h # xs))"
proof -
  have live: "h \<in> dom s" "hd (xs @ [h]) \<in> dom s" using ring_live [OF assms(1)] hd_in_set [of "xs @ [h]"] by auto
  have ne: "n \<noteq> h" "n \<noteq> hd (xs @ [h])" using assms(3) hd_in_set [of "xs @ [h]"] by auto
  have "same_but s (added n h (hd (xs @ [h])) s) (set (n # h # xs))"
    using added_view(3) [OF assms(2) live ne] hd_in_set [of "xs @ [h]"] by (auto simp: same_but_def)
  then show ?thesis
    using added_ring [of s h "[]" xs n] assms live ring_next [OF assms(1)]
    by (simp add: list_add_def store_simps list_add_between_added)
qed

lemma list_add_tail_ring:
  assumes "ring s h xs" "n \<in> dom s" "n \<notin> set (h # xs)"
  shows "\<exists>s'. list_add_tail (Some n) (Some h) s = Some s' \<and> ring s' h (xs @ [n]) \<and> same_but s s' (set (n # h # xs))"
proof -
  have "last (h # xs) \<in> set (h # xs)" by (rule last_in_set) simp
  then have live: "last (h # xs) \<in> dom s" "h \<in> dom s" and ne: "n \<noteq> last (h # xs)" "n \<noteq> h"
    and in_h: "last (h # xs) \<in> set (h # xs)"
    using ring_live [OF assms(1)] assms(3) by auto
  have "same_but s (added n (last (h # xs)) h s) (set (n # h # xs))"
    using added_view(3) [OF assms(2) live ne] in_h by (auto simp: same_but_def)
  then show ?thesis
    using added_ring [of s h xs "[]" n] assms live ring_prev [OF assms(1)]
    by (simp add: list_add_tail_def store_simps list_add_between_added)
qed

text \<open>Removal: the neighbours are linked to each other, the entry keeps its own pointers.\<close>

definition unlinked :: "'a \<Rightarrow> 'a \<Rightarrow> 'a lists \<Rightarrow> 'a lists" where
  "unlinked p q s = upd_next p (Some q) (upd_prev q (Some p) s)"

lemma unlinked_view:
  assumes "p \<in> dom s" "q \<in> dom s"
  shows "nx (unlinked p q s) u = (if u = p then Some q else nx s u)"
    "pv (unlinked p q s) u = (if u = q then Some p else pv s u)"
    "same_but s (unlinked p q s) {p, q}"
  using assms by (auto simp: unlinked_def store_simps same_but_def)

lemma ring_unlink:
  assumes "ring s h (xs @ x # ys)"
  shows "\<exists>s'. (do { p \<leftarrow> get_prev (Some x) s; n \<leftarrow> get_next (Some x) s; list_del_between p n s }) = Some s'
    \<and> ring s' h (xs @ ys) \<and> same_but s s' (set (h # xs @ ys))"
proof -
  let ?p = "last (h # xs)" and ?q = "hd (ys @ [h])"
  have in_p: "?p \<in> set (h # xs)" by (rule last_in_set) simp
  have in_q: "?q \<in> set (ys @ [h])" by (rule hd_in_set) simp
  have d: "distinct (h # xs @ x # ys)" using assms by (simp add: ring_def)
  have live: "x \<in> dom s" "?p \<in> dom s" "?q \<in> dom s" using ring_live [OF assms] in_p in_q by auto
  note v = unlinked_view [OF live(2,3)]
  have ends: "?p \<notin> set ys" "?q \<notin> set xs" using in_p in_q d by auto
  have "chain (unlinked ?p ?q s) h (xs @ ys) h"
  proof (rule chain_join [of s h xs x s x ys h])
    show "chain s h xs x" "chain s x ys h" using assms by (auto simp: ring_def chain_append)
  qed (use d ends v(1,2) in auto)
  moreover have "same_but s (unlinked ?p ?q s) (set (h # xs @ ys))"
    by (rule same_but_mono [OF v(3)]) (use in_p in_q in auto)
  ultimately show ?thesis using d live ring_at [OF assms]
    by (auto simp: list_del_between_def store_simps unlinked_def [symmetric] ring_def)
qed

text \<open>The operations that remove an entry go on from there.\<close>

lemma remove_then:
  assumes "ring (s :: 'a lists) h (xs @ x # ys)"
  obtains s' where
    "\<And>f :: 'a lists \<Rightarrow> 'a lists option. (do { p \<leftarrow> get_prev (Some x) s; n \<leftarrow> get_next (Some x) s; s \<leftarrow> list_del_between p n s; f s }) = f s'"
    and "ring s' h (xs @ ys)" "same_but s s' (set (h # xs @ x # ys))" "x \<in> dom s'" "x \<notin> set (h # xs @ ys)"
proof -
  obtain s' where e: "(do { p \<leftarrow> get_prev (Some x) s; n \<leftarrow> get_next (Some x) s; list_del_between p n s }) = Some s'"
    and r: "ring s' h (xs @ ys)" and same: "same_but s s' (set (h # xs @ ys))"
    using ring_unlink [OF assms] by blast
  have "(do { p \<leftarrow> get_prev (Some x) s; n \<leftarrow> get_next (Some x) s; s \<leftarrow> list_del_between p n s; f s }) = f s'"
    for f :: "'a lists \<Rightarrow> 'a lists option"
    using e by (auto simp: Option.bind_eq_Some_conv)
  moreover have "same_but s s' (set (h # xs @ x # ys))"
    by (rule same_but_mono [OF same]) auto
  moreover have "x \<in> dom s'" using ring_live [OF assms] same by (auto simp: same_but_def)
  moreover have "x \<notin> set (h # xs @ ys)" using assms by (auto simp: ring_def)
  ultimately show thesis using that r by blast
qed

lemma list_del_ring:
  assumes "ring (s :: 'a lists) h (xs @ x # ys)"
  shows "\<exists>s'. list_del (Some x) s = Some s' \<and> ring s' h (xs @ ys) \<and> same_but s s' (set (h # xs @ x # ys))"
proof -
  obtain s1 where s1: "\<And>f :: 'a lists \<Rightarrow> 'a lists option. (do { p \<leftarrow> get_prev (Some x) s; n \<leftarrow> get_next (Some x) s;
      s \<leftarrow> list_del_between p n s; f s }) = f s1"
    and r: "ring s1 h (xs @ ys)" and same: "same_but s s1 (set (h # xs @ x # ys))"
    and x: "x \<in> dom s1" "x \<notin> set (h # xs @ ys)" by (rule remove_then [OF assms]) blast
  let ?s = "upd_prev x None (upd_next x None s1)"
  have "same_but s1 ?s {x}" using x(1) by (auto simp: same_but_def store_simps)
  then have "same_but s1 ?s (set (h # xs @ x # ys))" "ring ?s h (xs @ ys)"
    using same_but_ring [of s1 ?s "{x}" h "xs @ ys"] x(2) r by (auto elim: same_but_mono)
  moreover have "list_del (Some x) s = Some ?s"
    unfolding list_del_def s1 using x(1) by (simp add: store_simps)
  ultimately show ?thesis using same_but_trans [OF same] by blast
qed

lemma list_del_init_ring:
  assumes "ring (s :: 'a lists) h (xs @ x # ys)"
  shows "\<exists>s'. list_del_init (Some x) s = Some s' \<and> ring s' h (xs @ ys) \<and> ring s' x []
    \<and> same_but s s' (set (h # xs @ x # ys))"
proof -
  obtain s1 where s1: "\<And>f :: 'a lists \<Rightarrow> 'a lists option. (do { p \<leftarrow> get_prev (Some x) s; n \<leftarrow> get_next (Some x) s;
      s \<leftarrow> list_del_between p n s; f s }) = f s1"
    and r: "ring s1 h (xs @ ys)" and same: "same_but s s1 (set (h # xs @ x # ys))"
    and x: "x \<in> dom s1" "x \<notin> set (h # xs @ ys)" by (rule remove_then [OF assms]) blast
  obtain s2 where s2: "INIT_LIST_HEAD (Some x) s1 = Some s2" "ring s2 x []" "same_but s1 s2 {x}"
    using INIT_LIST_HEAD_ring [OF x(1)] by blast
  have "ring s2 h (xs @ ys)" "same_but s1 s2 (set (h # xs @ x # ys))"
    using same_but_ring [OF s2(3), of h "xs @ ys"] x(2) r s2(3) by (auto elim: same_but_mono)
  moreover have "list_del_init (Some x) s = Some s2" unfolding list_del_init_def s1 by (rule s2(1))
  ultimately show ?thesis using s2(2) same_but_trans [OF same] by blast
qed

lemma list_empty_ring: "ring s h xs \<Longrightarrow> list_empty (Some h) s = Some (xs = [])"
  using ring_live [of s h xs] ring_next [of s h xs]
  by (cases xs) (auto simp: list_empty_def store_simps ring_def)

text \<open>A splice puts the entries of one list before those of another.\<close>

definition spliced :: "'a \<Rightarrow> 'a \<Rightarrow> 'a \<Rightarrow> 'a \<Rightarrow> 'a lists \<Rightarrow> 'a lists" where
  "spliced h x y z s = upd_prev z (Some y) (upd_next y (Some z) (upd_next h (Some x) (upd_prev x (Some h) s)))"

lemma list_splice_between_ring:
  assumes "ring s l xs" "xs \<noteq> []" "ring s h ys" "set (l # xs) \<inter> set (h # ys) = {}"
  shows "\<exists>s'. list_splice_between (Some l) (Some h) s = Some s' \<and> ring s' h (xs @ ys)
    \<and> same_but s s' (set xs \<union> set (h # ys))"
proof -
  obtain x xs' where xs: "xs = x # xs'" using assms(2) by (cases xs) auto
  let ?y = "last xs" and ?z = "hd (ys @ [h])"
  let ?s = "spliced h x ?y ?z s" and ?t = "upd_next h (Some x) (upd_prev x (Some h) s)"
  have y: "?y \<in> set xs" using assms(2) by simp
  have z: "?z \<in> set (ys @ [h])" by (rule hd_in_set) simp
  have d: "distinct (l # xs)" "distinct (h # ys)" and c: "chain s l xs l" "chain s h ys h"
    using assms(1,3) by (auto simp: ring_def)
  have live: "l \<in> dom s" "h \<in> dom s" "x \<in> dom s" "?y \<in> dom s" "?z \<in> dom s"
    using ring_live [OF assms(1)] ring_live [OF assms(3)] y z xs by auto
  have nx: "nx ?s u = (if u = ?y then Some ?z else if u = h then Some x else nx s u)" for u
    using live by (simp add: spliced_def store_simps)
  have pv: "pv ?s u = (if u = ?z then Some ?y else if u = x then Some h else pv s u)" for u
    using live by (simp add: spliced_def store_simps)
  have nx1: "nx ?t u = (if u = h then Some x else nx s u)" and pv1: "pv ?t u = (if u = x then Some h else pv s u)" for u
    using live by (simp_all add: store_simps)
  have "chain ?t x xs' l = chain s x xs' l"
    by (rule chain_cong) (use d assms(4) xs nx1 pv1 in auto)
  then have first: "chain ?t h xs l" using c(1) xs nx1 pv1 by simp
  have hx: "last (h # xs) = ?y" using assms(2) by simp
  have "chain ?s h (xs @ ys) h"
    by (rule chain_join [OF first c(2)]) (use d assms(4) y z xs nx pv nx1 pv1 hx in auto)
  then have "ring ?s h (xs @ ys)" using d assms(4) by (auto simp: ring_def)
  moreover have "same_but s ?s {h, x, ?y, ?z}"
    using live by (auto simp: spliced_def store_simps same_but_def)
  then have "same_but s ?s (set xs \<union> set (h # ys))"
    by (rule same_but_mono) (use y z xs in auto)
  moreover have "list_splice_between (Some l) (Some h) s = Some ?s"
    using live ring_next [OF assms(1)] ring_prev [OF assms(1)] ring_next [OF assms(3)] xs
    by (simp add: list_splice_between_def spliced_def store_simps)
  ultimately show ?thesis by blast
qed

lemma list_splice_ring:
  assumes "ring s l xs" "ring s h ys" "set (l # xs) \<inter> set (h # ys) = {}"
  shows "\<exists>s'. list_splice (Some l) (Some h) s = Some s' \<and> ring s' h (xs @ ys) \<and> same_but s s' (set xs \<union> set (h # ys))"
  using list_splice_between_ring [OF assms(1) _ assms(2,3)] assms(1,2) list_empty_ring [OF assms(1)]
  by (cases "xs = []") (auto simp: list_splice_def same_but_def)

lemma list_splice_init_ring:
  assumes "ring s l xs" "ring s h ys" "set (l # xs) \<inter> set (h # ys) = {}"
  shows "\<exists>s'. list_splice_init (Some l) (Some h) s = Some s' \<and> ring s' h (xs @ ys) \<and> ring s' l []
    \<and> same_but s s' (set (l # xs) \<union> set (h # ys))"
proof (cases "xs = []")
  case True
  then show ?thesis using assms list_empty_ring [OF assms(1)] by (simp add: list_splice_init_def same_but_def)
next
  case False
  obtain s1 where s1: "list_splice_between (Some l) (Some h) s = Some s1" "ring s1 h (xs @ ys)"
    "same_but s s1 (set xs \<union> set (h # ys))"
    using list_splice_between_ring [OF assms(1) False assms(2,3)] by blast
  have "l \<in> dom s1" using s1(3) ring_live [OF assms(1)] by (auto simp: same_but_def)
  from INIT_LIST_HEAD_ring [OF this] obtain s2 where
    s2: "INIT_LIST_HEAD (Some l) s1 = Some s2" "ring s2 l []" "same_but s1 s2 {l}" by blast
  have "ring s2 h (xs @ ys)"
    using same_but_ring [OF s2(3), of h "xs @ ys"] s1(2) assms(1,3) by (auto simp: ring_def)
  moreover have "same_but s s2 (set (l # xs) \<union> set (h # ys))"
    by (rule same_but_trans; rule same_but_mono) (use s1(3) s2(3) in auto)
  ultimately show ?thesis using list_empty_ring [OF assms(1)] s1(1) s2 False
    by (simp add: list_splice_init_def)
qed

end
