(* ===== verification/MaemoListSpec.thy ===== *)
theory MaemoListSpec
  imports MaemoRing
begin

section \<open>Refinement: several lists in one store\<close>

text \<open>
  The abstract state is a function from list heads to sequences of entries. \<open>holds s H f\<close> says
  that the store \<open>s\<close> implements \<open>f\<close> for the heads in \<open>H\<close>, which share no entry. Every operation
  of list.h, on any of the lists, implements the operation on sequences; the loops visit the
  entries in order.
\<close>

definition holds :: "'a lists \<Rightarrow> 'a set \<Rightarrow> ('a \<Rightarrow> 'a list) \<Rightarrow> bool" where
  "holds s H f \<longleftrightarrow> (\<forall>h\<in>H. ring s h (f h))
     \<and> (\<forall>h\<in>H. \<forall>k\<in>H. h \<noteq> k \<longrightarrow> set (h # f h) \<inter> set (k # f k) = {})"

definition entries :: "'a set \<Rightarrow> ('a \<Rightarrow> 'a list) \<Rightarrow> 'a set" where
  "entries H f = H \<union> (\<Union>h\<in>H. set (f h))"

lemma holds_ring: "holds s H f \<Longrightarrow> h \<in> H \<Longrightarrow> ring s h (f h)"
  by (simp add: holds_def)

lemma holds_apart: "holds s H f \<Longrightarrow> h \<in> H \<Longrightarrow> k \<in> H \<Longrightarrow> h \<noteq> k \<Longrightarrow> set (h # f h) \<inter> set (k # f k) = {}"
  by (simp add: holds_def)

lemma entries_in: "h \<in> H \<Longrightarrow> set (h # f h) \<subseteq> entries H f"
  by (auto simp: entries_def)

lemma entries_live: "holds s H f \<Longrightarrow> entries H f \<subseteq> dom s"
  using ring_live by (fastforce simp: holds_def entries_def)

text \<open>Changing one list within its own entries and some that are in no list.\<close>

lemma holds_update:
  assumes "holds s H f" "h \<in> H" "ring s' h ys" "same_but s s' A" "A \<subseteq> set (h # f h) \<union> B" "set ys \<subseteq> set (f h) \<union> B"
    "B \<inter> entries H f = {}"
  shows "holds s' H (f(h := ys))"
proof -
  have out: "(set (h # f h) \<union> B) \<inter> set (k # f k) = {}" if "k \<in> H" "k \<noteq> h" for k
    using holds_apart [OF assms(1,2) that(1)] that assms(7) entries_in [OF that(1), of f] by blast
  have "ring s' k (f k)" if "k \<in> H" "k \<noteq> h" for k
    using same_but_ring [OF assms(4), of k "f k"] out [OF that] assms(5) holds_ring [OF assms(1) that(1)] by blast
  moreover have "set (h # ys) \<inter> set (k # f k) = {}" if "k \<in> H" "k \<noteq> h" for k
    using out [OF that] assms(6) by auto
  ultimately show ?thesis using assms(1,3) unfolding holds_def
    by (auto simp: Int_commute)
qed

lemma holds_init:
  assumes "holds s H f" "h \<in> dom s" "h \<notin> entries H f"
  shows "\<exists>s'. INIT_LIST_HEAD (Some h) s = Some s' \<and> holds s' (insert h H) (f(h := [])) \<and> dom s' = dom s
    \<and> (\<forall>u. u \<noteq> h \<longrightarrow> s' u = s u)"
proof -
  obtain s' where s': "INIT_LIST_HEAD (Some h) s = Some s'" "ring s' h []" "same_but s s' {h}"
    using INIT_LIST_HEAD_ring [OF assms(2)] by blast
  have "ring s' k (f k)" if "k \<in> H" for k
    using same_but_ring [OF s'(3), of k "f k"] holds_ring [OF assms(1) that] entries_in [OF that, of f] assms(3) by blast
  moreover have "h \<notin> set (k # f k)" if "k \<in> H" for k using entries_in [OF that, of f] assms(3) by blast
  ultimately show ?thesis using assms s' unfolding holds_def
    by (intro exI [of _ s']) (auto simp: same_but_def)
qed

lemma holds_add:
  assumes "holds s H f" "h \<in> H" "n \<in> dom s" "n \<notin> entries H f"
  shows "\<exists>s'. list_add (Some n) (Some h) s = Some s' \<and> holds s' H (f(h := n # f h)) \<and> dom s' = dom s
    \<and> (\<forall>u. u \<notin> insert n (entries H f) \<longrightarrow> s' u = s u)"
proof -
  have n: "n \<notin> set (h # f h)" using entries_in [OF assms(2), of f] assms(4) by blast
  obtain s' where s': "list_add (Some n) (Some h) s = Some s'" "ring s' h (n # f h)"
    "same_but s s' (set (n # h # f h))"
    using list_add_ring [OF holds_ring [OF assms(1,2)] assms(3) n] by blast
  have "holds s' H (f(h := n # f h))"
    by (rule holds_update [OF assms(1,2) s'(2,3), of "{n}"]) (use assms(4) in auto)
  then show ?thesis using s' entries_in [OF assms(2), of f] by (intro exI [of _ s']) (auto simp: same_but_def)
qed

lemma holds_add_tail:
  assumes "holds s H f" "h \<in> H" "n \<in> dom s" "n \<notin> entries H f"
  shows "\<exists>s'. list_add_tail (Some n) (Some h) s = Some s' \<and> holds s' H (f(h := f h @ [n])) \<and> dom s' = dom s"
proof -
  have n: "n \<notin> set (h # f h)" using entries_in [OF assms(2), of f] assms(4) by blast
  obtain s' where s': "list_add_tail (Some n) (Some h) s = Some s'" "ring s' h (f h @ [n])"
    "same_but s s' (set (n # h # f h))"
    using list_add_tail_ring [OF holds_ring [OF assms(1,2)] assms(3) n] by blast
  have "holds s' H (f(h := f h @ [n]))"
    by (rule holds_update [OF assms(1,2) s'(2,3), of "{n}"]) (use assms(4) in auto)
  then show ?thesis using s' by (auto simp: same_but_def)
qed

text \<open>The removal that the operations on an entry start with.\<close>

lemma remove1_split: "x \<in> set xs \<Longrightarrow> \<exists>as bs. xs = as @ x # bs \<and> remove1 x xs = as @ bs"
  by (metis in_set_conv_decomp_first remove1_append remove1.simps(2))

lemma holds_remove:
  assumes "holds (s :: 'a lists) H f" "h \<in> H" "x \<in> set (f h)"
  obtains s' where
    "\<And>g :: 'a lists \<Rightarrow> 'a lists option. (do { p \<leftarrow> get_prev (Some x) s; n \<leftarrow> get_next (Some x) s;
        s \<leftarrow> list_del_between p n s; g s }) = g s'"
    and "holds s' H (f(h := remove1 x (f h)))" "dom s' = dom s" "x \<in> dom s'"
    "x \<notin> entries H (f(h := remove1 x (f h)))"
proof -
  obtain as bs where f: "f h = as @ x # bs" "remove1 x (f h) = as @ bs" using remove1_split [OF assms(3)] by blast
  from holds_ring [OF assms(1,2)] have r: "ring s h (as @ x # bs)" by (simp add: f)
  obtain s' where s': "\<And>g :: 'a lists \<Rightarrow> 'a lists option. (do { p \<leftarrow> get_prev (Some x) s; n \<leftarrow> get_next (Some x) s;
        s \<leftarrow> list_del_between p n s; g s }) = g s'"
    "ring s' h (as @ bs)" "same_but s s' (set (h # as @ x # bs))" "x \<in> dom s'" "x \<notin> set (h # as @ bs)"
    by (rule remove_then [OF r]) blast
  have "holds s' H (f(h := remove1 x (f h)))"
    using s'(2) unfolding f(2) [symmetric]
    by (rule holds_update [OF assms(1,2) _ s'(3), of _ "{}"]) (auto simp: f)
  moreover have "x \<notin> set (k # f k)" if "k \<in> H" "k \<noteq> h" for k
    using holds_apart [OF assms(1,2) that(1)] that assms(3) by auto
  then have "x \<notin> entries H (f(h := remove1 x (f h)))"
    using s'(5) assms(2) by (auto simp: entries_def f(2))
  ultimately show thesis using that s' by (auto simp: same_but_def)
qed

subsection \<open>The operations as a machine\<close>

datatype 'a list_op =
    Op_init 'a
  | Op_add 'a 'a
  | Op_add_tail 'a 'a
  | Op_del 'a
  | Op_del_init 'a
  | Op_move 'a 'a
  | Op_move_tail 'a 'a
  | Op_splice_init 'a 'a

fun list_exec :: "'a list_op \<Rightarrow> 'a lists \<Rightarrow> 'a lists option" where
  "list_exec (Op_init h) s = INIT_LIST_HEAD (Some h) s"
| "list_exec (Op_add n h) s = list_add (Some n) (Some h) s"
| "list_exec (Op_add_tail n h) s = list_add_tail (Some n) (Some h) s"
| "list_exec (Op_del x) s = list_del (Some x) s"
| "list_exec (Op_del_init x) s = list_del_init (Some x) s"
| "list_exec (Op_move x h) s = list_move (Some x) (Some h) s"
| "list_exec (Op_move_tail x h) s = list_move_tail (Some x) (Some h) s"
| "list_exec (Op_splice_init l h) s = list_splice_init (Some l) (Some h) s"

text \<open>
  The same on sequences: the relation \<open>list_step D (H, f) op (H', f')\<close>, for the set \<open>D\<close> of
  allocated addresses, has the contract of each operation as its premises.
\<close>

inductive list_step :: "'a set \<Rightarrow> 'a set \<times> ('a \<Rightarrow> 'a list) \<Rightarrow> 'a list_op \<Rightarrow> 'a set \<times> ('a \<Rightarrow> 'a list) \<Rightarrow> bool"
  for D :: "'a set" where
  step_init: "h \<in> D - entries H f \<Longrightarrow> list_step D (H, f) (Op_init h) (insert h H, f(h := []))"
| step_add: "h \<in> H \<Longrightarrow> n \<in> D - entries H f \<Longrightarrow> list_step D (H, f) (Op_add n h) (H, f(h := n # f h))"
| step_add_tail: "h \<in> H \<Longrightarrow> n \<in> D - entries H f \<Longrightarrow> list_step D (H, f) (Op_add_tail n h) (H, f(h := f h @ [n]))"
| step_del: "h \<in> H \<Longrightarrow> x \<in> set (f h) \<Longrightarrow> list_step D (H, f) (Op_del x) (H, f(h := remove1 x (f h)))"
| step_del_init: "h \<in> H \<Longrightarrow> x \<in> set (f h) \<Longrightarrow>
    list_step D (H, f) (Op_del_init x) (insert x H, f(h := remove1 x (f h), x := []))"
| step_move: "h \<in> H \<Longrightarrow> x \<in> set (f h) \<Longrightarrow> k \<in> H \<Longrightarrow> g = f(h := remove1 x (f h)) \<Longrightarrow>
    list_step D (H, f) (Op_move x k) (H, g(k := x # g k))"
| step_move_tail: "h \<in> H \<Longrightarrow> x \<in> set (f h) \<Longrightarrow> k \<in> H \<Longrightarrow> g = f(h := remove1 x (f h)) \<Longrightarrow>
    list_step D (H, f) (Op_move_tail x k) (H, g(k := g k @ [x]))"
| step_splice_init: "l \<in> H \<Longrightarrow> h \<in> H \<Longrightarrow> l \<noteq> h \<Longrightarrow>
    list_step D (H, f) (Op_splice_init l h) (H, f(h := f l @ f h, l := []))"

lemma holds_del:
  assumes "holds s H f" "h \<in> H" "x \<in> set (f h)"
  shows "\<exists>s'. list_del (Some x) s = Some s' \<and> holds s' H (f(h := remove1 x (f h))) \<and> dom s' = dom s
    \<and> (\<forall>u. u \<notin> entries H f \<longrightarrow> s' u = s u)"
proof -
  obtain as bs where f: "f h = as @ x # bs" "remove1 x (f h) = as @ bs" using remove1_split [OF assms(3)] by blast
  from holds_ring [OF assms(1,2)] have r: "ring s h (as @ x # bs)" by (simp add: f)
  obtain s' where s': "list_del (Some x) s = Some s'" "ring s' h (as @ bs)" "same_but s s' (set (h # as @ x # bs))"
    using list_del_ring [OF r] by blast
  have "holds s' H (f(h := remove1 x (f h)))"
    using s'(2) unfolding f(2) [symmetric]
    by (rule holds_update [OF assms(1,2) _ s'(3), of _ "{}"]) (auto simp: f)
  then show ?thesis using s' entries_in [OF assms(2), of f] f(1) by (intro exI [of _ s']) (auto simp: same_but_def)
qed

lemma holds_splice_init:
  assumes "holds s H f" "l \<in> H" "h \<in> H" "l \<noteq> h"
  shows "\<exists>s'. list_splice_init (Some l) (Some h) s = Some s' \<and> holds s' H (f(h := f l @ f h, l := [])) \<and> dom s' = dom s"
proof -
  obtain s' where s': "list_splice_init (Some l) (Some h) s = Some s'" "ring s' h (f l @ f h)" "ring s' l []"
    "same_but s s' (set (l # f l) \<union> set (h # f h))"
    using list_splice_init_ring [OF holds_ring [OF assms(1,2)] holds_ring [OF assms(1,3)] holds_apart [OF assms]] by blast
  have out: "(set (l # f l) \<union> set (h # f h)) \<inter> set (k # f k) = {}" if "k \<in> H" "k \<noteq> l" "k \<noteq> h" for k
    using holds_apart [OF assms(1,2) that(1)] holds_apart [OF assms(1,3) that(1)] that by blast
  have "ring s' k (f k)" if "k \<in> H" "k \<noteq> l" "k \<noteq> h" for k
    using same_but_ring [OF s'(4) out [OF that]] holds_ring [OF assms(1) that(1)] by blast
  moreover have l: "l \<notin> set (f l @ h # f h)"
    using holds_apart [OF assms] holds_ring [OF assms(1,2)] by (auto simp: ring_def)
  moreover have "set (a # (f(h := f l @ f h, l := [])) a) \<inter> set (b # (f(h := f l @ f h, l := [])) b) = {}"
    if ab: "a \<in> H" "b \<in> H" "a \<noteq> b" for a b
  proof -
    consider "{a, b} = {l, h}" | "a \<notin> {l, h}" "b \<in> {l, h}" | "b \<notin> {l, h}" "a \<in> {l, h}" | "a \<notin> {l, h}" "b \<notin> {l, h}"
      using ab(3) by (cases "a \<in> {l, h}"; cases "b \<in> {l, h}") (auto simp: doubleton_eq_iff)
    then show ?thesis
    proof cases
      case 1
      then show ?thesis using l assms(4) by (auto simp: doubleton_eq_iff)
    next
      case 2
      then show ?thesis using out [OF ab(1)] assms(4) by auto
    next
      case 3
      then show ?thesis using out [OF ab(2)] assms(4) by auto
    next
      case 4
      then show ?thesis using holds_apart [OF assms(1) ab] by auto
    qed
  qed
  ultimately have "holds s' H (f(h := f l @ f h, l := []))"
    using s'(2,3) assms(4) unfolding holds_def by auto
  then show ?thesis using s' by (auto simp: same_but_def)
qed

lemma holds_del_init:
  assumes "holds s H f" "h \<in> H" "x \<in> set (f h)"
  shows "\<exists>s'. list_del_init (Some x) s = Some s' \<and> holds s' (insert x H) (f(h := remove1 x (f h), x := [])) \<and> dom s' = dom s"
proof -
  obtain s1 where s1: "\<And>g :: 'a lists \<Rightarrow> 'a lists option. (do { p \<leftarrow> get_prev (Some x) s; n \<leftarrow> get_next (Some x) s;
        s \<leftarrow> list_del_between p n s; g s }) = g s1"
    "holds s1 H (f(h := remove1 x (f h)))" "dom s1 = dom s" "x \<in> dom s1" "x \<notin> entries H (f(h := remove1 x (f h)))"
    by (rule holds_remove [OF assms]) blast
  show ?thesis unfolding list_del_init_def s1(1) using holds_init [OF s1(2,4,5)] s1(3) by auto
qed

lemma holds_moves:
  assumes "holds s H f" "h \<in> H" "x \<in> set (f h)" "k \<in> H" "g = f(h := remove1 x (f h))"
  shows "\<exists>s'. list_move (Some x) (Some k) s = Some s' \<and> holds s' H (g(k := x # g k)) \<and> dom s' = dom s"
    "\<exists>s'. list_move_tail (Some x) (Some k) s = Some s' \<and> holds s' H (g(k := g k @ [x])) \<and> dom s' = dom s"
proof -
  obtain s1 where s1: "\<And>g :: 'a lists \<Rightarrow> 'a lists option. (do { p \<leftarrow> get_prev (Some x) s; n \<leftarrow> get_next (Some x) s;
        s \<leftarrow> list_del_between p n s; g s }) = g s1"
    "holds s1 H g" "dom s1 = dom s" "x \<in> dom s1" "x \<notin> entries H g"
    unfolding assms(5) by (rule holds_remove [OF assms(1-3)]) blast
  show "\<exists>s'. list_move (Some x) (Some k) s = Some s' \<and> holds s' H (g(k := x # g k)) \<and> dom s' = dom s"
    unfolding list_move_def s1(1) using holds_add [OF s1(2) assms(4) s1(4,5)] s1(3) by auto
  show "\<exists>s'. list_move_tail (Some x) (Some k) s = Some s' \<and> holds s' H (g(k := g k @ [x])) \<and> dom s' = dom s"
    unfolding list_move_tail_def s1(1) using holds_add_tail [OF s1(2) assms(4) s1(4,5)] s1(3) by simp
qed

text \<open>One operation, then any sequence of them.\<close>

lemma list_exec_refines:
  assumes "list_step D (H, f) op (H', f')" "holds s H f" "dom s = D"
  shows "\<exists>s'. list_exec op s = Some s' \<and> holds s' H' f' \<and> dom s' = D"
  using assms(1)
proof cases
  case (step_init h)
  then show ?thesis using holds_init [OF assms(2), of h] assms(3) by auto
next
  case (step_add h n)
  then show ?thesis using holds_add [OF assms(2), of h n] assms(3) by auto
next
  case (step_add_tail h n)
  then show ?thesis using holds_add_tail [OF assms(2), of h n] assms(3) by auto
next
  case (step_del h x)
  then show ?thesis using holds_del [OF assms(2), of h x] assms(3) by auto
next
  case (step_del_init h x)
  then show ?thesis using holds_del_init [OF assms(2), of h x] assms(3) by auto
next
  case (step_move h x k g)
  then show ?thesis using holds_moves(1) [OF assms(2), of h x k g] assms(3) by auto
next
  case (step_move_tail h x k g)
  then show ?thesis using holds_moves(2) [OF assms(2), of h x k g] assms(3) by auto
next
  case (step_splice_init l h)
  then show ?thesis using holds_splice_init [OF assms(2), of l h] assms(3) by auto
qed

fun list_run :: "'a list_op list \<Rightarrow> 'a lists \<Rightarrow> 'a lists option" where
  "list_run [] s = Some s"
| "list_run (op # ops) s = do { s \<leftarrow> list_exec op s; list_run ops s }"

inductive list_steps :: "'a set \<Rightarrow> 'a set \<times> ('a \<Rightarrow> 'a list) \<Rightarrow> 'a list_op list \<Rightarrow> 'a set \<times> ('a \<Rightarrow> 'a list) \<Rightarrow> bool"
  for D :: "'a set" where
  steps_none: "list_steps D c [] c"
| steps_more: "list_step D c op c' \<Longrightarrow> list_steps D c' ops c'' \<Longrightarrow> list_steps D c (op # ops) c''"

lemma steps_eq: "list_steps D c ops c' \<Longrightarrow> c' = c'' \<Longrightarrow> list_steps D c ops c''"
  by simp

text \<open>
  C10: the pointer manipulations of list.h implement lists: starting from a store in which
  nothing is linked, any sequence of initialisations, insertions, removals, moves and splices
  that respects the contract of each (the entry inserted is in no list, the entry removed is in
  one) runs without touching memory that is not allocated and ends in a store that holds, for
  every head, exactly the sequence of entries that the same operations on sequences give.
\<close>

theorem maemo_list_refines:
  assumes "list_steps (dom s) ({}, \<lambda>_. []) ops (H, f)"
  shows "\<exists>s'. list_run ops s = Some s' \<and> holds s' H f \<and> dom s' = dom s"
proof -
  have run: "\<exists>s'. list_run ops t = Some s' \<and> holds s' (fst c') (snd c') \<and> dom s' = D"
    if "list_steps D c ops c'" "holds t (fst c) (snd c)" "dom t = D" for D t and c c' :: "'a set \<times> ('a \<Rightarrow> 'a list)"
    using that
  proof (induction arbitrary: t)
    case (steps_more c op c1 ops c2)
    obtain t1 where "list_exec op t = Some t1" "holds t1 (fst c1) (snd c1)" "dom t1 = D"
      using list_exec_refines [of D "fst c" "snd c" op "fst c1" "snd c1" t] steps_more.hyps(1) steps_more.prems by auto
    then show ?case using steps_more.IH by simp
  qed simp
  have "holds s {} (\<lambda>_. [])" by (simp add: holds_def)
  then show ?thesis using run [OF assms] by simp
qed

theorem maemo_list_refines_witness:
  "\<exists>s'. list_run [Op_init 0, Op_add 1 0, Op_add_tail 2 0, Op_init 9, Op_move 1 9, Op_splice_init 0 9, Op_del 1]
       (\<lambda>n :: nat. if n < 10 then Some \<lparr>lh_next = None, lh_prev = None\<rparr> else None) = Some s'
     \<and> holds s' {0, 9} ((\<lambda>_. [])(9 := [2]))"
proof -
  let ?s = "\<lambda>n :: nat. if n < 10 then Some \<lparr>lh_next = None, lh_prev = None\<rparr> else None"
  have d: "dom ?s = {..<10}" by (auto split: if_splits)
  have "list_steps (dom ?s) ({}, \<lambda>_. [])
      [Op_init 0, Op_add 1 0, Op_add_tail 2 0, Op_init 9, Op_move 1 9, Op_splice_init 0 9, Op_del 1]
      ({9, 0}, (\<lambda>_. [])(9 := [2]))"
    unfolding d
    apply (rule steps_eq)
     apply (rule steps_more, rule step_init, simp add: entries_def)
     apply (rule steps_more, rule step_add, simp, simp add: entries_def)
     apply (rule steps_more, rule step_add_tail, simp, simp add: entries_def)
     apply (rule steps_more, rule step_init, simp add: entries_def)
     apply (rule steps_more, rule step_move [where h = 0, OF _ _ _ refl], simp, simp, simp)
     apply (rule steps_more, rule step_splice_init, simp, simp, simp)
     apply (rule steps_more, rule step_del [where h = 9], simp, simp)
     apply (rule steps_none)
    apply (simp add: fun_eq_iff)
    done
  from maemo_list_refines [OF this] show ?thesis by (auto simp: insert_commute)
qed

subsection \<open>The loops\<close>

text \<open>
  A loop whose body leaves the list alone visits its entries in order, up to the first that
  leaves the loop; a loop that takes its current entry out of the list comes to an end with the
  list empty.
\<close>

fun visit :: "('a option \<Rightarrow> 's \<Rightarrow> (bool \<times> 's) option) \<Rightarrow> 'a list \<Rightarrow> 's \<Rightarrow> 's option" where
  "visit body [] st = Some st"
| "visit body (x # xs) st = do { (leave, st) \<leftarrow> body (Some x) st; if leave then Some st else visit body xs st }"

lemma each_entry_visits:
  assumes "ring (lks st) h xs"
    and "\<And>x st l st'. x \<in> set xs \<Longrightarrow> body (Some x) st = Some (l, st') \<Longrightarrow> lks st' = lks st"
  shows "list_for_each_entry lks h body st = visit body xs st"
proof -
  have "list_for_each_entry_from lks h body (Some (hd (ys @ [h]))) st = visit body ys st"
    if "chain (lks st) x ys h" "set ys \<subseteq> set xs" for x ys st
    using that
  proof (induction ys arbitrary: x st)
    case Nil
    then show ?case by (subst list_for_each_entry_from.simps) simp
  next
    case (Cons y ys)
    have ne: "y \<noteq> h" using Cons.prems(2) assms(1) by (auto simp: ring_def)
    show ?case
    proof (cases "body (Some y) st")
      case None
      then show ?thesis using ne by (subst list_for_each_entry_from.simps) simp
    next
      case (Some r)
      obtain l st' where r: "r = (l, st')" by fastforce
      have "lks st' = lks st" using assms(2) [of y st l st'] Some r Cons.prems(2) by simp
      then have c: "chain (lks st') y ys h" using Cons.prems(1) by simp
      have "get_next (Some y) (lks st') = Some (Some (hd (ys @ [h])))"
        using chain_first [OF c] chain_live [OF c] by (simp add: store_simps)
      then show ?thesis using Some r ne Cons.IH [OF c] Cons.prems(2)
        by (subst list_for_each_entry_from.simps) simp
    qed
  qed
  from this [of st h xs] show ?thesis
    using assms(1) ring_next [OF assms(1)] ring_live [OF assms(1)]
    by (simp add: list_for_each_entry_def store_simps ring_def)
qed

lemma each_safe_consumes:
  assumes "I xs st" "\<And>xs st. I xs st \<Longrightarrow> ring (lks st) h xs"
    and "\<And>x xs st. I (x # xs) st \<Longrightarrow> \<exists>st'. body (Some x) st = Some st' \<and> I xs st'"
  shows "\<exists>st'. list_for_each_safe lks h body st = Some st' \<and> I [] st'"
proof -
  have loop: "\<exists>st'. list_for_each_safe_from lks h body (Some (hd (xs @ [h]))) n st = Some st' \<and> I [] st'"
    if "I xs st" "get_next (Some (hd (xs @ [h]))) (lks st) = Some n" for xs st n
    using that
  proof (induction xs arbitrary: st n)
    case Nil
    then show ?case by (subst list_for_each_safe_from.simps) simp
  next
    case (Cons x xs)
    have r: "ring (lks st) h (x # xs)" using assms(2) Cons.prems(1) by blast
    then have ne: "x \<noteq> h" by (auto simp: ring_def)
    have n: "n = Some (hd (xs @ [h]))"
      using ring_at(1) [of "lks st" h "[]" x xs] r ring_live [OF r] Cons.prems(2) by (simp add: store_simps)
    obtain st' where b: "body (Some x) st = Some st'" "I xs st'" using assms(3) Cons.prems(1) by blast
    have "hd (xs @ [h]) \<in> set (h # xs)" using hd_in_set [of "xs @ [h]"] by auto
    then have "hd (xs @ [h]) \<in> dom (lks st')" using ring_live [OF assms(2) [OF b(2)]] by blast
    then obtain n' where n': "get_next (Some (hd (xs @ [h]))) (lks st') = Some n'"
      by (simp add: store_simps)
    show ?case using Cons.IH [OF b(2) n'] b(1) ne n n' by (subst list_for_each_safe_from.simps) simp
  qed
  have r: "ring (lks st) h xs" by (rule assms(2) [OF assms(1)])
  have "hd (xs @ [h]) \<in> set (h # xs)" using hd_in_set [of "xs @ [h]"] by auto
  then have "hd (xs @ [h]) \<in> dom (lks st)" "h \<in> dom (lks st)" using ring_live [OF r] by auto
  then show ?thesis using loop [OF assms(1)] ring_next [OF r]
    by (simp add: list_for_each_safe_def store_simps)
qed

end
