(* ===== verification/MaemoNodes.thy ===== *)
theory MaemoNodes
  imports MaemoListSpec MaemoOps
begin

section \<open>Lists of DSP devices\<close>

text \<open>
  What the two ALSA plugins of maemo/ share: structures with an embedded \<open>list_head\<close>, allocated
  by \<open>malloc\<close>, filled from a configuration compound and freed in a loop. A plugin instance \<open>i\<close>
  has two list heads, \<open>Head i PLAYBACK\<close> and \<open>Head i CAPTURE\<close>; \<open>Node k\<close> is the entry the
  \<open>k\<close>-th \<open>malloc\<close> gave. \<open>nd_data\<close> has the other fields of the live entries, of the plugin's
  type \<open>'n\<close>; freeing an entry that is not live has no result.
\<close>

datatype addr = Head nat pcm_stream | Node nat

record 'n nodes =
  nd_links :: "addr lists"
  nd_data :: "nat \<rightharpoonup> 'n"
  nd_count :: nat

definition malloc_node :: "'n \<Rightarrow> ('n, 'x) nodes_scheme \<Rightarrow> nat \<times> ('n, 'x) nodes_scheme" where
  "malloc_node v st =
     (let k = nd_count st in
      (k, st\<lparr>nd_links := (nd_links st)(Node k \<mapsto> \<lparr>lh_next = None, lh_prev = None\<rparr>),
            nd_data := (nd_data st)(k \<mapsto> v), nd_count := Suc k\<rparr>))"

definition free_node :: "addr option \<Rightarrow> ('n, 'x) nodes_scheme \<Rightarrow> ('n \<times> ('n, 'x) nodes_scheme) option" where
  "free_node p st =
     (case p of
        Some (Node k) \<Rightarrow> do {
          v \<leftarrow> nd_data st k;
          Some (v, st\<lparr>nd_links := (nd_links st)(Node k := None), nd_data := (nd_data st)(k := None)\<rparr>)
        }
      | _ \<Rightarrow> None)"

text \<open>
  The loop of \<open>fill_string_list\<close> and \<open>fill_control_list\<close>: entry number \<open>idx\<close> must come when
  \<open>idx\<close> entries have been taken, others are skipped. The result is the error or the count. An
  entry whose string cannot be read stays allocated; \<open>malloc\<close> is not checked.
\<close>

fun fill_entries ::
    "('c, 'y) tree_api_scheme \<Rightarrow> (string \<Rightarrow> int \<times> string \<times> int) \<Rightarrow> (nat \<Rightarrow> bool) \<Rightarrow> (string \<Rightarrow> 'n) \<Rightarrow> addr \<Rightarrow>
     'c list \<Rightarrow> int \<Rightarrow> ('n, 'x) nodes_scheme \<Rightarrow> ((int + int) \<times> ('n, 'x) nodes_scheme) option" where
  "fill_entries A strtol malloc_ok mk h [] idx st = Some (Inr idx, st)"
| "fill_entries A strtol malloc_ok mk h (s # ss) idx st =
     (case cfg_id A s of
        None \<Rightarrow> fill_entries A strtol malloc_ok mk h ss idx st
      | Some id_number \<Rightarrow>
          let (r, k) = safe_strtol strtol id_number in
          if r < 0 then Some (Inl (- EINVAL), st)
          else if k = Some idx then
            if \<not> malloc_ok (nd_count st) then None
            else case cfg_ascii A s of
              None \<Rightarrow> Some (Inl (- EINVAL), snd (malloc_node (mk []) st))
            | Some name \<Rightarrow>
                let (n, st) = malloc_node (mk name) st in do {
                  links \<leftarrow> list_add (Some (Node n)) (Some h) (nd_links st);
                  fill_entries A strtol malloc_ok mk h ss (idx + 1) (st\<lparr>nd_links := links\<rparr>)
                }
          else fill_entries A strtol malloc_ok mk h ss idx st)"

text \<open>
  The loops that free a list: the entry is unlinked, its structure freed, and what else is done
  with its fields is \<open>fin\<close>.
\<close>

definition release_body ::
    "('n \<Rightarrow> ('n, 'x) nodes_scheme \<Rightarrow> ('n, 'x) nodes_scheme option) \<Rightarrow> addr option \<Rightarrow>
     ('n, 'x) nodes_scheme \<Rightarrow> ('n, 'x) nodes_scheme option" where
  "release_body fin pos st = do {
     links \<leftarrow> list_del pos (nd_links st);
     (v, st) \<leftarrow> free_node pos (st\<lparr>nd_links := links\<rparr>);
     fin v st
   }"

definition release_list ::
    "('n \<Rightarrow> ('n, 'x) nodes_scheme \<Rightarrow> ('n, 'x) nodes_scheme option) \<Rightarrow> addr \<Rightarrow>
     ('n, 'x) nodes_scheme \<Rightarrow> ('n, 'x) nodes_scheme option" where
  "release_list fin h st = list_for_each_safe nd_links h (release_body fin) st"

subsection \<open>Well-formed device lists\<close>

definition nodes_ok :: "('n, 'x) nodes_scheme \<Rightarrow> addr set \<Rightarrow> (addr \<Rightarrow> nat list) \<Rightarrow> bool" where
  "nodes_ok st H f \<longleftrightarrow> holds (nd_links st) H (\<lambda>h. map Node (f h)) \<and> H \<inter> range Node = {}
     \<and> (\<forall>k. Node k \<in> dom (nd_links st) \<longleftrightarrow> k \<in> dom (nd_data st)) \<and> (\<forall>k \<in> dom (nd_data st). k < nd_count st)"

lemma nodes_okD:
  assumes "nodes_ok st H f"
  shows "holds (nd_links st) H (\<lambda>h. map Node (f h))" "k \<in> dom (nd_data st) \<Longrightarrow> k < nd_count st"
    "Node k \<in> dom (nd_links st) \<longleftrightarrow> k \<in> dom (nd_data st)" "h \<in> H \<Longrightarrow> h \<noteq> Node k"
  using assms unfolding nodes_ok_def by blast+

lemma nodes_listed:
  assumes "nodes_ok st H f" "h \<in> H"
  shows "set (f h) \<subseteq> dom (nd_data st)" "distinct (f h)"
proof -
  have r: "ring (nd_links st) h (map Node (f h))" using holds_ring nodes_okD(1) assms by fastforce
  have "Node k \<in> dom (nd_links st)" if "k \<in> set (f h)" for k
    using ring_live [OF r] that by auto
  then show "set (f h) \<subseteq> dom (nd_data st)" using nodes_okD(3) [OF assms(1)] by blast
  show "distinct (f h)" using r by (auto simp: ring_def distinct_map)
qed

lemma map_upd_nodes: "(\<lambda>h. map Node (f h))(h := map Node ks) = (\<lambda>a. map Node ((f(h := ks)) a))"
  by auto

lemma nodes_fresh: "nodes_ok st H f \<Longrightarrow> Node (nd_count st) \<notin> dom (nd_links st)"
  using nodes_okD(2,3) by blast

lemma holds_cong:
  assumes "holds s H f" "\<And>u. u \<in> entries H f \<Longrightarrow> s' u = s u"
  shows "holds s' H f"
  using assms ring_cong [of _ "f _" s' s] unfolding holds_def entries_def
  by (metis (no_types, lifting) UN_I UnI1 UnI2 set_ConsD)

lemma nodes_add:
  assumes "nodes_ok st H f" "h \<in> H" "malloc_node v st = (k, st1)"
  shows "\<exists>links. list_add (Some (Node k)) (Some h) (nd_links st1) = Some links
    \<and> nodes_ok (st1\<lparr>nd_links := links\<rparr>) H (f(h := k # f h)) \<and> dom links = insert (Node k) (dom (nd_links st))
    \<and> (\<forall>u. u \<notin> H \<union> range Node \<longrightarrow> links u = nd_links st u)"
proof -
  have k: "k = nd_count st" "nd_links st1 = (nd_links st)(Node k \<mapsto> \<lparr>lh_next = None, lh_prev = None\<rparr>)"
    "nd_data st1 = (nd_data st)(k \<mapsto> v)" "nd_count st1 = Suc k"
    using assms(3) by (auto simp: malloc_node_def Let_def)
  let ?g = "\<lambda>h. map Node (f h)"
  have free: "Node k \<notin> entries H ?g"
    using entries_live [OF nodes_okD(1) [OF assms(1)]] nodes_fresh [OF assms(1)] k(1) by blast
  have "holds (nd_links st1) H ?g"
    by (rule holds_cong [OF nodes_okD(1) [OF assms(1)]]) (use free k(2) in auto)
  from holds_add [OF this assms(2) _ free] obtain links where
    l: "list_add (Some (Node k)) (Some h) (nd_links st1) = Some links"
    "holds links H (?g(h := Node k # ?g h))" "dom links = dom (nd_links st1)"
    "\<forall>u. u \<notin> insert (Node k) (entries H ?g) \<longrightarrow> links u = nd_links st1 u"
    using k(2) by auto
  have "holds links H (\<lambda>a. map Node ((f(h := k # f h)) a))"
    using l(2) map_upd_nodes [of f h "k # f h"] by simp
  moreover have "\<forall>j. Node j \<in> dom links \<longleftrightarrow> j \<in> dom (nd_data st1)"
    using nodes_okD(3) [OF assms(1)] unfolding l(3) k(2,3) by auto
  moreover have "\<forall>j \<in> dom (nd_data st1). j < nd_count st1"
    using nodes_okD(2) [OF assms(1)] unfolding k(3,4) by (auto simp: k(1) less_Suc_eq)
  moreover have "dom links = insert (Node k) (dom (nd_links st))" unfolding l(3) k(2) by simp
  moreover have "\<forall>u. u \<notin> H \<union> range Node \<longrightarrow> links u = nd_links st u"
    using l(4) k(2) by (auto simp: entries_def)
  ultimately show ?thesis using l(1) assms(1) by (auto simp: nodes_ok_def)
qed

text \<open>Making a head an empty list.\<close>

lemma nodes_init:
  assumes "nodes_ok st H f" "Head i d \<in> dom (nd_links st)" "Head i d \<notin> H"
  shows "\<exists>links. INIT_LIST_HEAD (Some (Head i d)) (nd_links st) = Some links
    \<and> nodes_ok (st\<lparr>nd_links := links\<rparr>) (insert (Head i d) H) (f(Head i d := [])) \<and> dom links = dom (nd_links st)
    \<and> (\<forall>u. u \<noteq> Head i d \<longrightarrow> links u = nd_links st u)"
proof -
  let ?h = "Head i d" and ?g = "\<lambda>h. map Node (f h)"
  have "?h \<notin> entries H ?g" using assms(3) by (auto simp: entries_def)
  from holds_init [OF nodes_okD(1) [OF assms(1)] assms(2) this] obtain links where
    l: "INIT_LIST_HEAD (Some ?h) (nd_links st) = Some links" "holds links (insert ?h H) (?g(?h := []))"
    "dom links = dom (nd_links st)" "\<forall>u. u \<noteq> ?h \<longrightarrow> links u = nd_links st u" by blast
  have "holds links (insert ?h H) (\<lambda>a. map Node ((f(?h := [])) a))"
    using l(2) map_upd_nodes [of f ?h "[]"] by simp
  then show ?thesis using l(1,3,4) assms(1) by (auto simp: nodes_ok_def)
qed

subsection \<open>Filling a list\<close>

text \<open>
  The names a compound selects: those of the entries numbered 0, 1, 2, \<dots> in their order;
  \<open>None\<close> when an identifier is no number or a selected string cannot be read.
\<close>

fun picked :: "('c, 'y) tree_api_scheme \<Rightarrow> (string \<Rightarrow> int \<times> string \<times> int) \<Rightarrow> 'c list \<Rightarrow> int \<Rightarrow> string list option" where
  "picked A strtol [] idx = Some []"
| "picked A strtol (s # ss) idx =
     (case cfg_id A s of
        None \<Rightarrow> picked A strtol ss idx
      | Some id_number \<Rightarrow>
          if fst (safe_strtol strtol id_number) < 0 then None
          else if snd (safe_strtol strtol id_number) = Some idx then
            (case cfg_ascii A s of None \<Rightarrow> None | Some name \<Rightarrow> map_option (Cons name) (picked A strtol ss (idx + 1)))
          else picked A strtol ss idx)"

lemma fill_entries_spec:
  assumes "nodes_ok st H f" "h \<in> H" "picked A strtol ss idx = Some names" "\<And>k. malloc_ok k"
  shows "\<exists>ks st'. fill_entries A strtol malloc_ok mk h ss idx st = Some (Inr (idx + int (length names)), st')
    \<and> nodes_ok st' H (f(h := ks @ f h)) \<and> map (nd_data st') ks = map (Some \<circ> mk) (rev names)
    \<and> nodes.more st' = nodes.more st \<and> nd_count st \<le> nd_count st'
    \<and> (\<forall>k < nd_count st. nd_data st' k = nd_data st k)
    \<and> dom (nd_data st') = dom (nd_data st) \<union> set ks \<and> (\<forall>k \<in> set ks. nd_count st \<le> k)
    \<and> dom (nd_links st') = dom (nd_links st) \<union> Node ` set ks
    \<and> (\<forall>u. u \<notin> H \<union> range Node \<longrightarrow> nd_links st' u = nd_links st u)"
  using assms(1-3)
proof (induction ss arbitrary: idx st f names)
  case Nil
  then show ?case by (intro exI [of _ "[]"]) auto
next
  case (Cons s ss)
  show ?case
  proof (cases "cfg_id A s")
    case None
    then show ?thesis using Cons by simp
  next
    case (Some id_number)
    obtain r k where rk: "safe_strtol strtol id_number = (r, k)" by fastforce
    then have pos: "\<not> r < 0" using Cons.prems(3) Some by (auto split: if_splits)
    show ?thesis
    proof (cases "k = Some idx")
      case False
      then show ?thesis using Cons Some rk pos by simp
    next
      case True
      then obtain name rest where n: "cfg_ascii A s = Some name" "picked A strtol ss (idx + 1) = Some rest"
        "names = name # rest"
        using Cons.prems(3) Some rk pos by (auto split: option.splits)
      obtain j st1 where m: "malloc_node (mk name) st = (j, st1)" by fastforce
      obtain links where l: "list_add (Some (Node j)) (Some h) (nd_links st1) = Some links"
        "nodes_ok (st1\<lparr>nd_links := links\<rparr>) H (f(h := j # f h))" "dom links = insert (Node j) (dom (nd_links st))"
        "\<forall>u. u \<notin> H \<union> range Node \<longrightarrow> links u = nd_links st u"
        using nodes_add [OF Cons.prems(1,2) m] by blast
      let ?st = "st1\<lparr>nd_links := links\<rparr>"
      have j: "j = nd_count st" "nd_data ?st = (nd_data st)(j \<mapsto> mk name)" "nd_count ?st = Suc j"
        "nodes.more ?st = nodes.more st"
        using m by (auto simp: malloc_node_def Let_def)
      from Cons.IH [OF l(2) Cons.prems(2) n(2)] obtain ks st' where
        st': "fill_entries A strtol malloc_ok mk h ss (idx + 1) ?st = Some (Inr (idx + 1 + int (length rest)), st')"
        "nodes_ok st' H ((f(h := j # f h))(h := ks @ (f(h := j # f h)) h))"
        "map (nd_data st') ks = map (Some \<circ> mk) (rev rest)" "nodes.more st' = nodes.more ?st"
        "nd_count ?st \<le> nd_count st'" "\<forall>k < nd_count ?st. nd_data st' k = nd_data ?st k"
        "dom (nd_data st') = dom (nd_data ?st) \<union> set ks" "\<forall>k \<in> set ks. nd_count ?st \<le> k"
        "dom (nd_links st') = dom (nd_links ?st) \<union> Node ` set ks"
        "\<forall>u. u \<notin> H \<union> range Node \<longrightarrow> nd_links st' u = nd_links ?st u"
        by (elim exE conjE) (rule that; assumption)
      have "fill_entries A strtol malloc_ok mk h (s # ss) idx st = Some (Inr (idx + int (length names)), st')"
        using Some rk pos True n(1,3) m l(1) st'(1) assms(4) by (simp add: algebra_simps)
      have "nodes_ok st' H (f(h := (ks @ [j]) @ f h))" using st'(2) by simp
      have "map (nd_data st') (ks @ [j]) = map (Some \<circ> mk) (rev names)"
        using st'(3,6) j n(3) by simp
      have "nodes.more st' = nodes.more st" "nd_count st \<le> nd_count st'"
        using st'(4,5) j by simp_all
      have "\<forall>k < nd_count st. nd_data st' k = nd_data st k"
        using st'(6) j by simp
      have "dom (nd_data st') = dom (nd_data st) \<union> set (ks @ [j])" "\<forall>k \<in> set (ks @ [j]). nd_count st \<le> k"
        using st'(7,8) j by auto
      have "dom (nd_links st') = dom (nd_links st) \<union> Node ` set (ks @ [j])"
        using st'(9) l(3) by auto
      have "\<forall>u. u \<notin> H \<union> range Node \<longrightarrow> nd_links st' u = nd_links st u"
        using st'(10) l(4) by simp
      show ?thesis
        by (rule exI [of _ "ks @ [j]"], rule exI [of _ st'], intro conjI; fact)
    qed
  qed
qed

text \<open>Both fill functions start from an empty list.\<close>

lemma init_fill_spec:
  assumes "nodes_ok st H f" "Head i s \<in> dom (nd_links st)" "Head i s \<notin> H"
    and "picked A strtol ss 0 = Some names" "\<And>k. malloc_ok k"
  shows "\<exists>ks links st'. INIT_LIST_HEAD (Some (Head i s)) (nd_links st) = Some links
    \<and> fill_entries A strtol malloc_ok mk (Head i s) ss 0 (st\<lparr>nd_links := links\<rparr>) = Some (Inr (int (length names)), st')
    \<and> nodes_ok st' (insert (Head i s) H) (f(Head i s := ks)) \<and> map (nd_data st') ks = map (Some \<circ> mk) (rev names)
    \<and> nodes.more st' = nodes.more st \<and> nd_data st = nd_data st' |` (- set ks)
    \<and> dom (nd_links st') = dom (nd_links st) \<union> Node ` set ks
    \<and> (\<forall>u. u \<notin> insert (Head i s) H \<union> range Node \<longrightarrow> nd_links st' u = nd_links st u)"
proof -
  let ?h = "Head i s"
  obtain links where l: "INIT_LIST_HEAD (Some ?h) (nd_links st) = Some links"
    "nodes_ok (st\<lparr>nd_links := links\<rparr>) (insert ?h H) (f(?h := []))" "dom links = dom (nd_links st)"
    "\<forall>u. u \<noteq> ?h \<longrightarrow> links u = nd_links st u"
    using nodes_init [OF assms(1-3)] by blast
  let ?st = "st\<lparr>nd_links := links\<rparr>"
  from fill_entries_spec [OF l(2) _ assms(4), of ?h malloc_ok mk] assms(5)
  obtain ks st' where st': "fill_entries A strtol malloc_ok mk ?h ss 0 ?st = Some (Inr (0 + int (length names)), st')"
    "nodes_ok st' (insert ?h H) ((f(?h := []))(?h := ks @ (f(?h := [])) ?h))"
    "map (nd_data st') ks = map (Some \<circ> mk) (rev names)" "nodes.more st' = nodes.more ?st"
    "\<forall>k < nd_count ?st. nd_data st' k = nd_data ?st k" "dom (nd_data st') = dom (nd_data ?st) \<union> set ks"
    "dom (nd_links st') = dom (nd_links ?st) \<union> Node ` set ks" "\<forall>k \<in> set ks. nd_count ?st \<le> k"
    "\<forall>u. u \<notin> insert ?h H \<union> range Node \<longrightarrow> nd_links st' u = nd_links ?st u"
    by (elim exE conjE meta_impE) (auto elim!: that)
  have "nd_data st = nd_data st' |` (- set ks)"
  proof
    fix k
    show "nd_data st k = (nd_data st' |` (- set ks)) k"
    proof (cases "k \<in> dom (nd_data st)")
      case True
      then have "k < nd_count st" using nodes_okD(2) [OF assms(1)] by blast
      then show ?thesis using st'(5,8) by (fastforce simp: restrict_map_def)
    next
      case False
      then have "k \<in> set ks \<or> k \<notin> dom (nd_data st')" using st'(6) by auto
      then show ?thesis using False by (auto simp: restrict_map_def)
    qed
  qed
  moreover have "nodes_ok st' (insert ?h H) (f(?h := ks))" using st'(2) by simp
  ultimately show ?thesis using l(1,3,4) st'(1,3,4,7,9)
    by (intro exI [of _ ks] exI [of _ links] exI [of _ st']) simp
qed

text \<open>The key of a configuration entry that a plugin looks at.\<close>

definition conf_key :: "'c tree_api \<Rightarrow> 'c \<Rightarrow> string option" where
  "conf_key A n = (case cfg_id A n of None \<Rightarrow> None | Some s \<Rightarrow> if cfg_skipped s then None else Some s)"

subsection \<open>Freeing a list\<close>

text \<open>
  What a plugin does with the fields of an entry it frees has to leave the lists alone; \<open>view\<close>
  is the rest of the state, which it changes by \<open>vstep\<close>. Freeing a list then applies it to
  every entry once, in order, and leaves the list empty and its entries freed.
\<close>

locale release_hook =
  fixes fin :: "'n \<Rightarrow> ('n, 'x) nodes_scheme \<Rightarrow> ('n, 'x) nodes_scheme option"
    and good :: "'n \<Rightarrow> bool"
    and eff :: "'n \<Rightarrow> ('n, 'x) nodes_scheme \<Rightarrow> ('n, 'x) nodes_scheme"
    and view :: "('n, 'x) nodes_scheme \<Rightarrow> 'v" and vstep :: "'n \<Rightarrow> 'v \<Rightarrow> 'v"
  assumes fin_effect: "good v \<Longrightarrow> fin v st = Some (eff v st)"
    and eff_lists: "nd_links (eff v st) = nd_links st" "nd_data (eff v st) = nd_data st" "nd_count (eff v st) = nd_count st"
    and eff_view: "view (eff v st) = vstep v (view st)"
    and view_lists: "view (st\<lparr>nd_links := l, nd_data := d\<rparr>) = view st"
begin

lemma release_body_frees:
  assumes "nodes_ok st H f" "h \<in> H" "f h = k # ks" "good (the (nd_data st k))"
  shows "\<exists>st'. release_body fin (Some (Node k)) st = Some st' \<and> nodes_ok st' H (f(h := ks))
    \<and> nd_data st' = (nd_data st)(k := None) \<and> nd_count st' = nd_count st
    \<and> view st' = vstep (the (nd_data st k)) (view st)
    \<and> dom (nd_links st') = dom (nd_links st) - {Node k}
    \<and> (\<forall>u. u \<notin> H \<union> range Node \<longrightarrow> nd_links st' u = nd_links st u)"
proof -
  let ?g = "\<lambda>h. map Node (f h)"
  obtain v where v: "nd_data st k = Some v" using nodes_listed(1) [OF assms(1,2)] assms(3) by auto
  obtain links where l: "list_del (Some (Node k)) (nd_links st) = Some links"
    "holds links H (?g(h := remove1 (Node k) (?g h)))" "dom links = dom (nd_links st)"
    "\<forall>u. u \<notin> entries H ?g \<longrightarrow> links u = nd_links st u"
    using holds_del [OF nodes_okD(1) [OF assms(1)] assms(2), of "Node k"] assms(3) by auto
  have h: "holds links H (\<lambda>a. map Node ((f(h := ks)) a))"
    using l(2) map_upd_nodes [of f h ks] assms(3) by simp
  have "set (map Node (f h)) \<inter> set (a # map Node (f a)) = {}" if "a \<in> H" "a \<noteq> h" for a
    using holds_apart [OF nodes_okD(1) [OF assms(1)] assms(2) that(1)] that(2) by auto
  then have "Node k \<notin> entries H (\<lambda>a. map Node ((f(h := ks)) a))"
    using nodes_listed(2) [OF assms(1,2)] assms(2,3) nodes_okD(4) [OF assms(1)]
    by (fastforce simp: entries_def split: if_splits)
  then have "holds (links(Node k := None)) H (\<lambda>a. map Node ((f(h := ks)) a))"
    by (intro holds_cong [OF h]) auto
  moreover have "\<forall>u. u \<notin> H \<union> range Node \<longrightarrow> links u = nd_links st u"
    using l(4) by (auto simp: entries_def)
  ultimately show ?thesis
    using l(1,3) v assms(1,4) by (simp add: release_body_def free_node_def fin_effect eff_lists eff_view view_lists nodes_ok_def)
qed

lemma release_list_frees:
  assumes "nodes_ok st H f" "h \<in> H" "\<And>k. k \<in> set (f h) \<Longrightarrow> good (the (nd_data st k))"
  shows "\<exists>st'. release_list fin h st = Some st' \<and> nodes_ok st' H (f(h := []))
    \<and> nd_data st' = nd_data st |` (- set (f h)) \<and> nd_count st' = nd_count st
    \<and> view st' = fold vstep (map (the \<circ> nd_data st) (f h)) (view st)
    \<and> dom (nd_links st') = dom (nd_links st) - Node ` set (f h)
    \<and> (\<forall>u. u \<notin> H \<union> range Node \<longrightarrow> nd_links st' u = nd_links st u)"
proof -
  define I where "I xs st' \<longleftrightarrow> (\<exists>ds ks. f h = ds @ ks \<and> xs = map Node ks \<and> nodes_ok st' H (f(h := ks))
      \<and> nd_data st' = nd_data st |` (- set ds) \<and> nd_count st' = nd_count st
      \<and> view st' = fold vstep (map (the \<circ> nd_data st) ds) (view st)
      \<and> dom (nd_links st') = dom (nd_links st) - Node ` set ds
      \<and> (\<forall>u. u \<notin> H \<union> range Node \<longrightarrow> nd_links st' u = nd_links st u))" for xs st'
  have "I (map Node (f h)) st" unfolding I_def
    by (rule exI [of _ "[]"], rule exI [of _ "f h"]) (use assms(1) in \<open>simp add: restrict_map_def\<close>)
  moreover have "ring (nd_links st') h xs" if "I xs st'" for xs st'
    using that holds_ring [OF nodes_okD(1) assms(2)] by (fastforce simp: I_def)
  moreover have "\<exists>st2. release_body fin (Some x) st1 = Some st2 \<and> I xs st2" if "I (x # xs) st1" for x xs st1
  proof -
    from that obtain ds k ks where i: "f h = ds @ k # ks" "x = Node k" "xs = map Node ks" "nodes_ok st1 H (f(h := k # ks))"
      "nd_data st1 = nd_data st |` (- set ds)" "nd_count st1 = nd_count st"
      "view st1 = fold vstep (map (the \<circ> nd_data st) ds) (view st)"
      "dom (nd_links st1) = dom (nd_links st) - Node ` set ds"
      "\<forall>u. u \<notin> H \<union> range Node \<longrightarrow> nd_links st1 u = nd_links st u"
      by (auto simp: I_def map_eq_Cons_conv)
    have k: "nd_data st1 k = nd_data st k"
      using nodes_listed(2) [OF assms(1,2)] i(1,5) by simp
    obtain st2 where r: "release_body fin (Some (Node k)) st1 = Some st2" "nodes_ok st2 H ((f(h := k # ks))(h := ks))"
      "nd_data st2 = (nd_data st1)(k := None)" "nd_count st2 = nd_count st1"
      "view st2 = vstep (the (nd_data st1 k)) (view st1)"
      "dom (nd_links st2) = dom (nd_links st1) - {Node k}"
      "\<forall>u. u \<notin> H \<union> range Node \<longrightarrow> nd_links st2 u = nd_links st1 u"
      using release_body_frees [OF i(4) assms(2)] assms(3) [of k] i(1) k by auto
    have "f h = (ds @ [k]) @ ks" "nodes_ok st2 H (f(h := ks))" "nd_count st2 = nd_count st"
      using i(1,6) r(2,4) by simp_all
    moreover have "nd_data st2 = nd_data st |` (- set (ds @ [k]))"
      unfolding r(3) i(5) by (auto simp: restrict_map_def)
    moreover have "view st2 = fold vstep (map (the \<circ> nd_data st) (ds @ [k])) (view st)"
      using r(5) i(7) k by simp
    moreover have "dom (nd_links st2) = dom (nd_links st) - Node ` set (ds @ [k])"
      using r(6) i(8) by auto
    moreover have "\<forall>u. u \<notin> H \<union> range Node \<longrightarrow> nd_links st2 u = nd_links st u"
      using r(7) i(9) by simp
    ultimately have "I xs st2" unfolding I_def using i(3) by blast
    then show ?thesis using r(1) i(2) by blast
  qed
  ultimately obtain st' where "release_list fin h st = Some st'" "I [] st'"
    unfolding release_list_def using each_safe_consumes [of I "map Node (f h)" st nd_links h "release_body fin"] by blast
  then show ?thesis by (auto simp: I_def)
qed

end

end
