(* ===== verification/MaemoCtl.thy ===== *)
theory MaemoCtl
  imports MaemoNodes
begin

section \<open>The Maemo control plugin (maemo/dsp-ctl.c)\<close>

text \<open>
  The external control plugin: a volume and a switch for every playback device, a switch for
  every recording device, read from and written to the DSP task nodes through the protocol.
  \<open>ctl_node\<close> is \<open>control_list_t\<close>, \<open>snd_ctl_dsp\<close> the plugin's structure; the array of controls
  holds pointers to entries of the two lists. \<open>ctl_world\<close> is the process: the lists, the live
  instances, the descriptors closed by \<open>free_control_list\<close> and the static \<open>free_ref\<close>. Every node
  has its own device, so the kernel is a \<open>dsp_env\<close> for each entry.
\<close>

subsection \<open>State\<close>

record ctl_node =
  cn_protocol :: "dsp option"
  cn_name :: string
  cn_channels :: int

record snd_ctl_dsp =
  sc_num_playbacks :: int
  sc_num_recordings :: int
  sc_controls :: "nat option list option"

record ctl_world = "ctl_node nodes" +
  cw_closed :: "int list"
  cw_inst :: "nat \<rightharpoonup> snd_ctl_dsp"
  cw_next :: nat
  cw_free_ref :: "nat option"

abbreviation (input) PLAYBACK_VOLUME_CONTROL_NAME :: string where
  "PLAYBACK_VOLUME_CONTROL_NAME \<equiv> ''PCM Playback Volume''"

abbreviation (input) PLAYBACK_MUTE_CONTROL_NAME :: string where
  "PLAYBACK_MUTE_CONTROL_NAME \<equiv> ''PCM Playback Switch''"

abbreviation (input) RECORDING_CONTROL_NAME :: string where
  "RECORDING_CONTROL_NAME \<equiv> ''Capture Switch''"

text \<open>An array access: outside the array, and before it exists, there is no result.\<close>

definition control_at :: "snd_ctl_dsp \<Rightarrow> u64 \<Rightarrow> nat option" where
  "control_at sc key = do {
     cs \<leftarrow> sc_controls sc;
     if unat key < length cs then cs ! unat key else None
   }"

definition on_node :: "nat \<Rightarrow> (dsp \<Rightarrow> ('a \<times> dsp) option) \<Rightarrow> ctl_world \<Rightarrow> ('a \<times> ctl_world) option" where
  "on_node k f w = do {
     n \<leftarrow> nd_data w k;
     d \<leftarrow> cn_protocol n;
     (x, d) \<leftarrow> f d;
     Some (x, w\<lparr>nd_data := (nd_data w)(k \<mapsto> n\<lparr>cn_protocol := Some d\<rparr>)\<rparr>)
   }"

subsection \<open>The elements\<close>

definition dsp_ctl_elem_count :: "snd_ctl_dsp \<Rightarrow> int" where
  "dsp_ctl_elem_count sc = c_int (2 * sc_num_playbacks sc + sc_num_recordings sc)"

definition dsp_ctl_elem_list :: "snd_ctl_dsp \<Rightarrow> u32 \<Rightarrow> string \<times> u32" where
  "dsp_ctl_elem_list sc offset =
     (if offset < word_of_int (2 * sc_num_playbacks sc) then
        (if offset mod 2 = 1 then PLAYBACK_MUTE_CONTROL_NAME else PLAYBACK_VOLUME_CONTROL_NAME, offset div 2)
      else (RECORDING_CONTROL_NAME, offset - word_of_int (2 * sc_num_playbacks sc)))"

definition dsp_ctl_find_elem :: "snd_ctl_dsp \<Rightarrow> string \<Rightarrow> u32 \<Rightarrow> u64" where
  "dsp_ctl_find_elem sc name index =
     (let idx = c_int (uint index) in
      if PLAYBACK_VOLUME_CONTROL_NAME = name then word_of_int (c_int (idx * 2))
      else if PLAYBACK_MUTE_CONTROL_NAME = name then word_of_int (c_int (idx * 2 + 1))
      else word_of_int (c_int (2 * sc_num_playbacks sc + idx)))"

datatype elem_type = ELEM_BOOLEAN | ELEM_INTEGER

definition is_switch :: "snd_ctl_dsp \<Rightarrow> u64 \<Rightarrow> bool" where
  "is_switch sc key \<longleftrightarrow> key \<ge> word_of_int (2 * sc_num_playbacks sc) \<or> key mod 2 = 1"

definition dsp_ctl_get_attribute :: "snd_ctl_dsp \<Rightarrow> u64 \<Rightarrow> ctl_world \<Rightarrow> (elem_type \<times> u32) option" where
  "dsp_ctl_get_attribute sc key w = do {
     k \<leftarrow> control_at sc key;
     n \<leftarrow> nd_data w k;
     Some (if is_switch sc key then ELEM_BOOLEAN else ELEM_INTEGER, word_of_int (cn_channels n))
   }"

definition dsp_ctl_get_integer_info :: "snd_ctl_dsp \<Rightarrow> u64 \<Rightarrow> int \<times> int \<times> int" where
  "dsp_ctl_get_integer_info sc key = (0, if is_switch sc key then 1 else 100, 0)"

text \<open>
  The values of a node as the plugin reads them: the result of the protocol and, when it is not
  negative, the two channels.
\<close>

definition ctl_get :: "(nat \<Rightarrow> dsp_env) \<Rightarrow> bool \<Rightarrow> nat \<Rightarrow> ctl_world \<Rightarrow> ((int \<times> (u8 \<times> u8) option) \<times> ctl_world) option" where
  "ctl_get E switch k w =
     (if switch then do {
        (ret, w) \<leftarrow> on_node k (dsp_protocol_get_mute (E k)) w;
        Some ((ret, if ret \<ge> 0 then (let left = (if ret = 0 then 1 else 0) in Some (left, left)) else None), w)
      } else on_node k (dsp_protocol_get_volume (E k)) w)"

text \<open>The second value is written for two channels only, and the result of a reading is kept.\<close>

definition dsp_ctl_read_integer ::
    "(nat \<Rightarrow> dsp_env) \<Rightarrow> snd_ctl_dsp \<Rightarrow> u64 \<Rightarrow> int \<times> int \<Rightarrow> ctl_world \<Rightarrow> (int \<times> (int \<times> int) \<times> ctl_world) option" where
  "dsp_ctl_read_integer E sc key val w = do {
     k \<leftarrow> control_at sc key;
     ((ret, lr), w) \<leftarrow> ctl_get E (is_switch sc key) k w;
     n \<leftarrow> nd_data w k;
     if ret \<ge> 0 then do {
       (left, right) \<leftarrow> lr;
       Some (ret, (uint left, if cn_channels n = 2 then uint right else snd val), w)
     } else Some (0, (0, if cn_channels n = 2 then 0 else snd val), w)
   }"

definition ctl_set :: "(nat \<Rightarrow> dsp_env) \<Rightarrow> bool \<Rightarrow> nat \<Rightarrow> u8 \<Rightarrow> u8 \<Rightarrow> ctl_world \<Rightarrow> (int \<times> ctl_world) option" where
  "ctl_set E switch k left right w =
     (if switch then on_node k (dsp_protocol_set_mute (E k) (if left = 0 then 1 else 0)) w
      else on_node k (dsp_protocol_set_volume (E k) left right) w)"

definition dsp_ctl_write_integer ::
    "(nat \<Rightarrow> dsp_env) \<Rightarrow> snd_ctl_dsp \<Rightarrow> u64 \<Rightarrow> int \<times> int \<Rightarrow> ctl_world \<Rightarrow> (int \<times> (int \<times> int) \<times> ctl_world) option" where
  "dsp_ctl_write_integer E sc key val w = do {
     k \<leftarrow> control_at sc key;
     ((ret, lr), w) \<leftarrow> ctl_get E (is_switch sc key) k w;
     n \<leftarrow> nd_data w k;
     let two = (cn_channels n = 2);
     let zero = (0, if two then 0 else snd val);
     if ret < 0 then Some (0, zero, w)
     else do {
       (left, right) \<leftarrow> lr;
       if uint left = fst val \<and> (two \<longrightarrow> uint right = snd val) then Some (0, val, w)
       else do {
         let left = word_of_int (fst val);
         let right = (if two then word_of_int (snd val) else left);
         (ret, w) \<leftarrow> ctl_set E (is_switch sc key) k left right w;
         if ret < 0 then Some (0, zero, w) else Some (1, val, w)
       }
     }
   }"

definition dsp_ctl_read_event :: int where
  "dsp_ctl_read_event = - EIO"

subsection \<open>Lists, probing, the array of controls\<close>

definition close_control :: "ctl_node \<Rightarrow> ctl_world \<Rightarrow> ctl_world option" where
  "close_control n w = do { d \<leftarrow> cn_protocol n; Some (w\<lparr>cw_closed := cw_closed w @ [d_fd d]\<rparr>) }"

definition free_control_list :: "addr \<Rightarrow> ctl_world \<Rightarrow> ctl_world option" where
  "free_control_list h w = release_list close_control h w"

record 'c ctl_open_env =
  co_conf :: "'c tree_api"
  co_strtol :: "string \<Rightarrow> int \<times> string \<times> int"
  co_calloc :: bool
  co_malloc :: "nat \<Rightarrow> bool"
  co_protocol :: "nat \<Rightarrow> bool"
  co_dsp :: "nat \<Rightarrow> dsp_env"
  co_controls :: "int \<Rightarrow> bool"
  co_create :: int

definition new_control :: "string \<Rightarrow> ctl_node" where
  "new_control name = \<lparr>cn_protocol = None, cn_name = name, cn_channels = 0\<rparr>"

definition fill_control_list :: "'c ctl_open_env \<Rightarrow> 'c \<Rightarrow> addr \<Rightarrow> ctl_world \<Rightarrow> (int \<times> ctl_world) option" where
  "fill_control_list P n h w = do {
     links \<leftarrow> INIT_LIST_HEAD (Some h) (nd_links w);
     (r, w) \<leftarrow> fill_entries (co_conf P) (co_strtol P) (co_malloc P) new_control h
                (cfg_children (co_conf P) n) 0 (w\<lparr>nd_links := links\<rparr>);
     Some (case r of Inl err \<Rightarrow> err | Inr idx \<Rightarrow> idx, w)
   }"

text \<open>The body of the probing loop; \<open>goto out\<close> leaves both loops.\<close>

definition probe_control :: "'c ctl_open_env \<Rightarrow> addr option \<Rightarrow> int \<times> ctl_world \<Rightarrow> (bool \<times> int \<times> ctl_world) option" where
  "probe_control P tmp st =
     (let w = snd st in
      case tmp of
        Some (Node k) \<Rightarrow> do {
          n \<leftarrow> nd_data w k;
          let (err, d) = dsp_protocol_create (co_protocol P k);
          if err < 0 then Some (True, err, w\<lparr>nd_data := (nd_data w)(k \<mapsto> n\<lparr>cn_protocol := None\<rparr>)\<rparr>)
          else do {
            d \<leftarrow> d;
            (channels, d) \<leftarrow> dsp_protocol_probe_node (co_dsp P k) (cn_name n) d;
            let w = w\<lparr>nd_data := (nd_data w)(k \<mapsto> n\<lparr>cn_protocol := Some d, cn_channels := channels\<rparr>)\<rparr>;
            if channels < 0 then Some (True, channels, w\<lparr>cw_closed := cw_closed w @ [d_fd d]\<rparr>)
            else Some (False, err, w)
          }
        }
      | _ \<Rightarrow> None)"

definition dsp_ctl_probe_dsp_task :: "'c ctl_open_env \<Rightarrow> nat \<Rightarrow> ctl_world \<Rightarrow> (int \<times> ctl_world) option" where
  "dsp_ctl_probe_dsp_task P i w = do {
     (err, w) \<leftarrow> list_for_each_entry (\<lambda>st. nd_links (snd st)) (Head i PLAYBACK) (probe_control P) (0, w);
     if err < 0 then Some (err, w)
     else list_for_each_entry (\<lambda>st. nd_links (snd st)) (Head i CAPTURE) (probe_control P) (err, w)
   }"

text \<open>
  The loops that fill the array: the state is the array and the index \<open>i\<close>; writing outside the
  array has no result.
\<close>

definition put_control :: "nat \<Rightarrow> nat \<Rightarrow> nat option list \<Rightarrow> nat option list option" where
  "put_control i k cs = (if i < length cs then Some (cs[i := Some k]) else None)"

definition fill_playback :: "addr option \<Rightarrow> (nat option list \<times> nat) \<times> ctl_world \<Rightarrow> (bool \<times> (nat option list \<times> nat) \<times> ctl_world) option" where
  "fill_playback tmp st =
     (case (tmp, st) of
        (Some (Node k), ((cs, i), w)) \<Rightarrow> do {
          cs \<leftarrow> put_control i k cs;
          cs \<leftarrow> put_control (i + 1) k cs;
          Some (False, (cs, i + 2), w)
        }
      | _ \<Rightarrow> None)"

definition fill_recording :: "addr option \<Rightarrow> (nat option list \<times> nat) \<times> ctl_world \<Rightarrow> (bool \<times> (nat option list \<times> nat) \<times> ctl_world) option" where
  "fill_recording tmp st =
     (case (tmp, st) of
        (Some (Node k), ((cs, i), w)) \<Rightarrow> do { cs \<leftarrow> put_control i k cs; Some (False, (cs, i + 1), w) }
      | _ \<Rightarrow> None)"

definition dsp_ctl_fill_controls :: "'c ctl_open_env \<Rightarrow> nat \<Rightarrow> ctl_world \<Rightarrow> (int \<times> ctl_world) option" where
  "dsp_ctl_fill_controls P i w = do {
     sc \<leftarrow> cw_inst w i;
     let num_controls = dsp_ctl_elem_count sc;
     if \<not> co_controls P num_controls
     then Some (- ENOMEM, w\<lparr>cw_inst := (cw_inst w)(i \<mapsto> sc\<lparr>sc_controls := None\<rparr>)\<rparr>)
     else do {
       st \<leftarrow> list_for_each_entry (\<lambda>st. nd_links (snd st)) (Head i PLAYBACK) fill_playback
                ((replicate (nat num_controls) None, 0), w);
       ((cs, _), w) \<leftarrow> list_for_each_entry (\<lambda>st. nd_links (snd st)) (Head i CAPTURE) fill_recording st;
       Some (0, w\<lparr>cw_inst := (cw_inst w)(i \<mapsto> sc\<lparr>sc_controls := Some cs\<rparr>)\<rparr>)
     }
   }"

subsection \<open>Opening, closing, unloading\<close>

definition ctl_calloc :: "ctl_world \<Rightarrow> nat \<times> ctl_world" where
  "ctl_calloc w =
     (let i = cw_next w; zero = \<lparr>lh_next = None, lh_prev = None\<rparr> in
      (i, w\<lparr>nd_links := (nd_links w)(Head i PLAYBACK \<mapsto> zero, Head i CAPTURE \<mapsto> zero),
            cw_inst := (cw_inst w)(i \<mapsto> \<lparr>sc_num_playbacks = 0, sc_num_recordings = 0, sc_controls = None\<rparr>),
            cw_next := Suc i\<rparr>))"

definition ctl_free :: "nat \<Rightarrow> ctl_world \<Rightarrow> ctl_world option" where
  "ctl_free i w = do {
     _ \<leftarrow> cw_inst w i;
     Some (w\<lparr>nd_links := (nd_links w)(Head i PLAYBACK := None, Head i CAPTURE := None),
            cw_inst := (cw_inst w)(i := None)\<rparr>)
   }"

fun dsp_ctl_conf :: "'c ctl_open_env \<Rightarrow> nat \<Rightarrow> 'c list \<Rightarrow> ctl_world \<Rightarrow> (int \<times> ctl_world) option" where
  "dsp_ctl_conf P i [] w = Some (0, w)"
| "dsp_ctl_conf P i (n # ns) w =
     (case cfg_id (co_conf P) n of
        None \<Rightarrow> dsp_ctl_conf P i ns w
      | Some id_str \<Rightarrow>
          if cfg_skipped id_str then dsp_ctl_conf P i ns w
          else if id_str = ''playback_devices'' then
            (if cfg_compound (co_conf P) n then do {
               (num, w) \<leftarrow> fill_control_list P n (Head i PLAYBACK) w;
               sc \<leftarrow> cw_inst w i;
               let w = w\<lparr>cw_inst := (cw_inst w)(i \<mapsto> sc\<lparr>sc_num_playbacks := c_int num\<rparr>)\<rparr>;
               if c_int num < 0 then Some (- EINVAL, w) else dsp_ctl_conf P i ns w
             } else Some (- EINVAL, w))
          else if id_str = ''recording_devices'' then
            (if cfg_compound (co_conf P) n then do {
               (num, w) \<leftarrow> fill_control_list P n (Head i CAPTURE) w;
               sc \<leftarrow> cw_inst w i;
               let w = w\<lparr>cw_inst := (cw_inst w)(i \<mapsto> sc\<lparr>sc_num_recordings := c_int num\<rparr>)\<rparr>;
               if c_int num < 0 then Some (- EINVAL, w) else dsp_ctl_conf P i ns w
             } else Some (- EINVAL, w))
          else Some (- EINVAL, w))"

definition dsp_ctl_setup :: "'c ctl_open_env \<Rightarrow> 'c list \<Rightarrow> nat \<Rightarrow> ctl_world \<Rightarrow> (int \<times> ctl_world) option" where
  "dsp_ctl_setup P conf i w = do {
     (err, w) \<leftarrow> dsp_ctl_conf P i conf w;
     if err < 0 then Some (err, w)
     else do {
       (err, w) \<leftarrow> dsp_ctl_probe_dsp_task P i w;
       if err < 0 then Some (err, w)
       else do {
         (err, w) \<leftarrow> dsp_ctl_fill_controls P i w;
         if err < 0 then Some (err, w)
         else
           let w = w\<lparr>cw_free_ref := Some i\<rparr> in
           if co_create P < 0 then Some (co_create P, w) else Some (0, w)
       }
     }
   }"

definition dsp_ctl_open :: "'c ctl_open_env \<Rightarrow> 'c list \<Rightarrow> ctl_world \<Rightarrow> (int \<times> ctl_world) option" where
  "dsp_ctl_open P conf w =
     (if \<not> co_calloc P then Some (- ENOMEM, w)
      else
        let (i, w) = ctl_calloc w in do {
          (err, w) \<leftarrow> dsp_ctl_setup P conf i w;
          if err < 0 then do { w \<leftarrow> ctl_free i w; Some (err, w) } else Some (0, w)
        })"

definition dsp_ctl_close :: "nat \<Rightarrow> ctl_world \<Rightarrow> ctl_world option" where
  "dsp_ctl_close i w = do {
     sc \<leftarrow> cw_inst w i;
     w \<leftarrow> free_control_list (Head i PLAYBACK) (w\<lparr>cw_inst := (cw_inst w)(i \<mapsto> sc\<lparr>sc_controls := None\<rparr>)\<rparr>);
     free_control_list (Head i CAPTURE) w
   }"

definition dsp_ctl_destructor :: "ctl_world \<Rightarrow> ctl_world option" where
  "dsp_ctl_destructor w =
     (case cw_free_ref w of
        None \<Rightarrow> Some w
      | Some i \<Rightarrow> do {
          _ \<leftarrow> cw_inst w i;
          w \<leftarrow> free_control_list (Head i PLAYBACK) w;
          w \<leftarrow> free_control_list (Head i CAPTURE) w;
          w \<leftarrow> ctl_free i w;
          Some (w\<lparr>cw_free_ref := None\<rparr>)
        })"

definition ctl_initial :: ctl_world where
  "ctl_initial = \<lparr>nd_links = Map.empty, nd_data = Map.empty, nd_count = 0, cw_closed = [],
     cw_inst = Map.empty, cw_next = 0, cw_free_ref = None\<rparr>"

end
