(* ===== verification/MaemoCtlProofs.thy ===== *)
theory MaemoCtlProofs
  imports MaemoCtl MaemoSafety
begin

section \<open>The Maemo control plugin: elements and devices\<close>

text \<open>
  The numbering of the elements and the array of controls, what open builds, what close frees.
  The device lists are those of \<open>MaemoNodes\<close>; closing a node's descriptor is the effect that
  freeing a list has on the rest of the process.
\<close>

subsection \<open>The numbering of the elements\<close>

lemma uint_u32_of_int: "0 \<le> x \<Longrightarrow> x < 2 ^ 32 \<Longrightarrow> uint (word_of_int x :: u32) = x"
  by (simp add: unsigned_of_int take_bit_int_eq_self)

lemma elem_list_int:
  assumes "0 \<le> sc_num_playbacks sc" "2 * sc_num_playbacks sc < 2 ^ 31" "uint offset < 2 ^ 31"
  defines "n \<equiv> sc_num_playbacks sc" and "i \<equiv> uint offset"
  shows "fst (dsp_ctl_elem_list sc offset) =
      (if i < 2 * n then if i mod 2 = 1 then PLAYBACK_MUTE_CONTROL_NAME else PLAYBACK_VOLUME_CONTROL_NAME else RECORDING_CONTROL_NAME)"
    "uint (snd (dsp_ctl_elem_list sc offset)) = (if i < 2 * n then i div 2 else i - 2 * n)"
proof -
  have n: "uint (word_of_int (2 * n) :: u32) = 2 * n" using assms by (intro uint_u32_of_int) (auto simp: n_def)
  have less: "offset < word_of_int (2 * n) \<longleftrightarrow> i < 2 * n" unfolding word_less_alt n by (simp add: i_def)
  have odd: "offset mod 2 = 1 \<longleftrightarrow> i mod 2 = 1" by (simp add: word_uint_eq_iff uint_mod i_def)
  have half: "uint (offset div 2) = i div 2" by (simp add: uint_div i_def)
  have minus: "uint (offset - word_of_int (2 * n)) = i - 2 * n" if "\<not> i < 2 * n"
  proof -
    have "word_of_int (2 * n) \<le> offset" using less that by simp
    then have "uint (offset - word_of_int (2 * n)) = uint offset - uint (word_of_int (2 * n) :: u32)"
      by (simp only: uint_minus_simple_alt)
    then show ?thesis unfolding n i_def .
  qed
  show "fst (dsp_ctl_elem_list sc offset) =
      (if i < 2 * n then if i mod 2 = 1 then PLAYBACK_MUTE_CONTROL_NAME else PLAYBACK_VOLUME_CONTROL_NAME else RECORDING_CONTROL_NAME)"
    unfolding dsp_ctl_elem_list_def n_def [symmetric] less odd by simp
  show "uint (snd (dsp_ctl_elem_list sc offset)) = (if i < 2 * n then i div 2 else i - 2 * n)"
    unfolding dsp_ctl_elem_list_def n_def [symmetric] less odd using half minus by simp
qed

lemma find_elem_int:
  assumes "uint index < 2 ^ 30"
  shows "dsp_ctl_find_elem sc PLAYBACK_VOLUME_CONTROL_NAME index = word_of_int (uint index * 2)"
    "dsp_ctl_find_elem sc PLAYBACK_MUTE_CONTROL_NAME index = word_of_int (uint index * 2 + 1)"
proof -
  have b: "0 \<le> uint index" "uint index < 1073741824" using assms by simp_all
  have "c_int (uint index) = uint index" "c_int (uint index * 2) = uint index * 2" "c_int (uint index * 2 + 1) = uint index * 2 + 1"
    by (rule c_int_id; use b in linarith)+
  then show "dsp_ctl_find_elem sc PLAYBACK_VOLUME_CONTROL_NAME index = word_of_int (uint index * 2)"
    "dsp_ctl_find_elem sc PLAYBACK_MUTE_CONTROL_NAME index = word_of_int (uint index * 2 + 1)"
    by (simp_all add: dsp_ctl_find_elem_def)
qed

text \<open>
  the keys, the names and the indices of the elements agree: looking up the name and index
  that elem_list gives for an offset below the number of elements gives back that offset, so
  different elements are told apart.
\<close>

theorem dsp_ctl_keys_roundtrip:
  assumes "0 \<le> sc_num_playbacks sc" "0 \<le> sc_num_recordings sc"
    and "2 * sc_num_playbacks sc + sc_num_recordings sc < 2 ^ 31" "uint offset < dsp_ctl_elem_count sc"
  shows "dsp_ctl_find_elem sc (fst (dsp_ctl_elem_list sc offset)) (snd (dsp_ctl_elem_list sc offset)) = ucast offset"
proof -
  define i n where "i = uint offset" and "n = sc_num_playbacks sc"
  let ?x = "snd (dsp_ctl_elem_list sc offset)"
  have i: "0 \<le> i" "i < 2 * n + sc_num_recordings sc" "i < 2 ^ 31"
    using assms by (simp_all add: dsp_ctl_elem_count_def i_def n_def)
  note e = elem_list_int [of sc offset, folded i_def n_def]
  have name: "fst (dsp_ctl_elem_list sc offset) =
      (if i < 2 * n then if i mod 2 = 1 then PLAYBACK_MUTE_CONTROL_NAME else PLAYBACK_VOLUME_CONTROL_NAME else RECORDING_CONTROL_NAME)"
    and x: "uint ?x = (if i < 2 * n then i div 2 else i - 2 * n)"
    using e i assms(1-3) by (simp_all add: n_def)
  have key: "word_of_int i = (ucast offset :: u64)" by (simp add: i_def)
  show ?thesis
  proof (cases "i < 2 * n")
    case True
    then have x30: "uint ?x < 2 ^ 30" using x i(3) by auto
    show ?thesis
    proof (cases "i mod 2 = 1")
      case True
      then have "uint ?x * 2 + 1 = i" using x \<open>i < 2 * n\<close> by presburger
      then show ?thesis unfolding name using True \<open>i < 2 * n\<close> find_elem_int(2) [OF x30, of sc] key by simp
    next
      case False
      then have "uint ?x * 2 = i" using x \<open>i < 2 * n\<close> by presburger
      then show ?thesis unfolding name using False \<open>i < 2 * n\<close> find_elem_int(1) [OF x30, of sc] key by simp
    qed
  next
    case False
    then have "c_int (uint ?x) = i - 2 * n" "c_int (2 * n + (i - 2 * n)) = i"
      using x i assms(1) by (simp_all add: n_def)
    then show ?thesis unfolding name using False key by (simp add: dsp_ctl_find_elem_def n_def)
  qed
qed

theorem dsp_ctl_keys_roundtrip_witness:
  "dsp_ctl_find_elem \<lparr>sc_num_playbacks = 2, sc_num_recordings = 1, sc_controls = None\<rparr> ''Capture Switch'' 0 = 4"
  using dsp_ctl_keys_roundtrip [of "\<lparr>sc_num_playbacks = 2, sc_num_recordings = 1, sc_controls = None\<rparr>" 4]
  by (simp add: dsp_ctl_elem_count_def dsp_ctl_elem_list_def)

end
