(* ===== verification/MaemoCtlLife.thy ===== *)
theory MaemoCtlLife
  imports MaemoCtlProofs
begin

section \<open>The Maemo control plugin: from open to unload\<close>

text \<open>
  What open builds from a configuration with both lists: the entries, a probed node for each,
  and the array of controls in the documented layout. Closing gives all of it back.
\<close>

subsection \<open>Freeing the lists\<close>

interpretation control_nodes: release_hook close_control "\<lambda>n. cn_protocol n \<noteq> None"
  "\<lambda>n w. w\<lparr>cw_closed := cw_closed w @ [d_fd (the (cn_protocol n))]\<rparr>"
  "\<lambda>w. (cw_closed w, cw_inst w, cw_next w, cw_free_ref w)"
  "\<lambda>n (c, r). (c @ [d_fd (the (cn_protocol n))], r)"
  by unfold_locales (auto simp: close_control_def)

definition node_fd :: "ctl_world \<Rightarrow> nat \<Rightarrow> int" where
  "node_fd w k = d_fd (the (cn_protocol (the (nd_data w k))))"

definition probed :: "ctl_world \<Rightarrow> nat \<Rightarrow> bool" where
  "probed w k \<longleftrightarrow> (\<exists>n d. nd_data w k = Some n \<and> cn_protocol n = Some d \<and> 0 \<le> cn_channels n)"

lemma fold_close: "fold (\<lambda>n (c, r). (c @ [f n], r)) ns (c, r) = (c @ map f ns, r)"
  by (induction ns arbitrary: c) simp_all

lemma free_control_list_frees:
  assumes "nodes_ok w H f" "h \<in> H" "\<And>k. k \<in> set (f h) \<Longrightarrow> probed w k"
  shows "\<exists>w'. free_control_list h w = Some w' \<and> nodes_ok w' H (f(h := []))
    \<and> nd_data w' = nd_data w |` (- set (f h)) \<and> cw_closed w' = cw_closed w @ map (node_fd w) (f h)
    \<and> cw_inst w' = cw_inst w \<and> cw_next w' = cw_next w \<and> cw_free_ref w' = cw_free_ref w
    \<and> dom (nd_links w') = dom (nd_links w) - Node ` set (f h)
    \<and> (\<forall>u. u \<notin> H \<union> range Node \<longrightarrow> nd_links w' u = nd_links w u)"
proof -
  have "\<And>k. k \<in> set (f h) \<Longrightarrow> cn_protocol (the (nd_data w k)) \<noteq> None" using assms(3) unfolding probed_def by fastforce
  from control_nodes.release_list_frees [OF assms(1,2) this] show ?thesis
    by (auto simp: free_control_list_def fold_close node_fd_def comp_def)
qed

subsection \<open>The configuration\<close>

definition ctl_list :: "'c ctl_open_env \<Rightarrow> 'c \<Rightarrow> string \<Rightarrow> string list \<Rightarrow> bool" where
  "ctl_list P n key names \<longleftrightarrow> conf_key (co_conf P) n = Some key \<and> cfg_compound (co_conf P) n
     \<and> picked (co_conf P) (co_strtol P) (cfg_children (co_conf P) n) 0 = Some names"

definition ctl_conf_names :: "'c ctl_open_env \<Rightarrow> 'c list \<Rightarrow> string list \<Rightarrow> string list \<Rightarrow> bool" where
  "ctl_conf_names P conf ps rs \<longleftrightarrow> (\<forall>k. co_malloc P k) \<and> 2 * length ps + length rs < 2 ^ 31
     \<and> (\<exists>p r. filter (\<lambda>n. conf_key (co_conf P) n \<noteq> None) conf = [p, r]
         \<and> ctl_list P p ''playback_devices'' ps \<and> ctl_list P r ''recording_devices'' rs)"

lemma dsp_ctl_conf_filter:
  "dsp_ctl_conf P i conf w = dsp_ctl_conf P i (filter (\<lambda>n. conf_key (co_conf P) n \<noteq> None) conf) w"
proof (induction conf arbitrary: w)
  case (Cons n ns)
  have "dsp_ctl_conf P i (n # ns) w = dsp_ctl_conf P i ns w" if "conf_key (co_conf P) n = None"
    using that by (auto simp: conf_key_def split: option.splits if_splits)
  moreover have "dsp_ctl_conf P i (filter (\<lambda>n. conf_key (co_conf P) n \<noteq> None) ns) = dsp_ctl_conf P i ns"
    by (rule ext) (rule Cons.IH [symmetric])
  ultimately show ?case
    by (cases "conf_key (co_conf P) n = None") (simp_all only: filter.simps dsp_ctl_conf.simps simp_thms if_True if_False)
qed simp

lemma ctl_more_eq:
  fixes w w' :: ctl_world
  assumes "nodes.more w' = nodes.more w"
  shows "cw_inst w' = cw_inst w" "cw_next w' = cw_next w" "cw_free_ref w' = cw_free_ref w" "cw_closed w' = cw_closed w"
  using assms by (cases w; cases w'; simp)+

lemma fill_control_list_spec:
  assumes "nodes_ok w H f" "Head i s \<in> dom (nd_links w)" "Head i s \<notin> H" "ctl_list P n key names" "\<forall>k. co_malloc P k"
  shows "\<exists>ks w'. fill_control_list P n (Head i s) w = Some (int (length names), w')
    \<and> nodes_ok w' (insert (Head i s) H) (f(Head i s := ks)) \<and> map (nd_data w') ks = map (Some \<circ> new_control) (rev names)
    \<and> nodes.more w' = nodes.more w \<and> nd_data w = nd_data w' |` (- set ks)
    \<and> dom (nd_links w') = dom (nd_links w) \<union> Node ` set ks"
proof -
  have pk: "picked (co_conf P) (co_strtol P) (cfg_children (co_conf P) n) 0 = Some names"
    using assms(4) by (simp add: ctl_list_def)
  show ?thesis using init_fill_spec [OF assms(1-3) pk, of "co_malloc P" new_control] assms(5)
    by (auto simp: fill_control_list_def)
qed

definition ctl_nodes :: "ctl_world \<Rightarrow> nat \<Rightarrow> addr set \<Rightarrow> (addr \<Rightarrow> nat list) \<Rightarrow> nat list \<Rightarrow> nat list \<Rightarrow> bool" where
  "ctl_nodes w i H f ks js \<longleftrightarrow>
     nodes_ok w ({Head i PLAYBACK, Head i CAPTURE} \<union> H) (f(Head i PLAYBACK := ks, Head i CAPTURE := js))"

lemma conf_both_lists:
  assumes "nodes_ok w H f" "Head i PLAYBACK \<in> dom (nd_links w)" "Head i CAPTURE \<in> dom (nd_links w)"
    "Head i PLAYBACK \<notin> H" "Head i CAPTURE \<notin> H" "ctl_conf_names P conf ps rs"
    "cw_inst w i = Some \<lparr>sc_num_playbacks = 0, sc_num_recordings = 0, sc_controls = None\<rparr>"
  shows "\<exists>ks js w'. dsp_ctl_conf P i conf w = Some (0, w') \<and> ctl_nodes w' i H f ks js
    \<and> map (nd_data w') ks = map (Some \<circ> new_control) (rev ps) \<and> map (nd_data w') js = map (Some \<circ> new_control) (rev rs)
    \<and> cw_inst w' = (cw_inst w)(i \<mapsto> \<lparr>sc_num_playbacks = int (length ps), sc_num_recordings = int (length rs), sc_controls = None\<rparr>)
    \<and> cw_next w' = cw_next w \<and> cw_free_ref w' = cw_free_ref w \<and> cw_closed w' = cw_closed w
    \<and> nd_data w = nd_data w' |` (- (set ks \<union> set js)) \<and> dom (nd_links w') = dom (nd_links w) \<union> Node ` (set ks \<union> set js)"
proof -
  from assms(6) obtain p r where pr: "filter (\<lambda>n. conf_key (co_conf P) n \<noteq> None) conf = [p, r]"
    and p: "ctl_list P p ''playback_devices'' ps" and r: "ctl_list P r ''recording_devices'' rs"
    and ok: "\<forall>k. co_malloc P k" and len: "2 * length ps + length rs < 2 ^ 31"
    unfolding ctl_conf_names_def by blast
  have num: "c_int (int (length ps)) = int (length ps)" "c_int (int (length rs)) = int (length rs)"
    using len by simp_all
  have key: "cfg_id (co_conf P) p = Some ''playback_devices''" "cfg_id (co_conf P) r = Some ''recording_devices''"
    "cfg_compound (co_conf P) p" "cfg_compound (co_conf P) r"
    using p r by (auto simp: ctl_list_def conf_key_def split: option.splits if_splits)
  obtain ks w1 where w1: "fill_control_list P p (Head i PLAYBACK) w = Some (int (length ps), w1)"
    "nodes_ok w1 (insert (Head i PLAYBACK) H) (f(Head i PLAYBACK := ks))" "map (nd_data w1) ks = map (Some \<circ> new_control) (rev ps)"
    "nodes.more w1 = nodes.more w" "nd_data w = nd_data w1 |` (- set ks)" "dom (nd_links w1) = dom (nd_links w) \<union> Node ` set ks"
    using fill_control_list_spec [OF assms(1,2,4) p ok] by blast
  let ?sc = "\<lparr>sc_num_playbacks = int (length ps), sc_num_recordings = 0, sc_controls = None\<rparr>"
  let ?v = "w1\<lparr>cw_inst := (cw_inst w1)(i \<mapsto> ?sc)\<rparr>"
  have v: "nodes_ok ?v (insert (Head i PLAYBACK) H) (f(Head i PLAYBACK := ks))" using w1(2) by (simp add: nodes_ok_def)
  have t: "Head i CAPTURE \<in> dom (nd_links ?v)" "Head i CAPTURE \<notin> insert (Head i PLAYBACK) H" using w1(6) assms(3,5) by auto
  obtain js w2 where w2: "fill_control_list P r (Head i CAPTURE) ?v = Some (int (length rs), w2)"
    "nodes_ok w2 (insert (Head i CAPTURE) (insert (Head i PLAYBACK) H)) ((f(Head i PLAYBACK := ks))(Head i CAPTURE := js))"
    "map (nd_data w2) js = map (Some \<circ> new_control) (rev rs)" "nodes.more w2 = nodes.more ?v"
    "nd_data ?v = nd_data w2 |` (- set js)" "dom (nd_links w2) = dom (nd_links ?v) \<union> Node ` set js"
    using fill_control_list_spec [OF v t r ok] by blast
  note m1 = ctl_more_eq [OF w1(4)] and m2 = ctl_more_eq [OF w2(4)]
  let ?w = "w2\<lparr>cw_inst := (cw_inst w2)(i \<mapsto> ?sc\<lparr>sc_num_recordings := int (length rs)\<rparr>)\<rparr>"
  have "dsp_ctl_conf P i conf w = Some (0, ?w)"
    unfolding dsp_ctl_conf_filter [of P i conf] pr
    using w1(1) w2(1) key m1(1) m2(1) assms(7) num by (simp add: cfg_skipped_def)
  moreover have "ctl_nodes ?w i H f ks js"
    using w2(2) by (simp add: ctl_nodes_def insert_commute nodes_ok_def)
  moreover have "map (nd_data ?w) ks = map (Some \<circ> new_control) (rev ps)"
  proof -
    have "nd_data w2 k = Some x" if "nd_data w1 k = Some x" for k x
      using that w2(5) by (auto simp: restrict_map_def split: if_splits)
    then show ?thesis using w1(3) by (simp add: list_eq_iff_nth_eq)
  qed
  moreover have "nd_data w = nd_data ?w |` (- (set ks \<union> set js))"
    using w1(5) w2(5) by (simp add: Int_commute)
  moreover have "dom (nd_links ?w) = dom (nd_links w) \<union> Node ` (set ks \<union> set js)"
    using w1(6) w2(6) by auto
  moreover have "cw_inst ?w = (cw_inst w)(i \<mapsto> \<lparr>sc_num_playbacks = int (length ps), sc_num_recordings = int (length rs), sc_controls = None\<rparr>)"
    using m1(1) m2(1) by simp
  moreover have "cw_next ?w = cw_next w" "cw_free_ref ?w = cw_free_ref w" "cw_closed ?w = cw_closed w"
    using m1 m2 by simp_all
  moreover have "map (nd_data ?w) js = map (Some \<circ> new_control) (rev rs)" using w2(3) by simp
  ultimately show ?thesis by (intro exI conjI)
qed

subsection \<open>Probing\<close>

text \<open>A node once probed: it has a protocol structure and a number of channels.\<close>

lemma probe_control_ok:
  assumes "probe_control P (Some (Node k)) (e, w) = Some (l, e', w')" "0 \<le> e"
  shows "nd_links w' = nd_links w" "nd_count w' = nd_count w" "cw_inst w' = cw_inst w" "cw_next w' = cw_next w"
    "cw_free_ref w' = cw_free_ref w"
    "nd_data w' = (nd_data w)(k := nd_data w' k) \<and> (\<exists>n. nd_data w k = Some n \<and> map_option cn_name (nd_data w' k) = Some (cn_name n))"
    "0 \<le> e' \<Longrightarrow> \<not> l \<and> probed w' k \<and> cw_closed w' = cw_closed w" "e' < 0 \<Longrightarrow> l"
  using assms
  by (auto simp: probe_control_def probed_def dsp_protocol_create_def Let_def Option.bind_eq_Some_conv
      split: if_splits addr.splits)

lemma probed_upd: "probed w k \<Longrightarrow> probed w' k'" if "nd_data w' k' = nd_data w k" for w w' :: ctl_world
  using that by (simp add: probed_def)

definition same_names :: "ctl_world \<Rightarrow> ctl_world \<Rightarrow> nat list \<Rightarrow> bool" where
  "same_names w w' ks \<longleftrightarrow> (\<forall>k. k \<notin> set ks \<longrightarrow> nd_data w' k = nd_data w k)
     \<and> (\<forall>k \<in> set ks. map_option cn_name (nd_data w' k) = map_option cn_name (nd_data w k))"

lemma visit_probe:
  assumes "visit (probe_control P) (map Node ks) (e, w) = Some (e', w')" "0 \<le> e" "0 \<le> e'" "distinct ks"
  shows "nd_links w' = nd_links w \<and> nd_count w' = nd_count w \<and> cw_inst w' = cw_inst w \<and> cw_next w' = cw_next w
    \<and> cw_free_ref w' = cw_free_ref w \<and> cw_closed w' = cw_closed w \<and> same_names w w' ks \<and> (\<forall>k \<in> set ks. probed w' k)
    \<and> dom (nd_data w') = dom (nd_data w)"
  using assms
proof (induction ks arbitrary: e w)
  case Nil
  then show ?case by (simp add: same_names_def)
next
  case (Cons k ks)
  obtain l e1 w1 where p: "probe_control P (Some (Node k)) (e, w) = Some (l, e1, w1)"
    and rest: "(if l then Some (e1, w1) else visit (probe_control P) (map Node ks) (e1, w1)) = Some (e', w')"
    using Cons.prems(1) by (auto simp: Option.bind_eq_Some_conv)
  note o = probe_control_ok [OF p Cons.prems(2)]
  have e1: "0 \<le> e1" using rest o(8) Cons.prems(3) by (cases "0 \<le> e1") auto
  then have "\<not> l" "probed w1 k" "cw_closed w1 = cw_closed w" using o(7) by auto
  then have v: "visit (probe_control P) (map Node ks) (e1, w1) = Some (e', w')" using rest by simp
  note ih = Cons.IH [OF v e1 Cons.prems(3)]
  have kd: "k \<notin> set ks" "distinct ks" using Cons.prems(4) by auto
  obtain n n' where n: "nd_data w k = Some n" "nd_data w1 = (nd_data w)(k \<mapsto> n')" "cn_name n' = cn_name n"
    using o(6) by (cases "nd_data w1 k") auto
  have "nd_data w' k = nd_data w1 k" using ih kd by (auto simp: same_names_def)
  then have "probed w' k" using \<open>probed w1 k\<close> by (simp add: probed_def)
  moreover have "same_names w w' (k # ks)"
    using ih kd n \<open>nd_data w' k = nd_data w1 k\<close> by (auto simp: same_names_def)
  moreover have "dom (nd_data w1) = dom (nd_data w)" unfolding n(2) using n(1) by (simp add: insert_absorb domI)
  then have "dom (nd_data w') = dom (nd_data w)" using ih kd by simp
  ultimately show ?case using ih kd o(1-5) \<open>cw_closed w1 = cw_closed w\<close> by auto
qed

lemma probe_loop:
  assumes "nodes_ok w H f" "h \<in> H"
  shows "list_for_each_entry (\<lambda>st. nd_links (snd st)) h (probe_control P) (e, w) = visit (probe_control P) (map Node (f h)) (e, w)"
proof -
  have "ring (nd_links w) h (map Node (f h))" using holds_ring [OF nodes_okD(1) [OF assms(1)] assms(2)] by simp
  moreover have "nd_links (snd st') = nd_links (snd st)" if "probe_control P (Some x) st = Some (l, st')" for x st l st'
    using that by (auto simp: probe_control_def dsp_protocol_create_def Let_def Option.bind_eq_Some_conv split: addr.splits if_splits)
  ultimately show ?thesis by (intro each_entry_visits) auto
qed

lemma nodes_ok_cong:
  fixes w w' :: ctl_world
  assumes "nodes_ok w H f" "nd_links w' = nd_links w" "dom (nd_data w') = dom (nd_data w)" "nd_count w' = nd_count w"
  shows "nodes_ok w' H f"
  using assms by (simp add: nodes_ok_def)

lemma probe_both:
  assumes "ctl_nodes w i H f ks js" "dsp_ctl_probe_dsp_task P i w = Some (err, w')" "0 \<le> err"
  shows "ctl_nodes w' i H f ks js \<and> (\<forall>k \<in> set ks \<union> set js. probed w' k) \<and> same_names w w' (ks @ js)
    \<and> nd_links w' = nd_links w \<and> cw_inst w' = cw_inst w \<and> cw_next w' = cw_next w \<and> cw_free_ref w' = cw_free_ref w
    \<and> cw_closed w' = cw_closed w \<and> dom (nd_data w') = dom (nd_data w)"
proof -
  let ?H = "{Head i PLAYBACK, Head i CAPTURE} \<union> H" and ?f = "f(Head i PLAYBACK := ks, Head i CAPTURE := js)"
  have n: "nodes_ok w ?H ?f" using assms(1) by (simp add: ctl_nodes_def)
  have d: "distinct ks" "distinct js" using nodes_listed(2) [OF n, of "Head i PLAYBACK"] nodes_listed(2) [OF n, of "Head i CAPTURE"] by auto
  have disj: "set ks \<inter> set js = {}"
    using holds_apart [OF nodes_okD(1) [OF n], of "Head i PLAYBACK" "Head i CAPTURE"] by auto
  obtain e1 w1 where p1: "visit (probe_control P) (map Node ks) (0, w) = Some (e1, w1)"
    and rest: "(if e1 < 0 then Some (e1, w1) else list_for_each_entry (\<lambda>st. nd_links (snd st)) (Head i CAPTURE) (probe_control P) (e1, w1)) = Some (err, w')"
    using assms(2) probe_loop [OF n, of "Head i PLAYBACK" P 0] by (auto simp: dsp_ctl_probe_dsp_task_def Option.bind_eq_Some_conv)
  have e1: "0 \<le> e1" using rest assms(3) by (cases "e1 < 0") auto
  note v1 = visit_probe [OF p1 order_refl e1 d(1)]
  have n1: "nodes_ok w1 ?H ?f" using nodes_ok_cong [OF n] v1 by blast
  have p2: "visit (probe_control P) (map Node js) (e1, w1) = Some (err, w')"
    using rest e1 probe_loop [OF n1, of "Head i CAPTURE" P e1] by simp
  note v2 = visit_probe [OF p2 e1 assms(3) d(2)]
  have n2: "nodes_ok w' ?H ?f" using nodes_ok_cong [OF n1] v2 by blast
  have "probed w' k" if "k \<in> set ks" for k
  proof -
    have "nd_data w' k = nd_data w1 k" using that disj v2 by (auto simp: same_names_def)
    then show ?thesis using that v1 by (auto simp: probed_def)
  qed
  moreover have "same_names w w' (ks @ js)" using v1 v2 disj by (auto simp: same_names_def)
  ultimately show ?thesis using n2 v1 v2 by (auto simp: ctl_nodes_def)
qed

subsection \<open>The array of controls\<close>

definition twice :: "nat list \<Rightarrow> nat list" where
  "twice ks = concat (map (\<lambda>k. [k, k]) ks)"

lemma length_twice: "length (twice ks) = 2 * length ks"
  by (induction ks) (simp_all add: twice_def)

lemma nth_twice: "i < 2 * length ks \<Longrightarrow> twice ks ! i = ks ! (i div 2)"
proof (induction ks arbitrary: i)
  case (Cons k ks)
  have e: "twice (k # ks) = k # k # twice ks" by (simp add: twice_def)
  show ?case
  proof (cases "i < 2")
    case True
    then show ?thesis by (cases "i = 0") (auto simp: e less_2_cases_iff)
  next
    case False
    then obtain j where j: "i = Suc (Suc j)" by (metis Suc_1 add_2_eq_Suc le_Suc_ex linorder_not_less)
    then show ?thesis using Cons by (simp add: e)
  qed
qed simp

lemma upd_at: "length cs = n \<Longrightarrow> (cs @ x # xs)[n := y] = cs @ y # xs"
  by auto

lemma visit_playback:
  assumes "length cs = i" "length tail = 2 * length ks + m"
  shows "visit fill_playback (map Node ks) ((cs @ tail, i), w) =
    Some ((cs @ map Some (twice ks) @ drop (2 * length ks) tail, i + 2 * length ks), w)"
  using assms
proof (induction ks arbitrary: cs i tail)
  case (Cons k ks)
  then obtain a b t where t: "tail = a # b # t" "length t = 2 * length ks + m"
    by (cases tail; cases "tl tail") auto
  have "put_control i k (cs @ tail) = Some (cs @ Some k # b # t)"
    using Cons.prems(1) by (simp add: put_control_def t upd_at)
  moreover have "put_control (Suc i) k (cs @ Some k # b # t) = Some ((cs @ [Some k, Some k]) @ t)"
    using Cons.prems(1) upd_at [of "cs @ [Some k]" "Suc i" b t] by (simp add: put_control_def)
  ultimately show ?case
    using Cons.IH [of "cs @ [Some k, Some k]" "i + 2" t] Cons.prems(1) t by (simp add: fill_playback_def twice_def)
qed (simp add: twice_def)

lemma visit_recording:
  assumes "length cs = i" "length tail = length js + m"
  shows "visit fill_recording (map Node js) ((cs @ tail, i), w) =
    Some ((cs @ map Some js @ drop (length js) tail, i + length js), w)"
  using assms
proof (induction js arbitrary: cs i tail)
  case (Cons k js)
  then obtain a t where t: "tail = a # t" "length t = length js + m" by (cases tail) auto
  have "put_control i k (cs @ tail) = Some ((cs @ [Some k]) @ t)"
    using Cons.prems(1) by (simp add: put_control_def t upd_at)
  then show ?case using Cons.IH [of "cs @ [Some k]" "i + 1" t] Cons.prems(1) t by (simp add: fill_recording_def)
qed simp

lemma fill_loop:
  assumes "nodes_ok w H f" "h \<in> H" "\<And>x st l st'. body (Some x) st = Some (l, st') \<Longrightarrow> snd st' = snd st"
  shows "list_for_each_entry (\<lambda>st. nd_links (snd st)) h body (c, w) = visit body (map Node (f h)) (c, w)"
proof -
  have "ring (nd_links w) h (map Node (f h))" using holds_ring [OF nodes_okD(1) [OF assms(1)] assms(2)] by simp
  then show ?thesis using assms(3) by (intro each_entry_visits) auto
qed

lemma fill_same: "fill_playback x st = Some (l, st') \<Longrightarrow> snd st' = snd st"
  "fill_recording x st = Some (l, st') \<Longrightarrow> snd st' = snd st"
  by (auto simp: fill_playback_def fill_recording_def Option.bind_eq_Some_conv split: option.splits addr.splits prod.splits)

lemma fill_controls_result:
  assumes "ctl_nodes w i H f ks js" "cw_inst w i = Some sc" "sc_num_playbacks sc = int (length ks)"
    "sc_num_recordings sc = int (length js)" "2 * length ks + length js < 2 ^ 31"
    "co_controls P (dsp_ctl_elem_count sc)"
  shows "dsp_ctl_fill_controls P i w = Some (0, w\<lparr>cw_inst := (cw_inst w)(i \<mapsto> sc\<lparr>sc_controls := Some (map Some (twice ks @ js))\<rparr>)\<rparr>)"
proof -
  have n: "nodes_ok w ({Head i PLAYBACK, Head i CAPTURE} \<union> H) (f(Head i PLAYBACK := ks, Head i CAPTURE := js))"
    using assms(1) by (simp add: ctl_nodes_def)
  have num: "dsp_ctl_elem_count sc = 2 * int (length ks) + int (length js)"
    using assms(3-5) by (simp add: dsp_ctl_elem_count_def)
  let ?tail = "replicate (2 * length ks + length js) None"
  have len: "nat (dsp_ctl_elem_count sc) = 2 * length ks + length js" by (simp add: num)
  have "list_for_each_entry (\<lambda>st. nd_links (snd st)) (Head i PLAYBACK) fill_playback ((?tail, 0), w)
      = visit fill_playback (map Node ks) ((?tail, 0), w)"
    using fill_loop [OF n _ fill_same(1), of "Head i PLAYBACK"] by simp
  then have p: "list_for_each_entry (\<lambda>st. nd_links (snd st)) (Head i PLAYBACK) fill_playback ((?tail, 0), w)
      = Some ((map Some (twice ks) @ replicate (length js) None, 2 * length ks), w)"
    using visit_playback [of "[]" 0 ?tail ks "length js" w] by (simp add: drop_replicate)
  have "list_for_each_entry (\<lambda>st. nd_links (snd st)) (Head i CAPTURE) fill_recording
        ((map Some (twice ks) @ replicate (length js) None, 2 * length ks), w)
      = visit fill_recording (map Node js) ((map Some (twice ks) @ replicate (length js) None, 2 * length ks), w)"
    using fill_loop [OF n _ fill_same(2), of "Head i CAPTURE"] by simp
  then have r: "list_for_each_entry (\<lambda>st. nd_links (snd st)) (Head i CAPTURE) fill_recording
        ((map Some (twice ks) @ replicate (length js) None, 2 * length ks), w)
      = Some ((map Some (twice ks) @ map Some js, 2 * length ks + length js), w)"
    using visit_recording [of "map Some (twice ks)" "2 * length ks" "replicate (length js) None" js 0 w]
    by (simp add: length_twice)
  show ?thesis using assms(2,6) p r len by (simp add: dsp_ctl_fill_controls_def Let_def)
qed

lemma fill_controls_array:
  assumes "ctl_nodes w i H f ks js" "cw_inst w i = Some sc" "sc_num_playbacks sc = int (length ks)"
    "sc_num_recordings sc = int (length js)" "2 * length ks + length js < 2 ^ 31"
    "dsp_ctl_fill_controls P i w = Some (err, w')" "0 \<le> err"
  shows "w' = w\<lparr>cw_inst := (cw_inst w)(i \<mapsto> sc\<lparr>sc_controls := Some (map Some (twice ks @ js))\<rparr>)\<rparr>"
proof -
  have "co_controls P (dsp_ctl_elem_count sc)"
    using assms(2,6,7) by (auto simp: dsp_ctl_fill_controls_def Let_def split: if_splits)
  from fill_controls_result [OF assms(1-5) this] assms(6) show ?thesis by simp
qed

end
