(* ===== verification/MaemoPcm.thy ===== *)
theory MaemoPcm
  imports MaemoNodes Areas
begin

section \<open>The Maemo PCM plugin (maemo/alsa-dsp.c)\<close>

text \<open>
  The ioplug that plays and records through a DSP task node. \<open>alsa_dsp\<close> is
  \<open>snd_pcm_alsa_dsp_t\<close> without the embedded \<open>snd_pcm_ioplug_t\<close> (an argument, as in the
  callbacks) and the two device lists, whose heads are \<open>Head i PLAYBACK\<close> and
  \<open>Head i CAPTURE\<close> of instance \<open>i\<close>; \<open>ad_mic\<close> records what was written to the microphone's
  control file. \<open>pcm_world\<close> is the process: the lists, the live instances and the static
  pointer \<open>free_ref\<close>. Dereferencing NULL or freed memory, a read outside an array and a
  division by zero have no result. Samples are bytes; the words the DSP gets are little-endian.
\<close>

subsection \<open>State\<close>

record alsa_dsp =
  ad_protocol :: "dsp option"
  ad_format :: int
  ad_sample_rate :: int
  ad_bytes_per_frame :: int
  ad_hw_pointer :: u64
  ad_mic :: "string list"

record pcm_env =
  pe_dsp :: dsp_env
  pe_mic :: bool
  pe_width :: "pcm_format \<Rightarrow> int"

record pcm_world = "string nodes" +
  pw_inst :: "nat \<rightharpoonup> alsa_dsp"
  pw_next :: nat
  pw_free_ref :: "nat option"

definition on_dsp :: "(dsp \<Rightarrow> ('a \<times> dsp) option) \<Rightarrow> alsa_dsp \<Rightarrow> ('a \<times> alsa_dsp) option" where
  "on_dsp f ad = do { d \<leftarrow> ad_protocol ad; (x, d) \<leftarrow> f d; Some (x, ad\<lparr>ad_protocol := Some d\<rparr>) }"

definition set_mic :: "pcm_env \<Rightarrow> int \<Rightarrow> alsa_dsp \<Rightarrow> alsa_dsp" where
  "set_mic E enabled ad =
     (case snd (dsp_protocol_set_mic_enabled (pe_mic E) enabled) of
        None \<Rightarrow> ad
      | Some s \<Rightarrow> ad\<lparr>ad_mic := ad_mic ad @ [s]\<rparr>)"

subsection \<open>Start, stop, pause, pointer\<close>

definition alsa_dsp_start :: "pcm_env \<Rightarrow> ioplug \<Rightarrow> alsa_dsp \<Rightarrow> (int \<times> alsa_dsp) option" where
  "alsa_dsp_start E io ad =
     (let ad = (if io_stream io \<noteq> PLAYBACK then set_mic E 1 ad else ad)
      in on_dsp (dsp_protocol_send_play (pe_dsp E)) ad)"

definition alsa_dsp_stop :: "pcm_env \<Rightarrow> ioplug \<Rightarrow> alsa_dsp \<Rightarrow> (int \<times> alsa_dsp) option" where
  "alsa_dsp_stop E io ad = do {
     (ret, ad) \<leftarrow> on_dsp (dsp_protocol_send_stop (pe_dsp E)) ad;
     Some (ret, if io_stream io \<noteq> PLAYBACK then set_mic E 0 ad else ad)
   }"

definition alsa_dsp_pointer :: "ioplug \<Rightarrow> alsa_dsp \<Rightarrow> int \<times> alsa_dsp" where
  "alsa_dsp_pointer io ad =
     (sint (ad_hw_pointer ad),
      ad\<lparr>ad_hw_pointer := (if ad_hw_pointer ad = 0
                            then io_period_size io * word_of_int (ad_bytes_per_frame ad) else 0)\<rparr>)"

definition alsa_dsp_pause :: "pcm_env \<Rightarrow> alsa_dsp \<Rightarrow> (int \<times> alsa_dsp) option" where
  "alsa_dsp_pause E ad = on_dsp (dsp_protocol_send_pause (pe_dsp E)) ad"

definition alsa_dsp_resume :: "pcm_env \<Rightarrow> alsa_dsp \<Rightarrow> (int \<times> alsa_dsp) option" where
  "alsa_dsp_resume E ad = on_dsp (dsp_protocol_send_play (pe_dsp E)) ad"

subsection \<open>Transfer\<close>

definition word_at :: "bytes \<Rightarrow> nat \<Rightarrow> u16" where
  "word_at mem a = ucast (mem a) + 256 * ucast (mem (a + 1))"

definition read_words :: "bytes \<Rightarrow> nat \<Rightarrow> nat \<Rightarrow> u16 list" where
  "read_words mem a n = map (\<lambda>k. word_at mem (a + 2 * k)) [0..<n]"

fun write_words :: "bytes \<Rightarrow> nat \<Rightarrow> u16 list \<Rightarrow> bytes" where
  "write_words mem a [] = mem"
| "write_words mem a (w # ws) = write_words (mem(a := ucast w, a + 1 := ucast (w div 256))) (a + 2) ws"

text \<open>
  \<open>bytes\<close> is an \<open>int\<close> compared with the unsigned buffer size; the count \<open>words\<close> is passed on as
  an \<open>unsigned short\<close> for playback.
\<close>

definition transfer_bytes :: "alsa_dsp \<Rightarrow> dsp \<Rightarrow> u64 \<Rightarrow> int" where
  "transfer_bytes ad d sz =
     (let bytes = c_int (uint (sz * word_of_int (ad_bytes_per_frame ad)))
      in if (word_of_int bytes :: u32) > d_mmap_size d then c_int (uint (d_mmap_size d)) else bytes)"

definition transfer_buf :: "area \<Rightarrow> u64 \<Rightarrow> nat" where
  "transfer_buf a offset =
     ar_addr a + unat ((ucast (ar_first a) + ucast (ar_step a) * offset) div 8 :: u64)"

definition alsa_dsp_transfer ::
    "pcm_env \<Rightarrow> ioplug \<Rightarrow> area \<Rightarrow> u64 \<Rightarrow> u64 \<Rightarrow> bytes \<Rightarrow> alsa_dsp \<Rightarrow> (int \<times> bytes \<times> alsa_dsp) option" where
  "alsa_dsp_transfer E io areas offset sz mem ad = do {
     d \<leftarrow> ad_protocol ad;
     words \<leftarrow> c_quot (transfer_bytes ad d sz) 2;
     ad \<leftarrow> (if d_state d \<noteq> STATE_PLAYING then map_option snd (alsa_dsp_start E io ad) else Some ad);
     let buf = transfer_buf areas offset;
     (result, mem, ad) \<leftarrow>
       (if io_stream io = PLAYBACK then do {
          (r, ad) \<leftarrow> on_dsp (dsp_protocol_send_audio_data (pe_dsp E)
                      (read_words mem buf (unat (word_of_int words :: u16)))) ad;
          Some (r, mem, ad)
        } else do {
          ((r, data), ad) \<leftarrow> on_dsp (dsp_protocol_receive_audio_data (pe_dsp E) words) ad;
          Some (r, (case data of None \<Rightarrow> mem | Some ws \<Rightarrow> write_words mem buf ws), ad)
        });
     result \<leftarrow> c_quot (result * 2) (ad_bytes_per_frame ad);
     Some (result, mem, ad\<lparr>ad_hw_pointer := ad_hw_pointer ad + word_of_int result\<rparr>)
   }"

subsection \<open>Parameters\<close>

text \<open>
  \<open>map_value\<close> looks at \<open>steps\<close> pairs of the array; the callers pass the number of its
  elements for playback, twice the number of pairs. A read past the end is undefined.
\<close>

fun map_value_from :: "int list \<Rightarrow> int \<Rightarrow> nat \<Rightarrow> nat \<Rightarrow> int option" where
  "map_value_from m value i 0 = Some (- 1)"
| "map_value_from m value i (Suc n) =
     (if 2 * i + 1 \<ge> length m then None
      else if m ! (2 * i) = value then Some (m ! (2 * i + 1))
      else map_value_from m value (Suc i) n)"

definition map_value :: "int list \<Rightarrow> int \<Rightarrow> nat \<Rightarrow> int option" where
  "map_value m value steps = map_value_from m value 0 steps"

definition map_sample_rates :: "int list" where
  "map_sample_rates = [8000, 0x0B, 11025, 0x0A, 12000, 0x09, 16000, 0x08, 22050, 0x07, 24000, 0x06,
     32000, 0x05, 44100, 0x04, 48000, 0x03]"

definition map_formats :: "int list" where
  "map_formats = [int CODE_A_LAW, 0x07, int CODE_MU_LAW, 0x08, int CODE_S16_LE, 0x02, int CODE_U8, 0x01,
     int CODE_S8, 0x04, int CODE_S16_BE, 0x03, int CODE_U16_LE, 0x05, int CODE_U16_BE, 0x06]"

definition alsa_dsp_hw_params :: "pcm_env \<Rightarrow> ioplug \<Rightarrow> alsa_dsp \<Rightarrow> (int \<times> alsa_dsp) option" where
  "alsa_dsp_hw_params E io ad = do {
     fmt \<leftarrow> map_value map_formats (int (format_code (io_format io)))
             (if io_stream io = PLAYBACK then length map_formats else 3);
     rate \<leftarrow> map_value map_sample_rates (c_int (uint (io_rate io)))
             (if io_stream io = PLAYBACK then length map_sample_rates else 1);
     Some (if fmt < 0 \<or> rate < 0 then - EINVAL else 0,
           ad\<lparr>ad_format := fmt, ad_sample_rate := rate,
             ad_bytes_per_frame := c_int (uint ((word_of_int (pe_width E (io_format io)) * io_channels io) div 8 :: u32))\<rparr>)
   }"

abbreviation (input) DSP_CMD_SET_PARAMS :: u16 where "DSP_CMD_SET_PARAMS \<equiv> 0x02"
abbreviation (input) DSP_CMD_SET_SPEECH_PARAMS :: u16 where "DSP_CMD_SET_SPEECH_PARAMS \<equiv> 0x26"

text \<open>\<open>strdup(NULL)\<close> is undefined; the result of reopening the node is not looked at.\<close>

definition reopen_node :: "dsp_env \<Rightarrow> dsp \<Rightarrow> (int \<times> dsp) option" where
  "reopen_node E d = do {
     tmp \<leftarrow> d_device d;
     (ret, d) \<leftarrow> dsp_protocol_close_node E d;
     if ret = 0 then do { (_, d) \<leftarrow> dsp_protocol_open_node E tmp d; Some (0, d) } else Some (ret, d)
   }"

definition send_params :: "pcm_env \<Rightarrow> ioplug \<Rightarrow> alsa_dsp \<Rightarrow> dsp \<Rightarrow> (int \<times> dsp) option" where
  "send_params E io ad d =
     (if io_stream io = PLAYBACK then
        dsp_protocol_send_audio_params (pe_dsp E)
          \<lparr>ap_dsp_cmd = DSP_CMD_SET_PARAMS, ap_dsp_audio_fmt = word_of_int (ad_format ad),
           ap_sample_rate = word_of_int (ad_sample_rate ad), ap_number_channels = ucast (io_channels io),
           ap_ds_stream_id = 0, ap_stream_priority = 0\<rparr> d
      else
        dsp_protocol_send_speech_params (pe_dsp E)
          \<lparr>sp_dsp_cmd = DSP_CMD_SET_SPEECH_PARAMS, sp_audio_fmt = word_of_int (ad_format ad),
           sp_sample_rate = word_of_int (ad_sample_rate ad), sp_ds_stream_id = 0, sp_stream_priority = 0,
           sp_frame_size = ucast (io_period_size io)\<rparr> d)"

definition alsa_dsp_prepare :: "pcm_env \<Rightarrow> ioplug \<Rightarrow> alsa_dsp \<Rightarrow> (int \<times> alsa_dsp) option" where
  "alsa_dsp_prepare E io ad =
     (let ad = ad\<lparr>ad_hw_pointer := 0\<rparr> in
      on_dsp (\<lambda>d. do {
        (ret, d) \<leftarrow> (if d_state d \<noteq> STATE_INITIALISED then reopen_node (pe_dsp E) d else Some (0, d));
        if ret = 0 then do { (r, d) \<leftarrow> send_params E io ad d; Some (if r < 0 then - EIO else 0, d) }
        else Some (ret, d)
      }) ad)"

definition alsa_dsp_configure_constraints :: "(io_call \<Rightarrow> int) \<Rightarrow> pcm_stream \<Rightarrow> int" where
  "alsa_dsp_configure_constraints setp stream =
     (let bytes_list = [2 ^ 11, 2 ^ 12];
          bytes_list_rec = [80, 160, 240, 320, 400, 480, 560, 640, 720, 800]
      in io_calls setp
        (Io_list IO_ACCESS [RW_INTERLEAVED] #
         (if stream = PLAYBACK then
            [Io_list IO_FORMAT [CODE_U8, CODE_S16_LE, CODE_S16_BE, CODE_S8, CODE_U16_LE, CODE_U16_BE,
               CODE_A_LAW, CODE_MU_LAW],
             Io_minmax IO_CHANNELS 1 2, Io_minmax IO_RATE 8000 48000,
             Io_list IO_PERIOD_BYTES bytes_list, Io_list IO_BUFFER_BYTES bytes_list]
          else
            [Io_list IO_FORMAT [CODE_S16_LE, CODE_A_LAW, CODE_MU_LAW],
             Io_minmax IO_CHANNELS 1 1, Io_minmax IO_RATE 8000 8000,
             Io_list IO_PERIOD_BYTES bytes_list_rec, Io_list IO_BUFFER_BYTES bytes_list_rec]) @
         [Io_minmax IO_PERIODS 2 1024]))"

end
