(* ===== verification/MaemoPcmOpen.thy ===== *)
theory MaemoPcmOpen
  imports MaemoPcm
begin

section \<open>The Maemo PCM plugin: opening, closing, unloading\<close>

text \<open>
  The second half of maemo/alsa-dsp.c: the device lists from the configuration, the search for a
  node that opens, the entry point, the close callback and the destructor of the shared object.
  The results of \<open>calloc\<close>, \<open>malloc\<close>, \<open>snd_pcm_ioplug_create\<close> and of the constraint calls are
  in \<open>pcm_open_env\<close>, and so is what \<open>snd_pcm_ioplug_delete\<close> does to the process.
\<close>

record 'c pcm_open_env =
  po_conf :: "'c tree_api"
  po_strtol :: "string \<Rightarrow> int \<times> string \<times> int"
  po_calloc :: bool
  po_malloc :: "nat \<Rightarrow> bool"
  po_protocol :: bool
  po_dsp :: dsp_env
  po_create :: int
  po_setp :: "io_call \<Rightarrow> int"
  po_delete :: "nat \<Rightarrow> pcm_world \<Rightarrow> pcm_world option"

definition pcm_initial :: pcm_world where
  "pcm_initial = \<lparr>nd_links = Map.empty, nd_data = Map.empty, nd_count = 0, pw_inst = Map.empty,
     pw_next = 0, pw_free_ref = None\<rparr>"

subsection \<open>The device lists\<close>

definition free_device_list :: "addr \<Rightarrow> pcm_world \<Rightarrow> pcm_world option" where
  "free_device_list h w = release_list (\<lambda>_ w. Some w) h w"

definition fill_string_list :: "'c pcm_open_env \<Rightarrow> 'c \<Rightarrow> addr \<Rightarrow> pcm_world \<Rightarrow> (int \<times> pcm_world) option" where
  "fill_string_list P n h w = do {
     links \<leftarrow> INIT_LIST_HEAD (Some h) (nd_links w);
     (r, w) \<leftarrow> fill_entries (po_conf P) (po_strtol P) (po_malloc P) id h
                (cfg_children (po_conf P) n) 0 (w\<lparr>nd_links := links\<rparr>);
     Some (case r of Inl err \<Rightarrow> err | Inr _ \<Rightarrow> 0, w)
   }"

text \<open>
  The state of the search is the last result beside the process; the entry's name is read
  through its address.
\<close>

definition try_device :: "dsp_env \<Rightarrow> nat \<Rightarrow> addr option \<Rightarrow> int \<times> pcm_world \<Rightarrow> (bool \<times> int \<times> pcm_world) option" where
  "try_device E i tmp st =
     (let w = snd st in
      case tmp of
        Some (Node k) \<Rightarrow> do {
          device \<leftarrow> nd_data w k;
          ad \<leftarrow> pw_inst w i;
          (err, ad) \<leftarrow> on_dsp (dsp_protocol_open_node E device) ad;
          if err < 0 then do {
            (_, ad) \<leftarrow> on_dsp (dsp_protocol_close_node E) ad;
            Some (False, err, w\<lparr>pw_inst := (pw_inst w)(i \<mapsto> ad)\<rparr>)
          } else Some (True, err, w\<lparr>pw_inst := (pw_inst w)(i \<mapsto> ad)\<rparr>)
        }
      | _ \<Rightarrow> None)"

definition alsa_dsp_open_dsp_task :: "dsp_env \<Rightarrow> nat \<Rightarrow> addr \<Rightarrow> pcm_world \<Rightarrow> (int \<times> pcm_world) option" where
  "alsa_dsp_open_dsp_task E i h w =
     list_for_each_entry (\<lambda>st. nd_links (snd st)) h (try_device E i) (- EINVAL, w)"

subsection \<open>Instances\<close>

definition calloc_inst :: "pcm_world \<Rightarrow> nat \<times> pcm_world" where
  "calloc_inst w =
     (let i = pw_next w; zero = \<lparr>lh_next = None, lh_prev = None\<rparr> in
      (i, w\<lparr>nd_links := (nd_links w)(Head i PLAYBACK \<mapsto> zero, Head i CAPTURE \<mapsto> zero),
            pw_inst := (pw_inst w)(i \<mapsto> \<lparr>ad_protocol = None, ad_format = 0, ad_sample_rate = 0,
                                     ad_bytes_per_frame = 0, ad_hw_pointer = 0, ad_mic = []\<rparr>),
            pw_next := Suc i\<rparr>))"

definition free_inst :: "nat \<Rightarrow> pcm_world \<Rightarrow> pcm_world option" where
  "free_inst i w = do {
     _ \<leftarrow> pw_inst w i;
     Some (w\<lparr>nd_links := (nd_links w)(Head i PLAYBACK := None, Head i CAPTURE := None),
            pw_inst := (pw_inst w)(i := None)\<rparr>)
   }"

definition alsa_dsp_close :: "dsp_env \<Rightarrow> nat \<Rightarrow> pcm_world \<Rightarrow> (int \<times> pcm_world) option" where
  "alsa_dsp_close E i w = do {
     ad \<leftarrow> pw_inst w i;
     (ret, ad) \<leftarrow> on_dsp (dsp_protocol_close_node E) ad;
     let w = w\<lparr>pw_inst := (pw_inst w)(i \<mapsto> ad\<lparr>ad_protocol := None\<rparr>)\<rparr>;
     w \<leftarrow> free_device_list (Head i PLAYBACK) w;
     w \<leftarrow> free_device_list (Head i CAPTURE) w;
     Some (ret, w)
   }"

text \<open>The configuration loop: 0 or the error that ends it.\<close>

fun alsa_dsp_conf :: "'c pcm_open_env \<Rightarrow> nat \<Rightarrow> 'c list \<Rightarrow> pcm_world \<Rightarrow> (int \<times> pcm_world) option" where
  "alsa_dsp_conf P i [] w = Some (0, w)"
| "alsa_dsp_conf P i (n # ns) w =
     (case cfg_id (po_conf P) n of
        None \<Rightarrow> alsa_dsp_conf P i ns w
      | Some id_str \<Rightarrow>
          if cfg_skipped id_str then alsa_dsp_conf P i ns w
          else if id_str = ''playback_device_file'' \<or> id_str = ''recording_device_file'' then
            (if cfg_compound (po_conf P) n then do {
               (err, w) \<leftarrow> fill_string_list P n
                  (Head i (if id_str = ''playback_device_file'' then PLAYBACK else CAPTURE)) w;
               if err < 0 then Some (err, w) else alsa_dsp_conf P i ns w
             } else Some (- EINVAL, w))
          else Some (- EINVAL, w))"

text \<open>
  \<open>SND_PCM_PLUGIN_DEFINE_FUNC(alsa_dsp)\<close> from the allocation to the label \<open>error\<close>, which frees
  the structure and nothing it refers to.
\<close>

definition alsa_dsp_setup :: "'c pcm_open_env \<Rightarrow> 'c list \<Rightarrow> pcm_stream \<Rightarrow> nat \<Rightarrow> pcm_world \<Rightarrow> (int \<times> pcm_world) option" where
  "alsa_dsp_setup P conf stream i w = do {
     (err, w) \<leftarrow> alsa_dsp_conf P i conf w;
     if err < 0 then Some (err, w)
     else
       let (err, d) = dsp_protocol_create (po_protocol P) in
       if err < 0 then Some (err, w)
       else do {
         ad \<leftarrow> pw_inst w i;
         let w = w\<lparr>pw_inst := (pw_inst w)(i \<mapsto> ad\<lparr>ad_protocol := d\<rparr>)\<rparr>;
         (err, w) \<leftarrow> alsa_dsp_open_dsp_task (po_dsp P) i (Head i stream) w;
         if err < 0 then Some (err, w)
         else
           let w = w\<lparr>pw_free_ref := Some i\<rparr> in
           if po_create P < 0 then Some (po_create P, w)
           else
             let err = alsa_dsp_configure_constraints (po_setp P) stream in
             if err < 0 then do { w \<leftarrow> po_delete P i w; Some (err, w) } else Some (0, w)
       }
   }"

definition alsa_dsp_open :: "'c pcm_open_env \<Rightarrow> 'c list \<Rightarrow> pcm_stream \<Rightarrow> pcm_world \<Rightarrow> (int \<times> pcm_world) option" where
  "alsa_dsp_open P conf stream w =
     (if \<not> po_calloc P then Some (- ENOMEM, w)
      else
        let (i, w) = calloc_inst w in do {
          (err, w) \<leftarrow> alsa_dsp_setup P conf stream i w;
          if err < 0 then do { w \<leftarrow> free_inst i w; Some (err, w) } else Some (0, w)
        })"

definition alsa_dsp_destructor :: "dsp_env \<Rightarrow> pcm_world \<Rightarrow> pcm_world option" where
  "alsa_dsp_destructor E w =
     (case pw_free_ref w of
        None \<Rightarrow> Some w
      | Some i \<Rightarrow> do {
          ad \<leftarrow> pw_inst w i;
          ad \<leftarrow> (if ad_protocol ad \<noteq> None then do {
                   (_, ad) \<leftarrow> on_dsp (dsp_protocol_close_node E) ad;
                   Some (ad\<lparr>ad_protocol := None\<rparr>)
                 } else Some ad);
          w \<leftarrow> free_device_list (Head i PLAYBACK) (w\<lparr>pw_inst := (pw_inst w)(i \<mapsto> ad)\<rparr>);
          w \<leftarrow> free_device_list (Head i CAPTURE) w;
          w \<leftarrow> free_inst i w;
          Some (w\<lparr>pw_free_ref := None\<rparr>)
        })"

end
