(* ===== verification/MaemoPcmProofs.thy ===== *)
theory MaemoPcmProofs
  imports MaemoPcmOpen MaemoData
begin

section \<open>The Maemo PCM plugin: lists, life cycle\<close>

text \<open>
  The device lists through the laws of \<open>MaemoNodes\<close>, the search for a device as a search
  through a list of names, and what an instance owns from \<open>open\<close> to the unloading of the
  plugin.
\<close>

interpretation device_nodes: release_hook "\<lambda>_ w. Some w" "\<lambda>_. True" "\<lambda>_ w. w" nodes.more "\<lambda>_ m. m"
  by unfold_locales simp_all

lemma fold_skip: "fold (\<lambda>_ m. m) xs m = m"
  by (induction xs) simp_all

lemma free_device_list_frees:
  assumes "nodes_ok w H f" "h \<in> H"
  shows "\<exists>w'. free_device_list h w = Some w' \<and> nodes_ok w' H (f(h := []))
    \<and> nd_data w' = nd_data w |` (- set (f h)) \<and> nodes.more w' = nodes.more w
    \<and> dom (nd_links w') = dom (nd_links w) - Node ` set (f h)
    \<and> (\<forall>u. u \<notin> H \<union> range Node \<longrightarrow> nd_links w' u = nd_links w u)"
  using device_nodes.release_list_frees [OF assms] by (auto simp: free_device_list_def fold_skip)

definition names_at :: "pcm_world \<Rightarrow> nat list \<Rightarrow> string list \<Rightarrow> bool" where
  "names_at w ks names \<longleftrightarrow> map (nd_data w) ks = map Some names"

lemma fill_string_list_spec:
  assumes "nodes_ok w H f" "Head i s \<in> dom (nd_links w)" "Head i s \<notin> H"
    and "picked (po_conf P) (po_strtol P) (cfg_children (po_conf P) n) 0 = Some names" "\<And>k. po_malloc P k"
  shows "\<exists>ks w'. fill_string_list P n (Head i s) w = Some (0, w')
    \<and> nodes_ok w' (insert (Head i s) H) (f(Head i s := ks)) \<and> names_at w' ks (rev names)
    \<and> nodes.more w' = nodes.more w \<and> nd_data w = nd_data w' |` (- set ks) \<and> dom (nd_links w') = dom (nd_links w) \<union> Node ` set ks
    \<and> (\<forall>u. u \<notin> insert (Head i s) H \<union> range Node \<longrightarrow> nd_links w' u = nd_links w u)"
  using init_fill_spec [OF assms(1-4), of "po_malloc P" id] assms(5)
  by (auto simp: fill_string_list_def names_at_def)

subsection \<open>The configuration\<close>

text \<open>
  A configuration that names both lists: apart from entries every plugin skips it has one
  compound for each, in either order.
\<close>

definition names_list :: "'c pcm_open_env \<Rightarrow> 'c \<Rightarrow> string \<Rightarrow> string list \<Rightarrow> bool" where
  "names_list P n key names \<longleftrightarrow> conf_key (po_conf P) n = Some key \<and> cfg_compound (po_conf P) n
     \<and> picked (po_conf P) (po_strtol P) (cfg_children (po_conf P) n) 0 = Some names"

definition pcm_conf_names :: "'c pcm_open_env \<Rightarrow> 'c list \<Rightarrow> string list \<Rightarrow> string list \<Rightarrow> bool" where
  "pcm_conf_names P conf ps rs \<longleftrightarrow> (\<forall>k. po_malloc P k) \<and> (\<exists>p r.
     filter (\<lambda>n. conf_key (po_conf P) n \<noteq> None) conf \<in> {[p, r], [r, p]}
     \<and> names_list P p ''playback_device_file'' ps \<and> names_list P r ''recording_device_file'' rs)"

lemma alsa_dsp_conf_filter:
  "alsa_dsp_conf P i conf w = alsa_dsp_conf P i (filter (\<lambda>n. conf_key (po_conf P) n \<noteq> None) conf) w"
proof (induction conf arbitrary: w)
  case (Cons n ns)
  have "alsa_dsp_conf P i (n # ns) w = alsa_dsp_conf P i ns w" if "conf_key (po_conf P) n = None"
    using that by (auto simp: conf_key_def split: option.splits if_splits)
  moreover have "alsa_dsp_conf P i (filter (\<lambda>n. conf_key (po_conf P) n \<noteq> None) ns) = alsa_dsp_conf P i ns"
    by (rule ext) (rule Cons.IH [symmetric])
  ultimately show ?case
    by (cases "conf_key (po_conf P) n = None") (simp_all only: filter.simps alsa_dsp_conf.simps simp_thms if_True if_False)
qed simp

lemma conf_list_step:
  assumes "names_list P n key names" "key = ''playback_device_file'' \<and> s = PLAYBACK \<or> key = ''recording_device_file'' \<and> s = CAPTURE"
    and "fill_string_list P n (Head i s) w = Some (0, w')"
  shows "alsa_dsp_conf P i (n # ns) w = alsa_dsp_conf P i ns w'"
  using assms by (auto simp: names_list_def conf_key_def split: option.splits if_splits)

definition world_ok :: "pcm_world \<Rightarrow> addr set \<Rightarrow> (addr \<Rightarrow> nat list) \<Rightarrow> bool" where
  "world_ok w H f \<longleftrightarrow> nodes_ok w H f \<and> (\<forall>i s. pw_next w \<le> i \<longrightarrow> Head i s \<notin> dom (nd_links w))"

lemma conf_two_lists:
  assumes "nodes_ok w H f" "Head i s \<in> dom (nd_links w)" "Head i t \<in> dom (nd_links w)" "s \<noteq> t"
    "Head i s \<notin> H" "Head i t \<notin> H" "\<forall>k. po_malloc P k"
    "names_list P n key names" "key = ''playback_device_file'' \<and> s = PLAYBACK \<or> key = ''recording_device_file'' \<and> s = CAPTURE"
    "names_list P m key' names'" "key' = ''playback_device_file'' \<and> t = PLAYBACK \<or> key' = ''recording_device_file'' \<and> t = CAPTURE"
  shows "\<exists>ks js w'. alsa_dsp_conf P i [n, m] w = Some (0, w')
    \<and> nodes_ok w' ({Head i s, Head i t} \<union> H) (f(Head i s := ks, Head i t := js))
    \<and> names_at w' ks (rev names) \<and> names_at w' js (rev names') \<and> nodes.more w' = nodes.more w
    \<and> nd_data w = nd_data w' |` (- (set ks \<union> set js)) \<and> dom (nd_links w') = dom (nd_links w) \<union> Node ` (set ks \<union> set js)"
proof -
  obtain ks w1 where w1: "fill_string_list P n (Head i s) w = Some (0, w1)"
    "nodes_ok w1 (insert (Head i s) H) (f(Head i s := ks))" "names_at w1 ks (rev names)"
    "nodes.more w1 = nodes.more w" "nd_data w = nd_data w1 |` (- set ks)" "dom (nd_links w1) = dom (nd_links w) \<union> Node ` set ks"
    using fill_string_list_spec [OF assms(1,2,5), of P n names] assms(7,8) by (auto simp: names_list_def)
  have t: "Head i t \<in> dom (nd_links w1)" "Head i t \<notin> insert (Head i s) H" using w1(6) assms(3,4,6) by auto
  obtain js w2 where w2: "fill_string_list P m (Head i t) w1 = Some (0, w2)"
    "nodes_ok w2 (insert (Head i t) (insert (Head i s) H)) ((f(Head i s := ks))(Head i t := js))" "names_at w2 js (rev names')"
    "nodes.more w2 = nodes.more w1" "nd_data w1 = nd_data w2 |` (- set js)" "dom (nd_links w2) = dom (nd_links w1) \<union> Node ` set js"
    using fill_string_list_spec [OF w1(2) t, of P m names'] assms(7,10) by (auto simp: names_list_def)
  have "alsa_dsp_conf P i [n, m] w = Some (0, w2)"
    using conf_list_step [OF assms(8,9) w1(1)] conf_list_step [OF assms(10,11) w2(1)] by simp
  moreover have "nodes_ok w2 ({Head i s, Head i t} \<union> H) (f(Head i s := ks, Head i t := js))"
    using w2(2) by (simp add: insert_commute)
  moreover have "names_at w2 ks (rev names)"
  proof -
    have "nd_data w2 k = Some x" if "nd_data w1 k = Some x" for k x
      using that w2(5) by (auto simp: restrict_map_def split: if_splits)
    then show ?thesis using w1(3) by (simp add: names_at_def list_eq_iff_nth_eq)
  qed
  moreover have "nd_data w = nd_data w2 |` (- (set ks \<union> set js))"
    unfolding w1(5) w2(5) by (simp add: Int_commute)
  moreover have "dom (nd_links w2) = dom (nd_links w) \<union> Node ` (set ks \<union> set js)"
    unfolding w2(6) w1(6) by auto
  moreover have "nodes.more w2 = nodes.more w" using w1(4) w2(4) by simp
  moreover note w2(3)
  ultimately show ?thesis by (intro exI conjI)
qed

subsection \<open>The search for a device\<close>

text \<open>
  On names: the first one whose node opens; after a failure the connection is closed again. The
  result is that of the last attempt.
\<close>

fun search_devices :: "dsp_env \<Rightarrow> int \<Rightarrow> string list \<Rightarrow> dsp \<Rightarrow> (int \<times> dsp) option" where
  "search_devices E err [] d = Some (err, d)"
| "search_devices E err (name # names) d = do {
     (err, d) \<leftarrow> dsp_protocol_open_node E name d;
     if err < 0 then do { (_, d) \<leftarrow> dsp_protocol_close_node E d; search_devices E err names d }
     else Some (err, d)
   }"

definition with_dsp :: "nat \<Rightarrow> alsa_dsp \<Rightarrow> pcm_world \<Rightarrow> dsp \<Rightarrow> pcm_world" where
  "with_dsp i ad w d = w\<lparr>pw_inst := (pw_inst w)(i \<mapsto> ad\<lparr>ad_protocol := Some d\<rparr>)\<rparr>"

lemma with_dsp_view [simp]:
  "nd_links (with_dsp i ad w d) = nd_links w" "nd_data (with_dsp i ad w d) = nd_data w"
  "pw_inst (with_dsp i ad w d) i = Some (ad\<lparr>ad_protocol := Some d\<rparr>)"
  "with_dsp i (ad\<lparr>ad_protocol := p\<rparr>) w d = with_dsp i ad w d"
  "with_dsp i ad (with_dsp i ad w d') d = with_dsp i ad w d"
  by (simp_all add: with_dsp_def)

lemma try_device_eq:
  assumes "nd_data w k = Some name"
  shows "try_device E i (Some (Node k)) (e, with_dsp i ad w d) =
    (do { (err, d) \<leftarrow> dsp_protocol_open_node E name d;
          if err < 0 then do { (_, d) \<leftarrow> dsp_protocol_close_node E d; Some (False, err, with_dsp i ad w d) }
          else Some (True, err, with_dsp i ad w d) })"
  using assms by (auto simp: try_device_def on_dsp_def with_dsp_def split: Option.bind_splits)

lemma visit_devices:
  assumes "map (nd_data w) ks = map Some names"
  shows "visit (try_device E i) (map Node ks) (err, with_dsp i ad w d) =
    map_option (\<lambda>(err, d). (err, with_dsp i ad w d)) (search_devices E err names d)"
  using assms
proof (induction ks arbitrary: names err d)
  case (Cons k ks)
  then obtain name rest where n: "names = name # rest" "nd_data w k = Some name" "map (nd_data w) ks = map Some rest"
    by (cases names) auto
  show ?case
  proof (cases "dsp_protocol_open_node E name d")
    case None
    then show ?thesis by (simp add: try_device_eq [OF n(2)] n(1))
  next
    case (Some r)
    then show ?thesis using Cons.IH [OF n(3)]
      by (cases "dsp_protocol_close_node E (snd r)") (auto simp: try_device_eq [OF n(2)] n(1) split: prod.splits)
  qed
qed simp

lemma open_dsp_task_search:
  assumes "nodes_ok w H f" "h \<in> H" "names_at w (f h) names"
  shows "alsa_dsp_open_dsp_task E i h (with_dsp i ad w d) =
    map_option (\<lambda>(err, d). (err, with_dsp i ad w d)) (search_devices E (- EINVAL) names d)"
proof -
  have "ring (nd_links w) h (map Node (f h))" using holds_ring [OF nodes_okD(1) [OF assms(1)] assms(2)] by simp
  moreover have "nd_links (snd st') = nd_links (snd st)"
    if "try_device E i (Some x) st = Some (l, st')" for x st l st'
    using that by (auto simp: try_device_def on_dsp_def Let_def Option.bind_eq_Some_conv split: addr.splits if_splits)
  ultimately have "alsa_dsp_open_dsp_task E i h (with_dsp i ad w d) =
      visit (try_device E i) (map Node (f h)) (- EINVAL, with_dsp i ad w d)"
    unfolding alsa_dsp_open_dsp_task_def by (intro each_entry_visits) auto
  then show ?thesis using visit_devices [of w "f h" names] assms(3) by (simp add: names_at_def)
qed

end
