(* ===== verification/MaemoPcmLife.thy ===== *)
theory MaemoPcmLife
  imports MaemoPcmProofs
begin

section \<open>The Maemo PCM plugin: from open to unload\<close>

text \<open>
  What \<open>open\<close> builds from a configuration with both device lists, which device it ends up with,
  and that closing and unloading give everything back; then the paths on which they do not.
\<close>

subsection \<open>Opening\<close>

definition fresh_dsp :: dsp where
  "fresh_dsp = the (snd (dsp_protocol_create True))"

definition fresh_inst :: alsa_dsp where
  "fresh_inst = \<lparr>ad_protocol = None, ad_format = 0, ad_sample_rate = 0, ad_bytes_per_frame = 0,
     ad_hw_pointer = 0, ad_mic = []\<rparr>"

lemma create_fresh: "dsp_protocol_create True = (0, Some fresh_dsp)"
  by (simp add: fresh_dsp_def dsp_protocol_create_def)

lemma pcm_more_eq:
  fixes w w' :: pcm_world
  assumes "nodes.more w' = nodes.more w"
  shows "pw_inst w' = pw_inst w \<and> pw_next w' = pw_next w \<and> pw_free_ref w' = pw_free_ref w"
  using assms by (cases w; cases w') simp

lemma calloc_inst_ok:
  assumes "world_ok w H f" "calloc_inst w = (i, w0)"
  shows "nodes_ok w0 H f" "Head i s \<in> dom (nd_links w0)" "Head i s \<notin> H" "i = pw_next w"
    "pw_inst w0 = (pw_inst w)(i \<mapsto> fresh_inst)" "pw_next w0 = Suc i" "pw_free_ref w0 = pw_free_ref w"
    "nd_data w0 = nd_data w" "dom (nd_links w0) = dom (nd_links w) \<union> {Head i PLAYBACK, Head i CAPTURE}"
proof -
  have w0: "i = pw_next w" "nd_links w0 = (nd_links w)(Head i PLAYBACK \<mapsto> \<lparr>lh_next = None, lh_prev = None\<rparr>,
      Head i CAPTURE \<mapsto> \<lparr>lh_next = None, lh_prev = None\<rparr>)"
    "pw_inst w0 = (pw_inst w)(i \<mapsto> fresh_inst)" "pw_next w0 = Suc i" "pw_free_ref w0 = pw_free_ref w"
    "nd_data w0 = nd_data w" "nd_count w0 = nd_count w"
    using assms(2) by (auto simp: calloc_inst_def fresh_inst_def Let_def)
  have n: "nodes_ok w H f" and out: "Head i s \<notin> dom (nd_links w)" for s
    using assms(1) w0(1) by (auto simp: world_ok_def)
  then have off: "Head i s \<notin> entries H (\<lambda>h. map Node (f h))" for s
    using entries_live [OF nodes_okD(1) [OF n]] by blast
  have "holds (nd_links w0) H (\<lambda>h. map Node (f h))"
    by (rule holds_cong [OF nodes_okD(1) [OF n]]) (use off w0(2) in auto)
  then show "nodes_ok w0 H f" using n w0(2,6,7) by (auto simp: nodes_ok_def)
  show "Head i s \<in> dom (nd_links w0)" by (cases s) (auto simp: w0(2))
  show "Head i s \<notin> H" using off [of s] by (auto simp: entries_def)
qed (use assms in \<open>auto simp: calloc_inst_def fresh_inst_def Let_def\<close>)

definition inst_heads :: "nat \<Rightarrow> addr set" where
  "inst_heads i = {Head i PLAYBACK, Head i CAPTURE}"

text \<open>What the calls after the search make of its result.\<close>

definition setup_finish :: "'c pcm_open_env \<Rightarrow> pcm_stream \<Rightarrow> nat \<Rightarrow> int \<times> pcm_world \<Rightarrow> (int \<times> pcm_world) option" where
  "setup_finish P stream i r =
     (if fst r < 0 then Some r
      else
        let w = (snd r)\<lparr>pw_free_ref := Some i\<rparr>; err = alsa_dsp_configure_constraints (po_setp P) stream in
        if po_create P < 0 then Some (po_create P, w)
        else if err < 0 then do { w \<leftarrow> po_delete P i w; Some (err, w) } else Some (0, w))"

definition built :: "pcm_world \<Rightarrow> addr set \<Rightarrow> (addr \<Rightarrow> nat list) \<Rightarrow> string list \<Rightarrow> string list \<Rightarrow> pcm_world \<Rightarrow> nat list \<Rightarrow> nat list \<Rightarrow> bool" where
  "built w H f ps rs w1 ks js \<longleftrightarrow> (let i = pw_next w in
     nodes_ok w1 (inst_heads i \<union> H) (f(Head i PLAYBACK := ks, Head i CAPTURE := js))
     \<and> names_at w1 ks (rev ps) \<and> names_at w1 js (rev rs)
     \<and> nd_data w = nd_data w1 |` (- (set ks \<union> set js))
     \<and> dom (nd_links w1) = dom (nd_links w) \<union> inst_heads i \<union> Node ` (set ks \<union> set js)
     \<and> pw_inst w1 = (pw_inst w)(i \<mapsto> fresh_inst) \<and> pw_next w1 = Suc i \<and> pw_free_ref w1 = pw_free_ref w)"

lemma setup_search:
  assumes "world_ok w H f" "pcm_conf_names P conf ps rs" "po_protocol P" "calloc_inst w = (i, w0)"
  shows "\<exists>w1 ks js. built w H f ps rs w1 ks js \<and> (\<forall>stream. alsa_dsp_setup P conf stream i w0 =
    (do { (err, d) \<leftarrow> search_devices (po_dsp P) (- EINVAL) (rev (if stream = PLAYBACK then ps else rs)) fresh_dsp;
          setup_finish P stream i (err, with_dsp i fresh_inst w1 d) }))"
proof -
  note c = calloc_inst_ok [OF assms(1,4)]
  from assms(2) obtain p r where pr: "filter (\<lambda>n. conf_key (po_conf P) n \<noteq> None) conf \<in> {[p, r], [r, p]}"
    and p: "names_list P p ''playback_device_file'' ps" and r: "names_list P r ''recording_device_file'' rs"
    and ok: "\<forall>k. po_malloc P k" unfolding pcm_conf_names_def by blast
  have "\<exists>ks js w1. alsa_dsp_conf P i conf w0 = Some (0, w1)
    \<and> nodes_ok w1 (inst_heads i \<union> H) (f(Head i PLAYBACK := ks, Head i CAPTURE := js))
    \<and> names_at w1 ks (rev ps) \<and> names_at w1 js (rev rs) \<and> nodes.more w1 = nodes.more w0
    \<and> nd_data w0 = nd_data w1 |` (- (set ks \<union> set js)) \<and> dom (nd_links w1) = dom (nd_links w0) \<union> Node ` (set ks \<union> set js)"
    (is "\<exists>ks js w1. ?Q conf ks js w1")
  proof (cases "filter (\<lambda>n. conf_key (po_conf P) n \<noteq> None) conf = [p, r]")
    case True
    show ?thesis
      using conf_two_lists [OF c(1) c(2) [of PLAYBACK] c(2) [of CAPTURE] _ c(3) c(3) ok p _ r]
      unfolding alsa_dsp_conf_filter [of P i conf] True inst_heads_def by simp
  next
    case False
    then have e: "filter (\<lambda>n. conf_key (po_conf P) n \<noteq> None) conf = [r, p]" using pr by blast
    have tw: "f(Head i CAPTURE := ks, Head i PLAYBACK := js) = f(Head i PLAYBACK := js, Head i CAPTURE := ks)" for ks js
      by (rule fun_upd_twist) simp
    have ih: "inst_heads i = {Head i CAPTURE, Head i PLAYBACK}" by (auto simp: inst_heads_def)
    obtain ks js w1 where w: "alsa_dsp_conf P i [r, p] w0 = Some (0, w1)"
      "nodes_ok w1 ({Head i CAPTURE, Head i PLAYBACK} \<union> H) (f(Head i CAPTURE := ks, Head i PLAYBACK := js))"
      "names_at w1 ks (rev rs)" "names_at w1 js (rev ps)" "nodes.more w1 = nodes.more w0"
      "nd_data w0 = nd_data w1 |` (- (set ks \<union> set js))" "dom (nd_links w1) = dom (nd_links w0) \<union> Node ` (set ks \<union> set js)"
      using conf_two_lists [OF c(1) c(2) [of CAPTURE] c(2) [of PLAYBACK] _ c(3) c(3) ok r _ p] by auto
    have "?Q conf js ks w1"
      unfolding alsa_dsp_conf_filter [of P i conf] e ih tw [symmetric] Un_commute [of "set js" "set ks"]
      by (intro conjI; fact w)
    then show ?thesis by blast
  qed
  then obtain ks js w1 where w1: "alsa_dsp_conf P i conf w0 = Some (0, w1)"
    "nodes_ok w1 (inst_heads i \<union> H) (f(Head i PLAYBACK := ks, Head i CAPTURE := js))"
    "names_at w1 ks (rev ps)" "names_at w1 js (rev rs)" "nodes.more w1 = nodes.more w0"
    "nd_data w0 = nd_data w1 |` (- (set ks \<union> set js))" "dom (nd_links w1) = dom (nd_links w0) \<union> Node ` (set ks \<union> set js)"
    by (elim exE conjE) (rule that; assumption)
  have more: "pw_inst w1 = (pw_inst w)(i \<mapsto> fresh_inst)" "pw_next w1 = Suc i" "pw_free_ref w1 = pw_free_ref w"
    using pcm_more_eq [OF w1(5)] c(5-7) by auto
  have b: "built w H f ps rs w1 ks js"
    unfolding built_def Let_def c(4) [symmetric] w1(6) [unfolded c(8)] w1(7) c(9) inst_heads_def [symmetric]
    using w1(2-4) more by (intro conjI refl) (auto simp: Un_ac)
  have start: "w1\<lparr>pw_inst := (pw_inst w1)(i \<mapsto> fresh_inst\<lparr>ad_protocol := Some fresh_dsp\<rparr>)\<rparr> = with_dsp i fresh_inst w1 fresh_dsp"
    by (simp add: with_dsp_def)
  have "alsa_dsp_open_dsp_task (po_dsp P) i (Head i stream) (with_dsp i fresh_inst w1 fresh_dsp) =
      map_option (\<lambda>(err, d). (err, with_dsp i fresh_inst w1 d))
        (search_devices (po_dsp P) (- EINVAL) (rev (if stream = PLAYBACK then ps else rs)) fresh_dsp)" for stream
    by (rule open_dsp_task_search [OF w1(2)]) (use w1(3,4) in \<open>cases stream; simp add: inst_heads_def\<close>)+
  then have "\<forall>stream. alsa_dsp_setup P conf stream i w0 =
    (do { (err, d) \<leftarrow> search_devices (po_dsp P) (- EINVAL) (rev (if stream = PLAYBACK then ps else rs)) fresh_dsp;
          setup_finish P stream i (err, with_dsp i fresh_inst w1 d) })"
    using w1(1) assms(3) more(1) start
    by (auto simp: alsa_dsp_setup_def create_fresh setup_finish_def Let_def split: Option.bind_splits)
  then show ?thesis using b by blast
qed

lemma alsa_dsp_open_result:
  assumes "world_ok w H f" "pcm_conf_names P conf ps rs" "po_calloc P" "po_protocol P"
    and "0 \<le> po_create P" "0 \<le> alsa_dsp_configure_constraints (po_setp P) stream"
    and "search_devices (po_dsp P) (- EINVAL) (rev (if stream = PLAYBACK then ps else rs)) fresh_dsp = Some (err, d)"
  shows "\<exists>w'. alsa_dsp_open P conf stream w = Some (if err < 0 then err else 0, w')
    \<and> pw_inst w' = (pw_inst w)(pw_next w := (if err < 0 then None else Some (fresh_inst\<lparr>ad_protocol := Some d\<rparr>)))
    \<and> pw_free_ref w' = (if err < 0 then pw_free_ref w else Some (pw_next w))"
proof -
  obtain i w0 where c: "calloc_inst w = (i, w0)" by fastforce
  then have i: "i = pw_next w" using calloc_inst_ok(4) [OF assms(1)] by blast
  obtain w1 ks js where b: "built w H f ps rs w1 ks js" and s: "alsa_dsp_setup P conf stream i w0 =
      setup_finish P stream i (err, with_dsp i fresh_inst w1 d)"
    using setup_search [OF assms(1,2,4) c] assms(7) by auto
  have "pw_inst w1 = (pw_inst w)(i \<mapsto> fresh_inst)" "pw_free_ref w1 = pw_free_ref w"
    using b i by (auto simp: built_def Let_def)
  then show ?thesis using s assms(3,5,6) c
    by (auto simp: alsa_dsp_open_def setup_finish_def Let_def free_inst_def with_dsp_def i [symmetric] fun_upd_idem_iff)
qed


subsection \<open>Closing and unloading\<close>

lemma free_both_lists:
  assumes "nodes_ok w (inst_heads i \<union> H) f"
  shows "\<exists>w'. (do { w \<leftarrow> free_device_list (Head i PLAYBACK) w; free_device_list (Head i CAPTURE) w }) = Some w'
    \<and> nodes_ok w' (inst_heads i \<union> H) (f(Head i PLAYBACK := [], Head i CAPTURE := []))
    \<and> nd_data w' = nd_data w |` (- (set (f (Head i PLAYBACK)) \<union> set (f (Head i CAPTURE))))
    \<and> nodes.more w' = nodes.more w
    \<and> dom (nd_links w') = dom (nd_links w) - Node ` (set (f (Head i PLAYBACK)) \<union> set (f (Head i CAPTURE)))"
proof -
  obtain w1 where w1: "free_device_list (Head i PLAYBACK) w = Some w1"
    "nodes_ok w1 (inst_heads i \<union> H) (f(Head i PLAYBACK := []))"
    "nd_data w1 = nd_data w |` (- set (f (Head i PLAYBACK)))" "nodes.more w1 = nodes.more w"
    "dom (nd_links w1) = dom (nd_links w) - Node ` set (f (Head i PLAYBACK))"
    using free_device_list_frees [OF assms, of "Head i PLAYBACK"] by (auto simp: inst_heads_def)
  obtain w2 where w2: "free_device_list (Head i CAPTURE) w1 = Some w2"
    "nodes_ok w2 (inst_heads i \<union> H) ((f(Head i PLAYBACK := []))(Head i CAPTURE := []))"
    "nd_data w2 = nd_data w1 |` (- set (f (Head i CAPTURE)))" "nodes.more w2 = nodes.more w1"
    "dom (nd_links w2) = dom (nd_links w1) - Node ` set (f (Head i CAPTURE))"
    using free_device_list_frees [OF w1(2), of "Head i CAPTURE"] by (auto simp: inst_heads_def)
  have "nd_data w2 = nd_data w |` (- (set (f (Head i PLAYBACK)) \<union> set (f (Head i CAPTURE))))"
    unfolding w2(3) w1(3) by simp
  moreover have "dom (nd_links w2) = dom (nd_links w) - Node ` (set (f (Head i PLAYBACK)) \<union> set (f (Head i CAPTURE)))"
    unfolding w2(5) w1(5) by auto
  ultimately show ?thesis using w1(1,4) w2(1,2,4) by (intro exI [of _ w2] conjI) simp_all
qed

lemma nodes_ok_inst: "nodes_ok (w\<lparr>pw_inst := x\<rparr>) H f = nodes_ok w H f"
  "nodes_ok (w\<lparr>pw_free_ref := r\<rparr>) H f = nodes_ok w H f"
  by (simp_all add: nodes_ok_def)


subsection \<open>When open fails\<close>

text \<open>
  The label \<open>error\<close> frees the structure only. Entries of the device lists stay allocated when no
  node opens, and once \<open>free_ref\<close> is set it is left pointing at freed memory.
\<close>

lemma alsa_dsp_failed_search_leaks:
  assumes "world_ok w H f" "pcm_conf_names P conf ps rs" "po_calloc P" "po_protocol P"
    and "search_devices (po_dsp P) (- EINVAL) (rev (if stream = PLAYBACK then ps else rs)) fresh_dsp = Some (err, d)" "err < 0"
  shows "\<exists>w' ks js. alsa_dsp_open P conf stream w = Some (err, w') \<and> pw_inst w' (pw_next w) = None
    \<and> length ks = length ps \<and> length js = length rs \<and> distinct ks \<and> distinct js
    \<and> set (ks @ js) \<subseteq> dom (nd_data w') - dom (nd_data w)"
proof -
  define i where "i = pw_next w"
  obtain w0 where c: "calloc_inst w = (i, w0)"
    using calloc_inst_ok(4) [OF assms(1)] unfolding i_def by (metis prod.collapse)
  obtain v ks js where b: "built w H f ps rs v ks js" and s: "alsa_dsp_setup P conf stream i w0 =
      setup_finish P stream i (err, with_dsp i fresh_inst v d)"
    using setup_search [OF assms(1,2,4) c] assms(5) by auto
  have v: "nodes_ok v (inst_heads i \<union> H) (f(Head i PLAYBACK := ks, Head i CAPTURE := js))" "names_at v ks (rev ps)" "names_at v js (rev rs)"
    "nd_data w = nd_data v |` (- (set ks \<union> set js))" "pw_inst v = (pw_inst w)(i \<mapsto> fresh_inst)"
    using b by (auto simp: built_def Let_def i_def)
  have "length ks = length ps" "length js = length rs"
    using v(2,3) by (auto simp: names_at_def dest: map_eq_imp_length_eq)
  moreover have "distinct ks" "distinct js" "set ks \<subseteq> dom (nd_data v)" "set js \<subseteq> dom (nd_data v)"
    using nodes_listed [OF v(1), of "Head i PLAYBACK"] nodes_listed [OF v(1), of "Head i CAPTURE"] by (auto simp: inst_heads_def)
  moreover have "set (ks @ js) \<inter> dom (nd_data w) = {}" unfolding v(4) by auto
  moreover obtain w' where "alsa_dsp_open P conf stream w = Some (err, w')" "nd_data w' = nd_data v" "pw_inst w' i = None"
    using s c assms(3,6) v(5) by (auto simp: alsa_dsp_open_def setup_finish_def free_inst_def with_dsp_def)
  ultimately show ?thesis unfolding i_def [symmetric]
    by (intro exI [of _ w'] exI [of _ ks] exI [of _ js]) auto
qed

text \<open>
  when alsa-lib refuses the plugin after a device was opened, open frees the instance but not
  what it refers to, and leaves \<open>free_ref\<close> pointing at it: unloading the shared object then
  reads freed memory.
\<close>

theorem alsa_dsp_refused_dangles:
  assumes "world_ok w H f" "pcm_conf_names P conf ps rs" "po_calloc P" "po_protocol P" "po_create P < 0"
    and "search_devices (po_dsp P) (- EINVAL) (rev (if stream = PLAYBACK then ps else rs)) fresh_dsp = Some (err, d)" "0 \<le> err"
  shows "\<exists>w'. alsa_dsp_open P conf stream w = Some (po_create P, w') \<and> alsa_dsp_destructor E w' = None"
proof -
  define i where "i = pw_next w"
  obtain w0 where c: "calloc_inst w = (i, w0)"
    using calloc_inst_ok(4) [OF assms(1)] unfolding i_def by (metis prod.collapse)
  obtain v ks js where b: "built w H f ps rs v ks js" and s: "alsa_dsp_setup P conf stream i w0 =
      setup_finish P stream i (err, with_dsp i fresh_inst v d)"
    using setup_search [OF assms(1,2,4) c] assms(6) by auto
  then show ?thesis using c assms(3,5,7)
    by (auto simp: alsa_dsp_open_def setup_finish_def free_inst_def with_dsp_def alsa_dsp_destructor_def Let_def)
qed

subsection \<open>A configuration with one list\<close>

text \<open>
  \<open>calloc\<close> leaves the head of a list that the configuration does not name zero: not an empty
  list, but a NULL pointer.
\<close>

lemma zero_head_traps:
  assumes "nd_links w (Head i s) = Some \<lparr>lh_next = None, lh_prev = None\<rparr>"
  shows "free_device_list (Head i s) w = None" "alsa_dsp_open_dsp_task E i (Head i s) w = None"
proof -
  have "get_next (Some (Head i s)) (nd_links w) = Some None" using assms by (simp add: get_next_def)
  then show "free_device_list (Head i s) w = None" "alsa_dsp_open_dsp_task E i (Head i s) w = None"
    by (simp_all add: free_device_list_def release_list_def list_for_each_safe_def store_simps
        alsa_dsp_open_dsp_task_def list_for_each_entry_def list_for_each_entry_from.simps try_device_def)
qed

text \<open>
  the two lists are not optional: with a configuration that names only the playback devices,
  opening the recording stream dereferences NULL, and so does closing a playback stream that
  was opened successfully (and unloading the plugin after it).
\<close>

theorem alsa_dsp_one_list_traps:
  assumes "world_ok w H f" "po_calloc P" "po_protocol P" "\<forall>k. po_malloc P k"
    and "filter (\<lambda>n. conf_key (po_conf P) n \<noteq> None) conf = [p]" "names_list P p ''playback_device_file'' ps"
  shows "alsa_dsp_open P conf CAPTURE w = None
    \<and> (\<forall>w1 E. alsa_dsp_open P conf PLAYBACK w = Some (0, w1) \<longrightarrow> alsa_dsp_close E (pw_next w) w1 = None)"
proof -
  define i where "i = pw_next w"
  obtain w0 where c: "calloc_inst w = (i, w0)"
    using calloc_inst_ok(4) [OF assms(1)] unfolding i_def by (metis prod.collapse)
  note k = calloc_inst_ok [OF assms(1) c]
  let ?H = "insert (Head i PLAYBACK) H" and ?zero = "\<lparr>lh_next = None, lh_prev = None\<rparr>"
  have zero_cap: "nd_links w0 (Head i CAPTURE) = Some ?zero" using c by (auto simp: calloc_inst_def Let_def)
  obtain ks v where v: "fill_string_list P p (Head i PLAYBACK) w0 = Some (0, v)"
    "nodes_ok v ?H (f(Head i PLAYBACK := ks))" "names_at v ks (rev ps)" "nodes.more v = nodes.more w0"
    "\<forall>u. u \<notin> ?H \<union> range Node \<longrightarrow> nd_links v u = nd_links w0 u"
    using fill_string_list_spec [OF k(1) k(2) [of PLAYBACK] k(3) [of PLAYBACK], of P p ps] assms(4,6) by (auto simp: names_list_def)
  have out: "Head i CAPTURE \<notin> ?H \<union> range Node" using k(3) [of CAPTURE] by auto
  then have cap: "nd_links v (Head i CAPTURE) = Some ?zero" using v(5) zero_cap by simp
  have conf_ok: "alsa_dsp_conf P i conf w0 = Some (0, v)"
    unfolding alsa_dsp_conf_filter [of P i conf] assms(5) using conf_list_step [OF assms(6) _ v(1)] by simp
  have inst: "pw_inst v i = Some fresh_inst" using pcm_more_eq [OF v(4)] k(5) by simp
  let ?v = "with_dsp i fresh_inst v fresh_dsp"
  have done_by: "alsa_dsp_setup P conf s i w0 =
      Option.bind (alsa_dsp_open_dsp_task (po_dsp P) i (Head i s) ?v) (setup_finish P s i)" for s
    using conf_ok inst assms(3)
    by (auto simp: alsa_dsp_setup_def create_fresh setup_finish_def Let_def with_dsp_def split: Option.bind_splits)
  have "alsa_dsp_open P conf CAPTURE w = None"
    using assms(2) c done_by [of CAPTURE] zero_head_traps(2) [of ?v i CAPTURE] cap
    by (simp add: alsa_dsp_open_def)
  moreover have "alsa_dsp_close E i w1 = None" if o: "alsa_dsp_open P conf PLAYBACK w = Some (0, w1)" for w1 E
  proof -
    have "alsa_dsp_open_dsp_task (po_dsp P) i (Head i PLAYBACK) ?v =
      map_option (\<lambda>(err, d). (err, with_dsp i fresh_inst v d)) (search_devices (po_dsp P) (- EINVAL) (rev ps) fresh_dsp)"
      by (rule open_dsp_task_search [OF v(2)]) (use v(3) in simp_all)
    with o obtain d where w1: "w1 = (with_dsp i fresh_inst v d)\<lparr>pw_free_ref := Some i\<rparr>"
      using done_by [of PLAYBACK] assms(2) c
      by (auto simp: alsa_dsp_open_def setup_finish_def Let_def Option.bind_eq_Some_conv split: if_splits)
    have traps: "free_device_list (Head i CAPTURE) w2 = None"
      if "free_device_list (Head i PLAYBACK) (w1\<lparr>pw_inst := x\<rparr>) = Some w2" for x w2
    proof -
      have "nodes_ok (w1\<lparr>pw_inst := x\<rparr>) ?H (f(Head i PLAYBACK := ks))"
        using v(2) by (simp add: w1 with_dsp_def nodes_ok_inst)
      from free_device_list_frees [OF this, of "Head i PLAYBACK"] that out
      have "nd_links w2 (Head i CAPTURE) = nd_links w1 (Head i CAPTURE)" by auto
      then show ?thesis using cap by (intro zero_head_traps(1)) (simp add: w1)
    qed
    show ?thesis
      by (auto simp: alsa_dsp_close_def Let_def dest!: traps split: Option.bind_splits)
  qed
  ultimately show ?thesis unfolding i_def by blast
qed

end
