(* ===== verification/MaemoPcmCalls.thy ===== *)
theory MaemoPcmCalls
  imports MaemoPcmLife
begin

section \<open>The Maemo PCM plugin: parameters, preparation, transfer\<close>

text \<open>
  The callbacks on an open instance: what \<open>hw_params\<close> accepts, what the DSP is told by \<open>prepare\<close>,
  and which samples a transfer hands to the shared buffer.
\<close>

subsection \<open>Hardware parameters\<close>

fun pairs :: "int list \<Rightarrow> (int \<times> int) list" where
  "pairs (a # b # xs) = (a, b) # pairs xs"
| "pairs _ = []"

lemma length_pairs: "length (pairs xs) = length xs div 2"
  by (induction xs rule: pairs.induct) auto

lemma nth_pairs: "i < length xs div 2 \<Longrightarrow> pairs xs ! i = (xs ! (2 * i), xs ! (2 * i + 1))"
proof (induction xs arbitrary: i rule: pairs.induct)
  case (1 a b xs)
  then show ?case by (cases i) auto
qed auto

text \<open>
  The table look-up as a look-up in an association list: with a bound within the table a missing
  key gives -1, with a bound beyond it the search for a missing key leaves the array.
\<close>

lemma map_value_from_eq:
  assumes "even (length m)" "i \<le> length m div 2"
  shows "map_value_from m value i n =
    (if i + n \<le> length m div 2
     then Some (case map_of (take n (drop i (pairs m))) value of None \<Rightarrow> - 1 | Some v \<Rightarrow> v)
     else map_of (drop i (pairs m)) value)"
  using assms(2)
proof (induction n arbitrary: i)
  case (Suc n)
  show ?case
  proof (cases "i < length m div 2")
    case True
    then have "drop i (pairs m) = (m ! (2 * i), m ! (2 * i + 1)) # drop (Suc i) (pairs m)"
      using nth_pairs [OF True] length_pairs [of m] by (metis Cons_nth_drop_Suc)
    moreover have "\<not> 2 * i + 1 \<ge> length m" using True by linarith
    ultimately show ?thesis using Suc.IH [of "Suc i"] True by simp
  next
    case False
    then have "2 * i + 1 \<ge> length m" using assms(1) by auto
    then show ?thesis using False Suc.prems by (simp add: length_pairs)
  qed
qed simp

lemma map_value_eq:
  "even (length m) \<Longrightarrow> map_value m value n = (if n \<le> length m div 2
     then Some (case map_of (take n (pairs m)) value of None \<Rightarrow> - 1 | Some v \<Rightarrow> v) else map_of (pairs m) value)"
  by (simp add: map_value_def map_value_from_eq)

definition frame_bytes :: "pcm_env \<Rightarrow> ioplug \<Rightarrow> int" where
  "frame_bytes E io = c_int (uint ((word_of_int (pe_width E (io_format io)) * io_channels io) div 8 :: u32))"

text \<open>
  C39: hw_params of a playback stream never reports an unsupported format or rate: the look-ups
  count elements where they mean pairs, so the parameters are those of the tables when both are
  there, and otherwise (9600 Hz, say, which the constraints allow) the search reads past the end
  of an array. A recording stream is checked as intended, for 8000 Hz and three formats.
\<close>

theorem alsa_dsp_hw_params_tables:
  "alsa_dsp_hw_params E io ad =
    (let fmt_code = int (format_code (io_format io)); rate_hz = c_int (uint (io_rate io)) in
     if io_stream io = PLAYBACK then do {
       fmt \<leftarrow> map_of (pairs map_formats) fmt_code;
       rate \<leftarrow> map_of (pairs map_sample_rates) rate_hz;
       Some (0, ad\<lparr>ad_format := fmt, ad_sample_rate := rate, ad_bytes_per_frame := frame_bytes E io\<rparr>)
     } else
       let fmt = (if fmt_code = int CODE_A_LAW then 7 else if fmt_code = int CODE_MU_LAW then 8
                  else if fmt_code = int CODE_S16_LE then 2 else - 1);
           rate = (if rate_hz = 8000 then 0x0B else - 1)
       in Some (if fmt = - 1 \<or> rate = - 1 then - EINVAL else 0,
            ad\<lparr>ad_format := fmt, ad_sample_rate := rate, ad_bytes_per_frame := frame_bytes E io\<rparr>))"
proof (cases "io_stream io")
  case PLAYBACK
  have "0 \<le> fmt" if "map_of (pairs map_formats) x = Some fmt" for x fmt
    using that by (auto simp: map_formats_def split: if_splits)
  moreover have "0 \<le> rate" if "map_of (pairs map_sample_rates) x = Some rate" for x rate
    using that by (auto simp: map_sample_rates_def split: if_splits)
  moreover have "length map_formats = 16" "length map_sample_rates = 18"
    by (simp_all add: map_formats_def map_sample_rates_def)
  ultimately show ?thesis using PLAYBACK
    by (fastforce simp: alsa_dsp_hw_params_def map_value_eq frame_bytes_def Let_def split: Option.bind_splits)
next
  case CAPTURE
  have "map_value map_formats x 3 = Some (if x = int CODE_A_LAW then 7 else if x = int CODE_MU_LAW then 8
                  else if x = int CODE_S16_LE then 2 else - 1)" for x
    by (simp add: map_value_eq map_formats_def numeral_3_eq_3)
  moreover have "map_value map_sample_rates x 1 = Some (if x = 8000 then 0x0B else - 1)" for x
    by (simp add: map_value_eq map_sample_rates_def)
  ultimately show ?thesis using CAPTURE
    by (simp add: alsa_dsp_hw_params_def frame_bytes_def Let_def)
qed

subsection \<open>Preparing\<close>

definition params_message :: "ioplug \<Rightarrow> alsa_dsp \<Rightarrow> u16 \<Rightarrow> dsp_out" where
  "params_message io ad sid =
     (if io_stream io = PLAYBACK then
        Out_audio_params \<lparr>ap_dsp_cmd = DSP_CMD_SET_PARAMS, ap_dsp_audio_fmt = word_of_int (ad_format ad),
          ap_sample_rate = word_of_int (ad_sample_rate ad), ap_number_channels = ucast (io_channels io),
          ap_ds_stream_id = sid, ap_stream_priority = 0\<rparr>
      else
        Out_speech_params \<lparr>sp_dsp_cmd = DSP_CMD_SET_SPEECH_PARAMS, sp_audio_fmt = word_of_int (ad_format ad),
          sp_sample_rate = word_of_int (ad_sample_rate ad), sp_ds_stream_id = sid, sp_stream_priority = 0,
          sp_frame_size = ucast (io_period_size io)\<rparr>)"

lemma params_locked_sends:
  assumes "dsp_locked E id (dsp_params_locked E params) d = Some (r, d')" "0 \<le> r"
  shows "\<exists>sid. Ev_write (params sid) \<in> set (d_trace d')"
  using assms
  by (auto simp: dsp_locked_def dsp_params_locked_def case_prod_beta Let_def dsp_simps
      Option.bind_eq_Some_conv split: if_splits)

lemma send_params_sends:
  assumes "send_params E io ad d = Some (r, d')" "0 \<le> r"
  shows "\<exists>sid. Ev_write (params_message io ad sid) \<in> set (d_trace d')"
  using assms
  by (auto simp: send_params_def params_message_def dsp_protocol_send_audio_params_def
      dsp_protocol_send_speech_params_def split: if_splits dest!: params_locked_sends)

text \<open>
  a prepare that succeeds has told the DSP the parameters that hw_params chose: the message
  with the format, the rate and the channels (for recording, the period) has been written.
\<close>

theorem alsa_dsp_prepare_sends_params:
  assumes "alsa_dsp_prepare E io ad = Some (0, ad')"
  shows "\<exists>d' sid. ad_protocol ad' = Some d' \<and> Ev_write (params_message io ad sid) \<in> set (d_trace d')
    \<and> ad_hw_pointer ad' = 0"
proof -
  from assms obtain d1 r d' where s: "send_params E io (ad\<lparr>ad_hw_pointer := 0\<rparr>) d1 = Some (r, d')" "0 \<le> r"
    and ad': "ad' = ad\<lparr>ad_hw_pointer := 0, ad_protocol := Some d'\<rparr>"
    by (auto simp: alsa_dsp_prepare_def on_dsp_def Let_def Option.bind_eq_Some_conv split: if_splits)
  have "params_message io (ad\<lparr>ad_hw_pointer := 0\<rparr>) sid = params_message io ad sid" for sid
    by (simp add: params_message_def)
  then show ?thesis using send_params_sends [OF s] by (auto simp: ad')
qed

text \<open>
  prepare reopens a node that has been used and does not look at the result: when the device
  cannot be opened again the first prepare fails with -EIO, and the next one passes the NULL
  that closing left as the device name to strdup.
\<close>

theorem alsa_dsp_prepare_again_traps:
  assumes "ad_protocol ad = Some d" "d_state d \<noteq> STATE_INITIALISED" "d_device d = Some name"
    and "dsp_protocol_close_node (pe_dsp E) d = Some (0, d1)" "d_state d1 = STATE_UNINITIALISED" "d_device d1 = None"
    and "fst (k_ret (pe_dsp E) (d_calls d1)) < 0"
  shows "\<exists>ad'. alsa_dsp_prepare E io ad = Some (- EIO, ad') \<and> alsa_dsp_prepare E io ad' = None"
proof -
  let ?d = "(snd (dsp_call (pe_dsp E) d1))\<lparr>d_fd := fst (k_ret (pe_dsp E) (d_calls d1))\<rparr>"
  have "dsp_protocol_open_node (pe_dsp E) name d1 = Some (d_errno ?d, ?d)"
    using assms(5,7) by (simp add: dsp_protocol_open_node_def case_prod_beta Let_def dsp_simps)
  then have "reopen_node (pe_dsp E) d = Some (0, ?d)"
    using assms(3,4) by (simp add: reopen_node_def)
  moreover have "send_params E io a ?d = Some (- EIO, ?d)" for a
    using assms(5) by (simp add: send_params_def dsp_protocol_send_audio_params_def
        dsp_protocol_send_speech_params_def dsp_simps)
  ultimately have "alsa_dsp_prepare E io ad = Some (- EIO, ad\<lparr>ad_hw_pointer := 0, ad_protocol := Some ?d\<rparr>)"
    using assms(1,2) by (simp add: alsa_dsp_prepare_def on_dsp_def)
  moreover have "alsa_dsp_prepare E io (ad\<lparr>ad_hw_pointer := 0, ad_protocol := Some ?d\<rparr>) = None"
    using assms(5,6) by (simp add: alsa_dsp_prepare_def on_dsp_def reopen_node_def dsp_simps)
  ultimately show ?thesis by blast
qed

subsection \<open>Transfer\<close>

lemma length_read_words [simp]: "length (read_words mem a n) = n"
  by (simp add: read_words_def)

lemma c_quot_pos: "0 \<le> a \<Longrightarrow> 0 < b \<Longrightarrow> c_quot a b = Some (a div b)"
  by (cases "a = 0") (simp_all add: c_quot_def)

lemma unat_word_of_nat_u64: "n < 2 ^ 64 \<Longrightarrow> unat (word_of_nat n :: u64) = n"
  by (simp add: unat_of_nat)

lemma unat_word_of_nat_u32: "n < 2 ^ 32 \<Longrightarrow> unat (word_of_nat n :: u32) = n"
  by (simp add: unat_of_nat)

lemma transfer_bytes_min:
  assumes "0 \<le> ad_bytes_per_frame ad" "unat sz * nat (ad_bytes_per_frame ad) < 2 ^ 31" "unat (d_mmap_size d) < 2 ^ 31"
  shows "transfer_bytes ad d sz = int (min (unat sz * nat (ad_bytes_per_frame ad)) (unat (d_mmap_size d)))"
proof -
  let ?n = "unat sz * nat (ad_bytes_per_frame ad)"
  obtain b where b: "ad_bytes_per_frame ad = int b" using assms(1) nonneg_int_cases by blast
  have w: "sz * word_of_int (ad_bytes_per_frame ad) = (word_of_nat ?n :: u64)"
    by (simp add: b)
  have u: "uint (sz * word_of_int (ad_bytes_per_frame ad)) = int ?n"
  proof -
    have "unat (word_of_nat ?n :: u64) = ?n" using assms(2) by (intro unat_word_of_nat_u64) simp
    then show ?thesis unfolding w uint_nat by (simp only:)
  qed
  have "?n < 2147483648" using assms(2) by simp
  then have n31: "int ?n < 2147483648" by (metis of_nat_less_iff of_nat_numeral)
  have pos: "0 \<le> int ?n" by (rule of_nat_0_le_iff)
  have c: "c_int (uint (sz * word_of_int (ad_bytes_per_frame ad))) = int ?n"
    unfolding u by (rule c_int_id) (use n31 pos in linarith)+
  have "unat (word_of_int (int ?n) :: u32) = ?n"
    unfolding of_int_of_nat_eq using assms(2) by (intro unat_word_of_nat_u32) simp
  then have cmp: "(word_of_int (int ?n) :: u32) > d_mmap_size d \<longleftrightarrow> unat (d_mmap_size d) < ?n"
    by (simp only: word_less_nat_alt)
  have "c_int (uint (d_mmap_size d)) = int (unat (d_mmap_size d))"
    using assms(3) by (simp add: c_int_uint)
  then show ?thesis unfolding transfer_bytes_def Let_def c cmp by auto
qed

text \<open>
  C11: a transfer on a playing stream hands the DSP the samples of the area from the given offset
  on: as many whole words as the requested frames have, at most what the shared buffer holds.
  When the DSP takes them they are at the start of the buffer, unchanged and announced with
  their number; the result is that number in frames, never more than requested, and the
  position advances by it.
\<close>

theorem alsa_dsp_transfer_plays:
  fixes mem :: bytes and areas :: area and offset :: u64
  assumes "io_stream io = PLAYBACK" "ad_protocol ad = Some d" "d_state d = STATE_PLAYING"
    and "d_mmap d = Map_words ws" "length ws = unat (d_mmap_size d) div 2" "unat (d_mmap_size d) < 2 ^ 16"
    and "0 < ad_bytes_per_frame ad" "unat sz * nat (ad_bytes_per_frame ad) < 2 ^ 31"
  defines "words \<equiv> min (unat sz * nat (ad_bytes_per_frame ad)) (unat (d_mmap_size d)) div 2"
  defines "data \<equiv> read_words mem (transfer_buf areas offset) words"
  shows "\<exists>r result d'. alsa_dsp_transfer E io areas offset sz mem ad = Some (result, mem,
      ad\<lparr>ad_protocol := Some d', ad_hw_pointer := ad_hw_pointer ad + word_of_int result\<rparr>)
    \<and> c_quot (2 * r) (ad_bytes_per_frame ad) = Some result \<and> (r < 0 \<or> r = 0 \<or> r = int words) \<and> result \<le> uint sz
    \<and> (0 < r \<longrightarrow> d_mmap d' = Map_words (data @ drop words ws)
         \<and> Ev_write (Out_data_write DSP_CMD_DATA_WRITE (of_nat words)) \<in> set (d_trace d'))"
proof -
  let ?b = "ad_bytes_per_frame ad"
  have lenws: "words \<le> length ws" unfolding words_def assms(5) by (simp add: div_le_mono)
  have t: "c_quot (transfer_bytes ad d sz) 2 = Some (int words)"
    using assms(6-8) by (simp add: transfer_bytes_min c_quot_pos words_def zdiv_int)
  have u: "unat (word_of_int (int words) :: u16) = words"
    using lenws assms(5,6) by (simp add: unat_of_nat)
  have len: "length data = words" by (simp add: data_def)
  obtain r d' where r: "dsp_protocol_send_audio_data (pe_dsp E) data d = Some (r, d')" "r < 0 \<or> r = 0 \<or> r = int words"
    "0 < r \<longrightarrow> d_mmap d' = Map_words (data @ drop words ws)
       \<and> Ev_write (Out_data_write DSP_CMD_DATA_WRITE (of_nat words)) \<in> set (d_trace d')"
    using send_audio_data_mapped [OF assms(3,4), of data] lenws unfolding len by blast
  obtain result where q: "c_quot (2 * r) ?b = Some result" using assms(7) by (simp add: c_quot_def)
  have "result \<le> uint sz"
  proof (cases "0 < r")
    case True
    then have rw: "r = int words" using r(2) by auto
    have "2 * words \<le> unat sz * nat ?b" unfolding words_def by simp
    then have "int (2 * words) \<le> int (unat sz * nat ?b)" by (simp only: zle_int)
    then have "2 * r \<le> uint sz * ?b" unfolding rw using assms(7) by simp
    then have "(2 * r) div ?b \<le> uint sz" using assms(7) by (smt (verit) nonzero_mult_div_cancel_right zdiv_mono1)
    then show ?thesis using q True assms(7) by (simp add: c_quot_pos)
  next
    case False
    then have "result \<le> 0" using q assms(7)
      by (auto simp: c_quot_def sgn_if pos_imp_zdiv_nonneg_iff split: if_splits)
    moreover have "0 \<le> uint sz" by simp
    ultimately show ?thesis by linarith
  qed
  moreover have "alsa_dsp_transfer E io areas offset sz mem ad = Some (result, mem,
      ad\<lparr>ad_protocol := Some d', ad_hw_pointer := ad_hw_pointer ad + word_of_int result\<rparr>)"
    using assms(1-3) t u r(1) q unfolding data_def
    by (simp add: alsa_dsp_transfer_def on_dsp_def Let_def mult.commute)
  ultimately show ?thesis using r(2,3) q by blast
qed

end
