(* ===== verification/MaemoCtlSpec.thy ===== *)
theory MaemoCtlSpec
  imports MaemoCtlLife MaemoPcmCalls MaemoFaults
begin

section \<open>The Maemo control plugin: what open and close promise\<close>

text \<open>
  After a successful open every key has a probed node, in the documented layout; close and the
  destructor free everything and close every descriptor once. The cases the code does not
  handle: a configuration with one list, and a device that cannot be opened.
\<close>

definition ctl_world_ok :: "ctl_world \<Rightarrow> addr set \<Rightarrow> (addr \<Rightarrow> nat list) \<Rightarrow> bool" where
  "ctl_world_ok w H f \<longleftrightarrow> nodes_ok w H f \<and> (\<forall>i s. cw_next w \<le> i \<longrightarrow> Head i s \<notin> dom (nd_links w))"

lemma ctl_calloc_ok:
  assumes "ctl_world_ok w H f" "ctl_calloc w = (i, w0)"
  shows "nodes_ok w0 H f" "Head i s \<in> dom (nd_links w0)" "Head i s \<notin> H" "i = cw_next w"
    "cw_inst w0 = (cw_inst w)(i \<mapsto> \<lparr>sc_num_playbacks = 0, sc_num_recordings = 0, sc_controls = None\<rparr>)"
    "cw_next w0 = Suc i" "cw_free_ref w0 = cw_free_ref w" "cw_closed w0 = cw_closed w"
    "nd_data w0 = nd_data w" "dom (nd_links w0) = dom (nd_links w) \<union> {Head i PLAYBACK, Head i CAPTURE}"
proof -
  have w0: "i = cw_next w" "nd_links w0 = (nd_links w)(Head i PLAYBACK \<mapsto> \<lparr>lh_next = None, lh_prev = None\<rparr>,
      Head i CAPTURE \<mapsto> \<lparr>lh_next = None, lh_prev = None\<rparr>)" "nd_data w0 = nd_data w" "nd_count w0 = nd_count w"
    using assms(2) by (auto simp: ctl_calloc_def Let_def)
  have n: "nodes_ok w H f" and out: "Head i s \<notin> dom (nd_links w)" for s
    using assms(1) w0(1) by (auto simp: ctl_world_ok_def)
  then have off: "Head i s \<notin> entries H (\<lambda>h. map Node (f h))" for s
    using entries_live [OF nodes_okD(1) [OF n]] by blast
  have "holds (nd_links w0) H (\<lambda>h. map Node (f h))"
    by (rule holds_cong [OF nodes_okD(1) [OF n]]) (use off w0(2) in auto)
  then show "nodes_ok w0 H f" using n w0(2-4) by (auto simp: nodes_ok_def)
  show "Head i s \<in> dom (nd_links w0)" by (cases s) (auto simp: w0(2))
  show "Head i s \<notin> H" using off [of s] by (auto simp: entries_def)
qed (use assms in \<open>auto simp: ctl_calloc_def Let_def\<close>)

text \<open>The state after a successful open, in terms of the entries \<open>ks\<close> and \<open>js\<close> of the two lists.\<close>

definition ctl_opened :: "ctl_world \<Rightarrow> addr set \<Rightarrow> (addr \<Rightarrow> nat list) \<Rightarrow> string list \<Rightarrow> string list \<Rightarrow> ctl_world \<Rightarrow> nat list \<Rightarrow> nat list \<Rightarrow> bool" where
  "ctl_opened w H f ps rs w1 ks js \<longleftrightarrow> (let i = cw_next w in
     ctl_nodes w1 i H f ks js \<and> length ks = length ps \<and> length js = length rs
     \<and> map (map_option cn_name \<circ> nd_data w1) (ks @ js) = map Some (rev ps @ rev rs)
     \<and> (\<forall>k \<in> set (ks @ js). probed w1 k)
     \<and> cw_inst w1 = (cw_inst w)(i \<mapsto> \<lparr>sc_num_playbacks = int (length ps), sc_num_recordings = int (length rs),
          sc_controls = Some (map Some (twice ks @ js))\<rparr>)
     \<and> cw_free_ref w1 = Some i \<and> cw_closed w1 = cw_closed w \<and> nd_data w = nd_data w1 |` (- set (ks @ js))
     \<and> dom (nd_links w1) = dom (nd_links w) \<union> {Head i PLAYBACK, Head i CAPTURE} \<union> Node ` set (ks @ js))"

lemma dsp_ctl_open_result:
  assumes "ctl_world_ok w H f" "ctl_conf_names P conf ps rs" "co_calloc P" "dsp_ctl_open P conf w = Some (0, w1)"
  shows "\<exists>ks js. ctl_opened w H f ps rs w1 ks js"
proof -
  define i where "i = cw_next w"
  obtain w0 where c: "ctl_calloc w = (i, w0)"
    using ctl_calloc_ok(4) [OF assms(1)] unfolding i_def by (metis prod.collapse)
  note k = ctl_calloc_ok [OF assms(1) c]
  have len: "2 * length ps + length rs < 2 ^ 31" using assms(2) by (simp add: ctl_conf_names_def)
  have i0: "cw_inst w0 i = Some \<lparr>sc_num_playbacks = 0, sc_num_recordings = 0, sc_controls = None\<rparr>"
    using k(5) by simp
  obtain ks js v where v: "dsp_ctl_conf P i conf w0 = Some (0, v)" "ctl_nodes v i H f ks js"
    "map (nd_data v) ks = map (Some \<circ> new_control) (rev ps)" "map (nd_data v) js = map (Some \<circ> new_control) (rev rs)"
    "cw_inst v = (cw_inst w0)(i \<mapsto> \<lparr>sc_num_playbacks = int (length ps), sc_num_recordings = int (length rs), sc_controls = None\<rparr>)"
    "cw_free_ref v = cw_free_ref w0" "cw_closed v = cw_closed w0"
    "nd_data w0 = nd_data v |` (- (set ks \<union> set js))" "dom (nd_links v) = dom (nd_links w0) \<union> Node ` (set ks \<union> set js)"
    using conf_both_lists [OF k(1) k(2) [of PLAYBACK] k(2) [of CAPTURE] k(3) [of PLAYBACK] k(3) [of CAPTURE] assms(2) i0]
    by (elim exE conjE) (rule that; assumption)
  have lens: "length ks = length ps" "length js = length rs"
    using v(3,4) by (auto dest: map_eq_imp_length_eq)
  obtain e1 u e2 x where p: "dsp_ctl_probe_dsp_task P i v = Some (e1, u)" "\<not> e1 < 0"
    and q: "dsp_ctl_fill_controls P i u = Some (e2, x)" "\<not> e2 < 0" and w1: "w1 = x\<lparr>cw_free_ref := Some i\<rparr>"
    using assms(3,4) c v(1) by (auto simp: dsp_ctl_open_def dsp_ctl_setup_def Let_def Option.bind_eq_Some_conv split: if_splits)
  note pb = probe_both [OF v(2) p(1) leI [OF p(2)]]
  have inst: "cw_inst u i = Some \<lparr>sc_num_playbacks = int (length ps), sc_num_recordings = int (length rs), sc_controls = None\<rparr>"
    using pb v(5) by simp
  have u: "ctl_nodes u i H f ks js" using pb by blast
  have x: "x = u\<lparr>cw_inst := (cw_inst u)(i \<mapsto> \<lparr>sc_num_playbacks = int (length ps), sc_num_recordings = int (length rs),
          sc_controls = Some (map Some (twice ks @ js))\<rparr>)\<rparr>"
    using fill_controls_array [OF u inst _ _ _ q(1) leI [OF q(2)]] lens len by simp
  have "map (map_option cn_name \<circ> nd_data u) (ks @ js) = map (map_option cn_name \<circ> nd_data v) (ks @ js)"
    using pb by (auto simp: same_names_def)
  also have "\<dots> = map (map_option cn_name) (map (nd_data v) ks @ map (nd_data v) js)" by simp
  also have "\<dots> = map Some (rev ps @ rev rs)"
    unfolding v(3,4) by (simp add: new_control_def)
  finally have names: "map (map_option cn_name \<circ> nd_data u) (ks @ js) = map Some (rev ps @ rev rs)" .
  have data: "nd_data w = nd_data u |` (- set (ks @ js))"
  proof
    fix a
    have "nd_data w a = (nd_data v |` (- (set ks \<union> set js))) a" using v(8) k(9) by simp
    also have "\<dots> = (nd_data u |` (- set (ks @ js))) a"
      using pb by (auto simp: same_names_def restrict_map_def)
    finally show "nd_data w a = (nd_data u |` (- set (ks @ js))) a" .
  qed
  have "ctl_nodes w1 i H f ks js" using u by (simp add: w1 x ctl_nodes_def nodes_ok_def)
  moreover have "\<forall>k \<in> set (ks @ js). probed w1 k" using pb by (auto simp: w1 x probed_def)
  moreover have "dom (nd_links w1) = dom (nd_links w) \<union> {Head i PLAYBACK, Head i CAPTURE} \<union> Node ` set (ks @ js)"
    using pb v(9) k(10) by (simp add: w1 x)
  ultimately show ?thesis using lens names data pb v(5-7) k(5-8)
    by (intro exI [of _ ks] exI [of _ js]) (simp add: ctl_opened_def Let_def i_def [symmetric] w1 x)
qed

lemma ctl_openedD:
  assumes "ctl_opened w H f ps rs w1 ks js"
  shows "ctl_nodes w1 (cw_next w) H f ks js" "length ks = length ps" "length js = length rs"
    "map (map_option cn_name \<circ> nd_data w1) (ks @ js) = map Some (rev ps @ rev rs)"
    "\<And>k. k \<in> set (ks @ js) \<Longrightarrow> probed w1 k"
    "cw_inst w1 = (cw_inst w)(cw_next w \<mapsto> \<lparr>sc_num_playbacks = int (length ps), sc_num_recordings = int (length rs),
          sc_controls = Some (map Some (twice ks @ js))\<rparr>)"
    "cw_free_ref w1 = Some (cw_next w)" "cw_closed w1 = cw_closed w" "nd_data w = nd_data w1 |` (- set (ks @ js))"
  using assms by (simp_all only: ctl_opened_def Let_def)

subsection \<open>The layout of the elements\<close>

lemma is_switch_unat:
  assumes "sc_num_playbacks sc = int n" "2 * n < 2 ^ 31"
  shows "is_switch sc key \<longleftrightarrow> 2 * n \<le> unat key \<or> odd (unat key)"
proof -
  have "unat (word_of_int (2 * sc_num_playbacks sc) :: u64) = 2 * n"
  proof -
    have "(word_of_int (2 * sc_num_playbacks sc) :: u64) = word_of_nat (2 * n)" unfolding assms(1) by simp
    moreover have "2 * n < 2 ^ 64" using assms(2) by simp
    ultimately show ?thesis by (simp only: unat_word_of_nat_u64)
  qed
  moreover have "unat (key mod 2) = unat key mod 2" by (simp add: unat_mod)
  ultimately show ?thesis
    by (simp add: is_switch_def word_le_nat_alt word_unat_eq_iff odd_iff_mod_2_eq_one)
qed

definition layout_name :: "string list \<Rightarrow> string list \<Rightarrow> nat \<Rightarrow> string" where
  "layout_name ps rs key = (if key < 2 * length ps then rev ps ! (key div 2) else rev rs ! (key - 2 * length ps))"

text \<open>
  C15: after a successful open with \<open>n\<close> playback and \<open>m\<close> recording devices configured, every key
  below \<open>2 * n + m\<close> leads to a live, probed node: keys \<open>2 * i\<close> and \<open>2 * i + 1\<close> are the volume and
  the switch of a playback device, the keys from \<open>2 * n\<close> the switches of the recording devices.
  The devices come in the reverse of the order of the configuration.
\<close>

theorem dsp_ctl_open_layout:
  assumes "ctl_world_ok w H f" "ctl_conf_names P conf ps rs" "co_calloc P" "dsp_ctl_open P conf w = Some (0, w1)"
    and "unat key < 2 * length ps + length rs"
  shows "\<exists>sc k. cw_inst w1 (cw_next w) = Some sc \<and> control_at sc key = Some k \<and> probed w1 k
    \<and> map_option cn_name (nd_data w1 k) = Some (layout_name ps rs (unat key))
    \<and> (is_switch sc key \<longleftrightarrow> 2 * length ps \<le> unat key \<or> odd (unat key))"
proof -
  obtain ks js where "ctl_opened w H f ps rs w1 ks js" using dsp_ctl_open_result [OF assms(1-4)] by blast
  note o = ctl_openedD [OF this]
  define u and n where "u = unat key" and "n = length ps"
  let ?sc = "\<lparr>sc_num_playbacks = int (length ps), sc_num_recordings = int (length rs), sc_controls = Some (map Some (twice ks @ js))\<rparr>"
  define j where "j = (if u < 2 * n then u div 2 else u - n)"
  have u: "u < 2 * n + length rs" using assms(5) by (simp add: u_def n_def)
  then have j: "j < length (ks @ js)" using o(2,3) by (auto simp: j_def n_def)
  have "(twice ks @ js) ! u = (ks @ js) ! j"
    using u o(2,3) by (auto simp: j_def n_def nth_append length_twice nth_twice mult_2)
  then have "control_at ?sc key = Some ((ks @ js) ! j)"
    using u o(2,3) by (simp add: control_at_def u_def [symmetric] n_def length_twice del: map_append)
  moreover have "map_option cn_name (nd_data w1 ((ks @ js) ! j)) = Some ((rev ps @ rev rs) ! j)"
  proof -
    have "j < length (rev ps @ rev rs)" using j o(2,3) by simp
    then show ?thesis using arg_cong [OF o(4), of "\<lambda>xs. xs ! j"] j by (simp only: nth_map comp_apply)
  qed
  moreover have "(rev ps @ rev rs) ! j = layout_name ps rs u"
    using u by (auto simp: layout_name_def j_def n_def nth_append mult_2)
  moreover have "2 * length ps < 2 ^ 31" using assms(2) by (simp add: ctl_conf_names_def)
  moreover have "(ks @ js) ! j \<in> set (ks @ js)" using j by (rule nth_mem)
  ultimately show ?thesis using o(5,6) is_switch_unat [of ?sc n key] by (simp add: u_def n_def)
qed

subsection \<open>Closing and unloading\<close>

lemma ctl_lists_freed:
  assumes "ctl_nodes w i H f ks js" "\<And>k. k \<in> set (ks @ js) \<Longrightarrow> probed w k"
  shows "\<exists>w1 w2. free_control_list (Head i PLAYBACK) w = Some w1 \<and> free_control_list (Head i CAPTURE) w1 = Some w2
    \<and> ctl_nodes w2 i H f [] [] \<and> nd_data w2 = nd_data w |` (- set (ks @ js))
    \<and> cw_closed w2 = cw_closed w @ map (node_fd w) (ks @ js) \<and> cw_inst w2 = cw_inst w \<and> cw_free_ref w2 = cw_free_ref w"
proof -
  let ?H = "{Head i PLAYBACK, Head i CAPTURE} \<union> H" and ?f = "f(Head i PLAYBACK := ks, Head i CAPTURE := js)"
  have n: "nodes_ok w ?H ?f" using assms(1) by (simp add: ctl_nodes_def)
  have disj: "set ks \<inter> set js = {}"
    using holds_apart [OF nodes_okD(1) [OF n], of "Head i PLAYBACK" "Head i CAPTURE"] by auto
  have "Head i PLAYBACK \<in> ?H" "\<And>k. k \<in> set (?f (Head i PLAYBACK)) \<Longrightarrow> probed w k" using assms(2) by auto
  from free_control_list_frees [OF n this] obtain w1 where
    w1: "free_control_list (Head i PLAYBACK) w = Some w1" "nodes_ok w1 ?H (?f(Head i PLAYBACK := []))"
    "nd_data w1 = nd_data w |` (- set ks)" "cw_closed w1 = cw_closed w @ map (node_fd w) ks"
    "cw_inst w1 = cw_inst w" "cw_free_ref w1 = cw_free_ref w" by auto
  have same: "nd_data w1 k = nd_data w k" if "k \<in> set js" for k using that disj by (auto simp: w1(3) restrict_map_def)
  then have "Head i CAPTURE \<in> ?H" "\<And>k. k \<in> set ((?f(Head i PLAYBACK := [])) (Head i CAPTURE)) \<Longrightarrow> probed w1 k"
    using assms(2) by (auto simp: probed_def)
  from free_control_list_frees [OF w1(2) this] obtain w2 where
    w2: "free_control_list (Head i CAPTURE) w1 = Some w2" "nodes_ok w2 ?H (?f(Head i PLAYBACK := [], Head i CAPTURE := []))"
    "nd_data w2 = nd_data w1 |` (- set js)" "cw_closed w2 = cw_closed w1 @ map (node_fd w1) js"
    "cw_inst w2 = cw_inst w1" "cw_free_ref w2 = cw_free_ref w1" by auto
  have "map (node_fd w1) js = map (node_fd w) js" using same by (simp add: node_fd_def)
  moreover have "?f(Head i PLAYBACK := [], Head i CAPTURE := []) = f(Head i PLAYBACK := [], Head i CAPTURE := [])" by auto
  moreover have "nd_data w2 = nd_data w |` (- set (ks @ js))" unfolding w2(3) w1(3) by (simp add: Int_commute)
  ultimately show ?thesis using w1 w2 by (intro exI [of _ w1] exI [of _ w2]) (simp add: ctl_nodes_def)
qed

lemma ctl_lists_empty:
  assumes "ctl_nodes w i H f [] []"
  shows "\<exists>w1 w2. free_control_list (Head i PLAYBACK) w = Some w1 \<and> free_control_list (Head i CAPTURE) w1 = Some w2
    \<and> nd_data w2 = nd_data w \<and> cw_closed w2 = cw_closed w \<and> cw_inst w2 = cw_inst w \<and> cw_free_ref w2 = cw_free_ref w"
  using ctl_lists_freed [OF assms] by (auto simp: restrict_map_def)


subsection \<open>Reading and writing an element\<close>

definition node_dsp :: "ctl_world \<Rightarrow> nat \<Rightarrow> dsp option" where
  "node_dsp w k = do { n \<leftarrow> nd_data w k; cn_protocol n }"

text \<open>The messages of a change, in the order of the trace.\<close>

definition change_messages :: "bool \<Rightarrow> u8 \<Rightarrow> u8 \<Rightarrow> dsp_out list \<Rightarrow> bool" where
  "change_messages switch left right ms \<longleftrightarrow>
     (if switch then ms = [Out_cmd (if left = 0 then DSP_CMD_MUTE else DSP_CMD_UNMUTE)]
      else \<exists>scale p2. dsp_protocol_linear2Q15 (ucast (if left > right then left else right)) = Some (scale, p2)
        \<and> ms = [Out_volume DSP_CMD_SET_VOLUME scale p2, Out_panning DSP_CMD_SET_PANNING (pan_gain left right) (pan_gain right left) PANNING_STEP])"

lemma on_node_result:
  assumes "on_node k f w = Some (x, w')"
  shows "\<exists>d d'. node_dsp w k = Some d \<and> f d = Some (x, d') \<and> node_dsp w' k = Some d'"
  using assms by (auto simp: on_node_def node_dsp_def Option.bind_eq_Some_conv)

lemma locked_succeeds:
  assumes "dsp_locked E id body d = Some (r, d')" "0 \<le> r"
  shows "\<exists>d1 d2. body d1 = Some (r, d2) \<and> d_trace d' = d_trace d2 @ [Ev_up]"
  using assms by (fastforce simp: dsp_locked_def case_prod_beta Option.bind_eq_Some_conv dsp_simps split: if_splits)

lemma set_volume_sends:
  assumes "dsp_set_volume_locked E left right d = Some (r, d')" "0 \<le> r"
  shows "\<exists>ms. change_messages False left right ms \<and> d_trace d' = d_trace d @ map Ev_write ms"
  using assms
  by (auto simp: dsp_set_volume_locked_def change_messages_def case_prod_beta Let_def dsp_simps
      Option.bind_eq_Some_conv split: if_splits)

lemma set_mute_sends:
  assumes "dsp_set_mute_locked E (if left = 0 then 1 else 0) d = Some (r, d')" "0 \<le> r"
  shows "\<exists>ms. change_messages True left right ms \<and> d_trace d' = d_trace d @ map Ev_write ms"
proof -
  have "fst (dsp_send_command E (if left = 0 then DSP_CMD_MUTE else DSP_CMD_UNMUTE) d) = 0"
    using assms command_result [of E _ d] by (auto simp: dsp_set_mute_locked_def case_prod_beta Let_def intro: order_antisym)
  from command_sent [OF this] show ?thesis using assms(1)
    by (auto simp: dsp_set_mute_locked_def change_messages_def case_prod_beta Let_def dsp_simps)
qed

lemma ctl_set_sends:
  assumes "ctl_set E switch k left right w = Some (r, w')" "0 \<le> r"
  shows "\<exists>d ms tr. node_dsp w' k = Some d \<and> change_messages switch left right ms \<and> d_trace d = tr @ map Ev_write ms @ [Ev_up]"
proof (cases switch)
  case True
  then obtain d d' where d: "dsp_protocol_set_mute (E k) (if left = 0 then 1 else 0) d = Some (r, d')" "node_dsp w' k = Some d'"
    using assms(1) on_node_result by (fastforce simp: ctl_set_def)
  then obtain d1 d2 where "dsp_set_mute_locked (E k) (if left = 0 then 1 else 0) d1 = Some (r, d2)" "d_trace d' = d_trace d2 @ [Ev_up]"
    using locked_succeeds [OF _ assms(2)] by (fastforce simp: dsp_protocol_set_mute_def)
  with set_mute_sends [OF this(1) assms(2), of right] show ?thesis using d(2) True by auto
next
  case False
  then obtain d d' where d: "dsp_protocol_set_volume (E k) left right d = Some (r, d')" "node_dsp w' k = Some d'"
    using assms(1) on_node_result by (fastforce simp: ctl_set_def)
  then obtain d1 d2 where "dsp_set_volume_locked (E k) left right d1 = Some (r, d2)" "d_trace d' = d_trace d2 @ [Ev_up]"
    using locked_succeeds [OF _ assms(2)] by (fastforce simp: dsp_protocol_set_volume_def)
  with set_volume_sends [OF this(1) assms(2)] show ?thesis using d(2) False by auto
qed

text \<open>
  when write_integer reports a change, the last thing done to the device, before its lock
  was given back, is the command for the values written: MUTE for 0 and UNMUTE for another
  value of a switch; the volume and panning messages of the two channels of a volume (of the one
  channel twice for a mono device), cut to 8 bits. When it reports no change and leaves other
  values than zeros, the device had these values, and nothing was set.
\<close>

theorem dsp_ctl_write_integer_sets:
  assumes "dsp_ctl_write_integer E sc key (v0, v1) w = Some (ret, out, w')" "control_at sc key = Some k"
  shows "ret = 1 \<and> out = (v0, v1) \<and> (\<exists>n d left right ms tr. nd_data w' k = Some n \<and> cn_protocol n = Some d
        \<and> left = word_of_int v0 \<and> right = (if cn_channels n = 2 then word_of_int v1 else left)
        \<and> change_messages (is_switch sc key) left right ms \<and> d_trace d = tr @ map Ev_write ms @ [Ev_up])
    \<or> ret = 0 \<and> (fst out = 0 \<or> (\<exists>r l1 r1. ctl_get E (is_switch sc key) k w = Some ((r, Some (l1, r1)), w') \<and> 0 \<le> r
        \<and> out = (v0, v1) \<and> uint l1 = v0 \<and> (cn_channels (the (nd_data w' k)) = 2 \<longrightarrow> uint r1 = v1)))"
proof -
  obtain ret1 lr w1 n where g: "ctl_get E (is_switch sc key) k w = Some ((ret1, lr), w1)" "nd_data w1 k = Some n"
    using assms by (auto simp: dsp_ctl_write_integer_def Option.bind_eq_Some_conv)
  let ?left = "word_of_int v0 :: u8" and ?right = "if cn_channels n = 2 then word_of_int v1 else word_of_int v0 :: u8"
  consider "ret = 0" "fst out = 0"
    | l1 r1 where "lr = Some (l1, r1)" "0 \<le> ret1" "uint l1 = v0" "cn_channels n = 2 \<longrightarrow> uint r1 = v1" "ret = 0" "out = (v0, v1)" "w' = w1"
    | r2 where "ctl_set E (is_switch sc key) k ?left ?right w1 = Some (r2, w')" "0 \<le> r2" "ret = 1" "out = (v0, v1)"
    using assms g by (auto simp: dsp_ctl_write_integer_def Let_def Option.bind_eq_Some_conv split: if_splits)
  then show ?thesis
  proof cases
    case 2
    then show ?thesis using g by auto
  next
    case 3
    obtain d ms tr where s: "node_dsp w' k = Some d" "change_messages (is_switch sc key) ?left ?right ms"
      "d_trace d = tr @ map Ev_write ms @ [Ev_up]" using ctl_set_sends [OF 3(1,2)] by blast
    obtain n' where n': "nd_data w' k = Some n'" "cn_channels n' = cn_channels n" "cn_protocol n' = Some d"
      using 3(1) g(2) s(1) by (auto simp: ctl_set_def on_node_def node_dsp_def Option.bind_eq_Some_conv split: if_splits)
    show ?thesis using 3(3,4) n' s by auto
  qed simp
qed

text \<open>Writing back what was read changes nothing.\<close>

lemma dsp_ctl_write_back:
  assumes "dsp_ctl_read_integer E sc key v w = Some (ret, out, w')" "0 \<le> ret" "out \<noteq> (0, if cn_channels (the (nd_data w' k)) = 2 then 0 else snd v)"
    "control_at sc key = Some k"
  shows "dsp_ctl_write_integer E sc key out w = Some (0, out, w')"
proof -
  obtain ret1 lr n where g: "ctl_get E (is_switch sc key) k w = Some ((ret1, lr), w')" "nd_data w' k = Some n"
    using assms(1,4) by (auto simp: dsp_ctl_read_integer_def Option.bind_eq_Some_conv split: if_splits)
  then obtain l1 r1 where "0 \<le> ret1" "lr = Some (l1, r1)" "out = (uint l1, if cn_channels n = 2 then uint r1 else snd v)"
    using assms by (cases "0 \<le> ret1") (auto simp: dsp_ctl_read_integer_def Option.bind_eq_Some_conv)
  then show ?thesis using g assms(4) by (simp add: dsp_ctl_write_integer_def Let_def)
qed

end
