(* ===== verification/MaemoPcmDemo.thy ===== *)
theory MaemoPcmDemo
  imports MaemoPcmCalls MaemoFaults
begin

section \<open>The Maemo PCM plugin on a small device\<close>

text \<open>
  The properties of the plugin at a concrete configuration, with two playback devices and one
  recording device, on the device of \<open>MaemoFaults\<close>.
\<close>

definition demo_conf :: "nat tree_api" where
  "demo_conf = \<lparr>cfg_id = (\<lambda>n. Some (if n = 1 then ''playback_device_file''
       else if n = 2 then ''recording_device_file'' else if n = 11 then ''1'' else ''0'')),
     cfg_integer = (\<lambda>_. None), cfg_string = (\<lambda>_. None), cfg_error = (\<lambda>_. - 22),
     cfg_compound = (\<lambda>n. n < 10), cfg_children = (\<lambda>n. if n = 1 then [10, 11] else [20]),
     cfg_ascii = (\<lambda>n. Some (if n = 10 then ''pcm0'' else if n = 11 then ''pcm1'' else ''rec0''))\<rparr>"

definition demo_open :: "int \<Rightarrow> nat pcm_open_env" where
  "demo_open create = \<lparr>po_conf = demo_conf, po_strtol = (\<lambda>s. (if s = ''1'' then 1 else 0, [], 0)),
     po_calloc = True, po_malloc = (\<lambda>_. True), po_protocol = True, po_dsp = demo_dev, po_create = create,
     po_setp = (\<lambda>_. 0), po_delete = (\<lambda>_ w. Some w)\<rparr>"

lemma demo_fresh: "fresh_dsp = demo_dsp STATE_UNINITIALISED Mutex_free"
  by (simp add: fresh_dsp_def dsp_protocol_create_def demo_dsp_def)

lemma demo_names:
  "names_list (demo_open c) 1 ''playback_device_file'' [''pcm0'', ''pcm1'']"
  "names_list (demo_open c) 2 ''recording_device_file'' [''rec0'']"
  by (simp_all add: names_list_def conf_key_def demo_open_def demo_conf_def cfg_skipped_def safe_strtol_def)

lemma demo_keys: "filter (\<lambda>n. conf_key (po_conf (demo_open c)) n \<noteq> None) [1, 2] = [1, 2]"
  "filter (\<lambda>n. conf_key (po_conf (demo_open c)) n \<noteq> None) [1] = [1]"
  by (simp_all add: conf_key_def demo_open_def demo_conf_def cfg_skipped_def)

lemma demo_pcm_conf: "pcm_conf_names (demo_open c) [1, 2] [''pcm0'', ''pcm1''] [''rec0'']"
  unfolding pcm_conf_names_def demo_keys using demo_names [of c] by (auto simp: demo_open_def)

lemma demo_world: "world_ok pcm_initial {} (\<lambda>_. [])"
  by (simp add: world_ok_def nodes_ok_def holds_def pcm_initial_def)

lemma demo_env: "po_calloc (demo_open c)" "po_protocol (demo_open c)" "po_create (demo_open c) = c"
  "po_dsp (demo_open c) = demo_dev" "\<forall>k. po_malloc (demo_open c) k"
  by (simp_all add: demo_open_def)

lemma demo_constraints: "0 \<le> alsa_dsp_configure_constraints (po_setp (demo_open c)) s"
  by (cases s) (simp_all add: alsa_dsp_configure_constraints_def demo_open_def Let_def)

lemma demo_search: "\<exists>d. search_devices demo_dev (- 22) [''pcm1'', ''pcm0''] fresh_dsp = Some (0, d)
    \<and> d_device d = Some ''pcm1'' \<and> d_state d = STATE_INITIALISED \<and> d_mutex d = Mutex_free"
proof -
  have dev: "si_status (k_info demo_dev n) = 4" "is_mmap_buffer_size (k_init demo_dev n) = 8" for n
    by (simp_all add: demo_dev_def)
  show ?thesis
    by (simp add: demo_fresh dsp_protocol_open_node_def dsp_open_locked_def demo_dsp_simps demo_status dev)
qed



theorem alsa_dsp_refused_dangles_witness:
  "\<exists>w'. alsa_dsp_open (demo_open (- 12)) [1, 2] PLAYBACK pcm_initial = Some (- 12, w')
    \<and> alsa_dsp_destructor demo_dev w' = None"
proof -
  obtain d where d: "search_devices demo_dev (- 22) [''pcm1'', ''pcm0''] fresh_dsp = Some (0, d)" using demo_search by blast
  have "po_create (demo_open (- 12)) < 0" by (simp add: demo_env)
  from alsa_dsp_refused_dangles [OF demo_world demo_pcm_conf demo_env(1,2) this, of PLAYBACK 0 d demo_dev]
  show ?thesis using d by (simp add: demo_env)
qed

theorem alsa_dsp_one_list_traps_witness: "alsa_dsp_open (demo_open 0) [1] CAPTURE pcm_initial = None"
  using alsa_dsp_one_list_traps [OF demo_world demo_env(1,2,5) demo_keys(2) demo_names(1), where c1 = 0] by blast

definition demo_io :: "pcm_stream \<Rightarrow> ioplug" where
  "demo_io s = \<lparr>io_stream = s, io_state = STATE_SETUP, io_format = FORMAT_S16_LE, io_rate = 48000, io_channels = 2,
     io_period_size = 512, io_buffer_size = 1024, io_appl_ptr = 0\<rparr>"

definition demo_pcm :: pcm_env where
  "demo_pcm = \<lparr>pe_dsp = demo_dev, pe_mic = True, pe_width = (\<lambda>_. 16)\<rparr>"

definition demo_inst :: "dsp \<Rightarrow> alsa_dsp" where
  "demo_inst d = \<lparr>ad_protocol = Some d, ad_format = 2, ad_sample_rate = 3, ad_bytes_per_frame = 4, ad_hw_pointer = 0, ad_mic = []\<rparr>"

theorem alsa_dsp_prepare_sends_params_witness:
  "\<exists>ad' d' sid. alsa_dsp_prepare demo_pcm (demo_io PLAYBACK) (demo_inst (demo_dsp STATE_INITIALISED Mutex_free)) = Some (0, ad')
    \<and> ad_protocol ad' = Some d' \<and> Ev_write (Out_audio_params \<lparr>ap_dsp_cmd = 2, ap_dsp_audio_fmt = 2, ap_sample_rate = 3,
      ap_number_channels = 2, ap_ds_stream_id = sid, ap_stream_priority = 0\<rparr>) \<in> set (d_trace d')"
proof -
  obtain ad' where p: "alsa_dsp_prepare demo_pcm (demo_io PLAYBACK) (demo_inst (demo_dsp STATE_INITIALISED Mutex_free)) = Some (0, ad')"
    by (simp add: alsa_dsp_prepare_def on_dsp_def send_params_def dsp_protocol_send_audio_params_def dsp_params_locked_def
        demo_pcm_def demo_io_def demo_inst_def demo_dsp_simps demo_status)
  from alsa_dsp_prepare_sends_params [OF this] p show ?thesis
    by (auto simp: params_message_def demo_io_def demo_inst_def)
qed

theorem alsa_dsp_transfer_plays_witness:
  "\<exists>result ad'. alsa_dsp_transfer demo_pcm (demo_io PLAYBACK) \<lparr>ar_addr = 100, ar_first = 0, ar_step = 32\<rparr> 1 1 word_of_nat
     (demo_inst ((demo_dsp STATE_PLAYING Mutex_free)\<lparr>d_mmap := Map_words [0, 0, 0], d_mmap_size := 6\<rparr>)) = Some (result, word_of_nat, ad')"
proof -
  let ?d = "(demo_dsp STATE_PLAYING Mutex_free)\<lparr>d_mmap := Map_words [0, 0, 0], d_mmap_size := 6\<rparr>"
  have "io_stream (demo_io PLAYBACK) = PLAYBACK" "ad_protocol (demo_inst ?d) = Some ?d" "d_state ?d = STATE_PLAYING"
    "d_mmap ?d = Map_words [0, 0, 0]" "length [0 :: u16, 0, 0] = unat (d_mmap_size ?d) div 2" "unat (d_mmap_size ?d) < 2 ^ 16"
    "0 < ad_bytes_per_frame (demo_inst ?d)" "unat (1 :: u64) * nat (ad_bytes_per_frame (demo_inst ?d)) < 2 ^ 31"
    by (simp_all add: demo_io_def demo_inst_def demo_dsp_def)
  from alsa_dsp_transfer_plays [OF this] show ?thesis by blast
qed

end
