(* ===== verification/MaemoCtlDemo.thy ===== *)
theory MaemoCtlDemo
  imports MaemoCtlSpec MaemoPcmDemo
begin

section \<open>The Maemo control plugin on small devices\<close>

text \<open>
  When open succeeds, what happens when it cannot, and the properties of the plugin at a
  concrete configuration with two playback devices and one recording device.
\<close>

subsection \<open>When open succeeds\<close>

definition all_probe :: "'c ctl_open_env \<Rightarrow> bool" where
  "all_probe P \<longleftrightarrow> (\<forall>k. co_protocol P k \<and> (\<forall>name. \<exists>c d. dsp_protocol_probe_node (co_dsp P k) name fresh_dsp = Some (c, d) \<and> 0 \<le> c))"

lemma probe_succeeds:
  assumes "all_probe P" "nd_data w k = Some n"
  shows "\<exists>w'. probe_control P (Some (Node k)) (e, w) = Some (False, 0, w')"
proof -
  obtain c d where "dsp_protocol_probe_node (co_dsp P k) (cn_name n) fresh_dsp = Some (c, d)" "0 \<le> c"
    using assms(1) unfolding all_probe_def by blast
  moreover have "co_protocol P k" using assms(1) by (simp add: all_probe_def)
  ultimately show ?thesis using assms(2) create_fresh by (simp add: probe_control_def)
qed

lemma visit_probe_succeeds:
  assumes "all_probe P" "set ks \<subseteq> dom (nd_data w)" "0 \<le> e"
  shows "\<exists>e' w'. visit (probe_control P) (map Node ks) (e, w) = Some (e', w') \<and> 0 \<le> e'"
  using assms(2,3)
proof (induction ks arbitrary: e w)
  case (Cons k ks)
  then obtain n where "nd_data w k = Some n" by auto
  from probe_succeeds [OF assms(1) this] obtain w1 where p: "probe_control P (Some (Node k)) (e, w) = Some (False, 0, w1)" by blast
  have "dom (nd_data w1) = dom (nd_data w)"
    using visit_probe [of P "[k]" e w 0 w1] p Cons.prems(2) by simp
  then show ?case using Cons.IH [of w1 0] Cons.prems(1) p by simp
qed simp

lemma probe_task_succeeds:
  assumes "ctl_nodes w i H f ks js" "all_probe P"
  shows "\<exists>e w'. dsp_ctl_probe_dsp_task P i w = Some (e, w') \<and> 0 \<le> e"
proof -
  let ?H = "{Head i PLAYBACK, Head i CAPTURE} \<union> H" and ?f = "f(Head i PLAYBACK := ks, Head i CAPTURE := js)"
  have n: "nodes_ok w ?H ?f" using assms(1) by (simp add: ctl_nodes_def)
  have d: "set ks \<subseteq> dom (nd_data w)" "set js \<subseteq> dom (nd_data w)" "distinct ks"
    using nodes_listed [OF n, of "Head i PLAYBACK"] nodes_listed [OF n, of "Head i CAPTURE"] by auto
  obtain e1 w1 where p: "visit (probe_control P) (map Node ks) (0, w) = Some (e1, w1)" "0 \<le> e1"
    using visit_probe_succeeds [OF assms(2) d(1)] by blast
  note v = visit_probe [OF p(1) order_refl p(2) d(3)]
  have n1: "nodes_ok w1 ?H ?f" using nodes_ok_cong [OF n] v by blast
  have "set js \<subseteq> dom (nd_data w1)" using d(2) v by blast
  from visit_probe_succeeds [OF assms(2) this p(2)] obtain e2 w2 where
    q: "visit (probe_control P) (map Node js) (e1, w1) = Some (e2, w2)" "0 \<le> e2" by blast
  show ?thesis using p q probe_loop [OF n, of "Head i PLAYBACK" P 0] probe_loop [OF n1, of "Head i CAPTURE" P e1]
    by (simp add: dsp_ctl_probe_dsp_task_def)
qed

text \<open>
  With both lists, enough memory and devices that can all be probed, open succeeds.
\<close>

lemma dsp_ctl_open_succeeds:
  assumes "ctl_world_ok w H f" "ctl_conf_names P conf ps rs" "co_calloc P" "all_probe P" "\<And>n. co_controls P n" "0 \<le> co_create P"
  shows "\<exists>w1. dsp_ctl_open P conf w = Some (0, w1)"
proof -
  obtain i w0 where c: "ctl_calloc w = (i, w0)" by fastforce
  note k = ctl_calloc_ok [OF assms(1) c]
  have i0: "cw_inst w0 i = Some \<lparr>sc_num_playbacks = 0, sc_num_recordings = 0, sc_controls = None\<rparr>"
    using k(4,5) by simp
  obtain ks js v where v: "dsp_ctl_conf P i conf w0 = Some (0, v)" "ctl_nodes v i H f ks js"
    "map (nd_data v) ks = map (Some \<circ> new_control) (rev ps)" "map (nd_data v) js = map (Some \<circ> new_control) (rev rs)"
    "cw_inst v = (cw_inst w0)(i \<mapsto> \<lparr>sc_num_playbacks = int (length ps), sc_num_recordings = int (length rs), sc_controls = None\<rparr>)"
    using conf_both_lists [OF k(1) k(2) [of PLAYBACK] k(2) [of CAPTURE] k(3) [of PLAYBACK] k(3) [of CAPTURE] assms(2) i0]
    by (elim exE conjE) (rule that; assumption)
  have lens: "length ks = length ps" "length js = length rs" using v(3,4) by (auto dest: map_eq_imp_length_eq)
  obtain e u where p: "dsp_ctl_probe_dsp_task P i v = Some (e, u)" "0 \<le> e" using probe_task_succeeds [OF v(2) assms(4)] by blast
  note pb = probe_both [OF v(2) p]
  have inst: "cw_inst u i = Some \<lparr>sc_num_playbacks = int (length ps), sc_num_recordings = int (length rs), sc_controls = None\<rparr>"
    and u: "ctl_nodes u i H f ks js" using pb v(5) by simp_all
  have "2 * length ks + length js < 2 ^ 31" using assms(2) lens by (simp add: ctl_conf_names_def)
  from fill_controls_result [OF u inst _ _ this assms(5)] lens
  show ?thesis using c v(1) p assms(3,6) by (simp add: dsp_ctl_open_def dsp_ctl_setup_def)
qed

subsection \<open>What the code does not handle\<close>

text \<open>
  A configuration with the playback devices only: probing walks the recording list, whose head
  is still zero, and dereferences NULL.
\<close>

lemma dsp_ctl_one_list_traps:
  assumes "nodes_ok w H f" "Head i PLAYBACK \<in> H" "nd_links w (Head i CAPTURE) = Some \<lparr>lh_next = None, lh_prev = None\<rparr>"
    "Head i CAPTURE \<notin> entries H (\<lambda>h. map Node (f h))" "all_probe P"
  shows "dsp_ctl_probe_dsp_task P i w = None"
proof -
  let ?ks = "f (Head i PLAYBACK)"
  have d: "set ?ks \<subseteq> dom (nd_data w)" "distinct ?ks" using nodes_listed [OF assms(1,2)] by auto
  obtain e1 w1 where p: "visit (probe_control P) (map Node ?ks) (0, w) = Some (e1, w1)" "0 \<le> e1"
    using visit_probe_succeeds [OF assms(5) d(1)] by blast
  have "nd_links w1 = nd_links w" using visit_probe [OF p(1) order_refl p(2) d(2)] by blast
  then have "list_for_each_entry (\<lambda>st. nd_links (snd st)) (Head i CAPTURE) (probe_control P) (e1, w1) = None"
    using assms(3) by (simp add: list_for_each_entry_def list_for_each_entry_from.simps probe_control_def get_next_def)
  then show ?thesis using p probe_loop [OF assms(1,2), of P 0] by (simp add: dsp_ctl_probe_dsp_task_def)
qed

text \<open>
  A device file that cannot be opened gives the positive \<open>errno\<close> as number of channels: the
  control is kept, with no device, and with \<open>ENOENT\<close> (2) it even looks like a stereo control.
\<close>

lemma dsp_ctl_missing_device:
  assumes "nd_data w k = Some n" "co_protocol P k" "k_ret (co_dsp P k) 0 = (- 1, 2)"
  shows "\<exists>w'. probe_control P (Some (Node k)) (e, w) = Some (False, 0, w')
    \<and> map_option cn_channels (nd_data w' k) = Some 2 \<and> node_fd w' k = - 1"
proof -
  have call: "dsp_call (co_dsp P k) fresh_dsp = (- 1, fresh_dsp\<lparr>d_calls := 1, d_errno := 2\<rparr>)"
    using assms(3) by (simp add: dsp_call_def fresh_dsp_def dsp_protocol_create_def)
  have "d_state fresh_dsp = STATE_UNINITIALISED" by (simp add: fresh_dsp_def dsp_protocol_create_def)
  with call have "dsp_protocol_probe_node (co_dsp P k) (cn_name n) fresh_dsp
      = Some (2, fresh_dsp\<lparr>d_calls := 1, d_errno := 2, d_fd := - 1\<rparr>)"
    by (simp add: dsp_protocol_probe_node_def)
  then show ?thesis using assms(1,2) create_fresh by (simp add: probe_control_def node_fd_def)
qed

subsection \<open>The witnesses\<close>

definition demo_ctl_conf :: "nat tree_api" where
  "demo_ctl_conf = demo_conf\<lparr>cfg_id := (\<lambda>n. Some (if n = 1 then ''playback_devices''
       else if n = 2 then ''recording_devices'' else if n = 11 then ''1'' else ''0''))\<rparr>"

definition demo_ctl :: "nat ctl_open_env" where
  "demo_ctl = \<lparr>co_conf = demo_ctl_conf, co_strtol = (\<lambda>s. (if s = ''1'' then 1 else 0, [], 0)), co_calloc = True,
     co_malloc = (\<lambda>_. True), co_protocol = (\<lambda>_. True), co_dsp = (\<lambda>_. demo_dev), co_controls = (\<lambda>_. True), co_create = 0\<rparr>"

lemma demo_ctl_names: "ctl_conf_names demo_ctl [1, 2] [''pcm0'', ''pcm1''] [''rec0'']"
proof -
  have "filter (\<lambda>n. conf_key (co_conf demo_ctl) n \<noteq> None) [1, 2] = [1, 2]"
    by (simp add: conf_key_def demo_ctl_def demo_ctl_conf_def cfg_skipped_def)
  moreover have "ctl_list demo_ctl 1 ''playback_devices'' [''pcm0'', ''pcm1'']" "ctl_list demo_ctl 2 ''recording_devices'' [''rec0'']"
    by (simp_all add: ctl_list_def conf_key_def demo_ctl_def demo_ctl_conf_def demo_conf_def cfg_skipped_def safe_strtol_def)
  ultimately show ?thesis by (simp add: ctl_conf_names_def) (simp add: demo_ctl_def)
qed

lemma demo_ctl_world: "ctl_world_ok ctl_initial {} (\<lambda>_. [])"
  by (simp add: ctl_world_ok_def nodes_ok_def holds_def ctl_initial_def)

lemma demo_ctl_probe: "all_probe demo_ctl"
proof -
  have "\<exists>c d. dsp_protocol_probe_node demo_dev name fresh_dsp = Some (c, d) \<and> 0 \<le> c" for name
    by (simp add: demo_fresh dsp_protocol_probe_node_def dsp_probe_locked_def dsp_update_state_def demo_dsp_simps demo_status)
  then show ?thesis by (simp add: all_probe_def demo_ctl_def)
qed

lemma demo_ctl_env: "co_calloc demo_ctl" "\<And>n. co_controls demo_ctl n" "0 \<le> co_create demo_ctl"
  by (simp_all add: demo_ctl_def)

theorem dsp_ctl_open_layout_witness:
  "\<exists>w1 sc k. dsp_ctl_open demo_ctl [1, 2] ctl_initial = Some (0, w1) \<and> cw_inst w1 0 = Some sc \<and> control_at sc 3 = Some k
    \<and> map_option cn_name (nd_data w1 k) = Some ''pcm0'' \<and> is_switch sc 3"
proof -
  obtain w1 where w1: "dsp_ctl_open demo_ctl [1, 2] ctl_initial = Some (0, w1)"
    using dsp_ctl_open_succeeds [OF demo_ctl_world demo_ctl_names demo_ctl_env(1) demo_ctl_probe demo_ctl_env(2,3)] by blast
  from dsp_ctl_open_layout [OF demo_ctl_world demo_ctl_names demo_ctl_env(1) w1, of 3] show ?thesis
    using w1 by (auto simp: layout_name_def ctl_initial_def)
qed


definition demo_ctl_node :: ctl_world where
  "demo_ctl_node = ctl_initial\<lparr>nd_data := [0 \<mapsto> \<lparr>cn_protocol = Some (demo_dsp STATE_INITIALISED Mutex_free), cn_name = ''pcm0'', cn_channels = 1\<rparr>]\<rparr>"

theorem dsp_ctl_write_integer_sets_witness:
  "\<exists>w' n d tr. dsp_ctl_write_integer (\<lambda>_. demo_dev) \<lparr>sc_num_playbacks = 1, sc_num_recordings = 0, sc_controls = Some [Some 0, Some 0]\<rparr>
      1 (0, 0) demo_ctl_node = Some (1, (0, 0), w')
    \<and> nd_data w' 0 = Some n \<and> cn_protocol n = Some d \<and> d_trace d = tr @ [Ev_write (Out_cmd DSP_CMD_MUTE), Ev_up]"
proof -
  let ?sc = "\<lparr>sc_num_playbacks = 1, sc_num_recordings = 0, sc_controls = Some [Some 0, Some 0]\<rparr>"
  have at: "control_at ?sc 1 = Some 0" "is_switch ?sc 1" by (simp_all add: control_at_def is_switch_def)
  let ?n = "\<lambda>d. \<lparr>cn_protocol = Some d, cn_name = ''pcm0'', cn_channels = 1\<rparr>"
  let ?w = "\<lambda>d. demo_ctl_node\<lparr>nd_data := [0 \<mapsto> ?n d]\<rparr>"
  have mute: "si_mute (k_info demo_dev c) = 0" for c by (simp add: demo_dev_def)
  obtain d where d: "dsp_protocol_get_mute demo_dev (demo_dsp STATE_INITIALISED Mutex_free) = Some (0, d)" "d_mutex d = Mutex_free"
    by (simp add: dsp_protocol_get_mute_def dsp_get_mute_locked_def dsp_update_state_def demo_dsp_simps demo_status mute)
  then have get: "ctl_get (\<lambda>_. demo_dev) True 0 demo_ctl_node = Some ((0, Some (1, 1)), ?w d)"
    by (simp add: ctl_get_def on_node_def demo_ctl_node_def)
  obtain d' where "dsp_protocol_set_mute demo_dev 1 d = Some (0, d')"
    using d(2) by (simp add: dsp_protocol_set_mute_def dsp_set_mute_locked_def demo_dsp_simps demo_status)
  then have "ctl_set (\<lambda>_. demo_dev) True 0 0 0 (?w d) = Some (0, ?w d')"
    by (simp add: ctl_set_def on_node_def)
  with get at have w: "dsp_ctl_write_integer (\<lambda>_. demo_dev) ?sc 1 (0, 0) demo_ctl_node = Some (1, (0, 0), ?w d')"
    by (simp add: dsp_ctl_write_integer_def)
  from dsp_ctl_write_integer_sets [OF w at(1)] show ?thesis using w at(2) by (auto simp: change_messages_def)
qed

end
