(* ===== verification/Jack.thy ===== *)
theory Jack
  imports Alsa
begin

unbundle bit_operations_syntax

section \<open>The JACK plugin (jack/pcm_jack.c)\<close>

text \<open>
  An ioplug PCM whose frames JACK's thread moves: \<open>snd_pcm_jack_process_cb\<close> copies between the
  mmap ring of the PCM and the buffers of the JACK ports, moves \<open>hw_ptr\<close>, and wakes the
  application through a socket. Frames are values of the type \<open>'f\<close>, one for all channels, so the
  areas of the ports and of the ring are lists of frames. The state \<open>'p jack\<close> is
  \<open>snd_pcm_jack_t\<close> with port handles \<open>'p\<close>; \<open>jk_pipe\<close> counts the bytes in the socket pair, and
  \<open>jk_trace\<close> has the calls made to JACK and the descriptors closed. JACK and alsa-lib are the
  parameters of \<open>jack_env\<close>.
\<close>

subsection \<open>State\<close>

datatype jack_event =
    Jk_register string bool | Jk_set_callback | Jk_activate | Jk_deactivate | Jk_connect string string
  | Jk_client_close | Jk_close int

record 'p jack =
  jk_fd :: int
  jk_poll_fd :: int
  jk_pipe :: nat
  jk_activated :: bool
  jk_running :: bool
  jk_port_names :: "string list list option"
  jk_num_ports :: u32
  jk_boundary :: u64
  jk_hw_ptr :: u64
  jk_sample_bits :: u32
  jk_min_avail :: u64
  jk_align :: bool
  jk_ports :: "'p option list option"
  jk_client :: bool
  jk_xrun :: bool
  jk_trace :: "jack_event list"

record ('p, 'f) jack_env =
  je_hw_avail :: "ioplug \<Rightarrow> u64 \<Rightarrow> u64 \<Rightarrow> u64"
  je_copy_wrap :: "'f list \<Rightarrow> nat \<Rightarrow> nat \<Rightarrow> 'f list \<Rightarrow> nat \<Rightarrow> nat \<Rightarrow> u32 \<Rightarrow> nat \<Rightarrow> pcm_format \<Rightarrow> 'f list"
  je_silence :: "'f list \<Rightarrow> nat \<Rightarrow> u32 \<Rightarrow> nat \<Rightarrow> pcm_format \<Rightarrow> 'f list"
  je_pipe_size :: nat
  je_boundary_wa :: bool
  je_calloc :: "nat \<Rightarrow> bool"
  je_register :: "string \<Rightarrow> bool \<Rightarrow> 'p option"
  je_port_name :: "'p option \<Rightarrow> string"
  je_activate :: int
  je_connect :: "string \<Rightarrow> string \<Rightarrow> int"

subsection \<open>Waking the application\<close>

definition snd_pcm_ioplug_avail :: "('p, 'f) jack_env \<Rightarrow> ioplug \<Rightarrow> u64 \<Rightarrow> u64 \<Rightarrow> u64" where
  "snd_pcm_ioplug_avail E io hw_ptr appl_ptr = io_buffer_size io - je_hw_avail E io hw_ptr appl_ptr"

text \<open>\<open>read\<close> of 32 bytes until less is read.\<close>

fun drain_pipe :: "nat \<Rightarrow> nat" where
  "drain_pipe n = (if n \<ge> 32 then drain_pipe (n - 32) else 0)"

declare drain_pipe.simps [simp del]

definition pcm_poll_block_check :: "('p, 'f) jack_env \<Rightarrow> ioplug \<Rightarrow> 'p jack \<Rightarrow> bool \<times> 'p jack" where
  "pcm_poll_block_check E io j =
     (if io_state io = STATE_RUNNING \<or> io_state io = STATE_DRAINING
         \<or> io_state io = STATE_PREPARED \<and> io_stream io = CAPTURE then
        if snd_pcm_ioplug_avail E io (jk_hw_ptr j) (io_appl_ptr io) < jk_min_avail j
        then (True, j\<lparr>jk_pipe := drain_pipe (jk_pipe j)\<rparr>)
        else (False, j)
      else (False, j))"

definition pcm_poll_unblock_check :: "('p, 'f) jack_env \<Rightarrow> ioplug \<Rightarrow> 'p jack \<Rightarrow> bool \<times> 'p jack" where
  "pcm_poll_unblock_check E io j =
     (if snd_pcm_ioplug_avail E io (jk_hw_ptr j) (io_appl_ptr io) \<ge> jk_min_avail j \<or> io_state io = STATE_DRAINING
      then (True, j\<lparr>jk_pipe := (if jk_pipe j < je_pipe_size E then Suc (jk_pipe j) else jk_pipe j)\<rparr>)
      else (False, j))"

abbreviation (input) POLLIN :: u16 where "POLLIN \<equiv> 1"
abbreviation (input) POLLOUT :: u16 where "POLLOUT \<equiv> 4"

definition snd_pcm_jack_poll_revents :: "('p, 'f) jack_env \<Rightarrow> ioplug \<Rightarrow> nat \<Rightarrow> u16 \<Rightarrow> 'p jack \<Rightarrow> (u16 \<times> 'p jack) option" where
  "snd_pcm_jack_poll_revents E io nfds got j =
     (if nfds \<noteq> 1 then None
      else
        let revents = got AND NOT (POLLIN OR POLLOUT) in
        if got AND POLLIN \<noteq> 0 then
          let (blocked, j) = pcm_poll_block_check E io j in
          Some (if blocked then revents else revents OR (if io_stream io = PLAYBACK then POLLOUT else POLLIN), j)
        else Some (revents, j))"

definition snd_pcm_jack_pointer :: "('p, 'f) jack_env \<Rightarrow> ioplug \<Rightarrow> 'p jack \<Rightarrow> int option" where
  "snd_pcm_jack_pointer E io j =
     (if jk_xrun j then Some (- EPIPE)
      else if je_boundary_wa E then Some (sint (jk_hw_ptr j))
      else if io_buffer_size io = 0 then None
      else Some (sint (jk_hw_ptr j mod io_buffer_size io)))"

subsection \<open>JACK's thread\<close>

definition xfer_active :: "ioplug \<Rightarrow> bool" where
  "xfer_active io \<longleftrightarrow> io_state io = STATE_RUNNING \<or> io_state io = STATE_DRAINING"

definition advance_hw :: "u64 \<Rightarrow> u64 \<Rightarrow> u64 \<Rightarrow> u64" where
  "advance_hw boundary hw_ptr xfer =
     (let hw_ptr = hw_ptr + xfer in if hw_ptr \<ge> boundary then hw_ptr - boundary else hw_ptr)"

text \<open>The part under \<open>hw_avail > 0\<close>: the frames moved, the port buffers, the ring, the state.\<close>

definition process_transfer ::
    "('p, 'f) jack_env \<Rightarrow> u32 \<Rightarrow> ioplug \<Rightarrow> 'f list \<Rightarrow> 'f list \<Rightarrow> 'p jack \<Rightarrow> (u64 \<times> 'f list \<times> 'f list \<times> 'p jack) option" where
  "process_transfer E nframes io buf ring j =
     (let hw_ptr = jk_hw_ptr j; hw_avail = je_hw_avail E io hw_ptr (io_appl_ptr io) in
      if hw_avail = 0 then Some (0, buf, ring, j)
      else if io_buffer_size io = 0 then None
      else
        let offset = hw_ptr mod io_buffer_size io;
            xfer = min (ucast nframes) hw_avail;
            (buf, ring) =
              (if io_stream io = PLAYBACK
               then (je_copy_wrap E buf 0 (unat nframes) ring (unat offset) (unat (io_buffer_size io))
                       (io_channels io) (unat xfer) (io_format io), ring)
               else (buf, je_copy_wrap E ring (unat offset) (unat (io_buffer_size io)) buf 0 (unat nframes)
                       (io_channels io) (unat xfer) (io_format io)))
        in Some (xfer, buf, ring, j\<lparr>jk_hw_ptr := advance_hw (jk_boundary j) hw_ptr xfer\<rparr>))"

definition snd_pcm_jack_process_cb ::
    "('p, 'f) jack_env \<Rightarrow> bool \<Rightarrow> u32 \<Rightarrow> ioplug \<Rightarrow> 'f list \<Rightarrow> 'f list \<Rightarrow> 'p jack \<Rightarrow> ('f list \<times> 'f list \<times> 'p jack) option" where
  "snd_pcm_jack_process_cb E busy nframes io buf ring j =
     (if busy \<or> \<not> jk_running j then Some (buf, ring, j)
      else do {
        (xfer, buf, ring, j) \<leftarrow> (if xfer_active io then process_transfer E nframes io buf ring j else Some (0, buf, ring, j));
        let (buf, j) =
          (if xfer < ucast nframes
           then (if io_stream io = PLAYBACK
                 then je_silence E buf (unat xfer) (io_channels io) (unat (ucast nframes - xfer)) (io_format io) else buf,
                 if xfer_active io then j\<lparr>jk_xrun := True\<rparr> else j)
           else (buf, j));
        Some (buf, ring, snd (pcm_poll_unblock_check E io j))
      })"

subsection \<open>Preparing, starting, stopping\<close>

definition port_label :: "pcm_stream \<Rightarrow> nat \<Rightarrow> string" where
  "port_label s i = (if s = PLAYBACK then ''out_'' else ''in_'') @ replicate (3 - length (digits i)) (CHR ''0'') @ digits i"

definition jack_allocate_and_register_ports :: "('p, 'f) jack_env \<Rightarrow> ioplug \<Rightarrow> 'p jack \<Rightarrow> 'p jack option" where
  "jack_allocate_and_register_ports E io j =
     (let n = unat (io_channels io); label = port_label (io_stream io); out = (io_stream io = PLAYBACK) in
      if \<not> je_calloc E n \<and> n > 0 then None
      else Some (j\<lparr>jk_ports := (if je_calloc E n then Some (map (\<lambda>i. je_register E (label i) out) [0..<n]) else None),
                   jk_trace := jk_trace j @ map (\<lambda>i. Jk_register (label i) out) [0..<n]\<rparr>))"

text \<open>The connections of one port, then of all: up to the first that fails.\<close>

fun connect_port :: "('p, 'f) jack_env \<Rightarrow> pcm_stream \<Rightarrow> string \<Rightarrow> string list \<Rightarrow> jack_event list \<times> bool" where
  "connect_port E s own [] = ([], True)"
| "connect_port E s own (name # names) =
     (let (src, dst) = (if s = PLAYBACK then (own, name) else (name, own)) in
      if je_connect E src dst \<noteq> 0 then ([Jk_connect src dst], False)
      else let (es, ok) = connect_port E s own names in (Jk_connect src dst # es, ok))"

fun connect_ports :: "('p, 'f) jack_env \<Rightarrow> pcm_stream \<Rightarrow> (string \<times> string list) list \<Rightarrow> jack_event list \<times> bool" where
  "connect_ports E s [] = ([], True)"
| "connect_ports E s ((own, names) # ps) =
     (let (es, ok) = connect_port E s own names in
      if \<not> ok then (es, False) else let (fs, ok) = connect_ports E s ps in (es @ fs, ok))"

definition prepare_connect :: "('p, 'f) jack_env \<Rightarrow> ioplug \<Rightarrow> 'p jack \<Rightarrow> (int \<times> 'p jack) option" where
  "prepare_connect E io j =
     (if jk_activated j then Some (0, j)
      else
        let j = j\<lparr>jk_trace := jk_trace j @ [Jk_activate]\<rparr> in
        if je_activate E \<noteq> 0 then Some (- EIO, j)
        else do {
          ports \<leftarrow> jk_ports j;
          names \<leftarrow> jk_port_names j;
          let n = min (unat (io_channels io)) (unat (jk_num_ports j));
          if length ports < n \<or> length names < n then None
          else
            let (es, ok) = connect_ports E (io_stream io) (zip (map (je_port_name E) (take n ports)) (take n names))
            in Some (if ok then 0 else - EIO, j\<lparr>jk_activated := True, jk_trace := jk_trace j @ es\<rparr>)
        })"

text \<open>\<open>sw\<close> is the result of reading the software parameters: the error, avail_min, the boundary.\<close>

definition snd_pcm_jack_prepare :: "('p, 'f) jack_env \<Rightarrow> int \<times> u64 \<times> u64 \<Rightarrow> ioplug \<Rightarrow> 'p jack \<Rightarrow> (int \<times> 'p jack) option" where
  "snd_pcm_jack_prepare E sw io j =
     (if io_channels io \<noteq> jk_num_ports j then Some (- EINVAL, j)
      else
        let (err, avail_min, boundary) = sw;
            j = j\<lparr>jk_hw_ptr := 0, jk_xrun := False, jk_min_avail := io_period_size io\<rparr>;
            j = (if err = 0 then j\<lparr>jk_min_avail := avail_min, jk_boundary := boundary\<rparr> else j);
            j = snd (if io_stream io = PLAYBACK then pcm_poll_unblock_check E io j else pcm_poll_block_check E io j)
        in do {
          j \<leftarrow> (if jk_ports j = None
               then map_option (\<lambda>j. j\<lparr>jk_trace := jk_trace j @ [Jk_set_callback]\<rparr>) (jack_allocate_and_register_ports E io j)
               else Some j);
          prepare_connect E io j
        })"

definition snd_pcm_jack_start :: "'p jack \<Rightarrow> int \<times> 'p jack" where
  "snd_pcm_jack_start j = (0, j\<lparr>jk_running := True\<rparr>)"

definition snd_pcm_jack_stop :: "'p jack \<Rightarrow> int \<times> 'p jack" where
  "snd_pcm_jack_stop j = (0, j\<lparr>jk_running := False\<rparr>)"

definition snd_pcm_jack_hw_free :: "'p jack \<Rightarrow> int \<times> 'p jack" where
  "snd_pcm_jack_hw_free j =
     (0, if jk_activated j then j\<lparr>jk_activated := False, jk_trace := jk_trace j @ [Jk_deactivate]\<rparr> else j)"

definition snd_pcm_jack_sw_params :: "u64 \<Rightarrow> 'p jack \<Rightarrow> int \<times> 'p jack" where
  "snd_pcm_jack_sw_params avail_min j = (0, j\<lparr>jk_min_avail := avail_min\<rparr>)"

subsection \<open>Opening and closing\<close>

definition snd_pcm_jack_free :: "'p jack \<Rightarrow> jack_event list" where
  "snd_pcm_jack_free j =
     jk_trace j @ (if jk_client j then [Jk_client_close] else []) @ (if jk_fd j \<ge> 0 then [Jk_close (jk_fd j)] else [])
       @ (if jk_poll_fd j \<ge> 0 then [Jk_close (jk_poll_fd j)] else [])"

definition snd_pcm_jack_close :: "'p jack \<Rightarrow> int \<times> jack_event list" where
  "snd_pcm_jack_close j = (0, snd_pcm_jack_free j)"

record 'c jack_api = "'c tree_api" +
  cfg_bool :: "'c \<Rightarrow> int"

record ('p, 'c) jack_open_env =
  jo_conf :: "'c jack_api"
  jo_atoi :: "string \<Rightarrow> int"
  jo_calloc :: bool
  jo_calloc_names :: "nat \<Rightarrow> bool"
  jo_calloc_name :: bool
  jo_calloc_areas :: bool
  jo_pname :: string
  jo_pid :: int
  jo_client_open :: "string \<Rightarrow> bool"
  jo_socketpair :: "int \<times> int"
  jo_create :: int
  jo_rate :: u32
  jo_buffer_size :: u32
  jo_format_size :: "u32 \<Rightarrow> int"
  jo_sample_bits :: u32
  jo_setp :: "io_call \<Rightarrow> int"
  jo_delete :: "'p jack \<Rightarrow> jack_event list"

text \<open>The lists of names: an element is put at the front of the list of its channel.\<close>

definition snd_pcm_jack_port_list_add ::
    "bool \<Rightarrow> string list list \<Rightarrow> u32 \<Rightarrow> string \<Rightarrow> (int \<times> string list list) option" where
  "snd_pcm_jack_port_list_add ok names channel name =
     (if \<not> ok then Some (- ENOMEM, names)
      else if unat channel < length names then Some (0, names[unat channel := name # names ! unat channel])
      else None)"

fun add_names ::
    "('p, 'c) jack_open_env \<Rightarrow> u32 \<Rightarrow> 'c list \<Rightarrow> string list list \<Rightarrow> (int \<times> string list list) option" where
  "add_names P channel [] names = Some (0, names)"
| "add_names P channel (m # ms) names =
     (case cfg_string (jo_conf P) m of
        None \<Rightarrow> add_names P channel ms names
      | Some port \<Rightarrow> do {
          (err, names) \<leftarrow> snd_pcm_jack_port_list_add (jo_calloc_name P) names channel port;
          if err < 0 then Some (err, names) else add_names P channel ms names
        })"

fun parse_entries :: "('p, 'c) jack_open_env \<Rightarrow> 'c list \<Rightarrow> string list list \<Rightarrow> (int \<times> string list list) option" where
  "parse_entries P [] names = Some (0, names)"
| "parse_entries P (n # ns) names =
     (case cfg_id (jo_conf P) n of
        None \<Rightarrow> parse_entries P ns names
      | Some id_str \<Rightarrow>
          let channel = word_of_int (jo_atoi P id_str) in
          case cfg_string (jo_conf P) n of
            Some port \<Rightarrow> do {
              (err, names) \<leftarrow> snd_pcm_jack_port_list_add (jo_calloc_name P) names channel port;
              if err < 0 then Some (err, names) else parse_entries P ns names
            }
          | None \<Rightarrow>
              if cfg_compound (jo_conf P) n then do {
                (err, names) \<leftarrow> add_names P channel (cfg_children (jo_conf P) n) names;
                if err < 0 then Some (err, names) else parse_entries P ns names
              } else parse_entries P ns names)"

definition parse_ports :: "('p, 'c) jack_open_env \<Rightarrow> 'c option \<Rightarrow> 'p jack \<Rightarrow> (int \<times> 'p jack) option" where
  "parse_ports P conf j =
     (case conf of
        None \<Rightarrow> Some (0, j)
      | Some n \<Rightarrow>
          let entries = cfg_children (jo_conf P) n;
              cnt = length (filter (\<lambda>n. cfg_id (jo_conf P) n \<noteq> None) entries)
          in if \<not> jo_calloc_names P cnt then Some (- ENOMEM, j)
             else do {
               (err, names) \<leftarrow> parse_entries P entries (replicate cnt []);
               Some (err, j\<lparr>jk_port_names := Some names, jk_num_ports := of_nat cnt\<rparr>)
             })"

definition MAX_PERIODS_MULTIPLE :: nat where "MAX_PERIODS_MULTIPLE = 64"

abbreviation (input) CODE_FLOAT :: nat where "CODE_FLOAT \<equiv> 14"

definition jack_set_hw_constraint :: "('p, 'c) jack_open_env \<Rightarrow> 'p jack \<Rightarrow> int \<times> 'p jack" where
  "jack_set_hw_constraint P j =
     (let bytes = (word_of_int (jo_format_size P (jo_buffer_size P) * uint (jk_num_ports j)) :: u32) in
      if bytes = 0 then (- EINVAL, j)
      else
        let psize_list = map (\<lambda>i. unat (bytes * of_nat i)) [1..<Suc MAX_PERIODS_MULTIPLE] in
        (io_calls (jo_setp P)
           [Io_list IO_ACCESS [MMAP_INTERLEAVED, 1, RW_INTERLEAVED, 4],
            Io_list IO_FORMAT [CODE_FLOAT],
            Io_minmax IO_CHANNELS (jk_num_ports j) (jk_num_ports j),
            Io_minmax IO_RATE (jo_rate P) (jo_rate P),
            (if jk_align j then Io_list IO_PERIOD_BYTES psize_list else Io_minmax IO_PERIOD_BYTES 128 (64 * 1024)),
            Io_minmax IO_PERIODS 2 64],
         j\<lparr>jk_sample_bits := jo_sample_bits P\<rparr>))"

text \<open>\<open>snprintf\<close> into 32 bytes; \<open>num\<close> is the static counter.\<close>

definition jack_name :: "('p, 'c) jack_open_env \<Rightarrow> string option \<Rightarrow> pcm_stream \<Rightarrow> nat \<Rightarrow> string \<times> nat" where
  "jack_name P client_name s num =
     (case client_name of
        Some n \<Rightarrow> (take 31 n, num)
      | None \<Rightarrow>
          let pname = (if jo_pname P = [] then ''alsa-jack'' else jo_pname P) in
          (take 31 (pname @ ''.'' @ (if s = PLAYBACK then ''P'' else ''C'') @ ''.'' @ digits (nat (jo_pid P)) @ ''.'' @ digits num),
           Suc num))"

definition new_jack :: "bool \<Rightarrow> 'p jack" where
  "new_jack align = \<lparr>jk_fd = - 1, jk_poll_fd = - 1, jk_pipe = 0, jk_activated = False, jk_running = False,
     jk_port_names = None, jk_num_ports = 0, jk_boundary = 0, jk_hw_ptr = 0, jk_sample_bits = 0, jk_min_avail = 0,
     jk_align = align, jk_ports = None, jk_client = False, jk_xrun = False, jk_trace = []\<rparr>"

text \<open>The result: the plugin when it was opened, and otherwise what was done to undo it.\<close>

definition snd_pcm_jack_open ::
    "('p, 'c) jack_open_env \<Rightarrow> string option \<Rightarrow> 'c option \<Rightarrow> 'c option \<Rightarrow> bool \<Rightarrow> pcm_stream \<Rightarrow> nat \<Rightarrow>
     (int \<times> (jack_event list + 'p jack) \<times> nat) option" where
  "snd_pcm_jack_open P client_name playback_conf capture_conf align s num =
     (if \<not> jo_calloc P then Some (- ENOMEM, Inl [], num)
      else do {
        (err, j) \<leftarrow> parse_ports P (if s = PLAYBACK then playback_conf else capture_conf) (new_jack align);
        if err \<noteq> 0 then Some (err, Inl (snd_pcm_jack_free j), num)
        else if jk_num_ports j = 0 then Some (- EINVAL, Inl (snd_pcm_jack_free j), num)
        else
          let (cname, num) = jack_name P client_name s num in
          if \<not> jo_client_open P cname then Some (- 2, Inl (snd_pcm_jack_free j), num)
          else
            let j = j\<lparr>jk_client := True\<rparr> in
            if \<not> jo_calloc_areas P then Some (- ENOMEM, Inl (snd_pcm_jack_free j), num)
            else
              let j = j\<lparr>jk_fd := fst (jo_socketpair P), jk_poll_fd := snd (jo_socketpair P)\<rparr> in
              if jo_create P < 0 then Some (jo_create P, Inl (snd_pcm_jack_free j), num)
              else
                let (err, j) = jack_set_hw_constraint P j in
                if err < 0 then Some (err, Inl (jo_delete P j), num) else Some (0, Inr j, num)
      })"

fun jack_conf ::
    "('p, 'c) jack_open_env \<Rightarrow> 'c list \<Rightarrow> string option \<times> 'c option \<times> 'c option \<times> bool \<Rightarrow>
     int + string option \<times> 'c option \<times> 'c option \<times> bool" where
  "jack_conf P [] st = Inr st"
| "jack_conf P (n # ns) (client, playback, capture, align) =
     (case cfg_id (jo_conf P) n of
        None \<Rightarrow> jack_conf P ns (client, playback, capture, align)
      | Some id_str \<Rightarrow>
          if cfg_skipped id_str then jack_conf P ns (client, playback, capture, align)
          else if id_str = ''name'' then
            jack_conf P ns (case cfg_string (jo_conf P) n of None \<Rightarrow> client | Some s \<Rightarrow> Some s, playback, capture, align)
          else if id_str = ''playback_ports'' then
            (if \<not> cfg_compound (jo_conf P) n then Inl (- EINVAL) else jack_conf P ns (client, Some n, capture, align))
          else if id_str = ''capture_ports'' then
            (if \<not> cfg_compound (jo_conf P) n then Inl (- EINVAL) else jack_conf P ns (client, playback, Some n, align))
          else if id_str = ''align_psize'' then
            (let err = cfg_bool (jo_conf P) n in
             if err < 0 then Inl err else jack_conf P ns (client, playback, capture, err \<noteq> 0))
          else Inl (- EINVAL))"

definition jack_open ::
    "('p, 'c) jack_open_env \<Rightarrow> 'c list \<Rightarrow> pcm_stream \<Rightarrow> nat \<Rightarrow> (int \<times> (jack_event list + 'p jack) \<times> nat) option" where
  "jack_open P conf s num =
     (case jack_conf P conf (None, None, None, True) of
        Inl err \<Rightarrow> Some (err, Inl [], num)
      | Inr (client, playback, capture, align) \<Rightarrow> snd_pcm_jack_open P client playback capture align s num)"

end
