(* ===== verification/JackProofs.thy ===== *)
theory JackProofs
  imports Jack
begin

section \<open>The JACK plugin: a queue of frames\<close>

text \<open>
  For playback, the ring, \<open>hw_ptr\<close> and the application pointer implement a first-in first-out
  queue between the application, which commits frames, and JACK's thread, which takes as many as
  it asks for; what is missing is silence and an underrun. The socket wakes the application
  whenever there is room for \<open>avail_min\<close> frames.
\<close>

subsection \<open>What is relied on of alsa-lib\<close>

text \<open>
  \<open>jack_laws E B sil\<close> with the boundary \<open>B\<close>: the wrapping copy copies frame by frame around
  both rings, silence fills a range with the silent frame \<open>sil\<close>, and the frames available to
  the hardware are those between the two pointers, which run modulo \<open>B\<close>.
\<close>

definition jack_laws :: "('p, 'f) jack_env \<Rightarrow> u64 \<Rightarrow> 'f \<Rightarrow> bool" where
  "jack_laws E B sil \<longleftrightarrow>
     (\<forall>dst doff src soff ch n fmt. 0 < n \<longrightarrow> doff < length dst \<longrightarrow> soff < length src \<longrightarrow>
        je_copy_wrap E dst doff (length dst) src soff (length src) ch n fmt = ring_write dst doff (ring_read src soff n))
   \<and> (\<forall>buf off ch n fmt. off + n \<le> length buf \<longrightarrow>
        je_silence E buf off ch n fmt = take off buf @ replicate n sil @ drop (off + n) buf)
   \<and> (\<forall>io hw n. io_stream io = PLAYBACK \<longrightarrow> hw < B \<longrightarrow> n \<le> unat (io_buffer_size io) \<longrightarrow> io_buffer_size io < B \<longrightarrow>
        je_hw_avail E io hw (of_nat ((unat hw + n) mod unat B)) = of_nat n)
   \<and> 0 < je_pipe_size E"

lemma jack_lawsD:
  assumes "jack_laws E B sil"
  shows "0 < n \<Longrightarrow> doff < length dst \<Longrightarrow> soff < length src \<Longrightarrow>
      je_copy_wrap E dst doff (length dst) src soff (length src) ch n fmt = ring_write dst doff (ring_read src soff n)"
    "off + n \<le> length buf \<Longrightarrow> je_silence E buf off ch n fmt = take off buf @ replicate n sil @ drop (off + n) buf"
    "io_stream io = PLAYBACK \<Longrightarrow> hw < B \<Longrightarrow> n \<le> unat (io_buffer_size io) \<Longrightarrow> io_buffer_size io < B \<Longrightarrow>
      je_hw_avail E io hw (of_nat ((unat hw + n) mod unat B)) = of_nat n"
    "0 < je_pipe_size E"
  using assms unfolding jack_laws_def by blast+

subsection \<open>The steps\<close>

text \<open>
  The application commits frames (alsa-lib's part: they go into the ring at the application
  pointer, which moves on modulo the boundary), JACK calls the process callback with its port
  buffers, the application polls. The observation of a process call is the contents of the port
  buffers, that of a poll its events.
\<close>

datatype 'f jack_step = Commit "'f list" | Process "'f list" | Poll u16

datatype 'f jack_obs = Obs_none | Obs_played "'f list" | Obs_events u16

definition commit_frames :: "u64 \<Rightarrow> 'f list \<Rightarrow> ioplug \<times> 'f list \<times> 'p jack \<Rightarrow> ioplug \<times> 'f list \<times> 'p jack" where
  "commit_frames B fs s =
     (case s of (io, ring, j) \<Rightarrow>
        (io\<lparr>io_appl_ptr := of_nat ((unat (io_appl_ptr io) + length fs) mod unat B)\<rparr>,
         ring_write ring (unat (io_appl_ptr io)) fs, j))"

fun jack_do :: "('p, 'f) jack_env \<Rightarrow> u64 \<Rightarrow> 'f jack_step \<Rightarrow> ioplug \<times> 'f list \<times> 'p jack \<Rightarrow>
    ('f jack_obs \<times> ioplug \<times> 'f list \<times> 'p jack) option" where
  "jack_do E B (Commit fs) s = Some (Obs_none, commit_frames B fs s)"
| "jack_do E B (Process buf) (io, ring, j) = do {
     (buf, ring, j) \<leftarrow> snd_pcm_jack_process_cb E False (of_nat (length buf)) io buf ring j;
     Some (Obs_played buf, io, ring, j)
   }"
| "jack_do E B (Poll got) (io, ring, j) = do {
     (revents, j) \<leftarrow> snd_pcm_jack_poll_revents E io 1 got j;
     Some (Obs_events revents, io, ring, j)
   }"

fun jack_steps :: "('p, 'f) jack_env \<Rightarrow> u64 \<Rightarrow> 'f jack_step list \<Rightarrow> ioplug \<times> 'f list \<times> 'p jack \<Rightarrow>
    ('f jack_obs list \<times> ioplug \<times> 'f list \<times> 'p jack) option" where
  "jack_steps E B [] s = Some ([], s)"
| "jack_steps E B (x # xs) s = do {
     (o1, s) \<leftarrow> jack_do E B x s;
     (os, s) \<leftarrow> jack_steps E B xs s;
     Some (o1 # os, s)
   }"

subsection \<open>The queue\<close>

text \<open>The specification: a queue of at most \<open>cap\<close> frames, and whether there was an underrun.\<close>

record 'f fifo =
  ff_queue :: "'f list"
  ff_xrun :: bool

fun fifo_step :: "nat \<Rightarrow> nat \<Rightarrow> 'f \<Rightarrow> 'f jack_step \<Rightarrow> 'f fifo \<Rightarrow> 'f jack_obs \<times> 'f fifo" where
  "fifo_step cap min_avail sil (Commit fs) q = (Obs_none, q\<lparr>ff_queue := ff_queue q @ fs\<rparr>)"
| "fifo_step cap min_avail sil (Process buf) q =
     (let n = length buf; played = take n (ff_queue q) in
      (Obs_played (played @ replicate (n - length played) sil),
       \<lparr>ff_queue = drop n (ff_queue q), ff_xrun = ff_xrun q \<or> length played < n\<rparr>))"
| "fifo_step cap min_avail sil (Poll got) q =
     (Obs_events (got AND NOT (POLLIN OR POLLOUT)
        OR (if got AND POLLIN \<noteq> 0 \<and> min_avail \<le> cap - length (ff_queue q) then POLLOUT else 0)), q)"

fun fifo_steps :: "nat \<Rightarrow> nat \<Rightarrow> 'f \<Rightarrow> 'f jack_step list \<Rightarrow> 'f fifo \<Rightarrow> 'f jack_obs list \<times> 'f fifo" where
  "fifo_steps cap min_avail sil [] q = ([], q)"
| "fifo_steps cap min_avail sil (x # xs) q =
     (let (o1, q) = fifo_step cap min_avail sil x q; (os, q) = fifo_steps cap min_avail sil xs q in (o1 # os, q))"

text \<open>Commits must fit: the application writes at most what is available.\<close>

fun fits :: "nat \<Rightarrow> 'f jack_step list \<Rightarrow> nat \<Rightarrow> bool" where
  "fits cap [] n \<longleftrightarrow> True"
| "fits cap (Commit fs # xs) n \<longleftrightarrow> n + length fs \<le> cap \<and> fits cap xs (n + length fs)"
| "fits cap (Process buf # xs) n \<longleftrightarrow> 0 < length buf \<and> length buf < 2 ^ 32 \<and> fits cap xs (n - length buf)"
| "fits cap (Poll got # xs) n \<longleftrightarrow> fits cap xs n"

definition jack_abs :: "u64 \<Rightarrow> ioplug \<times> 'f list \<times> 'p jack \<Rightarrow> 'f fifo \<Rightarrow> bool" where
  "jack_abs B s q \<longleftrightarrow> (case s of (io, ring, j) \<Rightarrow>
     io_stream io = PLAYBACK \<and> xfer_active io \<and> jk_running j \<and> jk_boundary j = B
     \<and> 0 < length ring \<and> unat (io_buffer_size io) = length ring \<and> length ring dvd unat B
     \<and> length ring < unat B \<and> unat B + length ring \<le> 2 ^ 64 \<and> jk_hw_ptr j < B \<and> length (ff_queue q) \<le> length ring
     \<and> io_appl_ptr io = of_nat ((unat (jk_hw_ptr j) + length (ff_queue q)) mod unat B)
     \<and> ff_queue q = ring_read ring (unat (jk_hw_ptr j)) (length (ff_queue q)) \<and> ff_xrun q = jk_xrun j)"

lemma jack_absD:
  assumes "jack_abs B (io, ring, j) q"
  shows "io_stream io = PLAYBACK" "xfer_active io" "jk_running j" "jk_boundary j = B" "0 < length ring"
    "unat (io_buffer_size io) = length ring" "length ring dvd unat B" "unat B + length ring \<le> 2 ^ 64" "jk_hw_ptr j < B"
    "length (ff_queue q) \<le> length ring" "io_appl_ptr io = of_nat ((unat (jk_hw_ptr j) + length (ff_queue q)) mod unat B)"
    "ff_queue q = ring_read ring (unat (jk_hw_ptr j)) (length (ff_queue q))" "ff_xrun q = jk_xrun j" "length ring < unat B"
  using assms unfolding jack_abs_def prod.case by blast+

lemma unat_of_mod:
  assumes "unat (hw :: u64) < unat (B :: u64)"
  shows "unat (of_nat (n mod unat B) :: u64) = n mod unat B"
proof -
  have "n mod unat B < unat B" using assms by (intro mod_less_divisor) linarith
  then have "n mod unat B < 2 ^ 64" using unat_u64_lt [of B] by simp
  then show ?thesis by (simp add: unsigned_of_nat take_bit_nat_eq_self_iff)
qed

lemma abs_avail:
  assumes "jack_laws E B sil" "jack_abs B (io, ring, j) q"
  shows "je_hw_avail E io (jk_hw_ptr j) (io_appl_ptr io) = of_nat (length (ff_queue q))"
    "unat (je_hw_avail E io (jk_hw_ptr j) (io_appl_ptr io)) = length (ff_queue q)"
    "unat (snd_pcm_ioplug_avail E io (jk_hw_ptr j) (io_appl_ptr io)) = length ring - length (ff_queue q)"
proof -
  note a = jack_absD [OF assms(2)]
  show v: "je_hw_avail E io (jk_hw_ptr j) (io_appl_ptr io) = of_nat (length (ff_queue q))"
    unfolding a(11) using a(6,10,14) by (intro jack_lawsD(3) [OF assms(1) a(1,9)]) (simp_all add: word_less_nat_alt)
  have "length (ff_queue q) < 2 ^ 64" using a(6,10) unat_u64_lt [of "io_buffer_size io"] by simp
  then show u: "unat (je_hw_avail E io (jk_hw_ptr j) (io_appl_ptr io)) = length (ff_queue q)"
    unfolding v by (simp add: unsigned_of_nat take_bit_nat_eq_self_iff)
  show "unat (snd_pcm_ioplug_avail E io (jk_hw_ptr j) (io_appl_ptr io)) = length ring - length (ff_queue q)"
    unfolding snd_pcm_ioplug_avail_def using u a(6,10) by (simp add: unat_minus_u64)
qed

lemma ring_read_dvd_mod:
  assumes "length ring dvd B" "0 < B"
  shows "ring_read ring (x mod B) n = ring_read ring x n"
proof -
  have "ring_read ring (x mod B) n = ring_read ring (x mod B mod length ring) n"
    using ring_read_mod [OF refl, of ring "x mod B" n] by simp
  also have "x mod B mod length ring = x mod length ring" using assms(1) by (rule mod_mod_cancel)
  also have "ring_read ring (x mod length ring) n = ring_read ring x n" by (rule ring_read_mod) simp
  finally show ?thesis .
qed

lemma ring_write_cong:
  "off mod length ring = off' mod length ring \<Longrightarrow> ring_write ring off fs = ring_write ring off' fs"
proof (induction fs arbitrary: ring off off')
  case (Cons x xs)
  have "Suc off mod length ring = Suc off' mod length ring" using Cons.prems by (metis mod_Suc_eq)
  then have "ring_write (ring[off mod length ring := x]) (Suc off) xs = ring_write (ring[off mod length ring := x]) (Suc off') xs"
    by (intro Cons.IH) (simp only: length_list_update)
  then show ?case by (simp only: ring_write.simps Cons.prems)
qed (simp only: ring_write.simps)

text \<open>Writing behind the frames of a ring leaves them, and appends to them.\<close>

lemma ring_append:
  assumes "n + length fs \<le> length ring"
  shows "ring_read (ring_write ring (off + n) fs) off (n + length fs) = ring_read ring off n @ fs"
proof -
  have "ring_read (ring_write ring (off + n) fs) off n = ring_read ring off n"
  proof (rule nth_equalityI)
    fix i
    assume "i < length (ring_read (ring_write ring (off + n) fs) off n)"
    then have i: "i < n" by simp
    have "(off + n + k) mod length ring \<noteq> (off + i) mod length ring" if "k < length fs" for k
      using mod_ring_inj [of "n + k" "length ring" i off] that i assms by (auto simp: add.assoc)
    then show "ring_read (ring_write ring (off + n) fs) off n ! i = ring_read ring off n ! i"
      using i ring_write_other [of fs "off + n" ring] by (simp add: nth_ring_read)
  qed simp
  moreover have "ring_read (ring_write ring (off + n) fs) (off + n) (length fs) = fs"
    using assms by (intro ring_read_write) simp
  ultimately show ?thesis by (simp add: ring_read_add)
qed

lemma take_ring_read: "k \<le> n \<Longrightarrow> take k (ring_read ring off n) = ring_read ring off k"
  by (rule nth_equalityI) (auto simp: nth_ring_read)

lemma drop_ring_read: "k \<le> n \<Longrightarrow> drop k (ring_read ring off n) = ring_read ring (off + k) (n - k)"
  by (rule nth_equalityI) (auto simp: nth_ring_read add.assoc)

lemma ring_write_front: "length fs \<le> length buf \<Longrightarrow> ring_write buf 0 fs = fs @ drop (length fs) buf"
proof (rule nth_equalityI)
  fix i
  assume l: "length fs \<le> length buf" "i < length (ring_write buf 0 fs)"
  show "ring_write buf 0 fs ! i = (fs @ drop (length fs) buf) ! i"
  proof (cases "i < length fs")
    case True
    then show ?thesis using ring_write_nth [OF l(1), of i 0] l by (simp add: nth_append)
  next
    case False
    then have "ring_write buf 0 fs ! i = buf ! i" using l by (intro ring_write_other) auto
    then show ?thesis using False l by (simp add: nth_append)
  qed
qed simp

subsection \<open>Each step\<close>

lemma commit_abs:
  assumes "jack_abs B s q" "length (ff_queue q) + length fs \<le> unat (io_buffer_size (fst s))"
  shows "jack_abs B (commit_frames B fs s) (q\<lparr>ff_queue := ff_queue q @ fs\<rparr>)"
proof -
  obtain io ring j where s: "s = (io, ring, j)" by (metis prod_cases3)
  note a = jack_absD [OF assms(1) [unfolded s]]
  have hB: "unat (jk_hw_ptr j) < unat B" using a(9) by (simp add: word_less_nat_alt)
  let ?hw = "unat (jk_hw_ptr j)" and ?n = "length (ff_queue q)"
  have appl: "unat (io_appl_ptr io) = (?hw + ?n) mod unat B" unfolding a(11) using unat_of_mod [OF hB] by simp
  have fit: "?n + length fs \<le> length ring" using assms(2) a(6) by (simp add: s)
  have "unat (io_appl_ptr io) mod length ring = (?hw + ?n) mod length ring"
    unfolding appl using a(7) by (rule mod_mod_cancel)
  then have w: "ring_write ring (unat (io_appl_ptr io)) fs = ring_write ring (?hw + ?n) fs" by (rule ring_write_cong)
  note w' = w [unfolded appl]
  have "ring_read (ring_write ring (?hw + ?n) fs) ?hw (?n + length fs) = ff_queue q @ fs"
    using ring_append [OF fit] a(12) by simp
  moreover have "((?hw + ?n) mod unat B + length fs) mod unat B = (?hw + (?n + length fs)) mod unat B"
    by (simp add: mod_add_left_eq add.assoc)
  ultimately show ?thesis using a(1-10,13,14) fit
    unfolding jack_abs_def s commit_frames_def prod.case w' appl by (simp add: xfer_active_def)
qed

lemma advance_hw_mod:
  assumes "unat hw < unat B" "unat xfer \<le> L" "unat B + L \<le> 2 ^ 64" "L \<le> unat B"
  shows "unat (advance_hw B hw xfer) = (unat hw + unat xfer) mod unat B" "advance_hw B hw xfer < B"
proof -
  have s: "unat (hw + xfer) = unat hw + unat xfer" using assms by (intro unat_plus_u64) linarith
  show v: "unat (advance_hw B hw xfer) = (unat hw + unat xfer) mod unat B"
  proof (cases "hw + xfer \<ge> B")
    case True
    then have ge: "unat B \<le> unat hw + unat xfer" using s by (simp add: word_le_nat_alt)
    then have "unat (hw + xfer - B) = unat hw + unat xfer - unat B" using s by (simp add: unat_minus_u64)
    moreover have "(unat hw + unat xfer) mod unat B = unat hw + unat xfer - unat B"
      using ge assms by (simp add: mod_if le_mod_geq)
    ultimately show ?thesis using True by (simp add: advance_hw_def)
  next
    case False
    then show ?thesis using s by (simp add: advance_hw_def word_le_nat_alt)
  qed
  have "(unat hw + unat xfer) mod unat B < unat B" using assms(1) by (intro mod_less_divisor) linarith
  then show "advance_hw B hw xfer < B" by (simp add: word_less_nat_alt v)
qed

lemma unblock_view:
  "snd (pcm_poll_unblock_check E io j) = j\<lparr>jk_pipe := jk_pipe (snd (pcm_poll_unblock_check E io j))\<rparr>"
  by (simp add: pcm_poll_unblock_check_def)

lemma jack_abs_pipe: "jack_abs B (io, ring, j\<lparr>jk_pipe := n\<rparr>) q \<longleftrightarrow> jack_abs B (io, ring, j) q"
  by (simp add: jack_abs_def)

lemma transfer_abs:
  assumes "jack_laws E B sil" "jack_abs B (io, ring, j) q" "0 < length buf" "length buf < 2 ^ 32"
  defines "n \<equiv> length buf" and "k \<equiv> min (length buf) (length (ff_queue q))"
  shows "\<exists>xfer j'. process_transfer E (of_nat n) io buf ring j = Some (xfer, take k (ff_queue q) @ drop k buf, ring, j')
    \<and> unat xfer = k \<and> jack_abs B (io, ring, j') (q\<lparr>ff_queue := drop n (ff_queue q)\<rparr>) \<and> jk_pipe j' = jk_pipe j
    \<and> jk_min_avail j' = jk_min_avail j"
proof -
  note a = jack_absD [OF assms(2)] and av = abs_avail [OF assms(1,2)]
  have n: "unat (of_nat n :: u32) = n" "unat (ucast (of_nat n :: u32) :: u64) = n"
    using assms(4) by (simp_all add: n_def unsigned_of_nat take_bit_nat_eq_self_iff unat_ucast_32_64)
  have hB: "unat (jk_hw_ptr j) < unat B" using a(9) by (simp add: word_less_nat_alt)
  let ?hw = "unat (jk_hw_ptr j)" and ?m = "length (ff_queue q)"
  show ?thesis
  proof (cases "?m = 0")
    case True
    then have "je_hw_avail E io (jk_hw_ptr j) (io_appl_ptr io) = 0" using av(1) by simp
    moreover have eq: "q\<lparr>ff_queue := drop n (ff_queue q)\<rparr> = q" using True by (cases q) simp
    have "jack_abs B (io, ring, j) (q\<lparr>ff_queue := drop n (ff_queue q)\<rparr>)" unfolding eq by (rule assms(2))
    ultimately show ?thesis using True
      by (intro exI [of _ 0] exI [of _ j]) (simp add: process_transfer_def k_def)
  next
    case False
    have ne: "je_hw_avail E io (jk_hw_ptr j) (io_appl_ptr io) \<noteq> 0" "io_buffer_size io \<noteq> 0"
      using av(2) False a(5,6) by auto
    define xfer where "xfer = min (ucast (of_nat n :: u32)) (je_hw_avail E io (jk_hw_ptr j) (io_appl_ptr io))"
    have x: "unat xfer = k" using n av(2) by (auto simp: xfer_def k_def n_def min_def word_le_nat_alt)
    have off: "unat (jk_hw_ptr j mod io_buffer_size io) = ?hw mod length ring" by (simp add: unat_mod a(6))
    have k: "0 < k" "k \<le> length buf" "k \<le> ?m" using assms(3) False by (auto simp: k_def)
    have "je_copy_wrap E buf 0 n ring (?hw mod length ring) (length ring) (io_channels io) k (io_format io)
        = ring_write buf 0 (ring_read ring (?hw mod length ring) k)"
      using a(5) assms(3) k(1) unfolding n_def by (intro jack_lawsD(1) [OF assms(1)]) auto
    also have "ring_read ring (?hw mod length ring) k = ring_read ring ?hw k" by (rule ring_read_mod) simp
    also have "\<dots> = take k (ff_queue q)" using k(3) by (subst a(12)) (simp add: take_ring_read)
    also have "ring_write buf 0 (take k (ff_queue q)) = take k (ff_queue q) @ drop k buf"
      using k by (simp add: ring_write_front)
    finally have copy: "je_copy_wrap E buf 0 n ring (?hw mod length ring) (length ring) (io_channels io) k (io_format io)
        = take k (ff_queue q) @ drop k buf" .
    let ?j = "j\<lparr>jk_hw_ptr := advance_hw B (jk_hw_ptr j) xfer\<rparr>"
    have "process_transfer E (of_nat n) io buf ring j = Some (xfer, take k (ff_queue q) @ drop k buf, ring, ?j)"
      using ne a(1,4,6) off n(1) x copy by (simp add: process_transfer_def Let_def xfer_def [symmetric])
    moreover have "length ring \<le> unat B" using a(7) hB by (intro dvd_imp_le) auto
    then have adv: "unat (jk_hw_ptr ?j) = (?hw + k) mod unat B" "jk_hw_ptr ?j < B"
      using advance_hw_mod [OF hB _ a(8), of xfer] x k(3) a(10) by simp_all
    have drop: "drop n (ff_queue q) = drop k (ff_queue q)" by (auto simp: k_def n_def min_def)
    have "jack_abs B (io, ring, ?j) (q\<lparr>ff_queue := drop k (ff_queue q)\<rparr>)"
    proof -
      have "ring_read ring ((?hw + k) mod unat B) (?m - k) = ring_read ring (?hw + k) (?m - k)"
        using hB by (intro ring_read_dvd_mod [OF a(7)]) linarith
      also have "\<dots> = drop k (ff_queue q)" using k(3) by (subst (2) a(12)) (simp add: drop_ring_read)
      finally have "drop k (ff_queue q) = ring_read ring (unat (jk_hw_ptr ?j)) (?m - k)" using adv(1) by simp
      moreover have "((?hw + k) mod unat B + (?m - k)) mod unat B = (?hw + ?m) mod unat B"
        unfolding mod_add_left_eq using k(3) by simp
      ultimately show ?thesis using a adv by (simp add: jack_abs_def)
    qed
    ultimately show ?thesis using x drop by (intro exI [of _ xfer] exI [of _ ?j]) simp
  qed
qed

lemma process_abs:
  assumes "jack_laws E B sil" "jack_abs B (io, ring, j) q" "0 < length buf" "length buf < 2 ^ 32"
  shows "\<exists>j'. snd_pcm_jack_process_cb E False (of_nat (length buf)) io buf ring j
      = Some (take (length buf) (ff_queue q) @ replicate (length buf - length (ff_queue q)) sil, ring, j')
    \<and> jack_abs B (io, ring, j') (snd (fifo_step c m sil (Process buf) q)) \<and> jk_min_avail j' = jk_min_avail j
    \<and> (unat (jk_min_avail j) \<le> length ring - length (ff_queue (snd (fifo_step c m sil (Process buf) q))) \<longrightarrow> 0 < jk_pipe j')"
proof -
  let ?n = "length buf" and ?m = "length (ff_queue q)"
  define k where "k = min ?n ?m"
  note a = jack_absD [OF assms(2)]
  obtain xfer j1 where t: "process_transfer E (of_nat ?n) io buf ring j = Some (xfer, take k (ff_queue q) @ drop k buf, ring, j1)"
    "unat xfer = k" "jack_abs B (io, ring, j1) (q\<lparr>ff_queue := drop ?n (ff_queue q)\<rparr>)" "jk_min_avail j1 = jk_min_avail j"
    using transfer_abs [OF assms] unfolding k_def by blast
  have n: "unat (ucast (of_nat ?n :: u32) :: u64) = ?n"
    using assms(4) by (simp add: unsigned_of_nat take_bit_nat_eq_self_iff unat_ucast_32_64)
  have lt: "xfer < ucast (of_nat ?n :: u32) \<longleftrightarrow> ?m < ?n" using t(2) n by (auto simp: word_less_nat_alt k_def)
  define j2 where "j2 = (if ?m < ?n then j1\<lparr>jk_xrun := True\<rparr> else j1)"
  let ?q = "snd (fifo_step c m sil (Process buf) q)"
  have q: "?q = \<lparr>ff_queue = drop ?n (ff_queue q), ff_xrun = ff_xrun q \<or> ?m < ?n\<rparr>" by (auto simp: Let_def)
  have j2: "jack_abs B (io, ring, j2) ?q" using t(3) unfolding q by (auto simp: jack_abs_def j2_def)
  let ?out = "take ?n (ff_queue q) @ replicate (?n - ?m) sil"
  have out: "(if ?m < ?n then je_silence E (take k (ff_queue q) @ drop k buf) (unat xfer) (io_channels io)
      (unat (ucast (of_nat ?n :: u32) - xfer)) (io_format io) else take k (ff_queue q) @ drop k buf) = ?out"
  proof (cases "?m < ?n")
    case True
    then have u: "unat (ucast (of_nat ?n :: u32) - xfer) = ?n - k" using n t(2) by (simp add: unat_minus_u64 k_def)
    have "je_silence E (take k (ff_queue q) @ drop k buf) k (io_channels io) (?n - k) (io_format io) = take k (ff_queue q) @ replicate (?n - k) sil"
      using jack_lawsD(2) [OF assms(1), of k "?n - k" "take k (ff_queue q) @ drop k buf"] by (simp add: k_def)
    then show ?thesis using True u t(2) by (simp add: k_def)
  qed (simp add: k_def)
  let ?j = "snd (pcm_poll_unblock_check E io j2)"
  have "snd_pcm_jack_process_cb E False (of_nat ?n) io buf ring j = Some (?out, ring, ?j)"
    using a(1-3) t(1) out by (auto simp: snd_pcm_jack_process_cb_def lt j2_def Let_def)
  moreover have "jack_abs B (io, ring, ?j) ?q" using j2 jack_abs_pipe unblock_view [of E io j2] by metis
  moreover have "jk_min_avail ?j = jk_min_avail j" using t(4) by (simp add: pcm_poll_unblock_check_def j2_def)
  moreover have "0 < jk_pipe ?j" if "unat (jk_min_avail j) \<le> length ring - length (ff_queue ?q)"
  proof -
    have "jk_min_avail j2 \<le> snd_pcm_ioplug_avail E io (jk_hw_ptr j2) (io_appl_ptr io)"
      using that t(4) unfolding word_le_nat_alt abs_avail(3) [OF assms(1) j2] by (simp add: j2_def del: fifo_step.simps)
    then show ?thesis using jack_lawsD(4) [OF assms(1)] by (simp add: pcm_poll_unblock_check_def)
  qed
  ultimately show ?thesis by blast
qed

lemma poll_abs:
  assumes "jack_laws E B sil" "jack_abs B (io, ring, j) q"
  shows "\<exists>j'. snd_pcm_jack_poll_revents E io 1 got j = Some (got AND NOT (POLLIN OR POLLOUT)
        OR (if got AND POLLIN \<noteq> 0 \<and> unat (jk_min_avail j) \<le> length ring - length (ff_queue q) then POLLOUT else 0), j')
    \<and> jack_abs B (io, ring, j') q \<and> jk_min_avail j' = jk_min_avail j
    \<and> (unat (jk_min_avail j) \<le> length ring - length (ff_queue q) \<longrightarrow> jk_pipe j' = jk_pipe j)"
proof -
  note a = jack_absD [OF assms(2)]
  let ?avail = "snd_pcm_ioplug_avail E io (jk_hw_ptr j) (io_appl_ptr io)"
  have lt: "?avail < jk_min_avail j \<longleftrightarrow> \<not> unat (jk_min_avail j) \<le> length ring - length (ff_queue q)"
    unfolding word_less_nat_alt abs_avail(3) [OF assms] by linarith
  have b: "pcm_poll_block_check E io j = (if ?avail < jk_min_avail j then (True, j\<lparr>jk_pipe := drain_pipe (jk_pipe j)\<rparr>) else (False, j))"
    using a(2) by (auto simp: pcm_poll_block_check_def xfer_active_def)
  show ?thesis using assms(2) a(1) lt by (auto simp: snd_pcm_jack_poll_revents_def b jack_abs_pipe Let_def)
qed

text \<open>
  The three steps at once: what is observed and what becomes of the queue, and that the socket
  holds a byte after the step if there is room for \<open>avail_min\<close> frames, where it did before or
  where the step is a process callback.
\<close>

fun after_step :: "nat \<Rightarrow> 'f jack_step \<Rightarrow> nat \<Rightarrow> nat" where
  "after_step cap (Commit fs) n = n + length fs"
| "after_step cap (Process buf) n = n - length buf"
| "after_step cap (Poll got) n = n"

definition wakes :: "nat \<Rightarrow> ioplug \<times> 'f list \<times> 'p jack \<Rightarrow> 'f fifo \<Rightarrow> bool" where
  "wakes cap s q \<longleftrightarrow> (unat (jk_min_avail (snd (snd s))) \<le> cap - length (ff_queue q) \<longrightarrow> 0 < jk_pipe (snd (snd s)))"

lemma fits_Cons: "fits cap (x # xs) n \<longleftrightarrow> fits cap [x] n \<and> fits cap xs (after_step cap x n)"
  by (cases x) auto

lemma fifo_length: "length (ff_queue (snd (fifo_step cap m sil x q))) = after_step cap x (length (ff_queue q))"
  by (cases x) (simp_all add: Let_def)

lemma step_abs:
  assumes "jack_laws E B sil" "jack_abs B (io, ring, j) q" "fits (length ring) [x] (length (ff_queue q))"
  defines "r \<equiv> fifo_step (length ring) (unat (jk_min_avail j)) sil x q"
  shows "\<exists>io' ring' j'. jack_do E B x (io, ring, j) = Some (fst r, io', ring', j') \<and> jack_abs B (io', ring', j') (snd r)
    \<and> length ring' = length ring \<and> jk_min_avail j' = jk_min_avail j
    \<and> ((\<exists>buf. x = Process buf) \<or> wakes (length ring) (io, ring, j) q \<longrightarrow> wakes (length ring) (io', ring', j') (snd r))"
proof (cases x)
  case (Commit fs)
  have "length (ff_queue q) + length fs \<le> unat (io_buffer_size (fst (io, ring, j)))"
    using assms(3) Commit jack_absD(6) [OF assms(2)] by simp
  from commit_abs [OF assms(2) this] show ?thesis
    by (auto simp: Commit r_def commit_frames_def wakes_def)
next
  case (Process buf)
  have "0 < length buf" "length buf < 2 ^ 32" using assms(3) Process by simp_all
  from process_abs [OF assms(1,2) this, of "length ring" "unat (jk_min_avail j)"] obtain j' where j':
    "snd_pcm_jack_process_cb E False (of_nat (length buf)) io buf ring j
      = Some (take (length buf) (ff_queue q) @ replicate (length buf - length (ff_queue q)) sil, ring, j')"
    "jack_abs B (io, ring, j') (snd r)" "jk_min_avail j' = jk_min_avail j"
    "unat (jk_min_avail j) \<le> length ring - length (ff_queue (snd r)) \<longrightarrow> 0 < jk_pipe j'"
    unfolding r_def Process by blast
  have "fst r = Obs_played (take (length buf) (ff_queue q) @ replicate (length buf - length (ff_queue q)) sil)"
    by (auto simp: r_def Process Let_def)
  then show ?thesis using j' unfolding Process by (intro exI [of _ io] exI [of _ ring] exI [of _ j']) (simp add: wakes_def)
next
  case (Poll got)
  from poll_abs [OF assms(1,2), of got] show ?thesis
    by (auto simp: Poll r_def wakes_def)
qed

subsection \<open>The properties\<close>

text \<open>
  C5: the ring buffer refines the queue. From a state that represents a queue, any interleaving
  of commits that fit, process callbacks and polls runs to the end, and what JACK gets in its
  port buffers, what polls report and whether there was an underrun are what the queue
  gives: no frame is lost, repeated or reordered, whatever the size of the ring and wherever the
  pointers wrap, and a buffer is filled up with silence exactly when the queue runs dry.
\<close>

theorem jack_playback_fifo:
  assumes "jack_laws E B sil" "jack_abs B (io, ring, j) q" "fits (length ring) xs (length (ff_queue q))"
  shows "\<exists>io' ring' j' obs q'. jack_steps E B xs (io, ring, j) = Some (obs, io', ring', j')
    \<and> fifo_steps (length ring) (unat (jk_min_avail j)) sil xs q = (obs, q') \<and> jack_abs B (io', ring', j') q'"
  using assms(2,3)
proof (induction xs arbitrary: io ring j q)
  case (Cons x xs)
  obtain o1 q1 where f: "fifo_step (length ring) (unat (jk_min_avail j)) sil x q = (o1, q1)" by fastforce
  have fit: "fits (length ring) [x] (length (ff_queue q))" "fits (length ring) xs (length (ff_queue q1))"
    using Cons.prems(2) fifo_length [of "length ring" "unat (jk_min_avail j)" sil x q] unfolding fits_Cons [of _ x xs] f by simp_all
  from step_abs [OF assms(1) Cons.prems(1) fit(1)] obtain io1 ring1 j1 where s:
    "jack_do E B x (io, ring, j) = Some (o1, io1, ring1, j1)" "jack_abs B (io1, ring1, j1) q1"
    "length ring1 = length ring" "jk_min_avail j1 = jk_min_avail j" unfolding f by auto
  from Cons.IH [OF s(2)] fit(2) show ?case by (auto simp: s(1,3,4) f)
qed simp


subsection \<open>Preparing\<close>

text \<open>A port and a name of its list, as source and destination.\<close>

definition link_of :: "pcm_stream \<Rightarrow> string \<Rightarrow> string \<Rightarrow> jack_event" where
  "link_of s own name = (if s = PLAYBACK then Jk_connect own name else Jk_connect name own)"

definition links_of :: "pcm_stream \<Rightarrow> (string \<times> string list) list \<Rightarrow> jack_event list" where
  "links_of s ps = concat (map (\<lambda>(own, names). map (link_of s own) names) ps)"

lemma connect_port_links: "connect_port E s own names = (es, ok) \<Longrightarrow>
    if ok then es = map (link_of s own) names else \<exists>n < length names. es = map (link_of s own) (take (Suc n) names)"
proof (induction names arbitrary: es)
  case (Cons name names)
  show ?case
  proof (cases "je_connect E (if s = PLAYBACK then own else name) (if s = PLAYBACK then name else own) = 0")
    case True
    then obtain fs where "connect_port E s own names = (fs, ok)" "es = link_of s own name # fs"
      using Cons.prems by (auto simp: link_of_def split: prod.splits if_splits)
    then show ?thesis using Cons.IH [of fs] by (auto intro: exI [of _ "Suc _"])
  next
    case False
    then show ?thesis using Cons.prems by (auto simp: link_of_def split: if_splits)
  qed
qed simp

lemma connect_ports_links: "connect_ports E s ps = (es, True) \<Longrightarrow> es = links_of s ps"
proof (induction ps arbitrary: es)
  case (Cons p ps)
  then show ?case using connect_port_links [of E s "fst p" "snd p"]
    by (cases p) (fastforce simp: links_of_def split: prod.splits if_splits)
qed (simp add: links_of_def)

lemma prepare_connect_result:
  assumes "prepare_connect E io j = Some (0, j')" "\<not> jk_activated j" "jk_port_names j = Some names" "jk_ports j = Some ports"
    and "io_channels io = jk_num_ports j" "length names = unat (jk_num_ports j)" "length ports = unat (jk_num_ports j)"
  shows "j' = j\<lparr>jk_activated := True, jk_trace := jk_trace j @ Jk_activate # links_of (io_stream io) (zip (map (je_port_name E) ports) names)\<rparr>"
proof -
  obtain es ok where es: "connect_ports E (io_stream io) (zip (map (je_port_name E) ports) names) = (es, ok)" by fastforce
  have act: "je_activate E = 0" using assms(1,2) by (simp add: prepare_connect_def Let_def split: if_splits)
  have "prepare_connect E io j = Some (if ok then 0 else - EIO, j\<lparr>jk_activated := True, jk_trace := jk_trace j @ [Jk_activate] @ es\<rparr>)"
    unfolding prepare_connect_def Let_def using assms(2-7) act es by simp
  then have "ok" "j' = j\<lparr>jk_activated := True, jk_trace := jk_trace j @ [Jk_activate] @ es\<rparr>"
    using assms(1) by (simp_all split: if_splits)
  then show ?thesis using connect_ports_links es by force
qed

text \<open>
  a prepare that succeeds on a client not yet active has registered a port for every
  channel, installed the process callback, activated the client and connected every port to all
  the names configured for its channel, in this order and nothing else, and starts with an empty
  ring and no underrun.
\<close>

theorem jack_prepare_connects:
  assumes "snd_pcm_jack_prepare E sw io j = Some (0, j')" "\<not> jk_activated j" "jk_ports j = None" "jk_port_names j = Some names"
    and "length names = unat (jk_num_ports j)"
  defines "n \<equiv> unat (io_channels io)" and "label \<equiv> port_label (io_stream io)" and "out \<equiv> (io_stream io = PLAYBACK)"
  shows "jk_trace j' = jk_trace j @ map (\<lambda>i. Jk_register (label i) out) [0..<n] @ [Jk_set_callback, Jk_activate]
      @ links_of (io_stream io) (zip (map (\<lambda>i. je_port_name E (je_register E (label i) out)) [0..<n]) names)
    \<and> jk_activated j' \<and> jk_hw_ptr j' = 0 \<and> \<not> jk_xrun j'"
proof -
  have ch: "io_channels io = jk_num_ports j" using assms(1) by (auto simp: snd_pcm_jack_prepare_def split: if_splits)
  obtain err am bd where sw: "sw = (err, am, bd)" by (metis prod_cases3)
  define j1 where "j1 = (let j = j\<lparr>jk_hw_ptr := 0, jk_xrun := False, jk_min_avail := io_period_size io\<rparr>;
            j = (if err = 0 then j\<lparr>jk_min_avail := am, jk_boundary := bd\<rparr> else j)
       in snd (if io_stream io = PLAYBACK then pcm_poll_unblock_check E io j else pcm_poll_block_check E io j))"
  have j1: "jk_ports j1 = None" "jk_port_names j1 = Some names" "\<not> jk_activated j1" "jk_trace j1 = jk_trace j"
    "jk_num_ports j1 = jk_num_ports j" "jk_hw_ptr j1 = 0" "\<not> jk_xrun j1"
    using assms(2-4) by (simp_all add: j1_def Let_def pcm_poll_unblock_check_def pcm_poll_block_check_def)
  obtain j2 where r: "jack_allocate_and_register_ports E io j1 = Some j2"
    and c: "prepare_connect E io (j2\<lparr>jk_trace := jk_trace j2 @ [Jk_set_callback]\<rparr>) = Some (0, j')"
    using assms(1) ch j1(1) unfolding snd_pcm_jack_prepare_def sw
    by (auto simp: j1_def Let_def Option.bind_eq_Some_conv)
  let ?ports = "if je_calloc E n then Some (map (\<lambda>i. je_register E (label i) out) [0..<n]) else None"
  have j2: "j2 = j1\<lparr>jk_ports := ?ports, jk_trace := jk_trace j @ map (\<lambda>i. Jk_register (label i) out) [0..<n]\<rparr>"
    using r j1(4) by (auto simp: jack_allocate_and_register_ports_def Let_def n_def label_def out_def split: if_splits)
  have n: "length names = unat (jk_num_ports j)" "n = unat (jk_num_ports j)" using ch assms(5) by (simp_all add: n_def)
  have alloc: "je_calloc E n"
  proof (rule ccontr)
    assume "\<not> je_calloc E n"
    then show False using c j1(3) by (simp add: prepare_connect_def j2 Let_def split: if_splits)
  qed
  let ?j = "j2\<lparr>jk_trace := jk_trace j2 @ [Jk_set_callback]\<rparr>"
  have "\<not> jk_activated ?j" "jk_port_names ?j = Some names" "jk_ports ?j = Some (map (\<lambda>i. je_register E (label i) out) [0..<n])"
    "io_channels io = jk_num_ports ?j" "length names = unat (jk_num_ports ?j)"
    "length (map (\<lambda>i. je_register E (label i) out) [0..<n]) = unat (jk_num_ports ?j)"
    using j1 alloc n ch by (simp_all add: j2)
  from prepare_connect_result [OF c this] show ?thesis using j1(6,7) by (simp add: j2 comp_def)
qed

text \<open>
  A connection that fails leaves the client active: the error is reported once, and the next
  prepare returns success without the connections that are missing.
\<close>

lemma jack_prepare_again:
  assumes "jk_activated j" "jk_ports j \<noteq> None" "io_channels io = jk_num_ports j"
  shows "\<exists>j'. snd_pcm_jack_prepare E sw io j = Some (0, j') \<and> jk_trace j' = jk_trace j"
proof -
  obtain err am bd where sw: "sw = (err, am, bd)" by (metis prod_cases3)
  have c: "\<exists>j'. prepare_connect E io j1 = Some (0, j') \<and> jk_trace j' = jk_trace j" if "jk_activated j1" "jk_trace j1 = jk_trace j" for j1
    using that by (simp add: prepare_connect_def)
  have u: "jk_activated (snd (pcm_poll_unblock_check E io i)) = jk_activated i" "jk_trace (snd (pcm_poll_unblock_check E io i)) = jk_trace i"
    "jk_ports (snd (pcm_poll_unblock_check E io i)) = jk_ports i" "jk_activated (snd (pcm_poll_block_check E io i)) = jk_activated i"
    "jk_trace (snd (pcm_poll_block_check E io i)) = jk_trace i" "jk_ports (snd (pcm_poll_block_check E io i)) = jk_ports i" for i
    by (simp_all add: pcm_poll_unblock_check_def pcm_poll_block_check_def)
  show ?thesis unfolding snd_pcm_jack_prepare_def sw using assms
    by (simp add: Let_def u) (intro conjI impI c; simp add: u)
qed

text \<open>A port number outside the list: the names are stored behind the end of the array.\<close>

lemma jack_bad_channel_traps:
  assumes "cfg_id (jo_conf P) n = Some id_str" "cfg_string (jo_conf P) n = Some port" "jo_calloc_name P"
    and "length names \<le> unat (word_of_int (jo_atoi P id_str) :: u32)"
  shows "parse_entries P (n # ns) names = None"
  using assms by (simp add: snd_pcm_jack_port_list_add_def Let_def)

end
