(* ===== verification/JackDemo.thy ===== *)
theory JackDemo
  imports JackProofs
begin

section \<open>The JACK plugin on a small ring\<close>

text \<open>
  A reference environment that satisfies the laws, a ring of four frames with a boundary of
  eight, and a client with one port: the properties of \<open>JackProofs\<close> at concrete inputs.
\<close>

definition ref_hw_avail :: "u64 \<Rightarrow> ioplug \<Rightarrow> u64 \<Rightarrow> u64 \<Rightarrow> u64" where
  "ref_hw_avail B io hw appl =
     (if io_stream io = PLAYBACK then (if hw \<le> appl then appl - hw else appl + (B - hw)) else 0)"

definition ref_jack :: "u64 \<Rightarrow> 'f \<Rightarrow> (nat, 'f) jack_env" where
  "ref_jack B sil = \<lparr>je_hw_avail = ref_hw_avail B,
     je_copy_wrap = (\<lambda>dst doff dsize src soff ssize ch n fmt. ring_write dst doff (ring_read src soff n)),
     je_silence = (\<lambda>buf off ch n fmt. take off buf @ replicate n sil @ drop (off + n) buf),
     je_pipe_size = 8, je_boundary_wa = True, je_calloc = (\<lambda>_. True), je_register = (\<lambda>_ _. Some 0),
     je_port_name = (\<lambda>_. ''alsa:out_000''), je_activate = 0, je_connect = (\<lambda>_ _. 0)\<rparr>"

lemma ref_avail:
  assumes "io_stream io = PLAYBACK" "hw < B" "n \<le> unat (io_buffer_size io)" "io_buffer_size io < B"
  shows "ref_hw_avail B io hw (of_nat ((unat hw + n) mod unat B)) = of_nat n"
proof -
  have b: "unat hw < unat B" "n < unat B" "unat B < 2 ^ 64" using assms unat_u64_lt [of B] by (auto simp: word_less_nat_alt)
  let ?appl = "of_nat ((unat hw + n) mod unat B) :: u64"
  have appl: "unat ?appl = (unat hw + n) mod unat B" by (rule unat_of_mod [OF b(1)])
  have n: "unat (of_nat n :: u64) = n" using b by (simp add: unsigned_of_nat take_bit_nat_eq_self_iff)
  show ?thesis
  proof (cases "unat hw + n < unat B")
    case True
    then have u: "unat ?appl = unat hw + n" using appl by simp
    then have "unat (?appl - hw) = n" by (simp add: unat_minus_u64)
    then show ?thesis using assms(1) u n by (simp add: ref_hw_avail_def word_le_nat_alt word_unat_eq_iff)
  next
    case False
    then have u: "unat ?appl = unat hw + n - unat B" using appl b by (simp add: mod_if)
    have d: "unat (B - hw) = unat B - unat hw" using b by (simp add: unat_minus_u64)
    have "unat (?appl + (B - hw)) = n" using u d b False by (subst unat_plus_u64) auto
    moreover have "\<not> hw \<le> ?appl" using u b False by (simp add: word_le_nat_alt)
    ultimately show ?thesis using assms(1) n by (simp add: ref_hw_avail_def word_unat_eq_iff)
  qed
qed

lemma ref_jack_laws: "jack_laws (ref_jack B sil) B sil"
  using ref_avail by (simp add: jack_laws_def ref_jack_def)

definition demo_jack_io :: "u64 \<Rightarrow> ioplug" where
  "demo_jack_io appl = \<lparr>io_stream = PLAYBACK, io_state = STATE_RUNNING, io_format = FORMAT_OTHER 14, io_rate = 48000,
     io_channels = 1, io_period_size = 2, io_buffer_size = 4, io_appl_ptr = appl\<rparr>"

definition demo_jack :: "nat jack" where
  "demo_jack = (new_jack True)\<lparr>jk_running := True, jk_boundary := 8, jk_hw_ptr := 6, jk_min_avail := 2, jk_num_ports := 1,
     jk_port_names := Some [[''system:playback_1'']]\<rparr>"

lemma demo_jack_abs: "jack_abs 8 (demo_jack_io 7, [0, 0, 11 :: nat, 0], demo_jack) \<lparr>ff_queue = [11], ff_xrun = False\<rparr>"
  by (simp add: jack_abs_def demo_jack_io_def demo_jack_def new_jack_def xfer_active_def ring_read_def) presburger

text \<open>Two frames are committed around the ends of the ring and of the pointers, four are asked for.\<close>

abbreviation (input) demo_run :: "nat jack_step list" where
  "demo_run \<equiv> [Commit [12, 13], Process [0, 0, 0, 0], Poll 1]"

theorem jack_playback_fifo_witness:
  "\<exists>io' ring' j'. jack_steps (ref_jack 8 0) 8 demo_run (demo_jack_io 7, [0, 0, 11, 0], demo_jack)
    = Some ([Obs_none, Obs_played [11, 12, 13, 0], Obs_events 4], io', ring', j') \<and> jk_xrun j'"
proof -
  have "fits (length [0, 0, 11 :: nat, 0]) demo_run (length (ff_queue \<lparr>ff_queue = [11], ff_xrun = False\<rparr>))" by simp
  from jack_playback_fifo [OF ref_jack_laws demo_jack_abs this, of 0] obtain io' ring' j' obs q' where
    r: "jack_steps (ref_jack 8 0) 8 demo_run (demo_jack_io 7, [0, 0, 11, 0], demo_jack) = Some (obs, io', ring', j')"
    "fifo_steps (length [0, 0, 11 :: nat, 0]) (unat (jk_min_avail demo_jack)) 0 demo_run \<lparr>ff_queue = [11], ff_xrun = False\<rparr> = (obs, q')"
    "jack_abs 8 (io', ring', j') q'" by blast
  have "unat (jk_min_avail demo_jack) = 2" by (simp add: demo_jack_def)
  then have "obs = [Obs_none, Obs_played [11, 12, 13, 0], Obs_events 4]" "ff_xrun q'"
    using r(2) by (auto simp: Let_def)
  then show ?thesis using r(1) jack_absD(13) [OF r(3)] by auto
qed


theorem jack_prepare_connects_witness:
  "\<exists>j'. snd_pcm_jack_prepare (ref_jack 8 (0 :: nat)) (0, 2, 8) (demo_jack_io 0) demo_jack = Some (0, j')
    \<and> jk_trace j' = [Jk_register ''out_000'' True, Jk_set_callback, Jk_activate, Jk_connect ''alsa:out_000'' ''system:playback_1'']"
proof -
  obtain j' where p: "snd_pcm_jack_prepare (ref_jack 8 (0 :: nat)) (0, 2, 8) (demo_jack_io 0) demo_jack = Some (0, j')"
    by (simp add: snd_pcm_jack_prepare_def pcm_poll_unblock_check_def jack_allocate_and_register_ports_def prepare_connect_def
        demo_jack_io_def demo_jack_def new_jack_def ref_jack_def ref_hw_avail_def snd_pcm_ioplug_avail_def Let_def)
  have "\<not> jk_activated demo_jack" "jk_ports demo_jack = None" "jk_port_names demo_jack = Some [[''system:playback_1'']]"
    "length [[''system:playback_1'']] = unat (jk_num_ports demo_jack)"
    by (simp_all add: demo_jack_def new_jack_def)
  moreover have "replicate 2 (CHR ''0'') = ''00''" "char_of (48 :: nat) = CHR ''0''" by (simp_all add: numeral_2_eq_2) code_simp
  ultimately show ?thesis using jack_prepare_connects [OF p] p
    by (simp add: demo_jack_def new_jack_def demo_jack_io_def links_of_def link_of_def ref_jack_def port_label_def digits.simps)
qed

end
