(* ===== verification/OssCtl.thy ===== *)
theory OssCtl
  imports Alsa
begin

unbundle bit_operations_syntax

section \<open>The OSS control plugin (oss/ctl_oss.c)\<close>

text \<open>
  A control plugin over an OSS mixer device: a volume for every device of the mixer that has a
  name, and either one enumerated capture source or one capture switch for every recording device.
  \<open>snd_ctl_oss\<close> is the plugin's structure, its two arrays of 25 entries included; the mixer is the
  parameter \<open>mixer\<close> over its own state \<open>'d\<close>, with the numbers of \<open>MIXER_READ\<close> and
  \<open>MIXER_WRITE\<close> and the \<open>errno\<close> of a failing call.
\<close>

subsection \<open>State and tables\<close>

record snd_ctl_oss =
  oc_device :: string
  oc_fd :: int
  oc_exclusive_input :: bool
  oc_stereo_mask :: u32
  oc_num_vol_ctls :: nat
  oc_vol_ctl :: "nat list"
  oc_num_rec_items :: nat
  oc_rec_item :: "nat list"

record 'd mixer =
  mx_read :: "int \<Rightarrow> u64 \<Rightarrow> 'd \<Rightarrow> int + u32"
  mx_write :: "int \<Rightarrow> u64 \<Rightarrow> u32 \<Rightarrow> 'd \<Rightarrow> int \<times> 'd"

abbreviation (input) SOUND_MIXER_NRDEVICES :: nat where "SOUND_MIXER_NRDEVICES \<equiv> 25"
abbreviation (input) SOUND_MIXER_STEREODEVS :: u64 where "SOUND_MIXER_STEREODEVS \<equiv> 0xfb"
abbreviation (input) SOUND_MIXER_CAPS :: u64 where "SOUND_MIXER_CAPS \<equiv> 0xfc"
abbreviation (input) SOUND_MIXER_RECMASK :: u64 where "SOUND_MIXER_RECMASK \<equiv> 0xfd"
abbreviation (input) SOUND_MIXER_DEVMASK :: u64 where "SOUND_MIXER_DEVMASK \<equiv> 0xfe"
abbreviation (input) SOUND_MIXER_RECSRC :: u64 where "SOUND_MIXER_RECSRC \<equiv> 0xff"
abbreviation (input) SOUND_CAP_EXCL_INPUT :: u32 where "SOUND_CAP_EXCL_INPUT \<equiv> 1"

definition vol_devices :: "string option list" where
  "vol_devices = map Some
     [''Master Playback Volume'', ''Tone Control - Bass'', ''Tone Control - Treble'', ''Synth Playback Volume'',
      ''PCM Playback Volume'', ''PC Speaker Playback Volume'', ''Line Playback Volume'', ''Mic Playback Volume'',
      ''CD Playback Volume'', ''Monitor Mix Playback Volume'', ''Headphone Playback Volume'', ''Capture Volume'',
      ''Capture Volume'', ''Playback Volume'', ''Aux Playback Volume'', ''Aux1 Playback Volume'',
      ''Line1 Playback Volume'', ''IEC958 Playback Volume'', ''Digital Playback Volume'', ''Digital1 Playback Volume'',
      ''Phone Playback Volume'', ''Master Mono Playback Volume'', ''Video Playback Volume'', ''Radio Playback Volume'',
      ''Monitor Playback Volume'']"

definition rec_devices :: "string option list" where
  "rec_devices =
     [Some ''Mix Capture Switch'', None, None, Some ''Synth Capture Switch'',
      Some ''PCM Capture Switch'', None, Some ''Line Capture Switch'', Some ''Mic Capture Switch'',
      Some ''CD Capture Switch'', None, None, None,
      None, None, Some ''Aux Capture Switch'', Some ''Aux1 Capture Switch'',
      Some ''Line1 Capture Switch'', Some ''IEC958 Capture Switch'', Some ''Digital Capture Switch'', Some ''Digital1 Capture Switch'',
      Some ''Phone Capture Switch'', None, Some ''Video Capture Switch'', Some ''Radio Capture Switch'',
      None]"

definition rec_items :: "string option list" where
  "rec_items =
     [Some ''Mix'', None, None, Some ''Synth'',
      Some ''PCM'', None, Some ''Line'', Some ''Mic'',
      Some ''CD'', None, None, None,
      None, None, Some ''Aux'', Some ''Aux1'',
      Some ''Line1'', Some ''IEC958'', Some ''Digital'', Some ''Digital1'',
      Some ''Phone'', None, Some ''Video'', Some ''Radio'',
      None]"

text \<open>\<open>1 << k\<close> on a C int.\<close>

definition shl1 :: "u64 \<Rightarrow> u32 option" where
  "shl1 k = (if unat k < 31 then Some (push_bit (unat k) 1) else None)"

subsection \<open>The elements\<close>

definition oss_elem_count :: "snd_ctl_oss \<Rightarrow> int" where
  "oss_elem_count oss =
     (let num = int (oc_num_vol_ctls oss) in
      if oc_exclusive_input oss then num + 1
      else if oc_num_rec_items oss \<noteq> 0 then num + int (oc_num_rec_items oss)
      else num)"

text \<open>The name of an element; a missing name is a null pointer, which alsa-lib would read.\<close>

definition oss_elem_list :: "snd_ctl_oss \<Rightarrow> nat \<Rightarrow> string option" where
  "oss_elem_list oss offset =
     (if offset < oc_num_vol_ctls oss then do {
        key \<leftarrow> at (oc_vol_ctl oss) offset;
        name \<leftarrow> at vol_devices key;
        name
      } else if oc_exclusive_input oss then Some ''Capture Source''
      else do {
        key \<leftarrow> at (oc_rec_item oss) (offset - oc_num_vol_ctls oss);
        name \<leftarrow> at rec_devices key;
        name
      })"

abbreviation (input) OSS_KEY_DEVICE_MASK :: u64 where "OSS_KEY_DEVICE_MASK \<equiv> 0x1f"
abbreviation (input) OSS_KEY_CAPTURE_FLAG :: u64 where "OSS_KEY_CAPTURE_FLAG \<equiv> 0x100"
abbreviation (input) OSS_KEY_CAPTURE_MUX :: u64 where "OSS_KEY_CAPTURE_MUX \<equiv> 0x10000"
abbreviation (input) KEY_NOT_FOUND :: u64 where "KEY_NOT_FOUND \<equiv> - 1"

text \<open>The two loops: the first of the keys whose name is the one looked for.\<close>

fun find_key :: "string option list \<Rightarrow> string \<Rightarrow> nat list \<Rightarrow> nat option option" where
  "find_key names name [] = Some None"
| "find_key names name (key # keys) = do {
     entry \<leftarrow> at names key;
     s \<leftarrow> entry;
     if name = s then Some (Some key) else find_key names name keys
   }"

definition find_by_name :: "snd_ctl_oss \<Rightarrow> string \<Rightarrow> u64 option" where
  "find_by_name oss name =
     (if name = ''Capture Source''
      then Some (if oc_exclusive_input oss then OSS_KEY_CAPTURE_MUX else KEY_NOT_FOUND)
      else do {
        vol \<leftarrow> find_key vol_devices name (take (oc_num_vol_ctls oss) (oc_vol_ctl oss));
        case vol of
          Some key \<Rightarrow> Some (of_nat key)
        | None \<Rightarrow> do {
            rec \<leftarrow> find_key rec_devices name (take (oc_num_rec_items oss) (oc_rec_item oss));
            Some (case rec of Some key \<Rightarrow> of_nat key OR OSS_KEY_CAPTURE_FLAG | None \<Rightarrow> KEY_NOT_FOUND)
          }
      })"

definition oss_find_elem :: "snd_ctl_oss \<Rightarrow> nat \<Rightarrow> string \<Rightarrow> u64 option" where
  "oss_find_elem oss numid name =
     (if numid > 0 then
        let numid = numid - 1 in
        if numid < oc_num_vol_ctls oss then map_option of_nat (at (oc_vol_ctl oss) numid)
        else
          let numid = numid - oc_num_vol_ctls oss in
          if oc_exclusive_input oss then
            if numid = 0 then Some OSS_KEY_CAPTURE_MUX else find_by_name oss name
          else if numid < oc_num_rec_items oss then
            map_option (\<lambda>key. of_nat key OR OSS_KEY_CAPTURE_FLAG) (at (oc_rec_item oss) numid)
          else find_by_name oss name
      else find_by_name oss name)"

datatype oss_type = OSS_BOOLEAN | OSS_INTEGER | OSS_ENUMERATED

definition oss_stereo :: "snd_ctl_oss \<Rightarrow> u64 \<Rightarrow> bool option" where
  "oss_stereo oss key = map_option (\<lambda>b. oc_stereo_mask oss AND b \<noteq> 0) (shl1 key)"

definition oss_get_attribute :: "snd_ctl_oss \<Rightarrow> u64 \<Rightarrow> (oss_type \<times> nat) option" where
  "oss_get_attribute oss key =
     (if key = OSS_KEY_CAPTURE_MUX then Some (OSS_ENUMERATED, 1)
      else if key AND OSS_KEY_CAPTURE_FLAG \<noteq> 0 then Some (OSS_BOOLEAN, 1)
      else map_option (\<lambda>stereo. (OSS_INTEGER, if stereo then 2 else 1)) (oss_stereo oss key))"

definition oss_get_integer_info :: "int \<times> int \<times> int" where
  "oss_get_integer_info = (0, 100, 0)"

definition oss_get_enumerated_info :: "snd_ctl_oss \<Rightarrow> nat" where
  "oss_get_enumerated_info oss = oc_num_rec_items oss"

definition oss_get_enumerated_name :: "snd_ctl_oss \<Rightarrow> nat \<Rightarrow> nat \<Rightarrow> (int + string) option" where
  "oss_get_enumerated_name oss item name_max_len =
     (if item \<ge> oc_num_rec_items oss then Some (Inl (- EINVAL))
      else do {
        key \<leftarrow> at (oc_rec_item oss) item;
        entry \<leftarrow> at rec_items key;
        name \<leftarrow> entry;
        Some (Inr (take (name_max_len - 1) name))
      })"

subsection \<open>Values\<close>

definition oss_read_integer :: "'d mixer \<Rightarrow> 'd \<Rightarrow> snd_ctl_oss \<Rightarrow> u64 \<Rightarrow> int \<times> int \<Rightarrow> (int \<times> int \<times> int) option" where
  "oss_read_integer M dev oss key value =
     (if key AND OSS_KEY_CAPTURE_FLAG \<noteq> 0 then
        case mx_read M (oc_fd oss) SOUND_MIXER_RECSRC dev of
          Inl errno \<Rightarrow> Some (- errno, value)
        | Inr val \<Rightarrow> do {
            b \<leftarrow> shl1 (key AND OSS_KEY_DEVICE_MASK);
            Some (0, if val AND b \<noteq> 0 then 1 else 0, snd value)
          }
      else
        case mx_read M (oc_fd oss) key dev of
          Inl errno \<Rightarrow> Some (- errno, value)
        | Inr val \<Rightarrow> do {
            stereo \<leftarrow> oss_stereo oss key;
            Some (0, uint (val AND 0xff), if stereo then uint (drop_bit 8 val AND 0xff) else snd value)
          })"

fun first_source :: "u32 \<Rightarrow> nat \<Rightarrow> nat list \<Rightarrow> nat option" where
  "first_source val i [] = Some 0"
| "first_source val i (key # keys) = do {
     b \<leftarrow> shl1 (of_nat key);
     if val AND b \<noteq> 0 then Some i else first_source val (Suc i) keys
   }"

definition oss_read_enumerated :: "'d mixer \<Rightarrow> 'd \<Rightarrow> snd_ctl_oss \<Rightarrow> (int \<times> nat) option" where
  "oss_read_enumerated M dev oss =
     (case mx_read M (oc_fd oss) SOUND_MIXER_RECSRC dev of
        Inl errno \<Rightarrow> Some (- errno, 0)
      | Inr val \<Rightarrow> map_option (Pair 0) (first_source val 0 (take (oc_num_rec_items oss) (oc_rec_item oss))))"

text \<open>What the three writing branches share: nothing to do, or an ioctl.\<close>

definition mixer_set :: "'d mixer \<Rightarrow> 'd \<Rightarrow> snd_ctl_oss \<Rightarrow> u64 \<Rightarrow> u32 \<Rightarrow> u32 \<Rightarrow> int \<times> 'd" where
  "mixer_set M dev oss req oval val =
     (if oval = val then (0, dev)
      else
        let (errno, dev) = mx_write M (oc_fd oss) req val dev in
        (if errno \<noteq> 0 then - errno else 1, dev))"

definition level_word :: "bool \<Rightarrow> int \<times> int \<Rightarrow> u32" where
  "level_word stereo value =
     (if stereo then word_of_int (fst value) OR push_bit 8 (word_of_int (snd value)) else word_of_int (fst value))"

definition oss_write_integer :: "'d mixer \<Rightarrow> 'd \<Rightarrow> snd_ctl_oss \<Rightarrow> u64 \<Rightarrow> int \<times> int \<Rightarrow> (int \<times> 'd) option" where
  "oss_write_integer M dev oss key value =
     (if key AND OSS_KEY_CAPTURE_FLAG \<noteq> 0 then
        case mx_read M (oc_fd oss) SOUND_MIXER_RECSRC dev of
          Inl errno \<Rightarrow> Some (- errno, dev)
        | Inr oval \<Rightarrow> do {
            b \<leftarrow> shl1 (key AND OSS_KEY_DEVICE_MASK);
            Some (mixer_set M dev oss SOUND_MIXER_RECSRC oval (if fst value \<noteq> 0 then oval OR b else oval AND NOT b))
          }
      else do {
        stereo \<leftarrow> oss_stereo oss key;
        case mx_read M (oc_fd oss) key dev of
          Inl errno \<Rightarrow> Some (- errno, dev)
        | Inr oval \<Rightarrow> Some (mixer_set M dev oss key oval (level_word stereo value))
      })"

definition oss_write_enumerated :: "'d mixer \<Rightarrow> 'd \<Rightarrow> snd_ctl_oss \<Rightarrow> nat \<Rightarrow> (int \<times> 'd) option" where
  "oss_write_enumerated M dev oss item =
     (case mx_read M (oc_fd oss) SOUND_MIXER_RECSRC dev of
        Inl errno \<Rightarrow> Some (- errno, dev)
      | Inr oval \<Rightarrow> do {
          key \<leftarrow> at (oc_rec_item oss) item;
          val \<leftarrow> shl1 (of_nat key);
          Some (mixer_set M dev oss SOUND_MIXER_RECSRC oval val)
        })"

definition oss_read_event :: int where
  "oss_read_event = - EAGAIN"

subsection \<open>Opening and closing\<close>

text \<open>The result of \<open>close\<close> and of a failed open: the descriptors closed.\<close>

definition oss_close :: "snd_ctl_oss \<Rightarrow> int list" where
  "oss_close oss = [oc_fd oss]"

record ('d, 'c) oss_ctl_env =
  oe_conf :: "'c config_api"
  oe_mixer :: "'d mixer"
  oe_calloc :: bool
  oe_strdup :: bool
  oe_open :: "string \<Rightarrow> int + int"
  oe_info :: int
  oe_create :: int

fun oss_ctl_conf :: "'c config_api \<Rightarrow> 'c list \<Rightarrow> string \<Rightarrow> int + string" where
  "oss_ctl_conf A [] device = Inr device"
| "oss_ctl_conf A (n # ns) device =
     (case cfg_id A n of
        None \<Rightarrow> oss_ctl_conf A ns device
      | Some ident \<Rightarrow>
          if cfg_skipped ident then oss_ctl_conf A ns device
          else if ident = ''device'' then
            (case cfg_string A n of
               None \<Rightarrow> Inl (- EINVAL)
             | Some s \<Rightarrow> oss_ctl_conf A ns s)
          else Inl (- EINVAL))"

text \<open>
  The loops over the device masks: the entries of an array are filled from the front, the count
  is the next free index; writing outside the array has no result.
\<close>

fun collect :: "(nat \<Rightarrow> bool) \<Rightarrow> nat list \<Rightarrow> nat \<times> nat list \<Rightarrow> (nat \<times> nat list) option" where
  "collect p [] st = Some st"
| "collect p (i # is) (num, arr) =
     (if p i then if num < length arr then collect p is (Suc num, arr[num := i]) else None
      else collect p is (num, arr))"

definition mask_bit :: "u32 \<Rightarrow> nat \<Rightarrow> bool" where
  "mask_bit val i \<longleftrightarrow> val AND push_bit i 1 \<noteq> 0"

definition no_items :: "nat list" where
  "no_items = replicate SOUND_MIXER_NRDEVICES 0"

definition read_or_zero :: "'d mixer \<Rightarrow> 'd \<Rightarrow> int \<Rightarrow> u64 \<Rightarrow> u32" where
  "read_or_zero M dev fd req = (case mx_read M fd req dev of Inl _ \<Rightarrow> 0 | Inr val \<Rightarrow> val)"

definition new_oss_ctl :: "string \<Rightarrow> int \<Rightarrow> snd_ctl_oss" where
  "new_oss_ctl device fd = \<lparr>oc_device = device, oc_fd = fd, oc_exclusive_input = False, oc_stereo_mask = 0,
     oc_num_vol_ctls = 0, oc_vol_ctl = no_items, oc_num_rec_items = 0, oc_rec_item = no_items\<rparr>"

definition scan_mixer :: "'d mixer \<Rightarrow> 'd \<Rightarrow> snd_ctl_oss \<Rightarrow> snd_ctl_oss option" where
  "scan_mixer M dev oss =
     (let fd = oc_fd oss; devmask = read_or_zero M dev fd SOUND_MIXER_DEVMASK in do {
        (nv, vol) \<leftarrow> collect (\<lambda>i. mask_bit devmask i \<and> vol_devices ! i \<noteq> None) [0..<SOUND_MIXER_NRDEVICES] (0, oc_vol_ctl oss);
        let stereo = read_or_zero M dev fd SOUND_MIXER_STEREODEVS;
        let excl = (read_or_zero M dev fd SOUND_MIXER_CAPS AND SOUND_CAP_EXCL_INPUT \<noteq> 0);
        let recmask = read_or_zero M dev fd SOUND_MIXER_RECMASK;
        (nr, items) \<leftarrow> collect (\<lambda>i. mask_bit recmask i \<and> (if excl then rec_items ! i \<noteq> None else rec_devices ! i \<noteq> None))
                        [0..<SOUND_MIXER_NRDEVICES] (0, oc_rec_item oss);
        Some (oss\<lparr>oc_num_vol_ctls := nv, oc_vol_ctl := vol, oc_stereo_mask := stereo,
                  oc_exclusive_input := (excl \<and> nr \<noteq> 0), oc_num_rec_items := nr, oc_rec_item := items\<rparr>)
      })"

text \<open>The allocation of the structure is not checked: without it there is no result.\<close>

definition oss_ctl_open :: "('d, 'c) oss_ctl_env \<Rightarrow> 'd \<Rightarrow> 'c list \<Rightarrow> (int \<times> (int list + snd_ctl_oss)) option" where
  "oss_ctl_open P dev conf =
     (case oss_ctl_conf (oe_conf P) conf ''/dev/mixer'' of
        Inl err \<Rightarrow> Some (err, Inl [])
      | Inr device \<Rightarrow>
          if \<not> oe_calloc P then None
          else if \<not> oe_strdup P then Some (- ENOMEM, Inl [])
          else
            case oe_open P device of
              Inl errno \<Rightarrow> Some (- errno, Inl [])
            | Inr fd \<Rightarrow>
                if oe_info P \<noteq> 0 then Some (- oe_info P, Inl [fd])
                else do {
                  oss \<leftarrow> scan_mixer (oe_mixer P) dev (new_oss_ctl device fd);
                  if oe_create P < 0 then Some (oe_create P, Inl [fd]) else Some (0, Inr oss)
                })"

end
