(* ===== verification/OssCtlProofs.thy ===== *)
theory OssCtlProofs
  imports OssCtl
begin

unbundle bit_operations_syntax

section \<open>The OSS control plugin: elements, values\<close>

text \<open>
  \<open>oss_ok\<close> is what open establishes (\<open>oss_scan\<close>): the used parts of the two arrays have
  different devices that have names. On such a structure the callbacks never read outside an array
  or through a missing name; every element is found again, and writing one is seen in that element
  only, on a mixer that keeps \<open>mixer_laws\<close>.
\<close>

subsection \<open>What open establishes\<close>

definition oss_vols :: "snd_ctl_oss \<Rightarrow> nat list" where
  "oss_vols oss = take (oc_num_vol_ctls oss) (oc_vol_ctl oss)"

definition oss_recs :: "snd_ctl_oss \<Rightarrow> nat list" where
  "oss_recs oss = take (oc_num_rec_items oss) (oc_rec_item oss)"

definition oss_ok :: "snd_ctl_oss \<Rightarrow> bool" where
  "oss_ok oss \<longleftrightarrow> length (oc_vol_ctl oss) = 25 \<and> length (oc_rec_item oss) = 25
     \<and> oc_num_vol_ctls oss \<le> 25 \<and> oc_num_rec_items oss \<le> 25
     \<and> distinct (oss_vols oss) \<and> distinct (oss_recs oss)
     \<and> (\<forall>k \<in> set (oss_vols oss). k < 25)
     \<and> (\<forall>k \<in> set (oss_recs oss). k < 25 \<and> rec_devices ! k \<noteq> None)
     \<and> (oc_exclusive_input oss \<longrightarrow> oc_num_rec_items oss \<noteq> 0)"

lemma collect_fills: "num + length (filter p is) \<le> length arr \<Longrightarrow>
   collect p is (num, arr) = Some (num + length (filter p is),
     take num arr @ filter p is @ drop (num + length (filter p is)) arr)"
proof (induction "is" arbitrary: num arr)
  case (Cons i "is")
  show ?case
  proof (cases "p i")
    case True
    have "take (Suc num) (arr[num := i]) = take num arr @ [i]"
      using Cons.prems True by (simp add: take_Suc_conv_app_nth)
    moreover have "drop (Suc (num + n)) (arr[num := i]) = drop (Suc (num + n)) arr" for n by simp
    ultimately show ?thesis using Cons.prems True Cons.IH [of "Suc num" "arr[num := i]"] by simp
  qed (use Cons in simp)
qed simp

lemma tables_25 [simp]: "length vol_devices = 25" "length rec_devices = 25" "length rec_items = 25"
  by (simp_all add: vol_devices_def rec_devices_def rec_items_def)

lemma all_25: "(\<forall>k < 25. P k) \<longleftrightarrow> list_all P [0..<25]"
  by (auto simp: list_all_iff)

lemma vol_named: "k < 25 \<Longrightarrow> vol_devices ! k \<noteq> None"
proof -
  have "\<forall>k < 25. vol_devices ! k \<noteq> None"
    unfolding all_25 by code_simp
  then show "k < 25 \<Longrightarrow> vol_devices ! k \<noteq> None" by blast
qed

lemma same_recordings: "k < 25 \<Longrightarrow> rec_items ! k \<noteq> None \<longleftrightarrow> rec_devices ! k \<noteq> None"
proof -
  have "\<forall>k < 25. (rec_items ! k \<noteq> None) = (rec_devices ! k \<noteq> None)"
    unfolding all_25 by code_simp
  then show "k < 25 \<Longrightarrow> rec_items ! k \<noteq> None \<longleftrightarrow> rec_devices ! k \<noteq> None" by blast
qed

lemma length_filter_25: "length (filter p [0..<25]) \<le> 25"
  using length_filter_le [of p "[0..<25]"] by simp

definition devices_in :: "u32 \<Rightarrow> string option list \<Rightarrow> nat list" where
  "devices_in m names = filter (\<lambda>i. mask_bit m i \<and> names ! i \<noteq> None) [0..<25]"

lemma filter_rec_cond:
  "filter (\<lambda>i. mask_bit m i \<and> (if excl then rec_items ! i \<noteq> None else rec_devices ! i \<noteq> None)) [0..<25]
    = devices_in m rec_devices"
proof (unfold devices_in_def, rule filter_cong [OF refl])
  fix k assume "k \<in> set [0..<25]"
  then have "k < 25" by (simp del: upt_Suc upt_rec_numeral)
  then show "(mask_bit m k \<and> (if excl then rec_items ! k \<noteq> None else rec_devices ! k \<noteq> None))
      = (mask_bit m k \<and> rec_devices ! k \<noteq> None)"
    by (simp only: same_recordings if_cancel)
qed

lemma collect_25: "collect p [0..<25] (0, no_items)
    = Some (length (filter p [0..<25]), filter p [0..<25] @ drop (length (filter p [0..<25])) no_items)"
  using collect_fills [of 0 p "[0..<25]" no_items] length_filter_25 [of p] by (simp add: no_items_def del: upt_rec_numeral upt_Suc)

lemma oss_scan:
  assumes "oc_vol_ctl oss = no_items" "oc_rec_item oss = no_items"
  obtains oss' where "scan_mixer M dev oss = Some oss'" "oss_ok oss'" "oc_fd oss' = oc_fd oss"
    "oss_vols oss' = devices_in (read_or_zero M dev (oc_fd oss) SOUND_MIXER_DEVMASK) vol_devices"
    "oss_recs oss' = devices_in (read_or_zero M dev (oc_fd oss) SOUND_MIXER_RECMASK) rec_devices"
    "oc_stereo_mask oss' = read_or_zero M dev (oc_fd oss) SOUND_MIXER_STEREODEVS"
    "oc_exclusive_input oss' \<longleftrightarrow> mask_bit (read_or_zero M dev (oc_fd oss) SOUND_MIXER_CAPS) 0 \<and> oss_recs oss' \<noteq> []"
proof -
  let ?r = "read_or_zero M dev (oc_fd oss)"
  let ?v = "devices_in (?r SOUND_MIXER_DEVMASK) vol_devices" and ?c = "devices_in (?r SOUND_MIXER_RECMASK) rec_devices"
  let ?x = "mask_bit (?r SOUND_MIXER_CAPS) 0"
  define oss' where "oss' = oss\<lparr>oc_num_vol_ctls := length ?v, oc_vol_ctl := ?v @ drop (length ?v) no_items,
    oc_stereo_mask := ?r SOUND_MIXER_STEREODEVS, oc_exclusive_input := (?x \<and> length ?c \<noteq> 0),
    oc_num_rec_items := length ?c, oc_rec_item := ?c @ drop (length ?c) no_items\<rparr>"
  have len: "length (devices_in m names) \<le> 25" for m names
    unfolding devices_in_def by (rule length_filter_25)
  have "scan_mixer M dev oss = Some oss'"
    unfolding scan_mixer_def Let_def assms collect_25 oss'_def
    by (simp only: filter_rec_cond devices_in_def [symmetric] bind.bind_lunit split) (simp add: mask_bit_def)
  moreover have lists: "oss_vols oss' = ?v" "oss_recs oss' = ?c"
    by (simp_all add: oss_vols_def oss_recs_def oss'_def)
  moreover have "distinct ?v" "distinct ?c" "\<forall>k \<in> set ?v. k < 25" "\<forall>k \<in> set ?c. k < 25 \<and> rec_devices ! k \<noteq> None"
    by (auto simp: devices_in_def simp del: upt_Suc upt_rec_numeral)
  then have "oss_ok oss'"
    using len unfolding oss_ok_def lists by (simp add: oss'_def no_items_def)
  moreover have "oc_exclusive_input oss' \<longleftrightarrow> ?x \<and> oss_recs oss' \<noteq> []"
    unfolding lists by (simp add: oss'_def)
  moreover have "oc_stereo_mask oss' = ?r SOUND_MIXER_STEREODEVS" "oc_fd oss' = oc_fd oss"
    by (simp_all add: oss'_def)
  ultimately show thesis by (intro that)
qed

subsection \<open>Keys\<close>

definition oss_key :: "snd_ctl_oss \<Rightarrow> nat \<Rightarrow> u64" where
  "oss_key oss offset =
     (if offset < oc_num_vol_ctls oss then of_nat (oss_vols oss ! offset)
      else if oc_exclusive_input oss then 0x10000
      else of_nat (oss_recs oss ! (offset - oc_num_vol_ctls oss)) OR 0x100)"

named_theorems key_simps \<open>keys of the devices 0 to 24\<close>

lemma unat_key [key_simps]: "k < 25 \<Longrightarrow> unat (of_nat k :: u64) = k"
  by (simp add: unat_of_nat take_bit_nat_eq_self)

lemma vol_key_no_flag [key_simps]: "k < 25 \<Longrightarrow> (of_nat k :: u64) AND 0x100 = 0"
proof -
  have "\<forall>k < 25. (of_nat k :: u64) AND 0x100 = 0" unfolding all_25 by code_simp
  then show "k < 25 \<Longrightarrow> (of_nat k :: u64) AND 0x100 = 0" by blast
qed

lemma rec_key_flag [key_simps]: "k < 25 \<Longrightarrow> ((of_nat k :: u64) OR 0x100) AND 0x100 \<noteq> 0"
proof -
  have "\<forall>k < 25. ((of_nat k :: u64) OR 0x100) AND 0x100 \<noteq> 0" unfolding all_25 by code_simp
  then show "k < 25 \<Longrightarrow> ((of_nat k :: u64) OR 0x100) AND 0x100 \<noteq> 0" by blast
qed

lemma rec_key_device [key_simps]: "k < 25 \<Longrightarrow> ((of_nat k :: u64) OR 0x100) AND 0x1f = of_nat k"
proof -
  have "\<forall>k < 25. ((of_nat k :: u64) OR 0x100) AND 0x1f = of_nat k" unfolding all_25 by code_simp
  then show "k < 25 \<Longrightarrow> ((of_nat k :: u64) OR 0x100) AND 0x1f = of_nat k" by blast
qed

lemma key_inj [key_simps]: "k < 25 \<Longrightarrow> l < 25 \<Longrightarrow> (of_nat k :: u64) = of_nat l \<longleftrightarrow> k = l"
  by (metis unat_key)

lemma key_small [key_simps]: "k < 25 \<Longrightarrow> (of_nat k :: u64) \<noteq> 0x10000 \<and> (of_nat k :: u64) \<noteq> 0xff"
proof -
  have "\<forall>k < 25. (of_nat k :: u64) \<noteq> 0x10000 \<and> (of_nat k :: u64) \<noteq> 0xff" unfolding all_25 by code_simp
  then show "k < 25 \<Longrightarrow> (of_nat k :: u64) \<noteq> 0x10000 \<and> (of_nat k :: u64) \<noteq> 0xff" by blast
qed

lemma rec_key_not_mux [key_simps]: "k < 25 \<Longrightarrow> (of_nat k :: u64) OR 0x100 \<noteq> 0x10000"
proof -
  have "\<forall>k < 25. (of_nat k :: u64) OR 0x100 \<noteq> 0x10000" unfolding all_25 by code_simp
  then show "k < 25 \<Longrightarrow> (of_nat k :: u64) OR 0x100 \<noteq> 0x10000" by blast
qed

lemma shl1_key [key_simps]: "k < 25 \<Longrightarrow> shl1 (of_nat k) = Some (push_bit k 1)"
  by (simp add: shl1_def unat_key)

lemma mask_bit_iff: "i < 32 \<Longrightarrow> mask_bit val i \<longleftrightarrow> bit val i"
  unfolding mask_bit_def by (simp add: bit_iff_and_push_bit_not_eq_0)

lemma oss_stereo_key [key_simps]: "k < 25 \<Longrightarrow> oss_stereo oss (of_nat k) = Some (bit (oc_stereo_mask oss) k)"
  using mask_bit_iff [of k "oc_stereo_mask oss"] by (simp add: oss_stereo_def shl1_key mask_bit_def)

lemma rec_key_inj [key_simps]: "k < 25 \<Longrightarrow> l < 25 \<Longrightarrow> (of_nat k :: u64) OR 0x100 = of_nat l OR 0x100 \<longleftrightarrow> k = l"
  by (metis rec_key_device key_inj)

lemma oss_ok_at:
  assumes "oss_ok oss"
  shows "i < oc_num_vol_ctls oss \<Longrightarrow> at (oc_vol_ctl oss) i = Some (oss_vols oss ! i)"
    and "i < oc_num_rec_items oss \<Longrightarrow> at (oc_rec_item oss) i = Some (oss_recs oss ! i)"
    and "length (oss_vols oss) = oc_num_vol_ctls oss" "length (oss_recs oss) = oc_num_rec_items oss"
  using assms by (auto simp: oss_ok_def at_def oss_vols_def oss_recs_def)

lemma oss_ok_dev:
  assumes "oss_ok oss"
  shows "i < oc_num_vol_ctls oss \<Longrightarrow> oss_vols oss ! i < 25"
    and "i < oc_num_rec_items oss \<Longrightarrow> oss_recs oss ! i < 25 \<and> rec_devices ! (oss_recs oss ! i) \<noteq> None"
proof -
  show "oss_vols oss ! i < 25" if "i < oc_num_vol_ctls oss"
    using assms that oss_ok_at(3) [OF assms] by (metis nth_mem oss_ok_def)
  show "oss_recs oss ! i < 25 \<and> rec_devices ! (oss_recs oss ! i) \<noteq> None" if "i < oc_num_rec_items oss"
    using assms that oss_ok_at(4) [OF assms] by (metis nth_mem oss_ok_def)
qed

lemma at_table: "k < 25 \<Longrightarrow> length names = 25 \<Longrightarrow> at names k = Some (names ! k)"
  by (simp add: at_def)

lemma oss_elem_name:
  assumes ok: "oss_ok oss" and i: "int i < oss_elem_count oss"
  shows "oss_elem_list oss i =
    (if i < oc_num_vol_ctls oss then vol_devices ! (oss_vols oss ! i)
     else if oc_exclusive_input oss then Some ''Capture Source''
     else rec_devices ! (oss_recs oss ! (i - oc_num_vol_ctls oss)))" (is "_ = ?name")
    and "\<exists>name. oss_elem_list oss i = Some name"
proof -
  have r: "i - oc_num_vol_ctls oss < oc_num_rec_items oss" if "\<not> i < oc_num_vol_ctls oss" "\<not> oc_exclusive_input oss"
    using i that by (auto simp: oss_elem_count_def Let_def split: if_splits)
  show eq: "oss_elem_list oss i = ?name"
    using r oss_ok_at(1,2) [OF ok] oss_ok_dev [OF ok] by (auto simp: oss_elem_list_def at_table split: option.split)
  show "\<exists>name. oss_elem_list oss i = Some name"
    unfolding eq using r oss_ok_dev [OF ok] vol_named by auto
qed

lemma rec_index:
  "int k < oss_elem_count oss \<Longrightarrow> \<not> k < oc_num_vol_ctls oss \<Longrightarrow> \<not> oc_exclusive_input oss \<Longrightarrow>
     k - oc_num_vol_ctls oss < oc_num_rec_items oss"
  by (auto simp: oss_elem_count_def Let_def split: if_splits)

lemma mux_index:
  "int k < oss_elem_count oss \<Longrightarrow> \<not> k < oc_num_vol_ctls oss \<Longrightarrow> oc_exclusive_input oss \<Longrightarrow> k = oc_num_vol_ctls oss"
  by (auto simp: oss_elem_count_def Let_def)

lemma oss_elements_distinct:
  assumes "oss_ok oss" "int i < oss_elem_count oss" "int j < oss_elem_count oss"
  shows "oss_key oss i = oss_key oss j \<longleftrightarrow> i = j"
proof
  assume eq: "oss_key oss i = oss_key oss j"
  note r = rec_index and x = mux_index
  have dev: "\<And>k. k < oc_num_vol_ctls oss \<Longrightarrow> oss_vols oss ! k < 25" "\<And>k. k < oc_num_rec_items oss \<Longrightarrow> oss_recs oss ! k < 25"
    using oss_ok_dev [OF assms(1)] by blast+
  have flag: "(oss_key oss k AND 0x100 = 0) = (k < oc_num_vol_ctls oss)"
    if "int k < oss_elem_count oss" "\<not> oc_exclusive_input oss" for k
    using r [OF that(1) _ that(2)] dev that(2) by (cases "k < oc_num_vol_ctls oss") (auto simp: oss_key_def key_simps)
  have mux: "(oss_key oss k = 0x10000) = (\<not> k < oc_num_vol_ctls oss)"
    if "int k < oss_elem_count oss" "oc_exclusive_input oss" for k
    using dev that(2) by (cases "k < oc_num_vol_ctls oss") (auto simp: oss_key_def key_simps)
  have d: "distinct (oss_vols oss)" "distinct (oss_recs oss)" using assms(1) by (auto simp: oss_ok_def)
  have same: "i < oc_num_vol_ctls oss \<longleftrightarrow> j < oc_num_vol_ctls oss"
    using flag [OF assms(2)] flag [OF assms(3)] mux [OF assms(2)] mux [OF assms(3)] eq by metis
  show "i = j"
  proof (cases "i < oc_num_vol_ctls oss")
    case True
    then have "oss_vols oss ! i = oss_vols oss ! j"
      using eq same dev(1) by (simp add: oss_key_def key_simps)
    then show ?thesis
      using True same d(1) oss_ok_at(3) [OF assms(1)] by (simp add: nth_eq_iff_index_eq)
  next
    case False
    show ?thesis
    proof (cases "oc_exclusive_input oss")
      case True
      then show ?thesis using x [OF assms(2)] x [OF assms(3)] False same by simp
    next
      case excl: False
      have "oss_recs oss ! (i - oc_num_vol_ctls oss) = oss_recs oss ! (j - oc_num_vol_ctls oss)"
        using eq same False excl r [OF assms(2)] r [OF assms(3)] dev(2) by (simp add: oss_key_def key_simps)
      then have "i - oc_num_vol_ctls oss = j - oc_num_vol_ctls oss"
        using False same excl r [OF assms(2)] r [OF assms(3)] d(2) oss_ok_at(4) [OF assms(1)]
        by (simp add: nth_eq_iff_index_eq)
      then show ?thesis using False same by simp
    qed
  qed
qed simp

text \<open>
  every element of an opened plugin is found again by its number, under a key of its own,
  and its type is that of its part of the list.
\<close>

theorem oss_elements_found:
  assumes "oss_ok oss" "int i < oss_elem_count oss" "int j < oss_elem_count oss"
  shows "oss_find_elem oss (Suc i) name = Some (oss_key oss i)
    \<and> (oss_key oss i = oss_key oss j \<longleftrightarrow> i = j)
    \<and> oss_get_attribute oss (oss_key oss i) = Some
        (if i < oc_num_vol_ctls oss
         then (OSS_INTEGER, if bit (oc_stereo_mask oss) (oss_vols oss ! i) then 2 else 1)
         else if oc_exclusive_input oss then (OSS_ENUMERATED, 1) else (OSS_BOOLEAN, 1))"
proof -
  note r = rec_index and x = mux_index
  have dev: "\<And>k. k < oc_num_vol_ctls oss \<Longrightarrow> oss_vols oss ! k < 25" "\<And>k. k < oc_num_rec_items oss \<Longrightarrow> oss_recs oss ! k < 25"
    using oss_ok_dev [OF assms(1)] by blast+
  have "oss_find_elem oss (Suc i) name = Some (oss_key oss i)"
    using r [OF assms(2)] x [OF assms(2)] oss_ok_at(1,2) [OF assms(1)] by (auto simp: oss_find_elem_def oss_key_def)
  moreover have "oss_get_attribute oss (oss_key oss i) = Some
        (if i < oc_num_vol_ctls oss then (OSS_INTEGER, if bit (oc_stereo_mask oss) (oss_vols oss ! i) then 2 else 1)
         else if oc_exclusive_input oss then (OSS_ENUMERATED, 1) else (OSS_BOOLEAN, 1))"
    using r [OF assms(2)] dev by (auto simp: oss_get_attribute_def oss_key_def key_simps)
  ultimately show ?thesis using oss_elements_distinct [OF assms] by blast
qed

end
