(* ===== verification/OssCtlValues.thy ===== *)
theory OssCtlValues
  imports OssCtlProofs
begin

unbundle bit_operations_syntax

section \<open>The OSS control plugin: reading and writing values\<close>

text \<open>
  Writing an element is a lens on the mixer: what was written is read, nothing else changes, and
  writing it again does nothing. The mixer is \<open>mixer_laws\<close>: a call fails with a positive
  \<open>errno\<close>, a successful write changes one register, and a value the mixer can represent
  (\<open>exact\<close>) is read back as it was written; levels that it rounds are not claimed to come back.
\<close>

definition mixer_laws :: "'d mixer \<Rightarrow> int \<Rightarrow> (u64 \<Rightarrow> u32 \<Rightarrow> bool) \<Rightarrow> bool" where
  "mixer_laws M fd exact \<longleftrightarrow>
     (\<forall>req dev errno. mx_read M fd req dev = Inl errno \<longrightarrow> errno > 0)
     \<and> (\<forall>req val dev. fst (mx_write M fd req val dev) \<ge> 0)
     \<and> (\<forall>req val dev dev'. mx_write M fd req val dev = (0, dev') \<longrightarrow>
          (exact req val \<longrightarrow> mx_read M fd req dev' = Inr val)
          \<and> (\<forall>req'. req' \<noteq> req \<longrightarrow> mx_read M fd req' dev' = mx_read M fd req' dev))"

lemma mixer_set_effect:
  assumes "mixer_laws M (oc_fd oss) exact" "mixer_set M dev oss req oval val = (r, dev')" "r \<ge> 0"
    "mx_read M (oc_fd oss) req dev = Inr oval" "exact req val"
  shows "r = (if oval = val then 0 else 1)" "mx_read M (oc_fd oss) req dev' = Inr val"
    "\<And>req'. req' \<noteq> req \<Longrightarrow> mx_read M (oc_fd oss) req' dev' = mx_read M (oc_fd oss) req' dev"
proof -
  obtain e d where w: "mx_write M (oc_fd oss) req val dev = (e, d)" by fastforce
  have e: "e \<ge> 0" using assms(1) w unfolding mixer_laws_def by (metis fst_conv)
  show "r = (if oval = val then 0 else 1)"
    using assms(2,3) e by (auto simp: mixer_set_def w split: if_splits)
  show "mx_read M (oc_fd oss) req dev' = Inr val"
    using assms e w by (auto simp: mixer_set_def mixer_laws_def split: if_splits)
  show "mx_read M (oc_fd oss) req' dev' = mx_read M (oc_fd oss) req' dev" if "req' \<noteq> req" for req'
    using assms(1-3) e w that by (auto simp: mixer_set_def mixer_laws_def split: if_splits)
qed

lemma read_error_negative:
  "mixer_laws M fd exact \<Longrightarrow> mx_read M fd req dev = Inl errno \<Longrightarrow> errno > 0"
  unfolding mixer_laws_def by blast

subsection \<open>Levels\<close>

lemma low_byte: "(a :: u32) AND 0xff = take_bit 8 a"
  by (simp add: take_bit_eq_mask mask_eq_exp_minus_1)

lemma level_low:
  assumes "0 \<le> v" "v < 256"
  shows "uint ((word_of_int v OR push_bit 8 b :: u32) AND 0xff) = v"
    "uint ((word_of_int v :: u32) AND 0xff) = v"
proof -
  have *: "uint (take_bit 8 (word_of_int v :: u32)) = v"
    using assms by (simp add: unsigned_take_bit_eq unsigned_of_int take_bit_int_eq_self)
  show "uint ((word_of_int v :: u32) AND 0xff) = v" using * by (simp only: low_byte)
  have "take_bit 8 (word_of_int v OR push_bit 8 b :: u32) = take_bit 8 (word_of_int v)"
    by (rule bit_word_eqI) (auto simp: bit_simps)
  then show "uint ((word_of_int v OR push_bit 8 b :: u32) AND 0xff) = v" using * by (simp only: low_byte)
qed

lemma level_high:
  assumes "0 \<le> v" "v < 256" "0 \<le> w" "w < 256"
  shows "uint (drop_bit 8 (word_of_int v OR push_bit 8 (word_of_int w) :: u32) AND 0xff) = w"
proof -
  have "v = take_bit 8 v" using assms(1,2) by (simp add: take_bit_int_eq_self)
  then have v: "\<not> bit v (8 + n)" "\<not> bit v (n + 8)" for n by (metis bit_take_bit_iff not_add_less1 not_add_less2)+
  have "take_bit 8 (drop_bit 8 (word_of_int v OR push_bit 8 (word_of_int w) :: u32)) = take_bit 8 (word_of_int w)"
    by (rule bit_word_eqI) (auto simp: bit_simps v)
  moreover have "uint (take_bit 8 (word_of_int w :: u32)) = w"
    using assms by (simp add: unsigned_take_bit_eq unsigned_of_int take_bit_int_eq_self)
  ultimately show ?thesis by (simp only: low_byte)
qed

definition level_value :: "snd_ctl_oss \<Rightarrow> nat \<Rightarrow> int \<times> int \<Rightarrow> int \<times> int \<Rightarrow> int \<times> int" where
  "level_value oss k value old = (fst value, if bit (oc_stereo_mask oss) k then snd value else snd old)"

lemma read_level:
  assumes "k < 25" "mx_read M (oc_fd oss) (of_nat k) dev = Inr (level_word (bit (oc_stereo_mask oss) k) value)"
    "0 \<le> fst value" "fst value < 256" "0 \<le> snd value" "snd value < 256"
  shows "oss_read_integer M dev oss (of_nat k) old = Some (0, level_value oss k value old)"
  using assms level_low level_high [OF assms(3-6)]
  by (simp add: oss_read_integer_def key_simps level_word_def level_value_def)

text \<open>
  writing a volume. The levels are read back, every other element reads as before, the result
  tells whether the mixer was changed, and writing the same levels again changes nothing.
\<close>

theorem oss_write_volume:
  assumes ok: "oss_ok oss" and laws: "mixer_laws M (oc_fd oss) exact"
    and i: "i < oc_num_vol_ctls oss"
    and v: "0 \<le> fst value" "fst value \<le> 100" "0 \<le> snd value" "snd value \<le> 100"
    and exact: "\<And>stereo. exact (oss_key oss i) (level_word stereo value)"
    and wr: "oss_write_integer M dev oss (oss_key oss i) value = Some (r, dev')" "r \<ge> 0"
  shows "(r = 0 \<and> dev' = dev \<or> r = 1)
    \<and> oss_read_integer M dev' oss (oss_key oss i) old = Some (0, level_value oss (oss_vols oss ! i) value old)
    \<and> oss_write_integer M dev' oss (oss_key oss i) value = Some (0, dev')
    \<and> (\<forall>j. int j < oss_elem_count oss \<and> j \<noteq> i \<longrightarrow>
        oss_read_integer M dev' oss (oss_key oss j) old = oss_read_integer M dev oss (oss_key oss j) old)"
proof -
  let ?k = "oss_vols oss ! i" let ?st = "bit (oc_stereo_mask oss) ?k"
  have k: "?k < 25" using oss_ok_dev(1) [OF ok i] .
  have key: "oss_key oss i = of_nat ?k" using i by (simp add: oss_key_def)
  obtain oval where rd: "mx_read M (oc_fd oss) (of_nat ?k) dev = Inr oval"
    using wr by (cases "mx_read M (oc_fd oss) (of_nat ?k) dev")
      (auto simp: oss_write_integer_def key key_simps k dest: read_error_negative [OF laws])
  have set: "mixer_set M dev oss (of_nat ?k) oval (level_word ?st value) = (r, dev')"
    using wr by (simp add: oss_write_integer_def key key_simps k rd)
  note eff = mixer_set_effect [OF laws set wr(2) rd exact [unfolded key]]
  have "r = 0 \<and> dev' = dev \<or> r = 1"
    using eff(1) set by (auto simp: mixer_set_def split: if_splits)
  moreover have "oss_read_integer M dev' oss (oss_key oss i) old = Some (0, level_value oss ?k value old)"
    unfolding key by (rule read_level [OF k eff(2)]) (use v in auto)
  moreover have "oss_write_integer M dev' oss (oss_key oss i) value = Some (0, dev')"
    using eff(2) by (simp add: oss_write_integer_def key key_simps k mixer_set_def)
  moreover have "oss_read_integer M dev' oss (oss_key oss j) old = oss_read_integer M dev oss (oss_key oss j) old"
    if j: "int j < oss_elem_count oss" "j \<noteq> i" for j
  proof -
    have "int i < oss_elem_count oss" using i by (auto simp: oss_elem_count_def Let_def)
    then have "oss_key oss j \<noteq> oss_key oss i" using oss_elements_distinct [OF ok j(1)] j(2) by blast
    moreover have "(0xff :: u64) \<noteq> of_nat ?k" using key_small [OF k] by metis
    ultimately show ?thesis using eff(3) unfolding oss_read_integer_def key by simp
  qed
  ultimately show ?thesis by blast
qed

subsection \<open>Capture switches\<close>

lemma switch_value:
  assumes "k < 25" "l < 25"
  shows "(if on then oval OR push_bit k 1 else oval AND NOT (push_bit k 1)) AND push_bit l 1 \<noteq> (0 :: u32)
    \<longleftrightarrow> (if l = k then on else oval AND push_bit l 1 \<noteq> 0)"
proof -
  have "mask_bit (if on then oval OR push_bit k 1 else oval AND NOT (push_bit k 1)) l
      \<longleftrightarrow> (if l = k then on else mask_bit oval l)"
    using assms mask_bit_iff [of l] by (auto simp: bit_simps)
  then show ?thesis by (simp only: mask_bit_def)
qed


subsection \<open>The capture source\<close>

lemma first_source_single:
  assumes "\<forall>k \<in> set ks. k < 25" "distinct ks" "j < length ks"
  shows "first_source (push_bit (ks ! j) 1) n ks = Some (n + j)"
  using assms
proof (induction ks arbitrary: n j)
  case (Cons k ks)
  show ?case
  proof (cases j)
    case 0
    then show ?thesis using Cons.prems mask_bit_iff [of k "push_bit k 1"] by (simp add: shl1_key mask_bit_def bit_simps)
  next
    case (Suc i)
    then have "ks ! i \<in> set ks" using Cons.prems by simp
    then have "k \<noteq> ks ! i" "ks ! i < 25" using Cons.prems by auto
    then have "\<not> mask_bit (push_bit (ks ! i) 1) k"
      using Cons.prems mask_bit_iff [of k "push_bit (ks ! i) 1"] by (simp add: bit_simps)
    then show ?thesis
      using Suc Cons.prems Cons.IH [of i "Suc n"] by (simp add: shl1_key mask_bit_def)
  qed
qed simp

text \<open>
  choosing the capture source. An item of the list is read back after it was written, and
  writing it again changes nothing.
\<close>

theorem oss_write_source:
  assumes ok: "oss_ok oss" and laws: "mixer_laws M (oc_fd oss) exact" and exact: "\<And>mask. exact 0xff mask"
    and item: "item < oc_num_rec_items oss"
    and wr: "oss_write_enumerated M dev oss item = Some (r, dev')" "r \<ge> 0"
  shows "oss_read_enumerated M dev' oss = Some (0, item) \<and> oss_write_enumerated M dev' oss item = Some (0, dev')"
proof -
  have k: "oss_recs oss ! item < 25" using oss_ok_dev(2) [OF ok item] by simp
  note a = oss_ok_at(2) [OF ok item]
  obtain oval where rd: "mx_read M (oc_fd oss) 0xff dev = Inr oval"
    using wr by (cases "mx_read M (oc_fd oss) 0xff dev")
      (auto simp: oss_write_enumerated_def dest: read_error_negative [OF laws])
  have "mixer_set M dev oss 0xff oval (push_bit (oss_recs oss ! item) 1) = (r, dev')"
    using wr by (simp add: oss_write_enumerated_def rd a shl1_key k)
  note eff = mixer_set_effect [OF laws this wr(2) rd exact]
  have "first_source (push_bit (oss_recs oss ! item) 1) 0 (oss_recs oss) = Some (0 + item)"
    using ok item oss_ok_at(4) [OF ok] by (intro first_source_single) (auto simp: oss_ok_def)
  then have "oss_read_enumerated M dev' oss = Some (0, item)"
    unfolding oss_read_enumerated_def eff(2) oss_recs_def [symmetric] by simp
  moreover have "oss_write_enumerated M dev' oss item = Some (0, dev')"
    by (simp add: oss_write_enumerated_def eff(2) a shl1_key k mixer_set_def)
  ultimately show ?thesis by blast
qed

text \<open>The item is not checked: beyond the array the code reads outside it.\<close>

lemma oss_write_source_unchecked:
  "oss_ok oss \<Longrightarrow> mx_read M (oc_fd oss) 0xff dev = Inr oval \<Longrightarrow> 25 \<le> item \<Longrightarrow> oss_write_enumerated M dev oss item = None"
  by (simp add: oss_write_enumerated_def at_def oss_ok_def)

end
