(* ===== verification/OssCtlOpen.thy ===== *)
theory OssCtlOpen
  imports OssCtlValues
begin

unbundle bit_operations_syntax

section \<open>The OSS control plugin: opening, finding by name\<close>

text \<open>
  Opening gives a structure that is \<open>oss_ok\<close> or closes what it opened; elements are found by
  their name when no two of them share it. The last part runs the plugin on a mixer.
\<close>

text \<open>
  the result of opening. With memory for the structure there is always one: either the plugin,
  with exactly the named devices of the mixer's masks in its lists, or an error and the descriptor
  closed if it had been opened.
\<close>

theorem oss_ctl_open_result:
  assumes "oe_calloc P"
  shows "\<exists>err res. oss_ctl_open P dev conf = Some (err, res) \<and>
    (case res of
       Inr oss \<Rightarrow> err = 0 \<and> oss_ok oss \<and> oe_open P (oc_device oss) = Inr (oc_fd oss)
         \<and> oss_ctl_conf (oe_conf P) conf ''/dev/mixer'' = Inr (oc_device oss)
         \<and> oss_vols oss = devices_in (read_or_zero (oe_mixer P) dev (oc_fd oss) 0xfe) vol_devices
         \<and> oss_recs oss = devices_in (read_or_zero (oe_mixer P) dev (oc_fd oss) 0xfd) rec_devices
     | Inl closed \<Rightarrow>
         case oss_ctl_conf (oe_conf P) conf ''/dev/mixer'' of
           Inl err' \<Rightarrow> err = err' \<and> closed = []
         | Inr device \<Rightarrow> closed = (if oe_strdup P then (case oe_open P device of Inl _ \<Rightarrow> [] | Inr fd \<Rightarrow> [fd]) else []))"
proof (cases "oss_ctl_conf (oe_conf P) conf ''/dev/mixer''")
  case (Inr device)
  show ?thesis
  proof (cases "oe_open P device")
    case fd: (Inr fd)
    obtain oss where "scan_mixer (oe_mixer P) dev (new_oss_ctl device fd) = Some oss" "oss_ok oss" "oc_fd oss = fd"
      "oss_vols oss = devices_in (read_or_zero (oe_mixer P) dev fd 0xfe) vol_devices"
      "oss_recs oss = devices_in (read_or_zero (oe_mixer P) dev fd 0xfd) rec_devices"
      by (rule oss_scan [of "new_oss_ctl device fd" "oe_mixer P" dev]) (simp_all add: new_oss_ctl_def)
    moreover from this(1) have "oc_device oss = device"
      by (auto simp: scan_mixer_def new_oss_ctl_def Let_def split: bind_splits)
    ultimately show ?thesis using assms Inr fd by (simp add: oss_ctl_open_def)
  qed (use assms Inr in \<open>simp add: oss_ctl_open_def\<close>)
qed (use assms in \<open>simp add: oss_ctl_open_def\<close>)

subsection \<open>Finding elements by their names\<close>

lemma vol_names_inj: "k < 25 \<Longrightarrow> l < 25 \<Longrightarrow> vol_devices ! k = vol_devices ! l \<Longrightarrow> k = l \<or> k = 11 \<and> l = 12 \<or> k = 12 \<and> l = 11"
proof -
  have "\<forall>k < 25. \<forall>l < 25. vol_devices ! k = vol_devices ! l \<longrightarrow> k = l \<or> k = 11 \<and> l = 12 \<or> k = 12 \<and> l = 11"
    unfolding all_25 by code_simp
  then show "k < 25 \<Longrightarrow> l < 25 \<Longrightarrow> vol_devices ! k = vol_devices ! l \<Longrightarrow> k = l \<or> k = 11 \<and> l = 12 \<or> k = 12 \<and> l = 11" by blast
qed

lemma rec_names_inj: "k < 25 \<Longrightarrow> l < 25 \<Longrightarrow> rec_devices ! k = rec_devices ! l \<Longrightarrow> rec_devices ! k \<noteq> None \<Longrightarrow> k = l"
proof -
  have "\<forall>k < 25. \<forall>l < 25. rec_devices ! k = rec_devices ! l \<longrightarrow> rec_devices ! k \<noteq> None \<longrightarrow> k = l"
    unfolding all_25 by code_simp
  then show "k < 25 \<Longrightarrow> l < 25 \<Longrightarrow> rec_devices ! k = rec_devices ! l \<Longrightarrow> rec_devices ! k \<noteq> None \<Longrightarrow> k = l" by blast
qed

lemma names_apart: "k < 25 \<Longrightarrow> l < 25 \<Longrightarrow> vol_devices ! k \<noteq> rec_devices ! l"
  "k < 25 \<Longrightarrow> vol_devices ! k \<noteq> Some ''Capture Source''" "k < 25 \<Longrightarrow> rec_devices ! k \<noteq> Some ''Capture Source''"
proof -
  have "\<forall>k < 25. \<forall>l < 25. vol_devices ! k \<noteq> rec_devices ! l" unfolding all_25 by code_simp
  then show "k < 25 \<Longrightarrow> l < 25 \<Longrightarrow> vol_devices ! k \<noteq> rec_devices ! l" by blast
  have "\<forall>k < 25. vol_devices ! k \<noteq> Some ''Capture Source'' \<and> rec_devices ! k \<noteq> Some ''Capture Source''"
    unfolding all_25 by code_simp
  then show "k < 25 \<Longrightarrow> vol_devices ! k \<noteq> Some ''Capture Source''" "k < 25 \<Longrightarrow> rec_devices ! k \<noteq> Some ''Capture Source''" by blast+
qed

text \<open>The loops over a list of named devices: the device of the name if it is there.\<close>

lemma find_key_step:
  "length names = 25 \<Longrightarrow> k < 25 \<Longrightarrow> names ! k \<noteq> None \<Longrightarrow>
     find_key names name (k # ks) = (if names ! k = Some name then Some (Some k) else find_key names name ks)"
  by (auto simp: at_table)

lemma find_key_first:
  "length names = 25 \<Longrightarrow> (\<And>k. k \<in> set ks \<Longrightarrow> k < 25 \<and> names ! k \<noteq> None) \<Longrightarrow>
     (\<And>k. k \<in> set ks \<Longrightarrow> names ! k = Some name \<Longrightarrow> k = key) \<Longrightarrow> names ! key = Some name \<Longrightarrow> key \<in> set ks \<Longrightarrow>
     find_key names name ks = Some (Some key)"
proof (induction ks)
  case (Cons k ks)
  have k: "k < 25" "names ! k \<noteq> None" "names ! k = Some name \<longleftrightarrow> k = key"
    using Cons.prems(2) [of k] Cons.prems(3) [of k] Cons.prems(4) by auto
  show ?case
  proof (cases "k = key")
    case False
    then have "find_key names name ks = Some (Some key)"
      using Cons.prems by (intro Cons.IH) (meson list.set_intros(2) | simp)+
    then show ?thesis using False k(3) by (simp add: find_key_step [OF Cons.prems(1) k(1,2)] del: find_key.simps)
  qed (use k(3) find_key_step [OF Cons.prems(1) k(1,2), of name ks] in \<open>simp del: find_key.simps\<close>)
qed simp

lemma find_key_none:
  "length names = 25 \<Longrightarrow> (\<And>k. k \<in> set ks \<Longrightarrow> k < 25 \<and> names ! k \<noteq> None \<and> names ! k \<noteq> Some name) \<Longrightarrow>
     find_key names name ks = Some None"
proof (induction ks)
  case (Cons k ks)
  have k: "k < 25" "names ! k \<noteq> None" "names ! k \<noteq> Some name" using Cons.prems(2) [of k] by simp_all
  moreover have "find_key names name ks = Some None"
    using Cons.prems by (intro Cons.IH) (meson list.set_intros(2) | simp)+
  ultimately show ?case by (simp add: find_key_step [OF Cons.prems(1) k(1,2)] del: find_key.simps)
qed simp

text \<open>
  C36: finding an element by the name the plugin gave it. It is the element itself, unless the
  mixer has both devices that are called ``Capture Volume''.
\<close>

theorem oss_elements_by_name:
  assumes ok: "oss_ok oss" and i: "int i < oss_elem_count oss" "oss_elem_list oss i = Some name"
    and unique: "\<not> {11, 12} \<subseteq> set (oss_vols oss)"
  shows "oss_find_elem oss 0 name = Some (oss_key oss i)"
proof -
  have volD: "k < 25" "vol_devices ! k \<noteq> None" if "k \<in> set (oss_vols oss)" for k
    using ok vol_named that by (auto simp: oss_ok_def)
  have recD: "k < 25" "rec_devices ! k \<noteq> None" if "k \<in> set (oss_recs oss)" for k
    using ok that by (auto simp: oss_ok_def)
  note volN = conjI [OF volD] and recN = conjI [OF recD]
  note name = oss_elem_name(1) [OF ok i(1), unfolded i(2)]
  consider (vol) "i < oc_num_vol_ctls oss" | (mux) "\<not> i < oc_num_vol_ctls oss" "oc_exclusive_input oss"
    | (rec) "\<not> i < oc_num_vol_ctls oss" "\<not> oc_exclusive_input oss" by blast
  then show ?thesis
  proof cases
    case vol
    let ?k = "oss_vols oss ! i"
    have k: "?k \<in> set (oss_vols oss)" "vol_devices ! ?k = Some name"
      using vol name nth_mem [of i "oss_vols oss"] by (simp_all only: oss_ok_at(3) [OF ok] if_True)
    have first: "l = ?k" if l: "l \<in> set (oss_vols oss)" "vol_devices ! l = Some name" for l
    proof -
      have "vol_devices ! l = vol_devices ! ?k" by (simp only: l(2) k(2))
      from vol_names_inj [OF volD(1) [OF l(1)] volD(1) [OF k(1)] this]
      show ?thesis using l(1) k(1) unique by (elim disjE conjE) (simp_all only: empty_subsetI insert_subset simp_thms)
    qed
    have "find_key vol_devices name (oss_vols oss) = Some (Some ?k)"
      by (rule find_key_first [OF tables_25(1) volN first k(2,1)])
    moreover have "name \<noteq> ''Capture Source''" using names_apart(2) [of ?k] k oss_ok_dev(1) [OF ok vol] by auto
    ultimately show ?thesis
      using vol by (simp add: oss_find_elem_def find_by_name_def oss_key_def oss_vols_def [symmetric])
  next
    case mux
    then show ?thesis using name by (simp add: oss_find_elem_def find_by_name_def oss_key_def)
  next
    case rec
    let ?k = "oss_recs oss ! (i - oc_num_vol_ctls oss)"
    have k: "?k \<in> set (oss_recs oss)" "rec_devices ! ?k = Some name" "?k < 25"
      using rec name rec_index [OF i(1) rec] oss_ok_dev(2) [OF ok rec_index [OF i(1) rec]]
        nth_mem [of "i - oc_num_vol_ctls oss" "oss_recs oss"] by (simp_all only: oss_ok_at(4) [OF ok] if_False)
    have other: "vol_devices ! l \<noteq> Some name" if "l \<in> set (oss_vols oss)" for l
      using names_apart(1) [OF volD(1) [OF that] k(3)] k(2) by metis
    have first: "l = ?k" if "l \<in> set (oss_recs oss)" "rec_devices ! l = Some name" for l
      using rec_names_inj [OF recD(1) [OF that(1)] k(3)] that(2) k(2) by simp
    have "find_key vol_devices name (oss_vols oss) = Some None"
      by (rule find_key_none [OF tables_25(1)]) (intro conjI volD other)
    moreover have "find_key rec_devices name (oss_recs oss) = Some (Some ?k)"
      by (rule find_key_first [OF tables_25(2) recN first k(2,1)])
    moreover have "name \<noteq> ''Capture Source''" using names_apart(3) [of ?k] k by auto
    ultimately show ?thesis
      using rec by (simp add: oss_find_elem_def find_by_name_def oss_key_def oss_vols_def [symmetric] oss_recs_def [symmetric])
  qed
qed

end
