(* ===== verification/OssCtlDemo.thy ===== *)
theory OssCtlDemo
  imports OssCtlOpen
begin

unbundle bit_operations_syntax

section \<open>The OSS control plugin on a mixer\<close>

text \<open>
  A mixer that keeps every register as it was written; the properties applied to it, and the two
  elements named ``Capture Volume'', of which the second is never found by its name.
\<close>

definition demo_mixer :: "(u64 \<Rightarrow> u32) mixer" where
  "demo_mixer = \<lparr>mx_read = \<lambda>fd req d. Inr (d req), mx_write = \<lambda>fd req val d. (0, d(req := val))\<rparr>"

lemma demo_mixer_laws: "mixer_laws demo_mixer fd (\<lambda>req val. True)"
  by (simp add: mixer_laws_def demo_mixer_def)

definition demo_regs :: "u32 \<Rightarrow> u64 \<Rightarrow> u32" where
  "demo_regs devmask = (\<lambda>req. if req = 0xfe then devmask else if req = 0xfb then 1 else if req = 0xfd then 0xc0
     else if req = 0xff then 0x80 else 0)"

definition demo_ctl_env :: "((u64 \<Rightarrow> u32), string option) oss_ctl_env" where
  "demo_ctl_env = \<lparr>oe_conf = \<lparr>cfg_id = \<lambda>n. Some ''device'', cfg_integer = \<lambda>n. None, cfg_string = id, cfg_error = \<lambda>n. 0\<rparr>,
     oe_mixer = demo_mixer, oe_calloc = True, oe_strdup = True, oe_open = \<lambda>s. Inr 3, oe_info = 0, oe_create = 0\<rparr>"

text \<open>A mixer with a stereo master volume, a capture level, and two inputs with capture switches.\<close>

definition demo_oss :: snd_ctl_oss where
  "demo_oss = \<lparr>oc_device = ''/dev/mixer1'', oc_fd = 3, oc_exclusive_input = False, oc_stereo_mask = 1,
     oc_num_vol_ctls = 2, oc_vol_ctl = [0, 11] @ replicate 23 0,
     oc_num_rec_items = 2, oc_rec_item = [6, 7] @ replicate 23 0\<rparr>"

lemma demo_open: "oss_ctl_open demo_ctl_env (demo_regs 0x801) [Some ''/dev/mixer1''] = Some (0, Inr demo_oss)"
  by code_simp

lemma demo_ok: "oss_ok demo_oss"
  by code_simp

theorem oss_ctl_open_result_witness:
  "\<exists>err res. oss_ctl_open demo_ctl_env (demo_regs 0x801) [Some ''/dev/mixer1''] = Some (err, res)"
  using oss_ctl_open_result [of demo_ctl_env "demo_regs 0x801" "[Some ''/dev/mixer1'']"] by (auto simp: demo_ctl_env_def)

theorem oss_elements_found_witness:
  "oss_find_elem demo_oss 4 '''' = Some 0x107"
proof -
  have "int 3 < oss_elem_count demo_oss" "oss_key demo_oss 3 = 0x107" by code_simp+
  then show ?thesis using oss_elements_found [OF demo_ok, of 3 3 "''''"] by simp
qed

theorem oss_elements_by_name_witness:
  "oss_find_elem demo_oss 0 ''Line Capture Switch'' = Some 0x106"
proof -
  have "int 2 < oss_elem_count demo_oss" "oss_elem_list demo_oss 2 = Some ''Line Capture Switch''"
    "\<not> {11, 12} \<subseteq> set (oss_vols demo_oss)" "oss_key demo_oss 2 = 0x106" by code_simp+
  then show ?thesis using oss_elements_by_name [OF demo_ok] by metis
qed

theorem oss_write_volume_witness:
  "\<exists>dev'. oss_write_integer demo_mixer (demo_regs 0x801) demo_oss 0 (30, 80) = Some (1, dev')
     \<and> oss_read_integer demo_mixer dev' demo_oss 0 (0, 0) = Some (0, 30, 80)"
proof -
  have key: "oss_key demo_oss 0 = 0" "level_value demo_oss (oss_vols demo_oss ! 0) (30, 80) (0, 0) = (30, 80)"
    by code_simp+
  have "\<exists>dev'. oss_write_integer demo_mixer (demo_regs 0x801) demo_oss 0 (30, 80) = Some (1, dev')"
    by (simp add: oss_write_integer_def oss_stereo_def shl1_def demo_mixer_def demo_regs_def demo_oss_def mixer_set_def level_word_def)
  then obtain dev' where w: "oss_write_integer demo_mixer (demo_regs 0x801) demo_oss (oss_key demo_oss 0) (30, 80) = Some (1, dev')"
    unfolding key by blast
  show ?thesis
    using w oss_write_volume [OF demo_ok demo_mixer_laws, of 0 "(30, 80)" "demo_regs 0x801" 1 dev' "(0, 0)"] key
    by (simp add: demo_oss_def)
qed



text \<open>With the devices RECLEV and IGAIN the element of the second has the name of the first.\<close>

lemma oss_igain_hidden:
  "\<exists>oss. oss_ctl_open demo_ctl_env (demo_regs 0x1801) [Some ''/dev/mixer1''] = Some (0, Inr oss)
     \<and> oss_elem_list oss 2 = Some ''Capture Volume'' \<and> oss_find_elem oss 3 '''' = Some 12
     \<and> oss_find_elem oss 0 ''Capture Volume'' = Some 11"
proof -
  let ?oss = "demo_oss\<lparr>oc_num_vol_ctls := 3, oc_vol_ctl := [0, 11, 12] @ replicate 22 0\<rparr>"
  have "oss_ctl_open demo_ctl_env (demo_regs 0x1801) [Some ''/dev/mixer1''] = Some (0, Inr ?oss)" by code_simp
  moreover have "oss_elem_list ?oss 2 = Some ''Capture Volume''" "oss_find_elem ?oss 3 '''' = Some 12"
    "oss_find_elem ?oss 0 ''Capture Volume'' = Some 11" by code_simp+
  ultimately show ?thesis by blast
qed

end
