(* ===== verification/OssPcm.thy ===== *)
theory OssPcm
  imports Areas
begin

unbundle bit_operations_syntax

section \<open>The OSS PCM plugin (oss/pcm_oss.c)\<close>

text \<open>
  An ioplug PCM over an OSS device: frames are written to and read from a descriptor, the
  fragments of the device are set from the periods of the stream. \<open>snd_pcm_oss\<close> is the plugin's
  structure with the two fields of its ioplug that the code changes; \<open>op_trace\<close> has the
  descriptors opened and closed. The device is \<open>dsp_dev\<close> over its own state \<open>'d\<close>: an ioctl takes a
  C int and leaves one, or fails with an \<open>errno\<close>.
\<close>

subsection \<open>State\<close>

datatype fd_event = Fd_open int | Fd_close int

record snd_pcm_oss =
  op_device :: string
  op_fd :: int
  op_fragment_set :: bool
  op_caps :: int
  op_format :: int
  op_period_shift :: nat
  op_periods :: u32
  op_frame_bytes :: u32
  op_poll_fd :: int
  op_poll_out :: bool
  op_trace :: "fd_event list"

datatype dsp_req =
    DSP_GETOPTR | DSP_GETIPTR | DSP_SETTRIGGER | DSP_SYNC | DSP_RESET | DSP_CHANNELS | DSP_SETFMT
  | DSP_SPEED | DSP_SETFRAGMENT | DSP_GETCAPS | DSP_GETFMTS

record 'd dsp_dev =
  dd_ioctl :: "int \<Rightarrow> dsp_req \<Rightarrow> int \<Rightarrow> 'd \<Rightarrow> (int + int) \<times> 'd"
  dd_open :: "string \<Rightarrow> bool \<Rightarrow> 'd \<Rightarrow> (int + int) \<times> 'd"
  dd_close :: "int \<Rightarrow> 'd \<Rightarrow> 'd"
  dd_write :: "int \<Rightarrow> u8 list \<Rightarrow> 'd \<Rightarrow> int \<times> 'd"
  dd_read :: "int \<Rightarrow> nat \<Rightarrow> 'd \<Rightarrow> int \<times> u8 list \<times> 'd"
  dd_getfl :: "int \<Rightarrow> 'd \<Rightarrow> int + u32"
  dd_setfl :: "int \<Rightarrow> u32 \<Rightarrow> 'd \<Rightarrow> 'd"

abbreviation (input) AFMT_MU_LAW :: int where "AFMT_MU_LAW \<equiv> 0x01"
abbreviation (input) AFMT_U8 :: int where "AFMT_U8 \<equiv> 0x08"
abbreviation (input) AFMT_S16_LE :: int where "AFMT_S16_LE \<equiv> 0x10"
abbreviation (input) AFMT_S16_BE :: int where "AFMT_S16_BE \<equiv> 0x20"
abbreviation (input) PCM_ENABLE_INPUT :: int where "PCM_ENABLE_INPUT \<equiv> 1"
abbreviation (input) PCM_ENABLE_OUTPUT :: int where "PCM_ENABLE_OUTPUT \<equiv> 2"
abbreviation (input) O_NONBLOCK :: u32 where "O_NONBLOCK \<equiv> 0x800"
abbreviation (input) FORMAT_U8 :: pcm_format where "FORMAT_U8 \<equiv> FORMAT_OTHER 1"

definition playback :: "ioplug \<Rightarrow> bool" where
  "playback io \<longleftrightarrow> io_stream io = PLAYBACK"

subsection \<open>Transfer and position\<close>

definition oss_addr :: "area \<Rightarrow> u64 \<Rightarrow> nat" where
  "oss_addr a offset = ar_addr a + unat ((ucast (ar_first a) + ucast (ar_step a) * offset) div 8)"

text \<open>The result of \<open>write\<close> and \<open>read\<close> in frames; a failure is returned as it is.\<close>

definition frames_done :: "snd_pcm_oss \<Rightarrow> int \<Rightarrow> int option" where
  "frames_done oss result = (if result \<le> 0 then Some result else c_quot result (uint (op_frame_bytes oss)))"

definition oss_write :: "'d dsp_dev \<Rightarrow> snd_pcm_oss \<Rightarrow> area \<Rightarrow> u64 \<Rightarrow> u64 \<Rightarrow> bytes \<Rightarrow> 'd \<Rightarrow> (int \<times> 'd) option" where
  "oss_write D oss a offset sz mem dev =
     (let buf = oss_addr a offset; sz = sz * ucast (op_frame_bytes oss);
          (result, dev) = dd_write D (op_fd oss) (piece mem buf (unat sz)) dev
      in map_option (\<lambda>r. (r, dev)) (frames_done oss result))"

definition oss_read :: "'d dsp_dev \<Rightarrow> snd_pcm_oss \<Rightarrow> area \<Rightarrow> u64 \<Rightarrow> u64 \<Rightarrow> bytes \<Rightarrow> 'd \<Rightarrow> (int \<times> bytes \<times> 'd) option" where
  "oss_read D oss a offset sz mem dev =
     (let buf = oss_addr a offset; sz = sz * ucast (op_frame_bytes oss);
          (result, data, dev) = dd_read D (op_fd oss) (unat sz) dev
      in map_option (\<lambda>r. (r, put_bytes mem buf data, dev)) (frames_done oss result))"

definition oss_pointer :: "'d dsp_dev \<Rightarrow> (int \<Rightarrow> int) \<Rightarrow> ioplug \<Rightarrow> snd_pcm_oss \<Rightarrow> 'd \<Rightarrow> int \<times> 'd" where
  "oss_pointer D bytes_to_frames io oss dev =
     (case dd_ioctl D (op_fd oss) (if playback io then DSP_GETOPTR else DSP_GETIPTR) 0 dev of
        (Inl _, dev) \<Rightarrow> (0, dev)
      | (Inr ptr, dev) \<Rightarrow> (c_int (bytes_to_frames ptr), dev))"

subsection \<open>Start, stop, drain, prepare\<close>

definition oss_start :: "'d dsp_dev \<Rightarrow> ioplug \<Rightarrow> snd_pcm_oss \<Rightarrow> 'd \<Rightarrow> int \<times> 'd" where
  "oss_start D io oss dev =
     (let tmp = (if playback io then PCM_ENABLE_OUTPUT else PCM_ENABLE_INPUT) in
      case dd_ioctl D (op_fd oss) DSP_SETTRIGGER tmp dev of
        (Inl _, dev) \<Rightarrow> (0, if playback io then dev else snd (snd (dd_read D (op_fd oss) 0 dev)))
      | (Inr _, dev) \<Rightarrow> (0, dev))"

definition oss_stop :: "'d dsp_dev \<Rightarrow> snd_pcm_oss \<Rightarrow> 'd \<Rightarrow> int \<times> 'd" where
  "oss_stop D oss dev = (0, snd (dd_ioctl D (op_fd oss) DSP_SETTRIGGER 0 dev))"

definition oss_drain :: "'d dsp_dev \<Rightarrow> ioplug \<Rightarrow> snd_pcm_oss \<Rightarrow> 'd \<Rightarrow> int \<times> 'd" where
  "oss_drain D io oss dev = (0, if playback io then snd (dd_ioctl D (op_fd oss) DSP_SYNC 0 dev) else dev)"

text \<open>
  The rate the device chose is compared with \<open>rate * 1.01\<close> and \<open>rate * 0.99\<close> in double precision.
  \<open>double_round\<close> rounds a natural number to 53 significant bits, ties to even; the two constants
  are the doubles nearest to 1.01 and 0.99, times \<open>2 ^ 52\<close>.
\<close>

fun nbits :: "nat \<Rightarrow> nat" where
  "nbits n = (if n = 0 then 0 else Suc (nbits (n div 2)))"

declare nbits.simps [simp del]

definition double_round :: "nat \<Rightarrow> nat" where
  "double_round p =
     (let e = nbits p - 53; q = p div 2 ^ e; r = p mod 2 ^ e in
      (q + (if 2 * r > 2 ^ e \<or> 2 * r = 2 ^ e \<and> odd q then 1 else 0)) * 2 ^ e)"

definition rate_rejected :: "int \<Rightarrow> u32 \<Rightarrow> bool" where
  "rate_rejected tmp rate \<longleftrightarrow>
     tmp * 2 ^ 52 > int (double_round (unat rate * 4548635623644201))
     \<or> tmp * 2 ^ 52 < int (double_round (unat rate * 4458563631096791))"

definition oss_prepare :: "'d dsp_dev \<Rightarrow> ioplug \<Rightarrow> snd_pcm_oss \<Rightarrow> 'd \<Rightarrow> int \<times> 'd" where
  "oss_prepare D io oss dev =
     (let fd = op_fd oss; dev = snd (dd_ioctl D fd DSP_RESET 0 dev) in
      case dd_ioctl D fd DSP_CHANNELS (c_int (uint (io_channels io))) dev of
        (Inl _, dev) \<Rightarrow> (- EINVAL, dev)
      | (Inr _, dev) \<Rightarrow>
          case dd_ioctl D fd DSP_SETFMT (op_format oss) dev of
            (Inl _, dev) \<Rightarrow> (- EINVAL, dev)
          | (Inr _, dev) \<Rightarrow>
              case dd_ioctl D fd DSP_SPEED (c_int (uint (io_rate io))) dev of
                (Inl _, dev) \<Rightarrow> (- EINVAL, dev)
              | (Inr tmp, dev) \<Rightarrow> (if rate_rejected tmp (io_rate io) then - EINVAL else 0, dev))"

subsection \<open>Hardware parameters\<close>

definition afmt :: "pcm_format \<Rightarrow> int option" where
  "afmt f = (if f = FORMAT_U8 then Some AFMT_U8 else if f = FORMAT_S16_LE then Some AFMT_S16_LE
             else if f = FORMAT_S16_BE then Some AFMT_S16_BE else None)"

text \<open>The highest bit from 31 down to 4, or 0.\<close>

fun shift_loop :: "u32 \<Rightarrow> nat \<Rightarrow> nat" where
  "shift_loop period_bytes i =
     (if i < 4 then 0 else if period_bytes AND push_bit i 1 \<noteq> 0 then i else shift_loop period_bytes (i - 1))"

declare shift_loop.simps [simp del]

definition fragment_arg :: "snd_pcm_oss \<Rightarrow> int" where
  "fragment_arg oss = sint (of_nat (op_period_shift oss) OR push_bit 16 (op_periods oss))"

text \<open>
  \<open>_retry\<close>: set the fragments; when that fails and they had been set before, reopen the device
  and try again, this time with \<open>fragment_set\<close> clear. \<open>Some err\<close> is a return of the error.
\<close>

function set_fragment :: "'d dsp_dev \<Rightarrow> ioplug \<Rightarrow> snd_pcm_oss \<Rightarrow> 'd \<Rightarrow> int option \<times> snd_pcm_oss \<times> 'd" where
  "set_fragment D io oss dev =
     (case dd_ioctl D (op_fd oss) DSP_SETFRAGMENT (fragment_arg oss) dev of
        (Inr _, dev) \<Rightarrow> (None, oss\<lparr>op_fragment_set := True\<rparr>, dev)
      | (Inl _, dev) \<Rightarrow>
          if \<not> op_fragment_set oss then (Some (- EINVAL), oss, dev)
          else
            let dev = dd_close D (op_fd oss) dev;
                oss = oss\<lparr>op_trace := op_trace oss @ [Fd_close (op_fd oss)]\<rparr>
            in case dd_open D (op_device oss) (playback io) dev of
                 (Inl errno, dev) \<Rightarrow> (Some (- errno), oss\<lparr>op_fd := - 1\<rparr>, dev)
               | (Inr fd, dev) \<Rightarrow>
                   set_fragment D io
                     (oss\<lparr>op_fd := fd, op_poll_fd := fd, op_poll_out := playback io, op_fragment_set := False,
                          op_trace := op_trace oss @ [Fd_open fd]\<rparr>) dev)"
  by pat_completeness auto

termination
  by (relation "measure (\<lambda>(D, io, oss, dev). if op_fragment_set oss then 1 else 0)") auto

declare set_fragment.simps [simp del]

definition set_nonblock :: "'d dsp_dev \<Rightarrow> bool \<Rightarrow> snd_pcm_oss \<Rightarrow> 'd \<Rightarrow> 'd" where
  "set_nonblock D nonblock oss dev =
     (case dd_getfl D (op_fd oss) dev of
        Inl _ \<Rightarrow> dev
      | Inr oflags \<Rightarrow>
          let flags = (if nonblock then oflags OR O_NONBLOCK else oflags AND NOT O_NONBLOCK) in
          if flags \<noteq> oflags then dd_setfl D (op_fd oss) flags dev else dev)"

definition oss_hw_params ::
    "'d dsp_dev \<Rightarrow> (pcm_format \<Rightarrow> int) \<Rightarrow> bool \<Rightarrow> ioplug \<Rightarrow> snd_pcm_oss \<Rightarrow> 'd \<Rightarrow> (int \<times> snd_pcm_oss \<times> 'd) option" where
  "oss_hw_params D physical_width nonblock io oss dev =
     (let oss = oss\<lparr>op_frame_bytes := (word_of_int (physical_width (io_format io)) * io_channels io) div 8\<rparr> in
      case afmt (io_format io) of
        None \<Rightarrow> Some (- EINVAL, oss, dev)
      | Some f \<Rightarrow>
          let period_bytes = ucast (io_period_size io * ucast (op_frame_bytes oss)) :: u32;
              oss = oss\<lparr>op_format := f, op_period_shift := shift_loop period_bytes 31\<rparr>
          in if op_period_shift oss = 0 then Some (- EINVAL, oss, dev)
             else if io_period_size io = 0 then None
             else
               let oss = oss\<lparr>op_periods := ucast (io_buffer_size io div io_period_size io)\<rparr>;
                   (err, oss, dev) = set_fragment D io oss dev
               in Some (case err of Some err \<Rightarrow> (err, oss, dev) | None \<Rightarrow> (0, oss, set_nonblock D nonblock oss dev)))"

subsection \<open>Constraints\<close>

definition bytes_list :: "nat list" where
  "bytes_list = map (\<lambda>k. 2 ^ k) [8..<24]"

definition oss_formats :: "int \<Rightarrow> nat list" where
  "oss_formats tmp =
     (let fs = (if tmp AND AFMT_U8 \<noteq> 0 then [CODE_U8] else []) @ (if tmp AND AFMT_S16_LE \<noteq> 0 then [CODE_S16_LE] else [])
             @ (if tmp AND AFMT_S16_BE \<noteq> 0 then [CODE_S16_BE] else []) @ (if tmp AND AFMT_MU_LAW \<noteq> 0 then [CODE_MU_LAW] else [])
      in if fs = [] then [CODE_S16_LE] else fs)"

fun try_channels :: "'d dsp_dev \<Rightarrow> int \<Rightarrow> int list \<Rightarrow> 'd \<Rightarrow> nat list \<times> 'd" where
  "try_channels D fd [] dev = ([], dev)"
| "try_channels D fd (i # is) dev =
     (case dd_ioctl D fd DSP_CHANNELS (i + 1) dev of
        (Inl _, dev) \<Rightarrow> try_channels D fd is dev
      | (Inr tmp, dev) \<Rightarrow> let (cs, dev) = try_channels D fd is dev in (unat (word_of_int tmp :: u32) # cs, dev))"

definition oss_hw_constraint :: "'d dsp_dev \<Rightarrow> (io_call \<Rightarrow> int) \<Rightarrow> snd_pcm_oss \<Rightarrow> 'd \<Rightarrow> int \<times> snd_pcm_oss \<times> 'd" where
  "oss_hw_constraint D setp oss dev =
     (let fd = op_fd oss;
          (caps, dev) = (case dd_ioctl D fd DSP_GETCAPS 0 dev of (Inl _, dev) \<Rightarrow> (0, dev) | (Inr c, dev) \<Rightarrow> (c, dev));
          oss = oss\<lparr>op_caps := caps\<rparr>;
          err = setp (Io_list IO_ACCESS [RW_INTERLEAVED, MMAP_INTERLEAVED])
      in if err < 0 then (err, oss, dev)
         else
           let (tmp, dev) = (case dd_ioctl D fd DSP_GETFMTS 0 dev of (Inl _, dev) \<Rightarrow> (0, dev) | (Inr t, dev) \<Rightarrow> (t, dev));
               err = setp (Io_list IO_FORMAT (oss_formats tmp))
           in if err < 0 then (err, oss, dev)
              else
                let (channel, dev) = try_channels D fd [0, 1, 2, 3, 4, 5] dev in
                (io_calls setp
                   [if channel = [] then Io_minmax IO_CHANNELS 2 2 else Io_list IO_CHANNELS channel,
                    Io_minmax IO_RATE 8000 480000,
                    Io_list IO_PERIOD_BYTES bytes_list,
                    Io_minmax IO_PERIODS 2 1024,
                    Io_list IO_BUFFER_BYTES bytes_list], oss, dev))"

subsection \<open>Opening and closing\<close>

definition oss_pcm_close :: "'d dsp_dev \<Rightarrow> snd_pcm_oss \<Rightarrow> 'd \<Rightarrow> int \<times> fd_event list \<times> 'd" where
  "oss_pcm_close D oss dev = (0, op_trace oss @ [Fd_close (op_fd oss)], dd_close D (op_fd oss) dev)"

fun oss_pcm_conf :: "'c config_api \<Rightarrow> 'c list \<Rightarrow> string \<Rightarrow> int + string" where
  "oss_pcm_conf A [] device = Inr device"
| "oss_pcm_conf A (n # ns) device =
     (case cfg_id A n of
        None \<Rightarrow> oss_pcm_conf A ns device
      | Some ident \<Rightarrow>
          if cfg_skipped ident then oss_pcm_conf A ns device
          else if ident = ''device'' then
            (case cfg_string A n of
               None \<Rightarrow> Inl (- EINVAL)
             | Some s \<Rightarrow> oss_pcm_conf A ns s)
          else Inl (- EINVAL))"

definition new_oss_pcm :: "string \<Rightarrow> int \<Rightarrow> bool \<Rightarrow> snd_pcm_oss" where
  "new_oss_pcm device fd out = \<lparr>op_device = device, op_fd = fd, op_fragment_set = False, op_caps = 0, op_format = 0,
     op_period_shift = 0, op_periods = 0, op_frame_bytes = 0, op_poll_fd = fd, op_poll_out = out, op_trace = [Fd_open fd]\<rparr>"

record 'c oss_pcm_env =
  oo_conf :: "'c config_api"
  oo_calloc :: bool
  oo_strdup :: bool
  oo_create :: int
  oo_setp :: "io_call \<Rightarrow> int"

text \<open>
  The result: the plugin, or the descriptors opened and closed. Deleting the ioplug
  (\<open>snd_pcm_ioplug_delete\<close>) calls the plugin's close callback.
\<close>

definition oss_pcm_open ::
    "'c oss_pcm_env \<Rightarrow> 'd dsp_dev \<Rightarrow> bool \<Rightarrow> 'c list \<Rightarrow> 'd \<Rightarrow> int \<times> (fd_event list + snd_pcm_oss) \<times> 'd" where
  "oss_pcm_open P D out conf dev =
     (case oss_pcm_conf (oo_conf P) conf ''/dev/dsp'' of
        Inl err \<Rightarrow> (err, Inl [], dev)
      | Inr device \<Rightarrow>
          if \<not> oo_calloc P \<or> \<not> oo_strdup P then (- ENOMEM, Inl [], dev)
          else
            case dd_open D device out dev of
              (Inl errno, dev) \<Rightarrow> (- errno, Inl [], dev)
            | (Inr fd, dev) \<Rightarrow>
                if oo_create P < 0 then (oo_create P, Inl [Fd_open fd, Fd_close fd], dd_close D fd dev)
                else
                  let (err, oss, dev) = oss_hw_constraint D (oo_setp P) (new_oss_pcm device fd out) dev in
                  if err < 0 then
                    let (_, trace, dev) = oss_pcm_close D oss dev in (err, Inl trace, dev)
                  else (0, Inr oss, dev))"

end
