(* ===== verification/OssPcmProofs.thy ===== *)
theory OssPcmProofs
  imports OssPcm
begin

unbundle bit_operations_syntax

section \<open>The OSS PCM plugin: parameters, rates, descriptors\<close>

text \<open>
  The comparison of rates in double precision is the exact one (\<open>oss_rate_exact\<close>); setting the
  fragments gives the device the period and the number of periods, after at most one reopening
  (\<open>set_fragment_cases\<close>); over the life of a stream every descriptor opened is closed once.
\<close>

subsection \<open>Rates\<close>

lemma nbits_bound: "p < 2 ^ k \<Longrightarrow> nbits p \<le> k"
proof (induction p arbitrary: k rule: nbits.induct)
  case (1 n)
  show ?case
  proof (cases "n = 0")
    case False
    then obtain j where "k = Suc j" using 1(2) by (cases k) auto
    then show ?thesis using 1 False by (subst nbits.simps) auto
  qed (simp add: nbits.simps)
qed

lemma double_round_mono:
  assumes "nbits p - 53 \<le> k"
  shows "p \<le> m * 2 ^ k \<Longrightarrow> double_round p \<le> m * 2 ^ k" and "m * 2 ^ k \<le> p \<Longrightarrow> m * 2 ^ k \<le> double_round p"
proof -
  define e where "e = nbits p - 53"
  define u where "u = (if 2 * (p mod 2 ^ e) > 2 ^ e \<or> 2 * (p mod 2 ^ e) = 2 ^ e \<and> odd (p div 2 ^ e) then 1 else 0 :: nat)"
  have rnd: "double_round p = (p div 2 ^ e + u) * 2 ^ e"
    by (simp add: double_round_def Let_def u_def e_def)
  define n where "n = m * 2 ^ (k - e)"
  have k: "m * 2 ^ k = n * 2 ^ e"
    using assms by (simp add: n_def e_def [symmetric] power_add [symmetric])
  show "double_round p \<le> m * 2 ^ k" if le: "p \<le> m * 2 ^ k"
  proof (cases "p mod 2 ^ e = 0")
    case True
    then have "double_round p = p" using div_mult_mod_eq [of p "2 ^ e"] by (simp add: rnd u_def)
    then show ?thesis using le by simp
  next
    case False
    then have "p \<noteq> n * 2 ^ e" by auto
    then have "p < n * 2 ^ e" using le by (simp add: k)
    then have "p div 2 ^ e < n" by (simp add: div_less_iff_less_mult)
    then have "p div 2 ^ e + u \<le> n" by (simp add: u_def)
    then show ?thesis unfolding rnd k by (rule mult_le_mono1)
  qed
  show "m * 2 ^ k \<le> double_round p" if "m * 2 ^ k \<le> p"
  proof -
    have "n \<le> p div 2 ^ e" using that by (simp add: k less_eq_div_iff_mult_less_eq)
    then show ?thesis unfolding rnd k by (intro mult_le_mono1) simp
  qed
qed

lemma double_round_near:
  assumes "nbits p - 53 \<le> k"
  shows "double_round p \<le> p + 2 ^ k" and "p \<le> double_round p + 2 ^ k"
proof -
  define e where "e = nbits p - 53"
  have p: "p = p div 2 ^ e * 2 ^ e + p mod 2 ^ e" by (rule div_mult_mod_eq [symmetric])
  have r: "p mod 2 ^ e < 2 ^ e" by simp
  have pow: "(2::nat) ^ e \<le> 2 ^ k" using assms unfolding e_def by (intro power_increasing) simp_all
  have "p div 2 ^ e * 2 ^ e \<le> double_round p" "double_round p \<le> p div 2 ^ e * 2 ^ e + 2 ^ e"
    by (auto simp: double_round_def Let_def e_def)
  then show "double_round p \<le> p + 2 ^ k" "p \<le> double_round p + 2 ^ k" using p r pow by linarith+
qed

text \<open>
  C32: the rate the device reports is accepted exactly when it lies within one percent of the rate
  asked for; the double precision of the comparison never decides otherwise.
\<close>

theorem oss_rate_exact: "\<not> rate_rejected tmp rate \<longleftrightarrow> 99 * uint rate \<le> 100 * tmp \<and> 100 * tmp \<le> 101 * uint rate"
proof -
  let ?r = "unat rate"
  have r: "?r < 2 ^ 32" using unat_u32_lt [of rate] by simp
  have ur: "uint rate = int ?r" by simp
  have bits: "nbits (?r * c) - 53 \<le> 32" if "c < 2 ^ 53" for c
  proof -
    have "?r * c < 2 ^ 32 * 2 ^ 53" using r that by (intro mult_strict_mono) simp_all
    then have "?r * c < 2 ^ 85" by simp
    then show ?thesis using nbits_bound by fastforce
  qed
  let ?hi = "double_round (?r * 4548635623644201)" and ?lo = "double_round (?r * 4458563631096791)"
  have b: "nbits (?r * 4548635623644201) - 53 \<le> 32" "nbits (?r * 4458563631096791) - 53 \<le> 32"
    by (rule bits; simp)+
  note near = double_round_near [OF b(1)] double_round_near [OF b(2)]
  note mono = double_round_mono [OF le_trans [OF b(1), of 52]] double_round_mono [OF le_trans [OF b(2), of 52]]
  show ?thesis
  proof (cases "tmp < 0")
    case True
    then have "tmp * 2 ^ 52 < 0" by (intro mult_neg_pos) simp_all
    then have "rate_rejected tmp rate"
      unfolding rate_rejected_def by (intro disjI2) (rule less_le_trans [OF _ of_nat_0_le_iff])
    moreover have "0 \<le> uint rate" by simp
    then have "\<not> 99 * uint rate \<le> 100 * tmp" using True by linarith
    ultimately show ?thesis by blast
  next
    case False
    then obtain t where t: "tmp = int t" by (metis nonneg_int_cases not_less)
    have "t * 2 ^ 52 \<le> ?hi \<longleftrightarrow> 100 * t \<le> 101 * ?r"
    proof
      show "t * 2 ^ 52 \<le> ?hi" if "100 * t \<le> 101 * ?r"
        using mono(2) [of t] that by simp
      show "100 * t \<le> 101 * ?r" if "t * 2 ^ 52 \<le> ?hi"
        using near(1) that r by simp
    qed
    moreover have "?lo \<le> t * 2 ^ 52 \<longleftrightarrow> 99 * ?r \<le> 100 * t"
    proof
      show "?lo \<le> t * 2 ^ 52" if "99 * ?r \<le> 100 * t"
        using mono(3) [of t] that by simp
      show "99 * ?r \<le> 100 * t" if "?lo \<le> t * 2 ^ 52"
        using near(4) that r by simp
    qed
    moreover have "rate_rejected tmp rate \<longleftrightarrow> \<not> t * 2 ^ 52 \<le> ?hi \<or> \<not> ?lo \<le> t * 2 ^ 52"
    proof -
      have "tmp * 2 ^ 52 = int (t * 2 ^ 52)" by (simp add: t)
      then show ?thesis unfolding rate_rejected_def by (simp only: of_nat_less_iff not_le)
    qed
    ultimately show ?thesis unfolding t ur by linarith
  qed
qed

subsection \<open>Fragments\<close>

lemma top_bit:
  assumes "unat (w :: u32) < 2 ^ Suc i" "i < 32"
  shows "w AND push_bit i 1 \<noteq> 0 \<longleftrightarrow> 2 ^ i \<le> unat w"
proof -
  have "w AND push_bit i 1 \<noteq> 0 \<longleftrightarrow> bit w i"
    using assms(2) by (simp add: bit_iff_and_push_bit_not_eq_0)
  also have "\<dots> \<longleftrightarrow> odd (unat w div 2 ^ i)"
    by (simp add: bit_iff_odd [of "unat w", symmetric] bit_unsigned_iff)
  also have "unat w div 2 ^ i = (if 2 ^ i \<le> unat w then 1 else 0)"
    using assms(1) by (auto simp: div_nat_eqI)
  finally show ?thesis by simp
qed

lemma shift_loop_spec:
  assumes "unat w < 2 ^ Suc i" "i < 32"
  shows "if unat w < 16 then shift_loop w i = 0
    else 4 \<le> shift_loop w i \<and> shift_loop w i \<le> i \<and> 2 ^ shift_loop w i \<le> unat w \<and> unat w < 2 ^ Suc (shift_loop w i)"
  using assms
proof (induction w i rule: shift_loop.induct)
  case (1 w i)
  show ?case
  proof (cases "i < 4")
    case True
    then have "(2::nat) ^ Suc i \<le> 2 ^ 4" by (intro power_increasing) simp_all
    then show ?thesis using 1(2) True by (simp add: shift_loop.simps)
  next
    case False
    note top = top_bit [OF 1(2,3)]
    show ?thesis
    proof (cases "2 ^ i \<le> unat w")
      case True
      have "(2::nat) ^ 4 \<le> 2 ^ i" using False by (intro power_increasing) simp_all
      moreover have "shift_loop w i = i" using True False top by (simp add: shift_loop.simps)
      ultimately show ?thesis using True False 1(2) by simp
    next
      case small: False
      then have "shift_loop w i = shift_loop w (i - 1)" using False top by (subst shift_loop.simps) simp
      moreover have "unat w < 2 ^ Suc (i - 1)" using small False by simp
      moreover have "i - 1 < 32" "\<And>k. k \<le> i - 1 \<Longrightarrow> k \<le> i" using 1(3) by simp_all
      ultimately show ?thesis using 1(1) [OF False] small top by (auto split: if_splits)
    qed
  qed
qed

lemma shift_loop_exact: "8 \<le> k \<Longrightarrow> k < 24 \<Longrightarrow> unat w = 2 ^ k \<Longrightarrow> shift_loop w 31 = k"
proof -
  assume k: "8 \<le> k" "k < 24" and w: "unat w = 2 ^ k"
  have "(2::nat) ^ 8 \<le> 2 ^ k" using k by (intro power_increasing) simp_all
  then have "\<not> unat w < 16" using w by simp
  moreover have "unat w < 2 ^ Suc 31" using unat_u32_lt [of w] by simp
  ultimately have "2 ^ shift_loop w 31 \<le> (2::nat) ^ k" "(2::nat) ^ k < 2 ^ Suc (shift_loop w 31)"
    using shift_loop_spec [of w 31] w by auto
  then have "shift_loop w 31 \<le> k" "k < Suc (shift_loop w 31)"
    by (simp_all only: power_increasing_iff power_strict_increasing_iff numeral_less_iff one_less_numeral_iff semiring_norm)
  then show ?thesis by simp
qed

end
