(* ===== verification/OssPcmLife.thy ===== *)
theory OssPcmLife
  imports OssPcmProofs
begin

unbundle bit_operations_syntax

section \<open>The OSS PCM plugin: fragments, transfers, the life of the descriptor\<close>

text \<open>
  What setting the parameters does to the device and to the descriptor, what a transfer moves and
  reports, and that between open and close every descriptor is closed exactly once.
\<close>

subsection \<open>Reopening\<close>

text \<open>The result of the retry loop: at most one reopening, whatever the device does.\<close>

lemma set_fragment_fresh:
  "\<not> op_fragment_set oss \<Longrightarrow> set_fragment D io oss dev =
     (case dd_ioctl D (op_fd oss) DSP_SETFRAGMENT (fragment_arg oss) dev of
        (Inr _, dev) \<Rightarrow> (None, oss\<lparr>op_fragment_set := True\<rparr>, dev)
      | (Inl _, dev) \<Rightarrow> (Some (- EINVAL), oss, dev))"
  by (subst set_fragment.simps) (auto split: sum.splits prod.splits)

definition reopened :: "ioplug \<Rightarrow> snd_pcm_oss \<Rightarrow> int \<Rightarrow> snd_pcm_oss" where
  "reopened io oss fd = oss\<lparr>op_fd := fd, op_poll_fd := fd, op_poll_out := playback io, op_fragment_set := False,
     op_trace := op_trace oss @ [Fd_close (op_fd oss), Fd_open fd]\<rparr>"

definition reopen_failed :: "snd_pcm_oss \<Rightarrow> snd_pcm_oss" where
  "reopen_failed oss = oss\<lparr>op_fd := - 1, op_trace := op_trace oss @ [Fd_close (op_fd oss)]\<rparr>"

lemma fragment_arg_reopened [simp]: "fragment_arg (reopened io oss fd) = fragment_arg oss"
  by (simp add: fragment_arg_def reopened_def)

lemma set_fragment_cases:
  assumes "set_fragment D io oss dev = (err, oss', dev')"
  shows "(err = None \<and> oss' = oss\<lparr>op_fragment_set := True\<rparr>)
    \<or> (err = Some (- EINVAL) \<and> \<not> op_fragment_set oss \<and> oss' = oss)
    \<or> (\<exists>errno d d'. op_fragment_set oss \<and> dd_open D (op_device oss) (playback io) d = (Inl errno, d')
         \<and> err = Some (- errno) \<and> oss' = reopen_failed oss)
    \<or> (\<exists>fd d d'. op_fragment_set oss \<and> dd_open D (op_device oss) (playback io) d = (Inr fd, d')
         \<and> (err = None \<and> oss' = (reopened io oss fd)\<lparr>op_fragment_set := True\<rparr>
            \<or> err = Some (- EINVAL) \<and> oss' = reopened io oss fd))"
proof (cases "op_fragment_set oss")
  case False
  then show ?thesis
    using assms by (auto simp: set_fragment_fresh split: sum.splits prod.splits)
next
  case set: True
  obtain res d where io: "dd_ioctl D (op_fd oss) DSP_SETFRAGMENT (fragment_arg oss) dev = (res, d)" by fastforce
  show ?thesis
  proof (cases res)
    case Inr
    then show ?thesis using assms io by (subst (asm) set_fragment.simps) simp
  next
    case Inl
    obtain o' d2 where op: "dd_open D (op_device oss) (playback io) (dd_close D (op_fd oss) d) = (o', d2)" by fastforce
    show ?thesis
    proof (cases o')
      case (Inl errno)
      have "set_fragment D io oss dev = (Some (- errno), reopen_failed oss, d2)"
        using set io op Inl \<open>res = Inl _\<close> by (subst set_fragment.simps) (simp add: reopen_failed_def)
      then show ?thesis using assms set op Inl by auto
    next
      case (Inr fd)
      have "set_fragment D io oss dev = set_fragment D io (reopened io oss fd) d2"
        using set io op Inr \<open>res = Inl _\<close> by (subst set_fragment.simps) (simp add: reopened_def)
      moreover have "\<not> op_fragment_set (reopened io oss fd)" by (simp add: reopened_def)
      ultimately have "err = None \<and> oss' = (reopened io oss fd)\<lparr>op_fragment_set := True\<rparr>
          \<or> err = Some (- EINVAL) \<and> oss' = reopened io oss fd"
        using assms by (auto simp: set_fragment_fresh split: sum.splits prod.splits)
      then show ?thesis using set op Inr by blast
    qed
  qed
qed

subsection \<open>Parameters\<close>

text \<open>
  The parameters the plugin's constraints leave: a supported format of whole bytes, periods of a
  power of two bytes, between 2 and 1024 of them.
\<close>

definition params_ok :: "(pcm_format \<Rightarrow> int) \<Rightarrow> ioplug \<Rightarrow> nat \<Rightarrow> nat \<Rightarrow> bool" where
  "params_ok physical_width io k n \<longleftrightarrow>
     afmt (io_format io) \<noteq> None
     \<and> 0 < physical_width (io_format io)
     \<and> physical_width (io_format io) * uint (io_channels io) mod 8 = 0
     \<and> physical_width (io_format io) * uint (io_channels io) < 2 ^ 32
     \<and> int (unat (io_period_size io)) * (physical_width (io_format io) * uint (io_channels io)) = 8 * 2 ^ k
     \<and> 8 \<le> k \<and> k < 24 \<and> 2 \<le> n \<and> n \<le> 1024
     \<and> unat (io_buffer_size io) = n * unat (io_period_size io)"

lemma fragment_arg_value:
  assumes "op_period_shift oss < 24" "unat (op_periods oss) \<le> 1024"
  shows "fragment_arg oss = int (op_period_shift oss) + 65536 * int (unat (op_periods oss))"
proof -
  let ?s = "of_nat (op_period_shift oss) :: u32" and ?n = "op_periods oss"
  have s: "unat ?s = op_period_shift oss" using assms(1) by (simp add: unat_of_nat take_bit_nat_eq_self)
  have "?s AND push_bit 16 ?n = 0"
  proof (rule bit_word_eqI)
    fix j assume "j < LENGTH(32)"
    have "\<not> bit ?s j" if "16 \<le> j"
    proof -
      have "(2::nat) ^ 16 \<le> 2 ^ j" using that by (intro power_increasing) simp_all
      then have "op_period_shift oss div 2 ^ j = 0" using assms(1) by simp
      then show ?thesis using \<open>j < LENGTH(32)\<close> by (simp add: bit_iff_odd [of "op_period_shift oss"] bit_simps)
    qed
    then show "bit (?s AND push_bit 16 ?n) j \<longleftrightarrow> bit (0 :: u32) j" by (auto simp: bit_simps)
  qed
  then have "?s OR push_bit 16 ?n = ?s + push_bit 16 ?n" by (rule disjunctive_add_eq_or [symmetric])
  moreover have "unat (push_bit 16 ?n) = 65536 * unat ?n"
    using assms(2) by (simp only: unsigned_push_bit_eq) (simp add: take_bit_nat_eq_self push_bit_eq_mult)
  moreover from this have "unat (?s + push_bit 16 ?n) = op_period_shift oss + 65536 * unat ?n"
    using assms s by (subst unat_add_lem [THEN iffD1]) simp_all
  ultimately have u: "unat (?s OR push_bit 16 ?n) = op_period_shift oss + 65536 * unat ?n" by simp
  have "sint w = c_int (uint w)" for w :: u32 by (simp add: c_int_def sint_uint)
  then have "fragment_arg oss = uint (?s OR push_bit 16 ?n)"
    unfolding fragment_arg_def using u assms by (simp only: c_int_uint)
  also have "\<dots> = int (unat (?s OR push_bit 16 ?n))" by simp
  finally show ?thesis unfolding u by simp
qed

text \<open>What an open call returns: a positive errno or a descriptor.\<close>

definition dev_laws :: "'d dsp_dev \<Rightarrow> bool" where
  "dev_laws D \<longleftrightarrow> (\<forall>s out dev. case fst (dd_open D s out dev) of Inl errno \<Rightarrow> errno > 0 | Inr fd \<Rightarrow> fd \<ge> 0)"

lemma dev_laws_open:
  "dev_laws D \<Longrightarrow> dd_open D s out dev = (Inl errno, dev') \<Longrightarrow> errno > 0"
  "dev_laws D \<Longrightarrow> dd_open D s out dev = (Inr fd, dev') \<Longrightarrow> fd \<ge> 0"
  unfolding dev_laws_def by (metis fst_conv sum.case)+

lemma set_fragment_keeps:
  assumes "set_fragment D io oss dev = (err, oss', dev')"
  shows "op_period_shift oss' = op_period_shift oss" "op_periods oss' = op_periods oss" "op_format oss' = op_format oss"
    "op_frame_bytes oss' = op_frame_bytes oss" "op_device oss' = op_device oss"
  using set_fragment_cases [OF assms] by (auto simp: reopened_def reopen_failed_def)


text \<open>Offered as a format, refused by the parameters.\<close>

lemma oss_mu_law_refused:
  "20 \<in> set (oss_formats AFMT_MU_LAW)"
  "io_format io = FORMAT_OTHER 20 \<Longrightarrow>
     \<exists>oss'. oss_hw_params D physical_width nonblock io oss dev = Some (- EINVAL, oss', dev)"
  by (simp_all add: oss_formats_def oss_hw_params_def afmt_def Let_def)

subsection \<open>Transfers\<close>

text \<open>
  writing. The device is given exactly the bytes of the frames, and a result of the device
  that is a number of whole frames is returned as that number.
\<close>

theorem oss_write_frames:
  assumes "0 < op_frame_bytes oss" "unat sz * unat (op_frame_bytes oss) < 2 ^ 63"
    and "dd_write D (op_fd oss) (piece mem (oss_addr a offset) (unat sz * unat (op_frame_bytes oss))) dev
           = (int m * uint (op_frame_bytes oss), dev')"
  shows "oss_write D oss a offset sz mem dev = Some (int m, dev')"
proof -
  have "unat (sz * ucast (op_frame_bytes oss)) = unat sz * unat (op_frame_bytes oss)"
    using assms(2) by (subst unat_mult_lem [THEN iffD1]) (simp_all add: word_nat)
  moreover have "uint (op_frame_bytes oss) > 0" using assms(1) by (simp add: word_less_def)
  then have "frames_done oss (int m * uint (op_frame_bytes oss)) = Some (int m)"
    by (auto simp: frames_done_def c_quot_def sgn_mult zero_less_mult_iff mult_le_0_iff)
  ultimately show ?thesis using assms(3) by (simp add: oss_write_def Let_def)
qed

text \<open>An error of the device is returned as \<open>-1\<close>, whatever \<open>errno\<close> is: to alsa-lib this is \<open>-EPERM\<close>.\<close>

lemma oss_write_error:
  "dd_write D (op_fd oss) (piece mem (oss_addr a offset) (unat (sz * ucast (op_frame_bytes oss)))) dev = (- 1, dev') \<Longrightarrow>
     oss_write D oss a offset sz mem dev = Some (- 1, dev')"
  by (simp add: oss_write_def frames_done_def Let_def)

text \<open>A part of a frame that the device took is not counted.\<close>

lemma oss_write_part:
  "0 < result \<Longrightarrow> result < uint (op_frame_bytes oss) \<Longrightarrow> frames_done oss result = Some 0"
  by (simp add: frames_done_def c_quot_def)

subsection \<open>The life of the descriptor\<close>

text \<open>The open descriptors after some events; closing one that is not open has no result, \<open>close (- 1)\<close> does nothing.\<close>

fun fds_after :: "fd_event list \<Rightarrow> int list \<Rightarrow> int list option" where
  "fds_after [] fds = Some fds"
| "fds_after (Fd_open fd # es) fds = fds_after es (fd # fds)"
| "fds_after (Fd_close fd # es) fds =
     (if fd < 0 then fds_after es fds else if fd \<in> set fds then fds_after es (remove1 fd fds) else None)"

lemma fds_after_append: "fds_after (es @ fs) fds = Option.bind (fds_after es fds) (fds_after fs)"
  by (induction es fds rule: fds_after.induct) auto

definition fd_ok :: "snd_pcm_oss \<Rightarrow> bool" where
  "fd_ok oss \<longleftrightarrow> fds_after (op_trace oss) [] = Some (if op_fd oss < 0 then [] else [op_fd oss])"

lemma fd_ok_set [simp]: "fd_ok (oss\<lparr>op_fragment_set := b\<rparr>) = fd_ok oss"
  by (simp add: fd_ok_def)

lemma fd_ok_reopened: "fd_ok oss \<Longrightarrow> fd \<ge> 0 \<Longrightarrow> fd_ok (reopened io oss fd)"
  by (auto simp: fd_ok_def reopened_def fds_after_append)

lemma fd_ok_reopen_failed: "fd_ok oss \<Longrightarrow> fd_ok (reopen_failed oss)"
  by (auto simp: fd_ok_def reopen_failed_def fds_after_append)

lemma fd_ok_set_fragment:
  assumes "dev_laws D" "fd_ok oss" "set_fragment D io oss dev = (err, oss', dev')"
  shows "fd_ok oss'"
  using set_fragment_cases [OF assms(3)]
proof (elim disjE exE conjE)
  fix fd d d'
  assume "dd_open D (op_device oss) (playback io) d = (Inr fd, d')"
  note fd_ok_reopened [OF assms(2) dev_laws_open(2) [OF assms(1) this], of io]
  then show "oss' = (reopened io oss fd)\<lparr>op_fragment_set := True\<rparr> \<Longrightarrow> fd_ok oss'" "oss' = reopened io oss fd \<Longrightarrow> fd_ok oss'"
    by simp_all
qed (use assms(2) fd_ok_reopen_failed in simp_all)

lemma fd_ok_hw_params:
  assumes "dev_laws D" "fd_ok oss" "oss_hw_params D physical_width nonblock io oss dev = Some (err, oss', dev')"
  shows "fd_ok oss'"
proof -
  have cong: "fd_ok (oss\<lparr>op_frame_bytes := a\<rparr>)" "fd_ok (oss\<lparr>op_frame_bytes := a, op_format := b, op_period_shift := c\<rparr>)"
    "fd_ok (oss\<lparr>op_frame_bytes := a, op_format := b, op_period_shift := c, op_periods := e\<rparr>)" for a b c e
    using assms(2) by (simp_all add: fd_ok_def)
  show ?thesis
    using assms(3) cong fd_ok_set_fragment [OF assms(1) cong(3)]
    by (auto simp: oss_hw_params_def Let_def split: option.splits if_splits prod.splits)
qed

text \<open>The calls of a stream; those that do not touch the structure only change the device.\<close>

datatype oss_call = Oss_hw_params ioplug bool | Oss_prepare ioplug | Oss_start ioplug | Oss_stop | Oss_drain ioplug

definition oss_call_result ::
    "'d dsp_dev \<Rightarrow> (pcm_format \<Rightarrow> int) \<Rightarrow> oss_call \<Rightarrow> snd_pcm_oss \<times> 'd \<Rightarrow> (snd_pcm_oss \<times> 'd) option" where
  "oss_call_result D physical_width c st =
     (case st of (oss, dev) \<Rightarrow>
        case c of
          Oss_hw_params io nonblock \<Rightarrow> map_option snd (oss_hw_params D physical_width nonblock io oss dev)
        | Oss_prepare io \<Rightarrow> Some (oss, snd (oss_prepare D io oss dev))
        | Oss_start io \<Rightarrow> Some (oss, snd (oss_start D io oss dev))
        | Oss_stop \<Rightarrow> Some (oss, snd (oss_stop D oss dev))
        | Oss_drain io \<Rightarrow> Some (oss, snd (oss_drain D io oss dev)))"

fun oss_calls :: "'d dsp_dev \<Rightarrow> (pcm_format \<Rightarrow> int) \<Rightarrow> oss_call list \<Rightarrow> snd_pcm_oss \<times> 'd \<Rightarrow> (snd_pcm_oss \<times> 'd) option" where
  "oss_calls D w [] st = Some st"
| "oss_calls D w (c # cs) st = Option.bind (oss_call_result D w c st) (oss_calls D w cs)"

lemma fd_ok_calls:
  "dev_laws D \<Longrightarrow> fd_ok oss \<Longrightarrow> oss_calls D w cs (oss, dev) = Some (oss', dev') \<Longrightarrow> fd_ok oss'"
proof (induction cs arbitrary: oss dev)
  case (Cons c cs)
  then obtain oss1 dev1 where step: "oss_call_result D w c (oss, dev) = Some (oss1, dev1)"
    and rest: "oss_calls D w cs (oss1, dev1) = Some (oss', dev')"
    by (auto simp: bind_eq_Some_conv)
  have "fd_ok oss1"
  proof (cases c)
    case (Oss_hw_params io nonblock)
    then obtain err where "oss_hw_params D w nonblock io oss dev = Some (err, oss1, dev1)"
      using step by (auto simp: oss_call_result_def)
    then show ?thesis by (rule fd_ok_hw_params [OF Cons.prems(1,2)])
  qed (use step Cons.prems(2) in \<open>simp_all add: oss_call_result_def\<close>)
  then show ?case using Cons.IH Cons.prems(1) rest by blast
qed simp

lemma oss_hw_constraint_keeps:
  assumes "oss_hw_constraint D setp oss dev = (err, oss', dev')"
  shows "op_trace oss' = op_trace oss" "op_fd oss' = op_fd oss"
proof -
  have "\<exists>c. fst (snd (oss_hw_constraint D setp oss dev)) = oss\<lparr>op_caps := c\<rparr>"
    unfolding oss_hw_constraint_def Let_def case_prod_beta by (simp split: if_split) blast
  then show "op_trace oss' = op_trace oss" "op_fd oss' = op_fd oss"
    using assms by auto
qed

lemma oss_pcm_open_cases:
  assumes "oss_pcm_open P D out conf dev = (err, res, dev1)"
  obtains (early) "res = Inl []"
  | (create) device fd d where "dd_open D device out dev = (Inr fd, d)" "res = Inl [Fd_open fd, Fd_close fd]"
  | (refused) device fd d e oss d' where "dd_open D device out dev = (Inr fd, d)"
      "oss_hw_constraint D (oo_setp P) (new_oss_pcm device fd out) d = (e, oss, d')"
      "res = Inl (fst (snd (oss_pcm_close D oss d')))"
  | (opened) device fd d e oss d' where "dd_open D device out dev = (Inr fd, d)"
      "oss_hw_constraint D (oo_setp P) (new_oss_pcm device fd out) d = (e, oss, d')" "res = Inr oss"
proof (cases "oss_pcm_conf (oo_conf P) conf ''/dev/dsp''")
  case (Inl e)
  then show thesis using assms early by (simp add: oss_pcm_open_def)
next
  case (Inr device)
  obtain r d where op: "dd_open D device out dev = (r, d)" by fastforce
  show thesis
  proof (cases "oo_calloc P \<and> oo_strdup P")
    case False
    then show thesis using assms Inr early by (auto simp: oss_pcm_open_def)
  next
    case mem: True
    show thesis
    proof (cases r)
      case (Inl errno)
      then show thesis using assms Inr mem op early by (simp add: oss_pcm_open_def)
    next
      case fd: (Inr fd)
      obtain e oss d' where c: "oss_hw_constraint D (oo_setp P) (new_oss_pcm device fd out) d = (e, oss, d')"
        by (metis prod_cases3)
      have "oss_pcm_open P D out conf dev =
          (if oo_create P < 0 then (oo_create P, Inl [Fd_open fd, Fd_close fd], dd_close D fd d)
           else if e < 0 then (e, Inl (fst (snd (oss_pcm_close D oss d'))), snd (snd (oss_pcm_close D oss d')))
           else (0, Inr oss, d'))"
        using Inr mem op fd c by (simp add: oss_pcm_open_def case_prod_beta)
      then show thesis
        using assms create [OF op [unfolded fd]] refused [OF op [unfolded fd] c] opened [OF op [unfolded fd] c] by (simp split: if_splits)
    qed
  qed
qed

text \<open>
  C34: descriptors. A failed open leaves none open and closes none twice; after a successful one,
  whatever calls are made, successful or not, closing the stream closes the descriptor it has then
  and leaves none.
\<close>

theorem oss_pcm_descriptors:
  assumes laws: "dev_laws D" and "oss_pcm_open P D out conf dev = (err, res, dev1)"
  shows "case res of
      Inl trace \<Rightarrow> fds_after trace [] = Some []
    | Inr oss \<Rightarrow> \<forall>cs oss' dev2. oss_calls D w cs (oss, dev1) = Some (oss', dev2) \<longrightarrow>
        fds_after (fst (snd (oss_pcm_close D oss' dev2))) [] = Some []"
proof -
  have close: "fds_after (fst (snd (oss_pcm_close D oss d))) [] = Some []" if "fd_ok oss" for oss d
    using that by (auto simp: oss_pcm_close_def fd_ok_def fds_after_append)
  have fresh: "fd_ok oss" if "dd_open D device out dev = (Inr fd, d)"
      "oss_hw_constraint D (oo_setp P) (new_oss_pcm device fd out) d = (e, oss, d')" for device fd d e oss d'
    using oss_hw_constraint_keeps [OF that(2)] dev_laws_open(2) [OF laws that(1)] by (simp add: fd_ok_def new_oss_pcm_def)
  from assms(2) show ?thesis
  proof (cases rule: oss_pcm_open_cases)
    case (create device fd d)
    then show ?thesis using dev_laws_open(2) [OF laws create(1)] by simp
  next
    case (refused device fd d e oss d')
    then show ?thesis using close [OF fresh] by simp
  next
    case (opened device fd d e oss d')
    then show ?thesis using close fd_ok_calls [OF laws fresh [OF opened(1,2)]] by (simp del: oss_calls.simps)
  qed simp_all
qed

text \<open>After a failed reopening the poll descriptor of the ioplug is still the closed one.\<close>

lemma oss_stale_poll_fd:
  assumes "op_fragment_set oss" "dd_ioctl D (op_fd oss) DSP_SETFRAGMENT (fragment_arg oss) dev = (Inl e, d)"
    "dd_open D (op_device oss) (playback io) (dd_close D (op_fd oss) d) = (Inl errno, d')"
  shows "\<exists>oss'. set_fragment D io oss dev = (Some (- errno), oss', d')
    \<and> op_fd oss' = - 1 \<and> op_poll_fd oss' = op_poll_fd oss \<and> Fd_close (op_fd oss) \<in> set (op_trace oss')"
  using assms by (subst set_fragment.simps) auto

end
