(* ===== verification/OssPcmDemo.thy ===== *)
theory OssPcmDemo
  imports OssPcmLife
begin

unbundle bit_operations_syntax

section \<open>The OSS PCM plugin on a device\<close>

text \<open>
  A device that takes fragments once for every time it is opened, as OSS does, and takes whatever
  is written to it. Its state is the number of descriptors given out and whether the fragments of
  the last one are set.
\<close>

definition demo_dsp :: "(nat \<times> bool) dsp_dev" where
  "demo_dsp = \<lparr>dd_ioctl = \<lambda>fd req v (n, set). if req = DSP_SETFRAGMENT then if set then (Inl 22, n, set) else (Inr v, n, True)
       else (Inr v, n, set),
     dd_open = \<lambda>s out (n, set). (Inr (3 + int n), Suc n, False), dd_close = \<lambda>fd dev. dev,
     dd_write = \<lambda>fd data dev. (int (length data), dev), dd_read = \<lambda>fd k dev. (0, [], dev),
     dd_getfl = \<lambda>fd dev. Inr 0, dd_setfl = \<lambda>fd flags dev. dev\<rparr>"

lemma demo_dsp_laws: "dev_laws demo_dsp"
  by (simp add: dev_laws_def demo_dsp_def split: prod.splits)

definition demo_io :: ioplug where
  "demo_io = \<lparr>io_stream = PLAYBACK, io_state = STATE_SETUP, io_format = FORMAT_S16_LE, io_rate = 48000, io_channels = 2,
     io_period_size = 1024, io_buffer_size = 4096, io_appl_ptr = 0\<rparr>"

definition demo_pcm_env :: "string oss_pcm_env" where
  "demo_pcm_env = \<lparr>oo_conf = \<lparr>cfg_id = \<lambda>n. Some ''device'', cfg_integer = \<lambda>n. None, cfg_string = Some, cfg_error = \<lambda>n. 0\<rparr>,
     oo_calloc = True, oo_strdup = True, oo_create = 0, oo_setp = \<lambda>c. 0\<rparr>"

abbreviation (input) demo_width :: "pcm_format \<Rightarrow> int" where "demo_width \<equiv> \<lambda>f. 16"


theorem oss_write_frames_witness:
  "oss_write demo_dsp ((new_oss_pcm ''/dev/dsp'' 3 True)\<lparr>op_frame_bytes := 4\<rparr>) \<lparr>ar_addr = 0, ar_first = 0, ar_step = 32\<rparr> 2 3
     (\<lambda>a. 0) (1, True) = Some (3, (1, True))"
  using oss_write_frames [of "(new_oss_pcm ''/dev/dsp'' 3 True)\<lparr>op_frame_bytes := 4\<rparr>" 3 demo_dsp "\<lambda>a. 0"
      "\<lparr>ar_addr = 0, ar_first = 0, ar_step = 32\<rparr>" 2 "(1, True)" 3 "(1, True)"]
  by (simp add: demo_dsp_def new_oss_pcm_def)

text \<open>Set twice, the second time through a new descriptor.\<close>

theorem oss_pcm_descriptors_witness:
  "\<exists>oss oss' dev2. oss_pcm_open demo_pcm_env demo_dsp True [''/dev/dsp1''] (0, False) = (0, Inr oss, 1, False)
     \<and> oss_calls demo_dsp demo_width [Oss_hw_params demo_io False, Oss_hw_params demo_io True] (oss, 1, False) = Some (oss', dev2)
     \<and> op_trace oss' = [Fd_open 3, Fd_close 3, Fd_open 4]
     \<and> fds_after (fst (snd (oss_pcm_close demo_dsp oss' dev2))) [] = Some []"
proof -
  let ?oss = "new_oss_pcm ''/dev/dsp1'' 3 True"
  have op: "oss_pcm_open demo_pcm_env demo_dsp True [''/dev/dsp1''] (0, False) = (0, Inr ?oss, 1, False)"
    by (simp add: oss_pcm_open_def demo_pcm_env_def demo_dsp_def cfg_skipped_def oss_hw_constraint_def Let_def oss_formats_def
        new_oss_pcm_def)
  have "map_option (\<lambda>(oss', dev2). op_trace oss')
      (oss_calls demo_dsp demo_width [Oss_hw_params demo_io False, Oss_hw_params demo_io True] (?oss, 1, False))
    = Some [Fd_open 3, Fd_close 3, Fd_open 4]" by code_simp
  then obtain oss' dev2 where run: "oss_calls demo_dsp demo_width
      [Oss_hw_params demo_io False, Oss_hw_params demo_io True] (?oss, 1, False) = Some (oss', dev2)"
    and "op_trace oss' = [Fd_open 3, Fd_close 3, Fd_open 4]"
    by (auto simp del: oss_calls.simps)
  moreover have "fds_after (fst (snd (oss_pcm_close demo_dsp oss' dev2))) [] = Some []"
    using oss_pcm_descriptors [OF demo_dsp_laws op, of demo_width, unfolded sum.case] run by blast
  ultimately show ?thesis using op by blast
qed

end
