(* ===== verification/Spec2Isabelle.thy ===== *)
theory Spec2Isabelle
  imports Main AafReach MaemoFaults ArcamServerProofs ArcamCtlLife VdownmixTransfer UpmixSpec UsbStreamIO RateGcd MaemoCtlDemo JackDemo OssCtlDemo OssPcmDemo
begin

text \<open>
  A model of the ALSA plugins and proofs about it.
\<close>

end
